(* ===== verification/Prelude.thy ===== *)
theory Prelude
  imports Main "HOL-Library.Word"
begin

text \<open>
  What every component of the model shares: the machine types, the results and partial
  reads of the memory interface, Rust's checked and saturating arithmetic, and the lemma
  collections the component proofs use.

  Integers keep their width. \<open>usize\<close> and \<open>umem\<close> are 64 bits wide (the target is x86-64) and
  plain \<open>+\<close>, \<open>-\<close>, \<open>*\<close> wrap around, as they do in the release builds the README asks for.
  A memflow \<open>Address\<close> is its \<open>umem\<close> value; the null address is 0 and the invalid address has all
  bits set.
\<close>

unbundle bit_operations_syntax

named_theorems rust_simps \<open>characteristic equations of checked and saturating arithmetic\<close>
named_theorems result_simps \<open>case analysis of results and partial reads\<close>

section \<open>Machine types\<close>

type_synonym u8 = "8 word"
type_synonym u16 = "16 word"
type_synonym u32 = "32 word"
type_synonym u64 = "64 word"
type_synonym usize = "64 word"
type_synonym addr = "64 word"
type_synonym bytes = "8 word list"

abbreviation NULL :: addr where "NULL \<equiv> 0"
abbreviation INVALID :: addr where "INVALID \<equiv> - 1"

abbreviation kb :: "u64 \<Rightarrow> u64" where "kb n \<equiv> n * 1024"
abbreviation mb :: "u64 \<Rightarrow> u64" where "mb n \<equiv> n * 1048576"

definition non_null :: "addr \<Rightarrow> addr option" where
  "non_null a = (if a = NULL then None else Some a)"

definition as_page_aligned :: "addr \<Rightarrow> u64 \<Rightarrow> addr" where
  "as_page_aligned a sz = a - a mod sz"

section \<open>Checked and saturating arithmetic\<close>

definition sat_add :: "'a::len word \<Rightarrow> 'a word \<Rightarrow> 'a word" where
  "sat_add a b = (if b \<le> - 1 - a then a + b else - 1)"

definition sat_sub :: "'a::len word \<Rightarrow> 'a word \<Rightarrow> 'a word" where
  "sat_sub a b = (if b \<le> a then a - b else 0)"

definition checked_add :: "'a::len word \<Rightarrow> 'a word \<Rightarrow> 'a word option" where
  "checked_add a b = (if b \<le> - 1 - a then Some (a + b) else None)"

definition checked_sub :: "'a::len word \<Rightarrow> 'a word \<Rightarrow> 'a word option" where
  "checked_sub a b = (if b \<le> a then Some (a - b) else None)"

definition checked_mul :: "'a::len word \<Rightarrow> 'a word \<Rightarrow> 'a word option" where
  "checked_mul a b = (if a = 0 \<or> b \<le> - 1 div a then Some (a * b) else None)"

lemma unat_max: "unat (- 1 :: 'a::len word) = 2 ^ LENGTH('a) - 1"
  by (simp add: unsigned_minus_1_eq_mask mask_eq_exp_minus_1)

lemma word_room_iff:
  fixes a b :: "'a::len word"
  shows "b \<le> - 1 - a \<longleftrightarrow> unat a + unat b < 2 ^ LENGTH('a)"
proof -
  have "unat (- 1 - a) = 2 ^ LENGTH('a) - 1 - unat a"
    by (simp add: unat_sub unat_max)
  moreover have "unat a < 2 ^ LENGTH('a)" by (rule unsigned_less)
  ultimately show ?thesis
    unfolding word_le_nat_alt by linarith
qed

lemma unat_add_room:
  fixes a b :: "'a::len word"
  shows "unat a + unat b < 2 ^ LENGTH('a) \<Longrightarrow> unat (a + b) = unat a + unat b"
  by (simp add: unat_word_ariths)

lemma unat_sat_add [rust_simps]:
  "unat (sat_add a (b :: 'a::len word)) = min (unat a + unat b) (2 ^ LENGTH('a) - 1)"
  by (auto simp: sat_add_def word_room_iff unat_add_room unat_max)

lemma unat_sat_sub [rust_simps]:
  "unat (sat_sub a (b :: 'a::len word)) = unat a - unat b"
  by (auto simp: sat_sub_def word_le_nat_alt unat_sub)

lemma checked_add_Some_iff [rust_simps]:
  "checked_add a b = Some (c :: 'a::len word) \<longleftrightarrow>
     unat a + unat b < 2 ^ LENGTH('a) \<and> c = a + b"
  by (auto simp: checked_add_def word_room_iff)

lemma checked_add_None_iff [rust_simps]:
  "checked_add a (b :: 'a::len word) = None \<longleftrightarrow> 2 ^ LENGTH('a) \<le> unat a + unat b"
  by (auto simp: checked_add_def word_room_iff)

lemma checked_sub_Some_iff [rust_simps]:
  "checked_sub a b = Some (c :: 'a::len word) \<longleftrightarrow> b \<le> a \<and> c = a - b"
  by (auto simp: checked_sub_def)

lemma checked_sub_None_iff [rust_simps]:
  "checked_sub a (b :: 'a::len word) = None \<longleftrightarrow> a < b"
  by (auto simp: checked_sub_def)

lemma checked_mul_Some_iff [rust_simps]:
  "checked_mul a b = Some (c :: 'a::len word) \<longleftrightarrow>
     unat a * unat b < 2 ^ LENGTH('a) \<and> c = a * b"
proof -
  have "b \<le> - 1 div a \<longleftrightarrow> unat a * unat b < 2 ^ LENGTH('a)" if "a \<noteq> 0"
  proof -
    have "0 < unat a" using that by (simp add: unat_gt_0)
    then have "unat b \<le> (2 ^ LENGTH('a) - 1) div unat a \<longleftrightarrow> unat b * unat a \<le> 2 ^ LENGTH('a) - 1"
      by (rule less_eq_div_iff_mult_less_eq)
    also have "\<dots> \<longleftrightarrow> unat b * unat a < 2 ^ LENGTH('a)"
      using zero_less_power [of "2 :: nat" "LENGTH('a)"] by linarith
    finally show ?thesis by (simp add: word_le_nat_alt unat_div unat_max mult.commute)
  qed
  then show ?thesis by (cases "a = 0") (auto simp: checked_mul_def)
qed

lemma le_sat_add: "a \<le> sat_add a (b :: 'a::len word)"
proof -
  have "unat a < 2 ^ LENGTH('a)" by (rule unsigned_less)
  then have "unat a \<le> min (unat a + unat b) (2 ^ LENGTH('a) - 1)" by linarith
  then show ?thesis by (simp only: word_le_nat_alt unat_sat_add)
qed

lemma sat_sub_le: "sat_sub a (b :: 'a::len word) \<le> a"
  by (simp add: word_le_nat_alt unat_sat_sub)

lemma unat_u8_less: "unat (b :: u8) < 256"
proof -
  have "unat b < 2 ^ LENGTH(8)" by (rule unsigned_less)
  then show ?thesis by simp
qed

lemma unat_u16_less: "unat (b :: u16) < 65536"
proof -
  have "unat b < 2 ^ LENGTH(16)" by (rule unsigned_less)
  then show ?thesis by simp
qed

lemma unat_u32_less: "unat (b :: u32) < 4294967296"
proof -
  have "unat b < 2 ^ LENGTH(32)" by (rule unsigned_less)
  then show ?thesis by simp
qed

lemma unat_u64_less: "unat (b :: u64) < 18446744073709551616"
proof -
  have "unat b < 2 ^ LENGTH(64)" by (rule unsigned_less)
  then show ?thesis by simp
qed

lemma unat_ucast_u8 [simp]: "unat (ucast (b :: u8) :: u64) = unat b"
  using unat_u8_less [of b] by (simp add: unsigned_ucast_eq take_bit_nat_eq_self_iff)

lemma unat_ucast_u16 [simp]: "unat (ucast (b :: u16) :: u64) = unat b"
  using unat_u16_less [of b] by (simp add: unsigned_ucast_eq take_bit_nat_eq_self_iff)

lemma unat_ucast_u32 [simp]: "unat (ucast (b :: u32) :: u64) = unat b"
  using unat_u32_less [of b] by (simp add: unsigned_ucast_eq take_bit_nat_eq_self_iff)

lemma non_null_simps [simp]:
  "non_null a = None \<longleftrightarrow> a = NULL"
  "non_null a = Some b \<longleftrightarrow> a = b \<and> a \<noteq> NULL"
  by (auto simp: non_null_def)

section \<open>Results and partial reads\<close>

text \<open>
  memflow's \<open>Error(origin, kind)\<close>: the kinds the source raises under \<open>ErrorOrigin::OsLayer\<close>,
  the bare origin, the error a partial read turns into under \<open>?\<close>, the errors of the connector,
  which the code only passes on, and a Rust panic (an index out of range), which no caller catches.
\<close>

datatype error_kind =
    Offset | NotFound | Encoding | OutOfBounds | InvalidProcessInfo | EnvarNotFound
  | ModuleNotFound | Configuration | NotSupported | NotImplemented
  | UnableToReadFile | UnableToReadDir | UnableToWriteFile

datatype error =
    OsLayer error_kind
  | OsLayerOnly
  | PartialData
  | Connector nat
  | Panic

type_synonym 'a result = "error + 'a"

definition rbind :: "'a result \<Rightarrow> ('a \<Rightarrow> 'b result) \<Rightarrow> 'b result" where
  "rbind m f = (case m of Inl e \<Rightarrow> Inl e | Inr x \<Rightarrow> f x)"

definition ok_or :: "error \<Rightarrow> 'a option \<Rightarrow> 'a result" where
  "ok_or e x = (case x of None \<Rightarrow> Inl e | Some v \<Rightarrow> Inr v)"

definition res_ok :: "'a result \<Rightarrow> 'a option" where
  "res_ok r = (case r of Inl _ \<Rightarrow> None | Inr x \<Rightarrow> Some x)"

definition unwrap_or :: "'a \<Rightarrow> 'a result \<Rightarrow> 'a" where
  "unwrap_or d r = (case r of Inl _ \<Rightarrow> d | Inr x \<Rightarrow> x)"

text \<open>
  memflow's \<open>PartialResult\<close>: a read succeeds, delivers data but not all of it, or fails.
  \<open>strict\<close> is the conversion the operator \<open>?\<close> does, \<open>data_part\<close> the method of that name, which
  accepts the partial data.
\<close>

datatype 'a partial = Full 'a | Partial 'a | Fail error

fun strict :: "'a partial \<Rightarrow> 'a result" where
  "strict (Full x) = Inr x"
| "strict (Partial x) = Inl PartialData"
| "strict (Fail e) = Inl e"

fun data_part :: "'a partial \<Rightarrow> 'a result" where
  "data_part (Full x) = Inr x"
| "data_part (Partial x) = Inr x"
| "data_part (Fail e) = Inl e"

lemma rbind_simps [simp]:
  "rbind (Inr x) f = f x"
  "rbind (Inl e) f = Inl e"
  by (simp_all add: rbind_def)

lemma rbind_Inr_iff [result_simps]:
  "rbind m f = Inr y \<longleftrightarrow> (\<exists>x. m = Inr x \<and> f x = Inr y)"
  by (cases m) simp_all

lemma rbind_Inl_iff [result_simps]:
  "rbind m f = Inl e \<longleftrightarrow> m = Inl e \<or> (\<exists>x. m = Inr x \<and> f x = Inl e)"
  by (cases m) simp_all

lemma ok_or_simps [simp]: "ok_or e None = Inl e" "ok_or e (Some x) = Inr x"
  by (simp_all add: ok_or_def)

lemma ok_or_Inr_iff [result_simps]: "ok_or e x = Inr y \<longleftrightarrow> x = Some y"
  by (cases x) simp_all

lemma ok_or_Inl_iff [result_simps]: "ok_or e x = Inl e' \<longleftrightarrow> x = None \<and> e' = e"
  by (cases x) auto

lemma res_ok_simps [simp]: "res_ok (Inl e) = None" "res_ok (Inr x) = Some x"
  by (simp_all add: res_ok_def)

lemma res_ok_Some_iff [result_simps]: "res_ok r = Some x \<longleftrightarrow> r = Inr x"
  by (cases r) simp_all

lemma unwrap_or_simps [simp]: "unwrap_or d (Inl e) = d" "unwrap_or d (Inr x) = x"
  by (simp_all add: unwrap_or_def)

section \<open>The memory interface\<close>

text \<open>
  memflow's \<open>MemoryView\<close> is outside the repository. The model takes a view as a record of the
  reads the code uses and assumes nothing about them: every theorem holds for any answers.
  A view is a snapshot: the same read gives the same answer. \<open>rd_raw a n\<close> is
  \<open>read_raw_into\<close> into a zeroed buffer of \<open>n\<close> bytes and gives the buffer's contents.
\<close>

record memview =
  rd_u8 :: "addr \<Rightarrow> u8 partial"
  rd_u16 :: "addr \<Rightarrow> u16 partial"
  rd_u32 :: "addr \<Rightarrow> u32 partial"
  rd_i32 :: "addr \<Rightarrow> u32 partial"
  rd_u64 :: "addr \<Rightarrow> u64 partial"
  rd_addr :: "addr \<Rightarrow> addr partial"
  rd_addr64 :: "addr \<Rightarrow> addr partial"
  rd_raw :: "addr \<Rightarrow> nat \<Rightarrow> bytes partial"
  rd_utf8_lossy :: "addr \<Rightarrow> nat \<Rightarrow> string partial"

text \<open>A view that answers no read; the sample memories of the witnesses are updates of it.\<close>

definition empty_view :: memview where
  "empty_view = \<lparr> rd_u8 = (\<lambda>_. Fail (Connector 0)), rd_u16 = (\<lambda>_. Fail (Connector 0)),
     rd_u32 = (\<lambda>_. Fail (Connector 0)), rd_i32 = (\<lambda>_. Fail (Connector 0)),
     rd_u64 = (\<lambda>_. Fail (Connector 0)), rd_addr = (\<lambda>_. Fail (Connector 0)),
     rd_addr64 = (\<lambda>_. Fail (Connector 0)), rd_raw = (\<lambda>_ _. Fail (Connector 0)),
     rd_utf8_lossy = (\<lambda>_ _. Fail (Connector 0)) \<rparr>"

text \<open>The documented property of \<open>read_raw_into\<close>: the buffer keeps its length.\<close>

definition raw_exact :: "memview \<Rightarrow> bool" where
  "raw_exact m \<longleftrightarrow> (\<forall>a n bs. data_part (rd_raw m a n) = Inr bs \<longrightarrow> length bs = n)"

section \<open>Lists\<close>

text \<open>
  \<open>iter().position(p)\<close>, \<open>iter().rposition(p)\<close>, \<open>windows(n)\<close> and \<open>dedup\<close> of the standard library.
\<close>

fun position :: "('a \<Rightarrow> bool) \<Rightarrow> 'a list \<Rightarrow> nat option" where
  "position p [] = None"
| "position p (x # xs) = (if p x then Some 0 else map_option Suc (position p xs))"

definition rposition :: "('a \<Rightarrow> bool) \<Rightarrow> 'a list \<Rightarrow> nat option" where
  "rposition p xs = map_option (\<lambda>i. length xs - 1 - i) (position p (rev xs))"

definition windows :: "nat \<Rightarrow> 'a list \<Rightarrow> 'a list list" where
  "windows n xs = map (\<lambda>i. take n (drop i xs)) [0 ..< length xs + 1 - n]"

lemma all_less_Suc: "(\<forall>j < Suc n. P j) \<longleftrightarrow> P 0 \<and> (\<forall>j < n. P (Suc j))"
  by (auto simp: less_Suc_eq_0_disj)

lemma position_Some_iff:
  "position p xs = Some i \<longleftrightarrow> i < length xs \<and> p (xs ! i) \<and> (\<forall>j < i. \<not> p (xs ! j))"
proof (induction xs arbitrary: i)
  case (Cons x xs)
  show ?case
  proof (cases i)
    case 0
    then show ?thesis by auto
  next
    case (Suc k)
    then show ?thesis by (auto simp: Cons.IH all_less_Suc nth_Cons split: nat.splits)
  qed
qed simp

lemma position_None_iff: "position p xs = None \<longleftrightarrow> (\<forall>x \<in> set xs. \<not> p x)"
  by (induction xs) auto

lemma position_less: "position p xs = Some i \<Longrightarrow> i < length xs"
  by (simp add: position_Some_iff)

lemma rposition_Some:
  assumes "rposition p xs = Some i"
  shows "i < length xs \<and> p (xs ! i)"
proof -
  from assms obtain j where j: "position p (rev xs) = Some j" "i = length xs - 1 - j"
    by (auto simp: rposition_def)
  then show ?thesis
    by (auto simp: position_Some_iff rev_nth)
qed

lemma rposition_None_iff: "rposition p xs = None \<longleftrightarrow> (\<forall>x \<in> set xs. \<not> p x)"
  by (simp add: rposition_def position_None_iff)

end
