(* ===== verification/Rust_Text.thy ===== *)
theory Rust_Text
  imports Prelude
begin

text \<open>
  The parts of Rust's standard library the program uses on text. A \<open>String\<close> is its UTF-8 bytes,
  one \<open>char\<close> each; functions that work on characters (whitespace, \<open>chars().skip(1)\<close>) decode the
  leading bytes. Each function follows the documented behaviour of the one it is named after.
\<close>

section \<open>UTF-8\<close>

definition utf8_width :: "u8 \<Rightarrow> nat" where
  "utf8_width b = (if b < 0x80 then 1 else if b < 0xC2 then 0 else if b < 0xE0 then 2
     else if b < 0xF0 then 3 else if b < 0xF5 then 4 else 0)"

text \<open>A continuation byte, and the range the second byte of a longer sequence may have.\<close>

definition is_cont :: "u8 \<Rightarrow> bool" where
  "is_cont b \<longleftrightarrow> 0x80 \<le> b \<and> b \<le> 0xBF"

definition second_ok :: "u8 \<Rightarrow> u8 \<Rightarrow> bool" where
  "second_ok b c \<longleftrightarrow>
     (if b = 0xE0 then 0xA0 \<le> c \<and> c \<le> 0xBF
      else if b = 0xED then 0x80 \<le> c \<and> c \<le> 0x9F
      else if b = 0xF0 then 0x90 \<le> c \<and> c \<le> 0xBF
      else if b = 0xF4 then 0x80 \<le> c \<and> c \<le> 0x8F
      else is_cont c)"

definition byte_at :: "bytes \<Rightarrow> nat \<Rightarrow> u8" where
  "byte_at bs i = (if i < length bs then bs ! i else 0)"

text \<open>
  One step of the lossy decoder on a non-empty slice: whether the slice starts with a whole
  character, and how many bytes the character or the invalid sequence takes.
\<close>

definition utf8_step :: "bytes \<Rightarrow> bool \<times> nat" where
  "utf8_step bs = (let b = byte_at bs 0 in
     if utf8_width b = 1 then (True, 1)
     else if utf8_width b = 2 then (if is_cont (byte_at bs 1) then (True, 2) else (False, 1))
     else if utf8_width b = 3 then
       (if \<not> second_ok b (byte_at bs 1) then (False, 1)
        else if \<not> is_cont (byte_at bs 2) then (False, 2) else (True, 3))
     else if utf8_width b = 4 then
       (if \<not> second_ok b (byte_at bs 1) then (False, 1)
        else if \<not> is_cont (byte_at bs 2) then (False, 2)
        else if \<not> is_cont (byte_at bs 3) then (False, 3) else (True, 4))
     else (False, 1))"

lemma utf8_step_pos: "0 < snd (utf8_step bs)"
  by (simp add: utf8_step_def Let_def)

definition replacement :: bytes where
  "replacement = [0xEF, 0xBF, 0xBD]"

function utf8_chunks :: "bytes \<Rightarrow> (bool \<times> bytes) list" where
  "utf8_chunks bs = (if bs = [] then []
     else (fst (utf8_step bs), take (snd (utf8_step bs)) bs) # utf8_chunks (drop (snd (utf8_step bs)) bs))"
  by pat_completeness auto
termination
  by (relation "measure length") (auto simp: utf8_step_pos)

declare utf8_chunks.simps [simp del]

definition utf8_valid :: "bytes \<Rightarrow> bool" where
  "utf8_valid bs \<longleftrightarrow> list_all fst (utf8_chunks bs)"

definition to_chars :: "bytes \<Rightarrow> string" where
  "to_chars bs = map (\<lambda>b. char_of (unat b)) bs"

definition to_bytes :: "string \<Rightarrow> bytes" where
  "to_bytes s = map (\<lambda>c. of_nat (of_char c)) s"

definition lossy_bytes :: "bytes \<Rightarrow> bytes" where
  "lossy_bytes bs = concat (map (\<lambda>(ok, c). if ok then c else replacement) (utf8_chunks bs))"

definition from_utf8_lossy :: "bytes \<Rightarrow> string" where
  "from_utf8_lossy bs = to_chars (lossy_bytes bs)"

definition from_utf8 :: "bytes \<Rightarrow> string option" where
  "from_utf8 bs = (if utf8_valid bs then Some (to_chars bs) else None)"

lemma to_bytes_to_chars [simp]: "to_bytes (to_chars bs) = bs"
proof -
  have "of_nat (of_char (char_of (unat b) :: char) :: nat) = b" for b :: u8
    using unat_u8_less [of b] by (simp add: of_char_of)
  then show ?thesis by (simp add: to_bytes_def to_chars_def o_def)
qed

lemma to_chars_to_bytes [simp]: "to_chars (to_bytes s) = s"
proof -
  have "char_of (unat (of_nat (of_char c :: nat) :: u8)) = c" for c :: char
  proof -
    have "(of_char c :: nat) < 256" by simp
    then have "unat (of_nat (of_char c :: nat) :: u8) = of_char c"
      by (simp add: unat_of_nat take_bit_nat_eq_self_iff)
    then show ?thesis by simp
  qed
  then show ?thesis by (simp add: to_bytes_def to_chars_def o_def)
qed

lemma length_to_chars [simp]: "length (to_chars bs) = length bs"
  by (simp add: to_chars_def)

lemma length_to_bytes [simp]: "length (to_bytes s) = length s"
  by (simp add: to_bytes_def)

lemma to_chars_inj: "to_chars a = to_chars b \<longleftrightarrow> a = b"
  by (metis to_bytes_to_chars)

lemma utf8_chunks_concat: "concat (map snd (utf8_chunks bs)) = bs"
proof (induction bs rule: utf8_chunks.induct)
  case (1 bs)
  then show ?case by (subst utf8_chunks.simps) simp
qed

lemma lossy_bytes_valid:
  assumes "utf8_valid bs"
  shows "lossy_bytes bs = bs"
proof -
  have "map (\<lambda>(ok, c). if ok then c else replacement) (utf8_chunks bs) = map snd (utf8_chunks bs)"
    using assms by (auto simp: utf8_valid_def list_all_iff)
  then show ?thesis by (simp only: lossy_bytes_def utf8_chunks_concat)
qed

lemma from_utf8_lossy_valid: "utf8_valid bs \<Longrightarrow> from_utf8_lossy bs = to_chars bs"
  by (simp add: from_utf8_lossy_def lossy_bytes_valid)

lemma utf8_chunks_ascii:
  "\<forall>b \<in> set bs. b < 0x80 \<Longrightarrow> utf8_chunks bs = map (\<lambda>b. (True, [b])) bs"
proof (induction bs)
  case Nil
  then show ?case by (simp add: utf8_chunks.simps)
next
  case (Cons b bs)
  then have "utf8_step (b # bs) = (True, 1)"
    by (simp add: utf8_step_def byte_at_def utf8_width_def)
  with Cons show ?case by (subst utf8_chunks.simps) simp
qed

lemma utf8_valid_ascii: "\<forall>b \<in> set bs. b < 0x80 \<Longrightarrow> utf8_valid bs"
  by (simp add: utf8_valid_def utf8_chunks_ascii list_all_iff)

section \<open>Characters and whitespace\<close>

text \<open>
  \<open>ws_len s\<close> is the length of the Unicode White_Space character \<open>s\<close> starts with, 0 when it starts
  with another character: U+0009 to U+000D, U+0020, U+0085, U+00A0, U+1680, U+2000 to U+200A,
  U+2028, U+2029, U+202F, U+205F and U+3000 in their UTF-8 encodings.
\<close>

fun ws_codes :: "nat list \<Rightarrow> nat" where
  "ws_codes [] = 0"
| "ws_codes (a # cs) =
     (if 9 \<le> a \<and> a \<le> 13 \<or> a = 32 then 1
      else case cs of
        [] \<Rightarrow> 0
      | b # ds \<Rightarrow>
          (if a = 194 \<and> (b = 133 \<or> b = 160) then 2
           else case ds of
             [] \<Rightarrow> 0
           | c # _ \<Rightarrow>
               (if a = 225 \<and> b = 154 \<and> c = 128
                 \<or> a = 226 \<and> b = 128 \<and> (128 \<le> c \<and> c \<le> 138 \<or> c = 168 \<or> c = 169 \<or> c = 175)
                 \<or> a = 226 \<and> b = 129 \<and> c = 159
                 \<or> a = 227 \<and> b = 128 \<and> c = 128 then 3 else 0)))"

definition ws_len :: "string \<Rightarrow> nat" where
  "ws_len s = ws_codes (map of_char (take 3 s))"

lemma ws_len_Nil [simp]: "ws_len [] = 0"
  by (simp add: ws_len_def)

lemma ws_len_le: "ws_len s \<le> length s"
  by (cases s; cases "tl s"; cases "tl (tl s)") (auto simp: ws_len_def split: list.splits)

function trim_start :: "string \<Rightarrow> string" where
  "trim_start s = (if ws_len s = 0 then s else trim_start (drop (ws_len s) s))"
  by pat_completeness auto
termination
proof (relation "measure length")
  fix s :: string assume "ws_len s \<noteq> 0"
  then have "s \<noteq> []" by auto
  with \<open>ws_len s \<noteq> 0\<close> show "(drop (ws_len s) s, s) \<in> measure length" by simp
qed simp

declare trim_start.simps [simp del]

fun trim_end :: "string \<Rightarrow> string" where
  "trim_end [] = []"
| "trim_end (c # s) = (if trim_start (c # s) = [] then [] else c # trim_end s)"

definition trim :: "string \<Rightarrow> string" where
  "trim s = trim_end (trim_start s)"

text \<open>\<open>split_whitespace\<close>: the maximal runs without whitespace, from left to right.\<close>

fun split_ws_go :: "string \<Rightarrow> nat \<Rightarrow> string \<Rightarrow> string list" where
  "split_ws_go acc skip [] = (if acc = [] then [] else [rev acc])"
| "split_ws_go acc skip (c # s) =
     (if 0 < skip then split_ws_go acc (skip - 1) s
      else if 0 < ws_len (c # s) then
        (if acc = [] then split_ws_go [] (ws_len (c # s) - 1) s
         else rev acc # split_ws_go [] (ws_len (c # s) - 1) s)
      else split_ws_go (c # acc) 0 s)"

definition split_whitespace :: "string \<Rightarrow> string list" where
  "split_whitespace s = split_ws_go [] 0 s"

text \<open>
  A character is plain when no whitespace character starts with its byte: all of ASCII but the
  blanks. On plain text the whitespace functions do nothing.
\<close>

definition plain_char :: "char \<Rightarrow> bool" where
  "plain_char c \<longleftrightarrow> (of_char c :: nat) < 128 \<and> \<not> (9 \<le> (of_char c :: nat) \<and> (of_char c :: nat) \<le> 13)
     \<and> (of_char c :: nat) \<noteq> 32"

lemma ws_len_plain: "plain_char c \<Longrightarrow> ws_len (c # s) = 0"
  by (auto simp: ws_len_def plain_char_def split: list.splits)

lemma trim_start_plain: "plain_char c \<Longrightarrow> trim_start (c # s) = c # s"
  by (subst trim_start.simps) (simp add: ws_len_plain)

lemma trim_start_Nil [simp]: "trim_start [] = []"
  by (subst trim_start.simps) simp

lemma trim_start_space: "trim_start (CHR '' '' # s) = trim_start s"
  by (subst trim_start.simps) (simp add: ws_len_def)

lemma trim_end_snoc_plain: "plain_char c \<Longrightarrow> trim_end (s @ [c]) = s @ [c]"
proof (induction s)
  case Nil
  then show ?case by (simp add: trim_start_plain)
next
  case (Cons a s)
  have "trim_start (t @ [c]) \<noteq> []" for t
  proof (induction t rule: trim_start.induct)
    case (1 t)
    show ?case
    proof (cases "ws_len t = 0")
      case True
      have "ws_len (t @ [c]) \<le> length t"
        using True Cons.prems
        by (cases t; cases "tl t"; cases "tl (tl t)")
           (auto simp: ws_len_def plain_char_def split: list.splits if_splits)
      then show ?thesis
        using True Cons.prems
        by (cases t; cases "tl t"; cases "tl (tl t)"; subst trim_start.simps)
           (auto simp: ws_len_def plain_char_def trim_start_plain split: list.splits if_splits)
    next
      case False
      then have "ws_len (t @ [c]) = ws_len t"
        by (cases t; cases "tl t"; cases "tl (tl t)")
           (auto simp: ws_len_def split: list.splits if_splits)
      with False 1 show ?thesis
        by (subst trim_start.simps) (simp add: ws_len_le)
    qed
  qed
  from this [of "a # s"] Cons show ?case by simp
qed

lemma trim_end_last_plain: "s \<noteq> [] \<Longrightarrow> plain_char (last s) \<Longrightarrow> trim_end s = s"
  by (metis append_butlast_last_id trim_end_snoc_plain)

lemma trim_plain:
  assumes "s \<noteq> []" "plain_char (hd s)" "plain_char (last s)"
  shows "trim s = s"
proof -
  obtain c t where "s = c # t" using assms(1) by (cases s) auto
  with assms have "trim_start s = s" by (simp add: trim_start_plain)
  with assms show ?thesis by (simp add: trim_def trim_end_last_plain)
qed

end
