(* ===== verification/Rust_Num.thy ===== *)
theory Rust_Num
  imports Rust_Text
begin

text \<open>
  Rust's splitting and matching functions on text, and integers as text: \<open>from_str_radix\<close>,
  \<open>parse\<close> and the \<open>{}\<close>, \<open>{:x}\<close> and \<open>{:016x}\<close> formats. All separators the program uses are ASCII, so
  working on bytes is working on characters.
\<close>

section \<open>Matching and splitting\<close>

definition starts_with :: "'a list \<Rightarrow> 'a list \<Rightarrow> bool" where
  "starts_with p s \<longleftrightarrow> take (length p) s = p"

definition ends_with :: "'a list \<Rightarrow> 'a list \<Rightarrow> bool" where
  "ends_with p s \<longleftrightarrow> length p \<le> length s \<and> drop (length s - length p) s = p"

definition strip_prefix :: "string \<Rightarrow> string \<Rightarrow> string option" where
  "strip_prefix p s = (if starts_with p s then Some (drop (length p) s) else None)"

function trim_start_matches :: "string \<Rightarrow> string \<Rightarrow> string" where
  "trim_start_matches p s =
     (if p \<noteq> [] \<and> starts_with p s then trim_start_matches p (drop (length p) s) else s)"
  by pat_completeness auto
termination
proof (relation "measure (\<lambda>(p, s). length s)")
  fix p s :: string
  assume "p \<noteq> [] \<and> starts_with p s"
  then have "length s \<noteq> 0 \<and> length p \<noteq> 0" by (auto simp: starts_with_def)
  then show "((p, drop (length p) s), p, s) \<in> measure (\<lambda>(p, s). length s)" by simp
qed simp

declare trim_start_matches.simps [simp del]

definition trim_matches :: "char \<Rightarrow> string \<Rightarrow> string" where
  "trim_matches c s = rev (dropWhile (\<lambda>x. x = c) (rev (dropWhile (\<lambda>x. x = c) s)))"

definition trim_end_matches :: "char \<Rightarrow> string \<Rightarrow> string" where
  "trim_end_matches c s = rev (dropWhile (\<lambda>x. x = c) (rev s))"

fun split_once :: "char \<Rightarrow> string \<Rightarrow> (string \<times> string) option" where
  "split_once c [] = None"
| "split_once c (x # s) =
     (if x = c then Some ([], s)
      else map_option (\<lambda>(a, b). (x # a, b)) (split_once c s))"

text \<open>\<open>split\<close> on an element: one more piece than there are separators, empty pieces included.\<close>

fun split_on :: "('a \<Rightarrow> bool) \<Rightarrow> 'a list \<Rightarrow> 'a list list" where
  "split_on p [] = [[]]"
| "split_on p (x # s) =
     (if p x then [] # split_on p s
      else case split_on p s of [] \<Rightarrow> [[x]] | w # ws \<Rightarrow> (x # w) # ws)"

text \<open>\<open>lines\<close>: a final newline starts no line, a carriage return before the newline is dropped.\<close>

definition newline :: char where
  "newline = char_of (10 :: nat)"

definition carriage_return :: char where
  "carriage_return = char_of (13 :: nat)"

definition strip_cr :: "string \<Rightarrow> string" where
  "strip_cr l = (if l \<noteq> [] \<and> last l = carriage_return then butlast l else l)"

fun lines_go :: "string \<Rightarrow> string \<Rightarrow> string list" where
  "lines_go acc [] = (if acc = [] then [] else [rev acc])"
| "lines_go acc (c # s) =
     (if c = newline then strip_cr (rev acc) # lines_go [] s else lines_go (c # acc) s)"

definition lines :: "string \<Rightarrow> string list" where
  "lines s = lines_go [] s"

fun join :: "string \<Rightarrow> string list \<Rightarrow> string" where
  "join sep [] = []"
| "join sep [x] = x"
| "join sep (x # y # ys) = x @ sep @ join sep (y # ys)"

definition ascii_lower :: "char \<Rightarrow> char" where
  "ascii_lower c = (let n = (of_char c :: nat) in if 65 \<le> n \<and> n \<le> 90 then char_of (n + 32) else c)"

definition eq_ignore_ascii_case :: "string \<Rightarrow> string \<Rightarrow> bool" where
  "eq_ignore_ascii_case a b \<longleftrightarrow> map ascii_lower a = map ascii_lower b"

lemma split_on_nonempty [simp]: "split_on p s \<noteq> []"
  by (induction s) (auto split: list.splits)

lemma split_on_elems: "w \<in> set (split_on p s) \<Longrightarrow> x \<in> set w \<Longrightarrow> \<not> p x \<and> x \<in> set s"
proof (induction s arbitrary: w)
  case (Cons a s)
  obtain v vs where "split_on p s = v # vs" by (cases "split_on p s") auto
  with Cons.IH [of v] Cons.IH [of w] Cons.prems show ?case by (cases "p a") auto
qed simp

lemma split_once_append:
  "c \<notin> set a \<Longrightarrow> split_once c (a @ c # b) = Some (a, b)"
  by (induction a) auto

lemma split_once_Some:
  "split_once c s = Some (a, b) \<Longrightarrow> s = a @ c # b \<and> c \<notin> set a"
  by (induction s arbitrary: a b) (auto split: if_splits)

lemma lines_go_append:
  "newline \<notin> set l \<Longrightarrow> lines_go acc (l @ newline # s) = strip_cr (rev acc @ l) # lines_go [] s"
  by (induction l arbitrary: acc) auto

lemma lines_cons:
  assumes "newline \<notin> set l"
  shows "lines (l @ newline # s) = strip_cr l # lines s"
  using lines_go_append [OF assms, of "[]" s] by (simp add: lines_def)

lemma lines_Nil [simp]: "lines [] = []"
  by (simp add: lines_def)

lemma strip_cr_id: "l = [] \<or> last l \<noteq> carriage_return \<Longrightarrow> strip_cr l = l"
  by (auto simp: strip_cr_def)

lemma starts_with_append [simp]: "starts_with p (p @ s)"
  by (simp add: starts_with_def)

lemma trim_start_matches_append:
  "p \<noteq> [] \<Longrightarrow> trim_start_matches p (p @ s) = trim_start_matches p s"
  by (subst trim_start_matches.simps) simp

lemma trim_start_matches_none:
  "\<not> starts_with p s \<Longrightarrow> trim_start_matches p s = s"
  by (subst trim_start_matches.simps) simp

section \<open>Integers as text\<close>

definition digit_char :: "nat \<Rightarrow> char" where
  "digit_char d = (if d < 10 then char_of (48 + d) else char_of (87 + d))"

definition to_digit :: "nat \<Rightarrow> char \<Rightarrow> nat option" where
  "to_digit radix c = (let n = (of_char c :: nat);
     d = (if 48 \<le> n \<and> n \<le> 57 then n - 48
          else if 97 \<le> n \<and> n \<le> 122 then n - 87
          else if 65 \<le> n \<and> n \<le> 90 then n - 55 else radix)
     in if d < radix then Some d else None)"

fun radix_str :: "nat \<Rightarrow> nat \<Rightarrow> string" where
  "radix_str radix n =
     (if n < radix \<or> radix < 2 then [digit_char n]
      else radix_str radix (n div radix) @ [digit_char (n mod radix)])"

declare radix_str.simps [simp del]

definition pad_left :: "nat \<Rightarrow> char \<Rightarrow> string \<Rightarrow> string" where
  "pad_left w c s = replicate (w - length s) c @ s"

fun digits_val :: "nat \<Rightarrow> nat \<Rightarrow> nat \<Rightarrow> string \<Rightarrow> nat option" where
  "digits_val radix limit acc [] = Some acc"
| "digits_val radix limit acc (c # s) =
     (case to_digit radix c of
        None \<Rightarrow> None
      | Some d \<Rightarrow> (let v = acc * radix + d in if v < limit then digits_val radix limit v s else None))"

text \<open>\<open>limit\<close> is one more than the type's maximum; one leading plus sign is accepted.\<close>

definition from_str_radix :: "nat \<Rightarrow> nat \<Rightarrow> string \<Rightarrow> nat option" where
  "from_str_radix limit radix s =
     (let t = (case s of c # (d # u) \<Rightarrow> if c = CHR ''+'' then d # u else s | _ \<Rightarrow> s)
      in if t = [] then None else digits_val radix limit 0 t)"

lemma of_char_digit_char: "d < 36 \<Longrightarrow> of_char (digit_char d) = (if d < 10 then 48 + d else 87 + d)"
  by (simp add: digit_char_def)

lemma to_digit_digit_char: "d < radix \<Longrightarrow> radix \<le> 36 \<Longrightarrow> to_digit radix (digit_char d) = Some d"
  by (simp add: to_digit_def of_char_digit_char Let_def)

lemma digits_val_append:
  "digits_val r l acc (s @ t) =
     (case digits_val r l acc s of None \<Rightarrow> None | Some v \<Rightarrow> digits_val r l v t)"
  by (induction s arbitrary: acc) (auto simp: Let_def split: option.splits)

lemma digits_val_radix_str:
  "2 \<le> r \<Longrightarrow> r \<le> 36 \<Longrightarrow> n < l \<Longrightarrow> digits_val r l 0 (radix_str r n) = Some n"
proof (induction r n rule: radix_str.induct)
  case (1 r n)
  show ?case
  proof (cases "n < r")
    case True
    with 1 show ?thesis
      by (subst radix_str.simps) (simp add: to_digit_digit_char)
  next
    case False
    then have "n div r \<le> n" by simp
    with 1 False have "digits_val r l 0 (radix_str r (n div r)) = Some (n div r)" by simp
    with False 1 show ?thesis
      by (subst radix_str.simps) (simp add: digits_val_append to_digit_digit_char)
  qed
qed

lemma digits_val_zeros: "2 \<le> r \<Longrightarrow> r \<le> 36 \<Longrightarrow> 0 < l \<Longrightarrow>
  digits_val r l 0 (replicate k (CHR ''0'') @ s) = digits_val r l 0 s"
  by (induction k) (auto simp: to_digit_def)

definition digit_text :: "nat \<Rightarrow> string \<Rightarrow> bool" where
  "digit_text r s \<longleftrightarrow> s \<noteq> [] \<and> (\<forall>c \<in> set s. \<exists>d < r. c = digit_char d)"

lemma radix_str_digits: "2 \<le> r \<Longrightarrow> digit_text r (radix_str r n)"
proof (induction r n rule: radix_str.induct)
  case (1 r n)
  show ?case
  proof (cases "n < r")
    case True
    then show ?thesis by (subst radix_str.simps) (auto simp: digit_text_def)
  next
    case False
    then have "digit_text r (radix_str r (n div r))" using 1 by simp
    moreover have "\<exists>d < r. digit_char (n mod r) = digit_char d"
      using 1 by (intro exI [of _ "n mod r"]) simp
    ultimately show ?thesis
      using 1 False by (subst radix_str.simps) (auto simp: digit_text_def)
  qed
qed

lemma pad_left_digits: "2 \<le> r \<Longrightarrow> digit_text r s \<Longrightarrow> digit_text r (pad_left w (CHR ''0'') s)"
proof -
  assume r: "2 \<le> r" and s: "digit_text r s"
  have "digit_char 0 = CHR ''0''" by code_simp
  then have "\<exists>d < r. CHR ''0'' = digit_char d" using r by (intro exI [of _ 0]) simp
  then show ?thesis using s by (auto simp: digit_text_def pad_left_def)
qed

lemma digit_char_plain: "d < 36 \<Longrightarrow> plain_char (digit_char d)"
  by (simp add: plain_char_def of_char_digit_char)

lemma digit_text_plain: "digit_text r s \<Longrightarrow> r \<le> 36 \<Longrightarrow> c \<in> set s \<Longrightarrow> plain_char c"
  by (fastforce simp: digit_text_def intro: digit_char_plain)

lemma digit_char_neq:
  "d < 36 \<Longrightarrow> (of_char c :: nat) < 48 \<Longrightarrow> digit_char d \<noteq> c"
  by (auto simp: of_char_digit_char split: if_splits)

lemma digit_text_notin:
  assumes "digit_text r s" "r \<le> 36" "(of_char c :: nat) < 48"
  shows "c \<notin> set s"
proof
  assume "c \<in> set s"
  then obtain d where "d < r" "c = digit_char d" using assms(1) by (auto simp: digit_text_def)
  with assms(2,3) show False using digit_char_neq [of d c] by simp
qed

lemma from_str_radix_digit_text:
  assumes "digit_text r s" "r \<le> 36"
  shows "from_str_radix l r s = digits_val r l 0 s"
proof -
  have "CHR ''+'' \<notin> set s" by (rule digit_text_notin [OF assms]) simp
  then show ?thesis using assms
    by (auto simp: from_str_radix_def digit_text_def Let_def split: list.splits)
qed

lemma parse_radix_str:
  "2 \<le> r \<Longrightarrow> r \<le> 36 \<Longrightarrow> n < l \<Longrightarrow> from_str_radix l r (radix_str r n) = Some n"
  by (simp add: from_str_radix_digit_text radix_str_digits digits_val_radix_str)

lemma parse_padded:
  assumes "2 \<le> r" "r \<le> 36" "n < l"
  shows "from_str_radix l r (pad_left w (CHR ''0'') (radix_str r n)) = Some n"
proof -
  have "digit_text r (pad_left w (CHR ''0'') (radix_str r n))"
    using assms by (simp add: pad_left_digits radix_str_digits)
  then have "from_str_radix l r (pad_left w (CHR ''0'') (radix_str r n))
      = digits_val r l 0 (pad_left w (CHR ''0'') (radix_str r n))"
    using assms by (simp add: from_str_radix_digit_text)
  also have "\<dots> = digits_val r l 0 (radix_str r n)"
    using assms by (simp add: pad_left_def digits_val_zeros)
  also have "\<dots> = Some n" using assms by (simp add: digits_val_radix_str)
  finally show ?thesis .
qed

section \<open>Number texts\<close>

lemma digit_text_last_plain:
  assumes "digit_text r s" "r \<le> 36"
  shows "plain_char (last s)"
  using assms by (intro digit_text_plain [OF assms]) (simp add: digit_text_def)

lemma trim_digit_text:
  assumes "digit_text r s" "r \<le> 36"
  shows "trim s = s"
  using assms digit_text_last_plain [OF assms]
  by (intro trim_plain) (auto simp: digit_text_def intro: digit_text_plain [OF assms])

lemma zero_char_plain: "plain_char (CHR ''0'')"
  by (simp add: plain_char_def)

lemma trim_hex_literal:
  assumes "digit_text 16 s"
  shows "trim (''0x'' @ s) = ''0x'' @ s"
proof (rule trim_plain)
  have "s \<noteq> []" using assms by (simp add: digit_text_def)
  then show "plain_char (last (''0x'' @ s))" using digit_text_last_plain [OF assms] by simp
qed (simp_all add: zero_char_plain)

end
