(* ===== verification/Signature.thy ===== *)
theory Signature
  imports Rust_Num
begin

text \<open>
  \<open>memflow-linux/src/sig.rs\<close>: masked byte signatures. A pattern is a list of fragments, a fragment
  a whitespace-separated list of tokens; each token gives one byte and one mask, and the tokens
  that start with an asterisk are remembered as dereference positions.
\<close>

section \<open>Tokens\<close>

definition question :: char where
  "question = CHR ''?''"

definition token_byte :: "string \<Rightarrow> u8" where
  "token_byte tok =
     (let b = trim_start_matches ''*'' tok;
          z = map (\<lambda>c. if c = question then CHR ''0'' else c) b
      in case from_str_radix 256 16 z of None \<Rightarrow> 0 | Some v \<Rightarrow> of_nat v)"

definition token_mask :: "string \<Rightarrow> u8" where
  "token_mask tok =
     (case trim_start_matches ''*'' tok of
        [a] \<Rightarrow> if a = question then 0 else 0xff
      | [a, b] \<Rightarrow>
          if a = question \<and> b = question then 0
          else if a = question then 0x0f
          else if b = question then 0xf0
          else 0xff
      | _ \<Rightarrow> 0xff)"

definition str_to_byte_iter :: "string \<Rightarrow> bytes" where
  "str_to_byte_iter s = map token_byte (split_whitespace s)"

definition str_to_mask_iter :: "string \<Rightarrow> bytes" where
  "str_to_mask_iter s = map token_mask (split_whitespace s)"

definition str_to_deref_pos_iter :: "string \<Rightarrow> nat \<Rightarrow> nat \<times> nat list" where
  "str_to_deref_pos_iter s off =
     (let toks = split_whitespace s in
      (off + length toks,
       map (\<lambda>(i, b). i + off) (filter (\<lambda>(i, b). starts_with ''*'' b) (enumerate 0 toks))))"

section \<open>Signatures\<close>

record signature =
  sg_bytes :: bytes
  sg_mask :: bytes
  deref_pos :: "nat list"

fun signature_fold :: "string list \<Rightarrow> nat \<Rightarrow> signature \<Rightarrow> signature" where
  "signature_fold [] off sg = sg"
| "signature_fold (s # ss) off sg =
     (let (o', i) = str_to_deref_pos_iter s off in
      signature_fold ss o'
        \<lparr> sg_bytes = sg_bytes sg @ str_to_byte_iter s,
          sg_mask = sg_mask sg @ str_to_mask_iter s,
          deref_pos = deref_pos sg @ i \<rparr>)"

definition signature_new :: "string list \<Rightarrow> signature" where
  "signature_new s = signature_fold s 0 \<lparr> sg_bytes = [], sg_mask = [], deref_pos = [] \<rparr>"

definition signature_len :: "signature \<Rightarrow> nat" where
  "signature_len sg = length (sg_bytes sg)"

definition signature_is_empty :: "signature \<Rightarrow> bool" where
  "signature_is_empty sg \<longleftrightarrow> sg_bytes sg = []"

definition signature_eq :: "signature \<Rightarrow> bytes \<Rightarrow> bool" where
  "signature_eq sg other =
     (if signature_len sg = length other
      then map (\<lambda>(b, m). b AND m) (zip other (sg_mask sg)) = sg_bytes sg
      else False)"

section \<open>The tokens a pattern stands for\<close>

definition tokens :: "string list \<Rightarrow> string list" where
  "tokens frags = concat (map split_whitespace frags)"

definition starred :: "nat \<Rightarrow> string list \<Rightarrow> nat list" where
  "starred off toks = map (\<lambda>(i, b). i + off) (filter (\<lambda>(i, b). starts_with ''*'' b) (enumerate 0 toks))"

lemma starred_Cons:
  "starred off (t # ts) = (if starts_with ''*'' t then [off] else []) @ starred (Suc off) ts"
  by (auto simp: starred_def enumerate_Suc_eq filter_map o_def split_def)

lemma starred_Nil [simp]: "starred off [] = []"
  by (simp add: starred_def)

lemma starred_append:
  "starred off (ts @ us) = starred off ts @ starred (off + length ts) us"
  by (induction ts arbitrary: off) (simp_all add: starred_Cons)

lemma starred_bounds: "i \<in> set (starred off ts) \<Longrightarrow> off \<le> i \<and> i < off + length ts"
  by (induction ts arbitrary: off) (fastforce simp: starred_Cons split: if_splits)+

lemma starred_mem: "i \<in> set (starred 0 ts) \<longleftrightarrow> i < length ts \<and> starts_with ''*'' (ts ! i)"
proof -
  have "i + off \<in> set (starred off ts) \<longleftrightarrow> i < length ts \<and> starts_with ''*'' (ts ! i)" for off
  proof (induction ts arbitrary: i off)
    case (Cons t ts)
    show ?case
    proof (cases i)
      case 0
      then show ?thesis by (auto simp: starred_Cons dest: starred_bounds)
    next
      case (Suc j)
      then show ?thesis using Cons.IH [of j "Suc off"] by (auto simp: starred_Cons)
    qed
  qed simp
  from this [of 0] show ?thesis by simp
qed

lemma starred_sorted: "sorted_wrt (<) (starred off ts)"
  by (induction ts arbitrary: off) (auto simp: starred_Cons dest: starred_bounds)

lemma signature_fold_tokens:
  "signature_fold frags off sg =
     \<lparr> sg_bytes = sg_bytes sg @ map token_byte (tokens frags),
       sg_mask = sg_mask sg @ map token_mask (tokens frags),
       deref_pos = deref_pos sg @ starred off (tokens frags) \<rparr>"
proof (induction frags arbitrary: off sg)
  case (Cons f fs)
  then show ?case
    by (simp add: str_to_deref_pos_iter_def Let_def tokens_def starred_append
        str_to_byte_iter_def str_to_mask_iter_def flip: starred_def)
qed (simp add: tokens_def)

lemma signature_new_tokens:
  "sg_bytes (signature_new frags) = map token_byte (tokens frags)"
  "sg_mask (signature_new frags) = map token_mask (tokens frags)"
  "deref_pos (signature_new frags) = starred 0 (tokens frags)"
  by (simp_all add: signature_new_def signature_fold_tokens)

lemma signature_len_new [simp]: "signature_len (signature_new frags) = length (tokens frags)"
  by (simp add: signature_len_def signature_new_tokens)

section \<open>Bytes, nibbles and the meaning of a token\<close>

lemma nibble_split: "y < 16 \<Longrightarrow> (n :: nat) = x * 16 + y \<longleftrightarrow> n div 16 = x \<and> n mod 16 = y"
  using div_mult_mod_eq [of n 16] by auto

lemma and_ff: "(w :: u8) AND 0xff = w"
proof -
  have "(0xff :: u8) = - 1" by simp
  then show ?thesis by (simp only: bit.conj_one_right)
qed

lemma and_lo: "(w :: u8) AND 0x0f = of_nat d \<longleftrightarrow> unat w mod 16 = d" if "d < 16"
proof -
  have "w AND 0x0f = take_bit 4 w" by (simp add: take_bit_eq_mask mask_eq_exp_minus_1)
  moreover have "unat (take_bit 4 w) = unat w mod 16" 
    by (simp only: unsigned_take_bit_eq) (simp add: take_bit_eq_mod)
  moreover have "unat (of_nat d :: u8) = d" using that by (simp add: unat_of_nat take_bit_nat_eq_self_iff)
  ultimately show ?thesis by (metis word_unat_eq_iff)
qed
lemma unat_and_hi: "unat ((w :: u8) AND 0xf0) = unat w div 16 * 16" 
proof -
  have "(240::u8) = push_bit 4 (mask 4)" by (simp add: mask_eq_exp_minus_1 push_bit_eq_mult)
  moreover have "w AND push_bit 4 (mask 4) = push_bit 4 (drop_bit 4 w)"
    by (rule bit_word_eqI) (auto simp: bit_simps)
  ultimately have "w AND 0xf0 = push_bit 4 (drop_bit 4 w)" by simp
  then have "unat (w AND 0xf0) = take_bit 8 (push_bit 4 (drop_bit 4 (unat w)))"
    by (simp only: unsigned_push_bit_eq unat_drop_bit_eq) simp
  also have "\<dots> = (unat w div 16 * 16) mod 256" 
    by (simp add: take_bit_eq_mod push_bit_eq_mult drop_bit_eq_div)
  also have "\<dots> = unat w div 16 * 16" using unat_u8_less [of w] by (intro mod_less) linarith
  finally show ?thesis .
qed
lemma and_hi: "(w :: u8) AND 0xf0 = of_nat (d * 16) \<longleftrightarrow> unat w div 16 = d" if "d < 16"
proof -
  have "unat (of_nat (d * 16) :: u8) = d * 16" using that 
    by (simp add: unat_of_nat take_bit_nat_eq_self_iff del: of_nat_mult of_nat_numeral)
  then show ?thesis using unat_and_hi [of w] 
   by (metis word_unat_eq_iff nonzero_mult_div_cancel_right zero_neq_numeral)
qed

lemma hex_digit_less: "to_digit 16 c = Some d \<Longrightarrow> d < 16"
  by (auto simp: to_digit_def Let_def split: if_splits)

lemma to_digit_question: "to_digit 16 question = None" by (simp add: to_digit_def question_def)
lemma to_digit_plus: "to_digit 16 (CHR ''+'') = None" by (simp add: to_digit_def)
lemma to_digit_zero: "to_digit 16 (CHR ''0'') = Some 0" by (simp add: to_digit_def)

definition nibble_matches :: "char \<Rightarrow> nat \<Rightarrow> bool" where
  "nibble_matches c v \<longleftrightarrow> c = question \<or> to_digit 16 c = Some v"

definition token_matches :: "string \<Rightarrow> u8 \<Rightarrow> bool" where
  "token_matches tok w =
     (case trim_start_matches ''*'' tok of
        [a, b] \<Rightarrow> nibble_matches a (unat w div 16) \<and> nibble_matches b (unat w mod 16)
      | _ \<Rightarrow> True)"

definition nibble_wf :: "char \<Rightarrow> bool" where
  "nibble_wf c \<longleftrightarrow> c = question \<or> to_digit 16 c \<noteq> None"

definition token_wf :: "string \<Rightarrow> bool" where
  "token_wf tok =
     (case trim_start_matches ''*'' tok of
        [a] \<Rightarrow> a = question
      | [a, b] \<Rightarrow> nibble_wf a \<and> nibble_wf b
      | _ \<Rightarrow> False)"

lemma byte_two_digits:
  "to_digit 16 a = Some x \<Longrightarrow> to_digit 16 b = Some y \<Longrightarrow> from_str_radix 256 16 [a, b] = Some (x * 16 + y)"
  using hex_digit_less [of a x] hex_digit_less [of b y]
  by (auto simp: from_str_radix_def Let_def to_digit_plus)

lemma token_matches_iff:
  assumes "token_wf tok"
  shows "(w AND token_mask tok = token_byte tok) \<longleftrightarrow> token_matches tok w"
proof -
  consider "trim_start_matches ''*'' tok = [question]"
    | a b where "trim_start_matches ''*'' tok = [a, b]" "nibble_wf a" "nibble_wf b"
    using assms by (auto simp: token_wf_def split: list.splits)
  then show ?thesis
  proof cases
    case 1
    then show ?thesis
      by (simp add: token_mask_def token_byte_def token_matches_def from_str_radix_def to_digit_zero question_def)
  next
    case (2 a b)
    note t = 2(1) token_mask_def token_matches_def
    have z: "to_digit 16 (if c = question then CHR ''0'' else c) = Some (if c = question then 0 else the (to_digit 16 c))"
      if "nibble_wf c" for c using that by (auto simp: nibble_wf_def to_digit_zero)
    let ?v = "\<lambda>c. if c = question then 0 else the (to_digit 16 c)"
    have lt: "?v c < 16" if "nibble_wf c" for c
      using that hex_digit_less by (auto simp: nibble_wf_def)
    have byte: "token_byte tok = of_nat (?v a * 16 + ?v b)"
      using byte_two_digits [OF z [OF 2(2)] z [OF 2(3)]] by (simp add: token_byte_def 2(1))
    consider "a = question" "b = question" | "a = question" "b \<noteq> question"
      | "a \<noteq> question" "b = question" | "a \<noteq> question" "b \<noteq> question" by blast
    then show ?thesis
    proof cases
      case 1 then show ?thesis by (simp add: byte t nibble_matches_def)
    next
      case 2
      then show ?thesis using byte and_lo [OF lt [OF \<open>nibble_wf b\<close>], of w] \<open>nibble_wf b\<close>
        by (auto simp: t nibble_matches_def nibble_wf_def)
    next
      case 3
      then show ?thesis using byte and_hi [OF lt [OF \<open>nibble_wf a\<close>], of w] \<open>nibble_wf a\<close>
        by (auto simp: t nibble_matches_def nibble_wf_def)
    next
      case 4
      have "unat (of_nat (?v a * 16 + ?v b) :: u8) = ?v a * 16 + ?v b"
        using lt [OF \<open>nibble_wf a\<close>] lt [OF \<open>nibble_wf b\<close>]
        by (subst unat_of_nat) (simp add: take_bit_nat_eq_self_iff)
      then have "w = of_nat (?v a * 16 + ?v b) \<longleftrightarrow> unat w = ?v a * 16 + ?v b"
        by (metis word_unat_eq_iff)
      also have "\<dots> \<longleftrightarrow> unat w div 16 = ?v a \<and> unat w mod 16 = ?v b"
        by (rule nibble_split [OF lt [OF \<open>nibble_wf b\<close>]])
      finally show ?thesis using 4 byte \<open>nibble_wf a\<close> \<open>nibble_wf b\<close>
        by (auto simp: t nibble_matches_def nibble_wf_def and_ff)
    qed
  qed
qed

lemma map_and_zip: "length w = length ts \<Longrightarrow>
  (map (\<lambda>(b, m). b AND m) (zip w (map token_mask ts)) = map token_byte ts) \<longleftrightarrow>
  list_all2 (\<lambda>t b. b AND token_mask t = token_byte t) ts w"
  by (induction w ts rule: list_induct2) simp_all


text \<open>
  C34. For a pattern of well-formed tokens, comparing a slice with the signature is matching it
  token by token: the lengths agree, and each hexadecimal digit equals its nibble of the byte while
  a question mark accepts any nibble. The masks and the zeroed wildcard nibbles implement exactly
  this.
\<close>

theorem signature_eq_iff:
  assumes "\<forall>tok \<in> set (tokens frags). token_wf tok"
  shows "signature_eq (signature_new frags) w \<longleftrightarrow> list_all2 token_matches (tokens frags) w"
proof -
  have "list_all2 (\<lambda>t b. b AND token_mask t = token_byte t) (tokens frags) w \<longleftrightarrow> list_all2 token_matches (tokens frags) w"
    using assms by (auto simp: list_all2_conv_all_nth token_matches_iff)
  then show ?thesis
    by (auto simp: signature_eq_def signature_len_def signature_new_tokens map_and_zip dest: list_all2_lengthD)
qed
theorem signature_eq_iff_witness:
  "signature_eq (signature_new [''48 ?5 *4? ?'']) [0x48, 0xa5, 0x4f, 0x11]"
proof -
  have "tokens [''48 ?5 *4? ?''] = [''48'', ''?5'', ''*4?'', ''?'']" by code_simp
  moreover have "list_all token_wf [''48'', ''?5'', ''*4?'', ''?'']" by code_simp
  ultimately have "\<forall>tok \<in> set (tokens [''48 ?5 *4? ?'']). token_wf tok" by (simp add: list_all_iff)
  moreover have "list_all2 token_matches (tokens [''48 ?5 *4? ?'']) [0x48, 0xa5, 0x4f, 0x11]" by code_simp
  ultimately show ?thesis using signature_eq_iff by blast
qed


text \<open>
  C35. Every signature the constructor builds is well formed: one mask per byte, the dereference
  positions strictly increasing, inside the signature and exactly the places of the starred tokens.
\<close>

theorem signature_new_wf:
  "length (sg_mask (signature_new frags)) = signature_len (signature_new frags)
   \<and> sorted_wrt (<) (deref_pos (signature_new frags))
   \<and> set (deref_pos (signature_new frags)) =
       {i. i < signature_len (signature_new frags) \<and> starts_with ''*'' (tokens frags ! i)}"
  by (auto simp: signature_new_tokens starred_sorted starred_mem)

end
