(* ===== verification/Kernel_Sigs.thy ===== *)
theory Kernel_Sigs
  imports Signature
begin

text \<open>
  \<open>memflow-linux/src/kernel/x64.rs\<close>, first part: version ranges and the table of bootstrap
  signatures \<open>find_kernel\<close> matches.
\<close>

section \<open>Version ranges\<close>

record version_range =
  vr_major :: nat
  vr_minor :: "nat \<times> nat"
  vr_point :: "nat \<times> nat"

definition version_range_fmt :: "version_range \<Rightarrow> string" where
  "version_range_fmt v =
     (let d = radix_str 10 in
      if fst (vr_minor v) = snd (vr_minor v) \<and> fst (vr_point v) = snd (vr_point v) then
        d (vr_major v) @ ''.'' @ d (fst (vr_minor v)) @ ''.'' @ d (fst (vr_point v))
      else
        d (vr_major v) @ ''.'' @ d (fst (vr_minor v)) @ ''.'' @ d (fst (vr_point v)) @ ''-'' @
        d (vr_major v) @ ''.'' @ d (snd (vr_minor v)) @ ''.'' @ d (snd (vr_point v)))"

definition range_contains :: "nat \<times> nat \<Rightarrow> nat \<Rightarrow> bool" where
  "range_contains r n \<longleftrightarrow> fst r \<le> n \<and> n \<le> snd r"

definition version_range_eq :: "version_range \<Rightarrow> nat \<times> nat \<times> nat \<Rightarrow> bool" where
  "version_range_eq v = (\<lambda>(major, minor, point).
     major = vr_major v \<and> range_contains (vr_minor v) minor \<and> range_contains (vr_point v) point)"

text \<open>The \<open>From\<close> instances, named after the tuple they convert.\<close>

definition vr_ranges :: "nat \<Rightarrow> nat \<times> nat \<Rightarrow> nat \<times> nat \<Rightarrow> version_range" where
  "vr_ranges major minor point = \<lparr> vr_major = major, vr_minor = minor, vr_point = point \<rparr>"

definition vr_exact :: "nat \<Rightarrow> nat \<Rightarrow> nat \<Rightarrow> version_range" where
  "vr_exact x y z = vr_ranges x (y, y) (z, z)"

definition vr_major_minor :: "nat \<Rightarrow> nat \<Rightarrow> version_range" where
  "vr_major_minor major minor = vr_ranges major (minor, minor) (0, 255)"

definition vr_major_only :: "nat \<Rightarrow> version_range" where
  "vr_major_only major = vr_ranges major (0, 255) (0, 255)"

definition vr_minor_range :: "nat \<Rightarrow> nat \<times> nat \<Rightarrow> version_range" where
  "vr_minor_range major minor = vr_ranges major minor (0, 255)"

definition vr_point_range :: "nat \<Rightarrow> nat \<Rightarrow> nat \<times> nat \<Rightarrow> version_range" where
  "vr_point_range major minor point = vr_ranges major (minor, minor) point"

definition vr_minor_range_point :: "nat \<Rightarrow> nat \<times> nat \<Rightarrow> nat \<Rightarrow> version_range" where
  "vr_minor_range_point major minor point = vr_ranges major minor (point, point)"

lemma version_range_eq_exact:
  "version_range_eq (vr_exact x y z) (a, b, c) \<longleftrightarrow> a = x \<and> b = y \<and> c = z"
  by (auto simp: version_range_eq_def vr_exact_def vr_ranges_def range_contains_def)

section \<open>Patterns\<close>

definition pat_vcpu :: string where "pat_vcpu = ''e8 bb 00 00 00''"
definition pat_vcpu_with_sev :: string where "pat_vcpu_with_sev = ''e8 cb 00 00 00''"
definition pat_vcpu_wildcard :: string where "pat_vcpu_wildcard = ''e8 ?b 00 00 00''"
definition pat_no_startup_secondary_64 :: string where
  "pat_no_startup_secondary_64 = ''
        48 c7 c0 *? ? ? ?
        ''"
definition pat_startup_secondary_64 :: string where
  "pat_startup_secondary_64 = ''56
        e8 ? ? ? ?
        5e
        ''"
definition pat_add_to_form_cr3 :: string where "pat_add_to_form_cr3 = ''48 05 *? ? ? ?''"
definition pat_sme_me_mask_to_rax :: string where "pat_sme_me_mask_to_rax = ''48 8b 04 25 ? ? ? ?''"
definition pat_pae_pge_v2 :: string where
  "pat_pae_pge_v2 = ''
        48 31 c0
        48 0f ba e8 05
        48 0f ba e8 07
        ''"
definition pat_middle_orl :: string where "pat_middle_orl = ''81 c9 a0 00 00 00''"
definition pat_middle :: string where "pat_middle = ''b9 a0 00 00 00''"
definition pat_middle_eax :: string where "pat_middle_eax = ''b8 a0 00 00 00''"
definition pat_middle_44 :: string where "pat_middle_44 = ''b9 30 00 00 00''"
definition pat_config_mce :: string where
  "pat_config_mce = ''
        0f 20 e1
        83 e1 40
    ''"
definition pat_la57_test :: string where
  "pat_la57_test = ''
        f7 05 *? ? ? ? 01 00 00 00
        74 06''"
definition pat_la57_assign :: string where "pat_la57_assign = ''81 c9 00 10 00 00''"
definition pat_mid_movcr4 :: string where
  "pat_mid_movcr4 = ''
        0f 22 e1''"
definition pat_mid_movcr4rax :: string where
  "pat_mid_movcr4rax = ''
        0f 22 e0''"
definition pat_mid_addphysbase :: string where
  "pat_mid_addphysbase = ''
        48 03 05 *? ? ? ?''"
definition pat_sev :: string where
  "pat_sev = ''56
        48 89 c7
        e8 ? ? ? ?
        5e''"
definition pat_movcr3 :: string where "pat_movcr3 = ''0f 22 d8''"
definition pat_flushtlb :: string where
  "pat_flushtlb = ''
        0f 20 e1
        48 89 c8
        48 81 f1 80 00 00 00
        0f 22 e1
        0f 22 e0
    ''"
definition pat_end :: string where
  "pat_end = ''
        48 c7 c0 ? ? ? ?
        ff e0
    ''"

section \<open>The signature table\<close>

text \<open>The table of \<open>find_kernel\<close> in its order: version, LA57 configuration, signature.\<close>

definition sigs_before_5 :: "(version_range \<times> bool \<times> signature) list" where
  "sigs_before_5 = [
     (vr_point_range 2 6 (22, 26), False, signature_new
       [pat_pae_pge_v2, pat_mid_movcr4rax, pat_no_startup_secondary_64,
        pat_mid_addphysbase, pat_movcr3]),
     (vr_point_range 2 6 (27, 39), False, signature_new
       [pat_middle_eax, pat_mid_movcr4rax, pat_no_startup_secondary_64,
        pat_mid_addphysbase, pat_movcr3]),
     (vr_minor_range 3 (0, 8), False, signature_new
       [pat_middle_eax, pat_mid_movcr4rax, pat_no_startup_secondary_64,
        pat_mid_addphysbase, pat_movcr3]),
     (vr_minor_range 3 (9, 19), False, signature_new
       [pat_no_startup_secondary_64, pat_middle, pat_mid_movcr4, pat_mid_addphysbase,
        pat_movcr3]),
     (vr_major_minor 4 4, False, signature_new
       [pat_no_startup_secondary_64, pat_middle_44, pat_mid_movcr4, pat_mid_addphysbase,
        pat_movcr3]),
     (vr_minor_range 4 (0, 12), False, signature_new
       [pat_no_startup_secondary_64, pat_middle, pat_mid_movcr4, pat_mid_addphysbase,
        pat_movcr3]),
     (vr_major_minor 4 13, True, signature_new
       [pat_no_startup_secondary_64, pat_middle, pat_la57_assign, pat_mid_movcr4,
        pat_mid_addphysbase, pat_movcr3]),
     (vr_minor_range 4 (14, 16), True, signature_new
       [pat_startup_secondary_64, pat_add_to_form_cr3, pat_middle, pat_la57_assign,
        pat_mid_movcr4, pat_mid_addphysbase, pat_movcr3]),
     (vr_minor_range 4 (17, 20), True, signature_new
       [pat_startup_secondary_64, pat_add_to_form_cr3, pat_middle, pat_la57_test,
        pat_la57_assign, pat_mid_movcr4, pat_mid_addphysbase, pat_movcr3]),
     (vr_major_only 4, False, signature_new
       [pat_startup_secondary_64, pat_add_to_form_cr3, pat_middle, pat_mid_movcr4,
        pat_mid_addphysbase, pat_movcr3])]"

definition sigs_5 :: "(version_range \<times> bool \<times> signature) list" where
  "sigs_5 = [
     (vr_minor_range 5 (0, 9), True, signature_new
       [pat_vcpu, pat_startup_secondary_64, pat_add_to_form_cr3, pat_middle,
        pat_la57_test, pat_la57_assign, pat_mid_movcr4, pat_mid_addphysbase, pat_movcr3]),
     (vr_minor_range 5 (0, 9), False, signature_new
       [pat_vcpu, pat_startup_secondary_64, pat_add_to_form_cr3, pat_middle,
        pat_mid_movcr4, pat_mid_addphysbase, pat_movcr3]),
     (vr_minor_range 5 (10, 255), True, signature_new
       [pat_vcpu_with_sev, pat_startup_secondary_64, pat_add_to_form_cr3, pat_middle,
        pat_la57_test, pat_la57_assign, pat_mid_movcr4, pat_mid_addphysbase, pat_sev,
        pat_movcr3, pat_end]),
     (vr_minor_range 5 (10, 255), False, signature_new
       [pat_vcpu_with_sev, pat_startup_secondary_64, pat_add_to_form_cr3, pat_middle,
        pat_mid_movcr4, pat_mid_addphysbase, pat_sev, pat_movcr3, pat_end]),
     (vr_minor_range 5 (17, 255), True, signature_new
       [pat_vcpu_wildcard, pat_startup_secondary_64, pat_add_to_form_cr3, pat_middle,
        pat_la57_test, pat_la57_assign, pat_mid_movcr4, pat_mid_addphysbase, pat_sev,
        pat_movcr3, pat_flushtlb, pat_end]),
     (vr_minor_range 5 (17, 255), False, signature_new
       [pat_vcpu_wildcard, pat_startup_secondary_64, pat_add_to_form_cr3, pat_middle,
        pat_mid_movcr4, pat_mid_addphysbase, pat_sev, pat_movcr3, pat_flushtlb, pat_end]),
     (vr_minor_range 5 (19, 255), True, signature_new
       [pat_vcpu_wildcard, pat_sme_me_mask_to_rax, pat_add_to_form_cr3, pat_config_mce,
        pat_middle_orl, pat_la57_test, pat_la57_assign, pat_mid_movcr4,
        pat_mid_addphysbase, pat_sev, pat_movcr3, pat_flushtlb, pat_end]),
     (vr_minor_range 5 (19, 255), False, signature_new
       [pat_vcpu_wildcard, pat_sme_me_mask_to_rax, pat_add_to_form_cr3, pat_config_mce,
        pat_middle_orl, pat_mid_movcr4, pat_mid_addphysbase, pat_sev, pat_movcr3,
        pat_flushtlb, pat_end])]"

definition sigs :: "(version_range \<times> bool \<times> signature) list" where
  "sigs = sigs_before_5 @ sigs_5"

section \<open>Token counts and dereference marks\<close>

text \<open>The tokens of each pattern, from which the shape of every table entry follows.\<close>

lemma pat_vcpu_tokens:
  "split_whitespace pat_vcpu = [''e8'', ''bb'', ''00'', ''00'', ''00'']"
  by code_simp

lemma pat_vcpu_with_sev_tokens:
  "split_whitespace pat_vcpu_with_sev = [''e8'', ''cb'', ''00'', ''00'', ''00'']"
  by code_simp

lemma pat_vcpu_wildcard_tokens:
  "split_whitespace pat_vcpu_wildcard = [''e8'', ''?b'', ''00'', ''00'', ''00'']"
  by code_simp

lemma pat_no_startup_secondary_64_tokens:
  "split_whitespace pat_no_startup_secondary_64 = [''48'', ''c7'', ''c0'', ''*?'', ''?'', ''?'', ''?'']"
  by code_simp

lemma pat_startup_secondary_64_tokens:
  "split_whitespace pat_startup_secondary_64 = [''56'', ''e8'', ''?'', ''?'', ''?'', ''?'', ''5e'']"
  by code_simp

lemma pat_add_to_form_cr3_tokens:
  "split_whitespace pat_add_to_form_cr3 = [''48'', ''05'', ''*?'', ''?'', ''?'', ''?'']"
  by code_simp

lemma pat_sme_me_mask_to_rax_tokens:
  "split_whitespace pat_sme_me_mask_to_rax = [''48'', ''8b'', ''04'', ''25'', ''?'', ''?'', ''?'', ''?'']"
  by code_simp

lemma pat_pae_pge_v2_tokens:
  "split_whitespace pat_pae_pge_v2 = [''48'', ''31'', ''c0'', ''48'', ''0f'', ''ba'', ''e8'', ''05'', ''48'', ''0f'', ''ba'', ''e8'', ''07'']"
  by code_simp

lemma pat_middle_orl_tokens:
  "split_whitespace pat_middle_orl = [''81'', ''c9'', ''a0'', ''00'', ''00'', ''00'']"
  by code_simp

lemma pat_middle_tokens:
  "split_whitespace pat_middle = [''b9'', ''a0'', ''00'', ''00'', ''00'']"
  by code_simp

lemma pat_middle_eax_tokens:
  "split_whitespace pat_middle_eax = [''b8'', ''a0'', ''00'', ''00'', ''00'']"
  by code_simp

lemma pat_middle_44_tokens:
  "split_whitespace pat_middle_44 = [''b9'', ''30'', ''00'', ''00'', ''00'']"
  by code_simp

lemma pat_config_mce_tokens:
  "split_whitespace pat_config_mce = [''0f'', ''20'', ''e1'', ''83'', ''e1'', ''40'']"
  by code_simp

lemma pat_la57_test_tokens:
  "split_whitespace pat_la57_test = [''f7'', ''05'', ''*?'', ''?'', ''?'', ''?'', ''01'', ''00'', ''00'', ''00'', ''74'', ''06'']"
  by code_simp

lemma pat_la57_assign_tokens:
  "split_whitespace pat_la57_assign = [''81'', ''c9'', ''00'', ''10'', ''00'', ''00'']"
  by code_simp

lemma pat_mid_movcr4_tokens:
  "split_whitespace pat_mid_movcr4 = [''0f'', ''22'', ''e1'']"
  by code_simp

lemma pat_mid_movcr4rax_tokens:
  "split_whitespace pat_mid_movcr4rax = [''0f'', ''22'', ''e0'']"
  by code_simp

lemma pat_mid_addphysbase_tokens:
  "split_whitespace pat_mid_addphysbase = [''48'', ''03'', ''05'', ''*?'', ''?'', ''?'', ''?'']"
  by code_simp

lemma pat_sev_tokens:
  "split_whitespace pat_sev = [''56'', ''48'', ''89'', ''c7'', ''e8'', ''?'', ''?'', ''?'', ''?'', ''5e'']"
  by code_simp

lemma pat_movcr3_tokens:
  "split_whitespace pat_movcr3 = [''0f'', ''22'', ''d8'']"
  by code_simp

lemma pat_flushtlb_tokens:
  "split_whitespace pat_flushtlb = [''0f'', ''20'', ''e1'', ''48'', ''89'', ''c8'', ''48'', ''81'', ''f1'', ''80'', ''00'', ''00'', ''00'', ''0f'', ''22'', ''e1'', ''0f'', ''22'', ''e0'']"
  by code_simp

lemma pat_end_tokens:
  "split_whitespace pat_end = [''48'', ''c7'', ''c0'', ''?'', ''?'', ''?'', ''?'', ''ff'', ''e0'']"
  by code_simp

lemmas pattern_tokens =
  pat_vcpu_tokens
  pat_vcpu_with_sev_tokens
  pat_vcpu_wildcard_tokens
  pat_no_startup_secondary_64_tokens
  pat_startup_secondary_64_tokens
  pat_add_to_form_cr3_tokens
  pat_sme_me_mask_to_rax_tokens
  pat_pae_pge_v2_tokens
  pat_middle_orl_tokens
  pat_middle_tokens
  pat_middle_eax_tokens
  pat_middle_44_tokens
  pat_config_mce_tokens
  pat_la57_test_tokens
  pat_la57_assign_tokens
  pat_mid_movcr4_tokens
  pat_mid_movcr4rax_tokens
  pat_mid_addphysbase_tokens
  pat_sev_tokens
  pat_movcr3_tokens
  pat_flushtlb_tokens
  pat_end_tokens

lemma signature_shape:
  "signature_len (signature_new frags) = length (tokens frags)"
  "deref_pos (signature_new frags) = starred 0 (tokens frags)"
  by (simp_all add: signature_len_def signature_new_tokens)

lemma star_first:
  "starts_with ''*'' (c # cs) \<longleftrightarrow> c = CHR ''*''"
  "\<not> starts_with ''*'' []"
  by (auto simp: starts_with_def)

lemma sigs_shape:
  "map (\<lambda>(v, la57, s). (la57, signature_len s, deref_pos s)) sigs =
    [(False, 33, [19, 26]), (False, 25, [11, 18]), (False, 25, [11, 18]), (False, 25, [3, 18]),
     (False, 25, [3, 18]), (False, 25, [3, 18]), (True, 31, [3, 24]), (True, 37, [9, 30]),
     (True, 49, [9, 20, 42]), (False, 31, [9, 24]), (True, 54, [14, 25, 47]), (False, 36, [14, 29]),
     (True, 73, [14, 25, 47]), (False, 55, [14, 29]), (True, 92, [14, 25, 47]), (False, 74, [14, 29]),
     (True, 100, [15, 33, 55]), (False, 82, [15, 37])]"
  unfolding sigs_def sigs_before_5_def sigs_5_def
  by (simp add: signature_shape tokens_def pattern_tokens starred_Cons star_first)

end
