(* ===== verification/Kallsyms.thy ===== *)
theory Kallsyms
  imports Rust_Num
begin

text \<open>
  \<open>memflow-linux/src/kallsyms.rs\<close>: the layout of the kernel's compressed symbol table in memory,
  the decoder of one symbol and the iterator over all of them.
\<close>

section \<open>State\<close>

definition KALLSYMS_TOKEN_INDEX_BYTES :: u64 where
  "KALLSYMS_TOKEN_INDEX_BYTES = 256 * 2"

datatype offset_encoding = RelativeUnsigned | LegacySigned

record kallsyms_layout =
  kl_offsets :: addr
  kl_relative_base_addr :: addr
  kl_encoding :: offset_encoding

record kallsyms_info =
  ks_offsets :: addr
  ks_relative_base :: addr
  ks_num_syms :: nat
  ks_names :: addr
  ks_token_table :: addr
  ks_token_index :: addr
  ks_offset_encoding :: offset_encoding

section \<open>Address helpers\<close>

definition align_down_address :: "addr \<Rightarrow> usize \<Rightarrow> addr" where
  "align_down_address a alignment = (let mask = sat_sub alignment 1 in a AND NOT mask)"

definition align_up_address :: "addr \<Rightarrow> usize \<Rightarrow> addr" where
  "align_up_address a alignment = (let mask = sat_sub alignment 1 in sat_add a mask AND NOT mask)"

definition looks_like_kernel_pointer :: "addr \<Rightarrow> bool" where
  "looks_like_kernel_pointer value \<longleftrightarrow> 0xffff800000000000 \<le> value \<and> value \<noteq> INVALID"

text \<open>An \<open>i32\<close> read is held as its 32 bits; \<open>sint\<close> is its value.\<close>

definition i32_abs :: "u32 \<Rightarrow> usize" where
  "i32_abs v = (if v <s 0 then ucast (- v) else ucast v)"

section \<open>Layout recovery\<close>

definition modern_layout :: "addr \<Rightarrow> usize \<Rightarrow> nat \<Rightarrow> kallsyms_layout option" where
  "modern_layout token_index alignment num_syms =
     (case checked_add token_index KALLSYMS_TOKEN_INDEX_BYTES of
        None \<Rightarrow> None
      | Some past_index \<Rightarrow>
          let offsets = align_up_address past_index alignment in
          case checked_mul (of_nat num_syms) 4 of
            None \<Rightarrow> None
          | Some bytes \<Rightarrow>
              (case checked_add offsets bytes of
                 None \<Rightarrow> None
               | Some past_offsets \<Rightarrow>
                   Some \<lparr> kl_offsets = offsets,
                          kl_relative_base_addr = align_up_address past_offsets alignment,
                          kl_encoding = RelativeUnsigned \<rparr>))"

definition legacy_layout :: "addr \<Rightarrow> usize \<Rightarrow> nat \<Rightarrow> kallsyms_layout option" where
  "legacy_layout names alignment num_syms =
     (case checked_sub names 1 of
        None \<Rightarrow> None
      | Some before_names \<Rightarrow>
          let num_syms_addr = align_down_address before_names alignment in
          case checked_sub num_syms_addr alignment of
            None \<Rightarrow> None
          | Some b \<Rightarrow>
              let relative_base_addr = align_down_address b alignment in
              case checked_mul (of_nat num_syms) 4 of
                None \<Rightarrow> None
              | Some bytes \<Rightarrow>
                  (case checked_sub relative_base_addr bytes of
                     None \<Rightarrow> None
                   | Some o' \<Rightarrow>
                       Some \<lparr> kl_offsets = align_down_address o' alignment,
                              kl_relative_base_addr = relative_base_addr,
                              kl_encoding = LegacySigned \<rparr>))"

text \<open>The address of entry \<open>idx\<close> under an encoding; \<open>sym_address\<close> and the plausibility check share it.\<close>

definition decode_entry ::
    "memview \<Rightarrow> offset_encoding \<Rightarrow> addr \<Rightarrow> addr \<Rightarrow> nat \<Rightarrow> addr result" where
  "decode_entry mem enc offsets relative_base idx =
     (case enc of
        RelativeUnsigned \<Rightarrow>
          rbind (strict (rd_u32 mem (offsets + of_nat idx * 4))) (\<lambda>offset.
            Inr (sat_add relative_base (ucast offset)))
      | LegacySigned \<Rightarrow>
          rbind (strict (rd_i32 mem (offsets + of_nat idx * 4))) (\<lambda>offset.
            if offset <s 0 then Inr (relative_base - 1 + i32_abs offset)
            else Inr (ucast offset)))"

fun plausible_from ::
    "memview \<Rightarrow> kallsyms_layout \<Rightarrow> addr \<Rightarrow> u64 option \<Rightarrow> nat list \<Rightarrow> bool" where
  "plausible_from mem layout relative_base prev [] = True"
| "plausible_from mem layout relative_base prev (idx # idxs) =
     (case decode_entry mem (kl_encoding layout) (kl_offsets layout) relative_base idx of
        Inl _ \<Rightarrow> False
      | Inr address \<Rightarrow>
          if \<not> looks_like_kernel_pointer address then False
          else if (case prev of None \<Rightarrow> False | Some p \<Rightarrow> address < p) then False
          else plausible_from mem layout relative_base (Some address) idxs)"

definition is_plausible_layout :: "memview \<Rightarrow> kallsyms_layout \<Rightarrow> nat \<Rightarrow> bool" where
  "is_plausible_layout mem layout num_syms =
     (case strict (rd_u64 mem (kl_relative_base_addr layout)) of
        Inl _ \<Rightarrow> False
      | Inr relative_base \<Rightarrow>
          if \<not> looks_like_kernel_pointer relative_base then False
          else plausible_from mem layout relative_base None [0 ..< min num_syms 4])"

definition resolve_layout ::
    "memview \<Rightarrow> addr \<Rightarrow> addr \<Rightarrow> usize \<Rightarrow> nat \<Rightarrow> kallsyms_layout option" where
  "resolve_layout mem names token_index alignment num_syms =
     (if num_syms = 0 then None
      else case modern_layout token_index alignment num_syms of
        None \<Rightarrow> None
      | Some modern \<Rightarrow>
          if is_plausible_layout mem modern num_syms then Some modern
          else case legacy_layout names alignment num_syms of
            None \<Rightarrow> None
          | Some legacy \<Rightarrow>
              if is_plausible_layout mem legacy num_syms then Some legacy else None)"

definition kallsyms_new ::
    "addr \<Rightarrow> addr \<Rightarrow> addr \<Rightarrow> usize \<Rightarrow> memview \<Rightarrow> kallsyms_info result" where
  "kallsyms_new names token_table token_index alignment mem =
     rbind (ok_or (OsLayer Offset) (checked_sub names 1)) (\<lambda>before_names.
     let num_syms_addr = align_down_address before_names alignment in
     rbind (strict (rd_u32 mem num_syms_addr)) (\<lambda>n.
     let num_syms = unat n in
     rbind (ok_or (OsLayer NotFound) (resolve_layout mem names token_index alignment num_syms)) (\<lambda>layout.
     rbind (strict (rd_u64 mem (kl_relative_base_addr layout))) (\<lambda>relative_base.
     Inr \<lparr> ks_offsets = kl_offsets layout, ks_relative_base = relative_base,
           ks_num_syms = num_syms, ks_names = names, ks_token_table = token_table,
           ks_token_index = token_index, ks_offset_encoding = kl_encoding layout \<rparr>))))"

section \<open>Symbols\<close>

definition decode_symbol_len_prefix :: "usize \<Rightarrow> usize option \<Rightarrow> (usize \<times> usize) option" where
  "decode_symbol_len_prefix first second =
     (if first AND 0x80 = 0 then Some (first, 1)
      else case second of
        None \<Rightarrow> None
      | Some s \<Rightarrow> Some ((first AND 0x7f) OR push_bit 7 s, 2))"

definition read_symbol_len :: "memview \<Rightarrow> addr \<Rightarrow> (usize \<times> usize) result" where
  "read_symbol_len mem a =
     rbind (strict (rd_u8 mem a)) (\<lambda>first.
       ok_or (OsLayer Encoding)
         (decode_symbol_len_prefix (ucast first)
            (map_option ucast (res_ok (strict (rd_u8 mem (a + 1)))))))"

text \<open>\<open>s.chars().skip(1)\<close> on the UTF-8 bytes of \<open>s\<close>.\<close>

definition skip_char :: "string \<Rightarrow> string" where
  "skip_char s = (if s = [] then [] else drop (snd (utf8_step (to_bytes s))) s)"

definition expand_token :: "kallsyms_info \<Rightarrow> memview \<Rightarrow> addr \<Rightarrow> nat \<Rightarrow> string result" where
  "expand_token k mem start i =
     rbind (strict (rd_u8 mem (start + of_nat i))) (\<lambda>byte.
     rbind (strict (rd_u16 mem (ks_token_index k + ucast byte * 2))) (\<lambda>idx.
     rbind (strict (rd_utf8_lossy mem (ks_token_table k + ucast idx) 4096)) (\<lambda>s.
     Inr (if i = 0 then skip_char s else s))))"

fun expand_tokens :: "kallsyms_info \<Rightarrow> memview \<Rightarrow> addr \<Rightarrow> string \<Rightarrow> nat list \<Rightarrow> string result" where
  "expand_tokens k mem start name [] = Inr name"
| "expand_tokens k mem start name (i # is) =
     rbind (expand_token k mem start i) (\<lambda>s. expand_tokens k mem start (name @ s) is)"

text \<open>\<open>expand_symbol\<close> gives the offset of the next name and the name it wrote to its buffer.\<close>

definition expand_symbol :: "kallsyms_info \<Rightarrow> memview \<Rightarrow> usize \<Rightarrow> (usize \<times> string) result" where
  "expand_symbol k mem offset =
     rbind (read_symbol_len mem (ks_names k + offset)) (\<lambda>(len, header_len).
     rbind (expand_tokens k mem (ks_names k + offset + header_len) [] [0 ..< unat len]) (\<lambda>name.
     Inr (offset + header_len + len, name)))"

definition sym_address :: "kallsyms_info \<Rightarrow> memview \<Rightarrow> nat \<Rightarrow> addr result" where
  "sym_address k mem idx =
     decode_entry mem (ks_offset_encoding k) (ks_offsets k) (ks_relative_base k) idx"

section \<open>The iterator\<close>

record kallsyms_iterator =
  cur_idx :: nat
  cur_name_off :: usize

definition iterator_new :: kallsyms_iterator where
  "iterator_new = \<lparr> cur_idx = 0, cur_name_off = 0 \<rparr>"

definition iterator_next ::
    "kallsyms_info \<Rightarrow> memview \<Rightarrow> kallsyms_iterator \<Rightarrow> ((addr \<times> string) \<times> kallsyms_iterator) option" where
  "iterator_next k mem it =
     (if ks_num_syms k \<le> cur_idx it then None
      else case sym_address k mem (cur_idx it) of
        Inl _ \<Rightarrow> None
      | Inr address \<Rightarrow>
          (case expand_symbol k mem (cur_name_off it) of
             Inl _ \<Rightarrow> None
           | Inr (next, name) \<Rightarrow>
               Some ((address, name), \<lparr> cur_idx = Suc (cur_idx it), cur_name_off = next \<rparr>)))"

lemma iterator_next_idx:
  "iterator_next k mem it = Some (x, it') \<Longrightarrow> cur_idx it < ks_num_syms k \<and> cur_idx it' = Suc (cur_idx it)"
  by (auto simp: iterator_next_def split: if_splits sum.splits)

text \<open>What a \<open>for\<close> loop over the iterator sees.\<close>

function syms_from :: "kallsyms_info \<Rightarrow> memview \<Rightarrow> kallsyms_iterator \<Rightarrow> (addr \<times> string) list" where
  "syms_from k mem it =
     (case iterator_next k mem it of None \<Rightarrow> [] | Some (x, it') \<Rightarrow> x # syms_from k mem it')"
  by pat_completeness auto
termination
  by (relation "measure (\<lambda>(k, mem, it). ks_num_syms k - cur_idx it)") (auto dest: iterator_next_idx)

declare syms_from.simps [simp del]

definition syms_iter :: "kallsyms_info \<Rightarrow> memview \<Rightarrow> (addr \<times> string) list" where
  "syms_iter k mem = syms_from k mem iterator_new"

section \<open>Layouts\<close>

lemma plausible_from_addresses:
  assumes "plausible_from mem layout rb prev idxs"
  shows "\<exists>as. list_all2 (\<lambda>i a. decode_entry mem (kl_encoding layout) (kl_offsets layout) rb i = Inr a
              \<and> looks_like_kernel_pointer a) idxs as
           \<and> sorted as \<and> (\<forall>p. prev = Some p \<longrightarrow> (\<forall>a \<in> set as. p \<le> a))"
  using assms
proof (induction idxs arbitrary: prev)
  case (Cons i idxs)
  from Cons.prems obtain a where a: "decode_entry mem (kl_encoding layout) (kl_offsets layout) rb i = Inr a"
      "looks_like_kernel_pointer a" "\<forall>p. prev = Some p \<longrightarrow> p \<le> a"
    and rest: "plausible_from mem layout rb (Some a) idxs"
    by (auto split: sum.splits if_splits option.splits)
  from Cons.IH [OF rest] obtain as where as: "list_all2 (\<lambda>i a. decode_entry mem (kl_encoding layout) (kl_offsets layout) rb i = Inr a
              \<and> looks_like_kernel_pointer a) idxs as" "sorted as" "\<forall>x \<in> set as. a \<le> x" by auto
  show ?case
    by (rule exI [of _ "a # as"]) (use a as in \<open>auto intro: order_trans\<close>)
qed simp

lemma resolve_layout_plausible:
  "resolve_layout mem names ti al n = Some l \<Longrightarrow> is_plausible_layout mem l n \<and> 0 < n"
  by (auto simp: resolve_layout_def split: if_splits option.splits)

lemma legacy_entry_not_kernel:
  assumes "decode_entry mem LegacySigned offs rb i = Inr a" "looks_like_kernel_pointer a"
  shows "\<exists>v. strict (rd_i32 mem (offs + of_nat i * 4)) = Inr v \<and> v <s 0"
proof -
  obtain v where v: "strict (rd_i32 mem (offs + of_nat i * 4)) = Inr v"
    using assms(1) by (auto simp: decode_entry_def result_simps)
  have "v <s 0"
  proof (rule ccontr)
    assume nn: "\<not> v <s 0"
    then have "a = ucast v" using assms(1) v by (simp add: decode_entry_def)
    then show False using assms(2) unat_u32_less [of v]
      by (simp add: looks_like_kernel_pointer_def word_le_nat_alt)
  qed
  with v show ?thesis by blast
qed

section \<open>The length prefix\<close>

definition len_first :: "usize \<Rightarrow> usize" where
  "len_first n = (if n < 0x80 then n else (n AND 0x7f) OR 0x80)"

lemma and_80: "(n :: usize) < 0x80 \<Longrightarrow> n AND 0x80 = 0"
proof -
  assume "n < 0x80"
  then have "take_bit 7 n = n"
    by (intro word_unat_eq_iff [THEN iffD2])
       (simp add: unsigned_take_bit_eq take_bit_nat_eq_self_iff word_less_nat_alt)
  then have "n = n AND mask 7" by (simp only: take_bit_eq_mask)
  then have "n AND 0x80 = (n AND mask 7) AND 0x80" by (rule arg_cong)
  also have "\<dots> = n AND (mask 7 AND 0x80)" by (rule and.assoc)
  also have "mask 7 AND (0x80 :: usize) = 0" by (simp add: mask_eq_exp_minus_1)
  finally show ?thesis by simp
qed

lemma decode_len_roundtrip:
  assumes "n < 0x8000"
  shows "decode_symbol_len_prefix (len_first n) (Some (drop_bit 7 n)) =
           Some (n, if n < 0x80 then 1 else 2)"
proof (cases "n < 0x80")
  case True
  then show ?thesis by (simp add: decode_symbol_len_prefix_def len_first_def and_80)
next
  case False
  have "((n AND 0x7f) OR 0x80) AND 0x80 \<noteq> (0 :: usize)"
  proof
    assume "((n AND 0x7f) OR 0x80) AND 0x80 = (0 :: usize)"
    then have "bit (((n AND 0x7f) OR 0x80) AND 0x80) 7 = bit (0 :: usize) 7" by simp
    then show False by (simp add: bit_simps)
  qed
  moreover have "((n AND 0x7f) OR 0x80) AND 0x7f = n AND (0x7f :: usize)"
  proof -
    have "(0x80 :: usize) AND 0x7f = 0" by simp
    then show ?thesis by (simp add: bit.conj_disj_distrib2 and.assoc)
  qed
  moreover have "(n AND 0x7f) OR push_bit 7 (drop_bit 7 n) = n"
  proof -
    have "(0x7f :: usize) = mask 7" by (simp add: mask_eq_exp_minus_1)
    then have "n AND 0x7f = take_bit 7 n" by (simp only: take_bit_eq_mask)
    moreover have "take_bit 7 n OR push_bit 7 (drop_bit 7 n) = n"
      by (rule bit_word_eqI) (auto simp: bit_simps, metis le_add_diff_inverse not_less)
    ultimately show ?thesis by simp
  qed
  ultimately show ?thesis using False
    by (simp add: decode_symbol_len_prefix_def len_first_def)
qed


section \<open>A table laid out in memory\<close>

text \<open>
  The abstract symbol table: one entry per symbol, its offset and the token bytes its name is
  compressed to. \<open>names_image\<close> is the byte string the kernel build writes at \<open>kallsyms_names\<close>.
\<close>

type_synonym sym_entry = "u32 \<times> bytes"

definition len_prefix :: "nat \<Rightarrow> bytes" where
  "len_prefix n = (if n < 0x80 then [of_nat n]
     else [ucast (len_first (of_nat n)), ucast (drop_bit 7 (of_nat n :: usize))])"

definition entry_image :: "sym_entry \<Rightarrow> bytes" where
  "entry_image e = len_prefix (length (snd e)) @ snd e"

definition names_image :: "sym_entry list \<Rightarrow> bytes" where
  "names_image es = concat (map entry_image es)"

fun expanded_name :: "(u8 \<Rightarrow> string) \<Rightarrow> bytes \<Rightarrow> string" where
  "expanded_name tok [] = []"
| "expanded_name tok (b # bs) = skip_char (tok b) @ concat (map tok bs)"

text \<open>The memory holds the table: the names, the offsets, and for every byte its token.\<close>

definition holds_bytes :: "memview \<Rightarrow> addr \<Rightarrow> bytes \<Rightarrow> bool" where
  "holds_bytes mem a bs \<longleftrightarrow> (\<forall>i < length bs. rd_u8 mem (a + of_nat i) = Full (bs ! i))"

definition holds_table :: "memview \<Rightarrow> kallsyms_info \<Rightarrow> (u8 \<Rightarrow> string) \<Rightarrow> sym_entry list \<Rightarrow> bool" where
  "holds_table mem k tok es \<longleftrightarrow>
     ks_num_syms k = length es \<and> ks_offset_encoding k = RelativeUnsigned
     \<and> holds_bytes mem (ks_names k) (names_image es)
     \<and> (\<forall>i < length es. rd_u32 mem (ks_offsets k + of_nat i * 4) = Full (fst (es ! i)))
     \<and> (\<forall>b. \<exists>idx. rd_u16 mem (ks_token_index k + ucast b * 2) = Full idx
              \<and> rd_utf8_lossy mem (ks_token_table k + ucast idx) 4096 = Full (tok b))
     \<and> (\<forall>e \<in> set es. length (snd e) < 0x8000)"

lemma holds_bytes_append:
  "holds_bytes mem a (xs @ ys) \<longleftrightarrow> holds_bytes mem a xs \<and> holds_bytes mem (a + of_nat (length xs)) ys"
proof -
  have "(\<forall>i < length xs + n. P i) \<longleftrightarrow> (\<forall>i < length xs. P i) \<and> (\<forall>i < n. P (length xs + i))" for n P
    by (auto, metis add_less_cancel_left le_add_diff_inverse not_less)
  then show ?thesis
    by (simp add: holds_bytes_def nth_append add.assoc)
qed

lemma expand_tokens_eq:
  assumes tok: "\<And>b. \<exists>idx. rd_u16 mem (ks_token_index k + ucast b * 2) = Full idx
              \<and> rd_utf8_lossy mem (ks_token_table k + ucast idx) 4096 = Full (tok b)"
    and "holds_bytes mem start bs" and "i + n = length bs" and "0 < i"
  shows "expand_tokens k mem start name [i ..< length bs] = Inr (name @ concat (map tok (drop i bs)))"
  using assms(2-)
proof (induction n arbitrary: i name)
  case 0
  then show ?case by simp
next
  case (Suc n)
  then have i: "i < length bs" by simp
  then have "rd_u8 mem (start + of_nat i) = Full (bs ! i)"
    using Suc.prems(1) by (simp add: holds_bytes_def)
  then have "expand_token k mem start i = Inr (tok (bs ! i))"
    using tok [of "bs ! i"] Suc.prems(3) by (auto simp: expand_token_def)
  moreover have "[i ..< length bs] = i # [Suc i ..< length bs]" using i by (rule upt_conv_Cons)
  moreover have "expand_tokens k mem start (name @ tok (bs ! i)) [Suc i ..< length bs]
      = Inr ((name @ tok (bs ! i)) @ concat (map tok (drop (Suc i) bs)))"
    using Suc.prems by (intro Suc.IH) auto
  ultimately show ?case using i by (simp add: Cons_nth_drop_Suc [symmetric])
qed

lemma expand_all_tokens:
  assumes tok: "\<And>b. \<exists>idx. rd_u16 mem (ks_token_index k + ucast b * 2) = Full idx
              \<and> rd_utf8_lossy mem (ks_token_table k + ucast idx) 4096 = Full (tok b)"
    and bytes: "holds_bytes mem start bs"
  shows "expand_tokens k mem start [] [0 ..< length bs] = Inr (expanded_name tok bs)"
proof (cases bs)
  case (Cons b bs')
  have "rd_u8 mem start = Full b" using bytes Cons by (auto simp: holds_bytes_def)
  then have "expand_token k mem start 0 = Inr (skip_char (tok b))"
    using tok [of b] by (auto simp: expand_token_def)
  moreover have "[0 ..< length bs] = 0 # [Suc 0 ..< length bs]"
    using Cons by (intro upt_conv_Cons) simp
  moreover have "expand_tokens k mem start (skip_char (tok b)) [Suc 0 ..< length bs]
      = Inr (skip_char (tok b) @ concat (map tok (drop (Suc 0) bs)))"
    using Cons by (intro expand_tokens_eq [OF tok bytes, where n = "length bs'"]) auto
  ultimately show ?thesis using Cons by simp
qed simp

lemma read_len_prefix:
  assumes "holds_bytes mem a (len_prefix n)" "n < 0x8000"
  shows "read_symbol_len mem a = Inr (of_nat n, of_nat (length (len_prefix n)))"
proof (cases "n < 0x80")
  case True
  then have "rd_u8 mem a = Full (of_nat n)" using assms by (auto simp: holds_bytes_def len_prefix_def)
  moreover have "ucast (of_nat n :: u8) = (of_nat n :: usize)"
    using True by (intro word_unat_eq_iff [THEN iffD2]) (simp add: unat_of_nat take_bit_nat_eq_self_iff)
  moreover have "(of_nat n :: usize) AND 0x80 = 0"
    using True by (intro and_80) (simp add: word_less_nat_alt unat_of_nat take_bit_nat_eq_self_iff)
  ultimately show ?thesis using True
    by (simp add: read_symbol_len_def decode_symbol_len_prefix_def len_prefix_def)
next
  case False
  let ?n = "of_nat n :: usize"
  have un: "unat ?n = n" using assms(2) by (simp add: unat_of_nat take_bit_nat_eq_self_iff)
  have u8: "ucast (ucast x :: u8) = x" if "unat x < 256" for x :: usize
    using that by (intro word_unat_eq_iff [THEN iffD2]) (simp add: unsigned_ucast_eq unsigned_take_bit_eq take_bit_nat_eq_self_iff)
  have d: "unat (drop_bit 7 ?n) < 256"
    by (simp only: unat_drop_bit_eq un) (use assms(2) in \<open>simp add: drop_bit_eq_div\<close>)
  have "unat ((?n AND 0x7f) OR 0x80) < 256"
  proof -
    have and_7f: "x AND 0x7f = take_bit 7 x" for x :: usize
    proof -
      have "(0x7f :: usize) = mask 7" by (simp add: mask_eq_exp_minus_1)
      then show ?thesis by (simp only: take_bit_eq_mask)
    qed
    let ?x = "(?n AND 0x7f) OR 0x80"
    have "?x = take_bit 8 ?x"
      by (simp only: take_bit_or and_7f take_bit_take_bit) simp
    then have "unat ?x = unat (take_bit 8 ?x)" by (rule arg_cong)
    also have "\<dots> = take_bit 8 (unat ?x)" by (rule unsigned_take_bit_eq)
    also have "\<dots> < 2 ^ 8" by (rule take_bit_nat_less_exp)
    finally show ?thesis by simp
  qed
  then have f: "unat (len_first ?n) < 256" using False un by (simp add: len_first_def word_less_nat_alt)
  have "rd_u8 mem a = Full (ucast (len_first ?n))" "rd_u8 mem (a + 1) = Full (ucast (drop_bit 7 ?n))"
    using assms(1) False by (auto simp: holds_bytes_def len_prefix_def all_less_Suc numeral_2_eq_2)
  moreover have "decode_symbol_len_prefix (len_first ?n) (Some (drop_bit 7 ?n)) = Some (?n, 2)"
    using decode_len_roundtrip [of ?n] assms(2) False un by (simp add: word_less_nat_alt)
  ultimately show ?thesis using False
    by (simp add: read_symbol_len_def u8 [OF f] u8 [OF d] len_prefix_def)
qed

lemma expand_symbol_entry:
  assumes tok: "\<And>b. \<exists>idx. rd_u16 mem (ks_token_index k + ucast b * 2) = Full idx
              \<and> rd_utf8_lossy mem (ks_token_table k + ucast idx) 4096 = Full (tok b)"
    and img: "holds_bytes mem (ks_names k + off) (entry_image e)" and len: "length (snd e) < 0x8000"
  shows "expand_symbol k mem off = Inr (off + of_nat (length (entry_image e)), expanded_name tok (snd e))"
proof -
  let ?n = "length (snd e)"
  have "read_symbol_len mem (ks_names k + off) = Inr (of_nat ?n, of_nat (length (len_prefix ?n)))"
    using img len by (intro read_len_prefix) (auto simp: entry_image_def holds_bytes_append)
  moreover have "expand_tokens k mem (ks_names k + off + of_nat (length (len_prefix ?n))) [] [0 ..< ?n]
      = Inr (expanded_name tok (snd e))"
    using img by (intro expand_all_tokens [OF tok]) (auto simp: entry_image_def holds_bytes_append)
  moreover have "unat (of_nat ?n :: usize) = ?n"
    using len by (simp add: unat_of_nat take_bit_nat_eq_self_iff)
  ultimately show ?thesis by (simp add: expand_symbol_def entry_image_def add.assoc)
qed

lemma syms_from_table:
  assumes table: "holds_table mem k tok (done @ es)"
  shows "syms_from k mem \<lparr> cur_idx = length done, cur_name_off = of_nat (length (names_image done)) \<rparr> =
           map (\<lambda>(off, bs). (sat_add (ks_relative_base k) (ucast off), expanded_name tok bs)) es"
  using table
proof (induction es arbitrary: "done")
  case Nil
  then show ?case by (subst syms_from.simps) (simp add: iterator_next_def holds_table_def)
next
  case (Cons e es)
  let ?it = "\<lparr> cur_idx = length done, cur_name_off = of_nat (length (names_image done)) \<rparr>"
  have tok: "\<And>b. \<exists>idx. rd_u16 mem (ks_token_index k + ucast b * 2) = Full idx
              \<and> rd_utf8_lossy mem (ks_token_table k + ucast idx) 4096 = Full (tok b)"
    and len: "length (snd e) < 0x8000"
    and n: "ks_num_syms k = length (done @ e # es)" "ks_offset_encoding k = RelativeUnsigned"
    and off: "rd_u32 mem (ks_offsets k + of_nat (length done) * 4) = Full (fst e)"
    and img: "holds_bytes mem (ks_names k + of_nat (length (names_image done))) (entry_image e)"
    using Cons.prems by (auto simp: holds_table_def names_image_def holds_bytes_append nth_append)
  have "iterator_next k mem ?it =
     Some ((sat_add (ks_relative_base k) (ucast (fst e)), expanded_name tok (snd e)),
       \<lparr> cur_idx = length (done @ [e]), cur_name_off = of_nat (length (names_image (done @ [e]))) \<rparr>)"
    using n off expand_symbol_entry [OF tok img len]
    by (simp add: iterator_next_def sym_address_def decode_entry_def names_image_def)
  with Cons.IH [of "done @ [e]"] Cons.prems show ?case
    by (subst syms_from.simps) (simp add: case_prod_beta)
qed


section \<open>Properties\<close>

text \<open>
  C4. Iterating over a symbol table laid out in memory the way the kernel build compresses it
  gives back every symbol, in order: its address is its offset from the relative base, its name the
  concatenation of its tokens with the type character in front skipped.
\<close>

theorem syms_iter_table:
  assumes "holds_table mem k tok es"
  shows "syms_iter k mem =
    map (\<lambda>(off, bs). (sat_add (ks_relative_base k) (ucast off), expanded_name tok bs)) es"
  using syms_from_table [of mem k tok "[]" es] assms
  by (simp add: syms_iter_def iterator_new_def names_image_def)

definition sample_table_view :: memview where
  "sample_table_view = empty_view
     \<lparr> rd_u8 := (\<lambda>a. if a = 0x1000 then Full 2 else if a = 0x1001 then Full 1
                   else if a = 0x1002 then Full 2 else Fail (OsLayer NotFound)),
       rd_u16 := (\<lambda>a. Full (ucast (a - 0x3000))),
       rd_u32 := (\<lambda>a. if a = 0x4000 then Full 0x10 else Fail (OsLayer NotFound)),
       rd_utf8_lossy := (\<lambda>a n. if a = 0x2002 then Full ''Tst'' else Full ''art'') \<rparr>"

definition sample_kallsyms :: kallsyms_info where
  "sample_kallsyms = \<lparr> ks_offsets = 0x4000, ks_relative_base = 0xffffffff81000000, ks_num_syms = 1,
     ks_names = 0x1000, ks_token_table = 0x2000, ks_token_index = 0x3000,
     ks_offset_encoding = RelativeUnsigned \<rparr>"

lemma sample_table_holds:
  "holds_table sample_table_view sample_kallsyms (\<lambda>b. if b = 1 then ''Tst'' else ''art'') [(0x10, [1, 2])]"
proof -
  have "ucast (ucast (ucast b * 2 :: addr) :: u16) = (ucast b * 2 :: addr)" for b :: u8
    by (intro word_unat_eq_iff [THEN iffD2])
       (use unat_u8_less [of b] in \<open>simp add: unsigned_ucast_eq unsigned_take_bit_eq unat_word_ariths
         take_bit_nat_eq_self_iff\<close>)
  moreover have "ucast b * 2 = (2 :: addr) \<longleftrightarrow> b = 1" for b :: u8
    by (simp add: word_unat_eq_iff unat_word_ariths) (use unat_u8_less [of b] in auto)
  ultimately show ?thesis
    by (auto simp: holds_table_def sample_table_view_def sample_kallsyms_def holds_bytes_def
        names_image_def entry_image_def len_prefix_def all_less_Suc numeral_2_eq_2 numeral_3_eq_3)
qed

theorem syms_iter_table_witness:
  "syms_iter sample_kallsyms sample_table_view = [(0xffffffff81000010, ''start'')]"
proof -
  from syms_iter_table [OF sample_table_holds]
  have "syms_iter sample_kallsyms sample_table_view =
     [(sat_add 0xffffffff81000000 0x10, skip_char ''Tst'' @ ''art'')]"
    by (simp add: sample_kallsyms_def)
  moreover have "sat_add (0xffffffff81000000 :: addr) 0x10 = 0xffffffff81000010" by code_simp
  moreover have "skip_char ''Tst'' = ''st''" by code_simp
  ultimately show ?thesis by simp
qed

text \<open>
  C32. A descriptor is only built for a table that looks real: it has a symbol, its relative base
  is a kernel address, and the addresses of its first four symbols resolve, are kernel addresses
  and do not decrease.
\<close>

theorem kallsyms_new_sound:
  assumes "kallsyms_new names tt ti al mem = Inr k"
  shows "0 < ks_num_syms k \<and> looks_like_kernel_pointer (ks_relative_base k)
    \<and> (\<exists>as. sorted as \<and> list_all2 (\<lambda>i a. sym_address k mem i = Inr a \<and> looks_like_kernel_pointer a)
          [0 ..< min (ks_num_syms k) 4] as)"
proof -
  obtain l rb n where l: "resolve_layout mem names ti al n = Some l"
    and rb: "strict (rd_u64 mem (kl_relative_base_addr l)) = Inr rb"
    and k: "k = \<lparr> ks_offsets = kl_offsets l, ks_relative_base = rb, ks_num_syms = n, ks_names = names,
      ks_token_table = tt, ks_token_index = ti, ks_offset_encoding = kl_encoding l \<rparr>"
    using assms by (auto simp: kallsyms_new_def Let_def result_simps)
  from resolve_layout_plausible [OF l] rb
  have n: "0 < n" "looks_like_kernel_pointer rb"
    and p: "plausible_from mem l rb None [0 ..< min n 4]"
    by (auto simp: is_plausible_layout_def split: if_splits)
  from plausible_from_addresses [OF p] n show ?thesis
    by (auto simp: k sym_address_def)
qed

definition sample_relative_view :: memview where
  "sample_relative_view = empty_view
     \<lparr> rd_u32 := (\<lambda>_. Full 1), rd_u64 := (\<lambda>_. Full 0xffffffff81000000) \<rparr>"

theorem kallsyms_new_sound_witness:
  "\<exists>k. kallsyms_new 0x1000 0x2000 0x3000 8 sample_relative_view = Inr k \<and> 0 < ks_num_syms k
    \<and> looks_like_kernel_pointer (ks_relative_base k)"
proof -
  have "kallsyms_new 0x1000 0x2000 0x3000 8 sample_relative_view =
    Inr \<lparr> ks_offsets = 0x3200, ks_relative_base = 0xffffffff81000000, ks_num_syms = 1,
      ks_names = 0x1000, ks_token_table = 0x2000, ks_token_index = 0x3000,
      ks_offset_encoding = RelativeUnsigned \<rparr>"
    by code_simp
  from kallsyms_new_sound [OF this] this show ?thesis by blast
qed

text \<open>
  C37. The legacy layout is only accepted when every one of its first four entries is negative.
  A table whose first symbols are absolute per-CPU values, which this encoding stores as
  non-negative numbers, is refused although \<open>sym_address\<close> decodes such entries.
\<close>

theorem legacy_layout_rejects_absolute_entries:
  assumes "is_plausible_layout mem l n" "kl_encoding l = LegacySigned" "i < min n 4"
  shows "\<exists>v. strict (rd_i32 mem (kl_offsets l + of_nat i * 4)) = Inr v \<and> v <s 0"
proof -
  obtain rb where "plausible_from mem l rb None [0 ..< min n 4]"
    using assms(1) by (auto simp: is_plausible_layout_def split: sum.splits if_splits)
  from plausible_from_addresses [OF this] assms(3)
  obtain a where "decode_entry mem (kl_encoding l) (kl_offsets l) rb i = Inr a" "looks_like_kernel_pointer a"
    by (fastforce simp: list_all2_conv_all_nth)
  with assms(2) show ?thesis by (metis legacy_entry_not_kernel)
qed

definition sample_legacy_view :: memview where
  "sample_legacy_view = empty_view
     \<lparr> rd_i32 := (\<lambda>_. Full 0xffffffff), rd_u64 := (\<lambda>_. Full 0xffffffff81000000) \<rparr>"

theorem legacy_layout_rejects_absolute_entries_witness:
  "\<exists>v. strict (rd_i32 sample_legacy_view 0x800) = Inr v \<and> v <s 0"
proof -
  let ?l = "\<lparr> kl_offsets = 0x800, kl_relative_base_addr = 0x900, kl_encoding = LegacySigned \<rparr>"
  have "is_plausible_layout sample_legacy_view ?l 1"
    by (simp add: is_plausible_layout_def sample_legacy_view_def decode_entry_def
        looks_like_kernel_pointer_def i32_abs_def word_sless_alt)
  from legacy_layout_rejects_absolute_entries [OF this, of 0] show ?thesis by simp
qed

end
