(* ===== verification/Physical.thy ===== *)
theory Physical
  imports Rust_Num
begin

text \<open>
  The connector and the translator are memflow's. The model takes a connector as a record of what
  the code asks it: its metadata, its physical view, the virtual view through a page-table root
  (\<open>VirtualDma\<close> with \<open>x64::new_translator(cr3)\<close>), and the two address translations. The theorems
  assume nothing about the answers unless a named hypothesis says so.
\<close>

record physmem =
  pm_max_address :: addr
  pm_real_size :: u64
  pm_ideal_batch_size :: "u32"
  pm_readonly :: bool
  pm_view :: memview
  pm_virt :: "addr \<Rightarrow> memview"
  pm_virt_to_phys :: "addr \<Rightarrow> addr \<Rightarrow> addr result"
  pm_phys_to_virt :: "addr \<Rightarrow> addr \<Rightarrow> addr option"

definition pm_total :: "physmem \<Rightarrow> u64" where
  "pm_total pm = sat_add (pm_max_address pm) 1"

section \<open>Scanning memory in overlapping chunks\<close>

text \<open>
  Several loops of the program read memory in windows of at most \<open>chunk\<close> bytes, advance by
  \<open>chunk - overlap\<close> and stop at the first window that is shorter than the pattern. The interface
  they share: where the window after \<open>base\<close> starts and how long the window at \<open>base\<close> is. What they
  rely on: no occurrence of a pattern of at most \<open>overlap + 1\<close> bytes falls between two windows.
\<close>

locale chunk_scan =
  fixes total :: nat and width :: "nat \<Rightarrow> nat" and advance :: "nat \<Rightarrow> nat" and overlap :: nat
  assumes width_in: "base < total \<Longrightarrow> base + width base \<le> total"
    and advance_overlap: "base < total \<Longrightarrow> base + width base < total \<Longrightarrow>
      advance base + overlap = base + width base"
    and advance_progress: "base < total \<Longrightarrow> base + width base < total \<Longrightarrow> base < advance base"
begin

text \<open>
  From a window that starts at or before \<open>p\<close>, the scan reaches one that holds the whole pattern:
  either this window does, or it is not the last and the next one still starts at or before \<open>p\<close>.
\<close>

lemma covered_or_next:
  assumes "base < total" "base \<le> p" "p + n \<le> total" "0 < n" "n \<le> Suc overlap"
  shows "p + n \<le> base + width base \<or>
    base + width base < total \<and> base < advance base \<and> advance base < total \<and> advance base \<le> p"
proof (cases "p + n \<le> base + width base")
  case False
  then have last: "base + width base < total" using assms(3) by linarith
  with advance_overlap [OF assms(1) last] advance_progress [OF assms(1) last] False assms(5)
  show ?thesis by linarith
qed simp

end

end
