(* ===== verification/Kallsyms_Find.thy ===== *)
theory Kallsyms_Find
  imports Kallsyms Physical
begin

text \<open>
  \<open>memflow-linux/src/kernel/x64.rs\<close>, second part: locating the symbol table of a kernel whose symbols
  are unknown, by walking the disassembly of its text. The disassembler (\<open>iced_x86\<close>) is outside the
  repository: it is a parameter \<open>decode\<close> that turns an address and the bytes there into the
  instructions they hold, each with the properties the code asks of it.
\<close>

section \<open>Instructions\<close>

datatype mnemonic = Push | Mov | Ret | Jmp | OtherMnemonic

datatype register = RAX | R14 | RIP | OtherRegister

record instr =
  in_ip :: u64
  in_mnemonic :: mnemonic
  in_is_call_near :: bool
  in_near_branch_target :: u64
  in_op0_register :: register
  in_op1_immediate32to64 :: "u64 option"
  in_memory_base :: register
  in_memory_displacement64 :: u64

type_synonym decoder = "addr \<Rightarrow> bytes \<Rightarrow> instr list"

section \<open>The first call before the format string\<close>

definition target_str :: string where
  "target_str = ''+%#lx/%#lx''"

definition is_format_string :: "memview \<Rightarrow> addr \<Rightarrow> bool" where
  "is_format_string mem target =
     (case checked_add target (of_nat (length target_str) + 1) of
        None \<Rightarrow> False
      | Some _ \<Rightarrow>
          (case strict (rd_utf8_lossy mem target (length target_str + 1)) of
             Inl _ \<Rightarrow> False
           | Inr read_str \<Rightarrow> starts_with target_str read_str))"

fun lookup_walk :: "memview \<Rightarrow> addr option \<Rightarrow> instr list \<Rightarrow> addr result" where
  "lookup_walk mem prev_call [] = Inl (OsLayer NotFound)"
| "lookup_walk mem prev_call (i # is) =
     (if in_is_call_near i \<and> prev_call = None then
        lookup_walk mem (Some (in_near_branch_target i)) is
      else if in_mnemonic i = Push \<and> in_op0_register i = R14 then
        lookup_walk mem None is
      else if in_mnemonic i = Mov then
        (case in_op1_immediate32to64 i of
           None \<Rightarrow> lookup_walk mem prev_call is
         | Some target \<Rightarrow>
             if is_format_string mem target then
               (case prev_call of
                  Some c \<Rightarrow> Inr c
                | None \<Rightarrow> lookup_walk mem prev_call is)
             else lookup_walk mem prev_call is)
      else lookup_walk mem prev_call is)"

definition find_kallsyms_lookup :: "decoder \<Rightarrow> memview \<Rightarrow> bytes \<Rightarrow> addr \<Rightarrow> addr result" where
  "find_kallsyms_lookup decode mem buf virt_text = lookup_walk mem None (decode virt_text buf)"

section \<open>Recognising the name expander\<close>

fun expand_probe :: "u64 \<Rightarrow> instr list \<Rightarrow> addr result" where
  "expand_probe prev_displacement [] = Inl OsLayerOnly"
| "expand_probe prev_displacement (i # is) =
     (let displacement = in_memory_displacement64 i;
          hit = (in_memory_base i = RAX \<and> displacement \<noteq> 0
                 \<and> (displacement = prev_displacement \<or> displacement = sat_add prev_displacement 1));
          prev' = (if in_memory_base i = RAX then displacement else prev_displacement)
      in if hit then Inr prev_displacement
         else if in_mnemonic i = Ret then Inl OsLayerOnly
         else if in_near_branch_target i \<noteq> 0 then Inl OsLayerOnly
         else expand_probe prev' is)"

definition is_kallsyms_expand_symbol :: "decoder \<Rightarrow> memview \<Rightarrow> addr \<Rightarrow> addr result" where
  "is_kallsyms_expand_symbol decode mem address =
     rbind (data_part (rd_raw mem address 4096)) (\<lambda>buf. expand_probe 0 (decode address buf))"

fun expand_call_walk :: "decoder \<Rightarrow> memview \<Rightarrow> u64 \<Rightarrow> instr list \<Rightarrow> (addr \<times> addr) result" where
  "expand_call_walk decode mem furthest_jump [] = Inl (OsLayer NotFound)"
| "expand_call_walk decode mem furthest_jump (i # is) =
     (if in_mnemonic i = Ret \<and> furthest_jump \<le> in_ip i then Inl (OsLayer NotFound)
      else if in_is_call_near i then
        (case is_kallsyms_expand_symbol decode mem (in_near_branch_target i) of
           Inr a \<Rightarrow> Inr (in_near_branch_target i, a)
         | Inl _ \<Rightarrow> expand_call_walk decode mem furthest_jump is)
      else if in_ip i < in_near_branch_target i \<and> in_mnemonic i \<noteq> Jmp then
        expand_call_walk decode mem (max furthest_jump (in_near_branch_target i)) is
      else if in_mnemonic i = Jmp then Inl (OsLayer NotFound)
      else expand_call_walk decode mem furthest_jump is)"

definition find_kallsyms_expand_symbol ::
    "decoder \<Rightarrow> memview \<Rightarrow> bytes \<Rightarrow> addr \<Rightarrow> (addr \<times> addr) result" where
  "find_kallsyms_expand_symbol decode mem buf kallsyms_lookup =
     expand_call_walk decode mem 0 (decode kallsyms_lookup buf)"

section \<open>The three tables\<close>

text \<open>
  Each phase continues where the one before stopped in the same instruction stream and hands on the
  last displacement it saw; \<open>None\<close> is a phase that ends without a match.
\<close>

fun names_phase :: "addr \<Rightarrow> instr list \<Rightarrow> (addr \<times> addr \<times> instr list) option" where
  "names_phase prev_displacement [] = None"
| "names_phase prev_displacement (i # is) =
     (let displacement = in_memory_displacement64 i;
          hit = (in_memory_base i = RAX \<and> displacement \<noteq> NULL
                 \<and> (displacement = prev_displacement \<or> displacement = prev_displacement + 1));
          prev' = (if in_memory_base i = RAX then displacement else prev_displacement)
      in if hit then Some (displacement, prev_displacement, is)
         else if in_mnemonic i = Ret then None
         else if in_near_branch_target i \<noteq> 0 then None
         else names_phase prev' is)"

text \<open>\<open>Address - Address\<close> is a signed difference (\<open>imem\<close>), compared as a signed number.\<close>

definition within_tables :: "addr \<Rightarrow> addr \<Rightarrow> bool" where
  "within_tables names displacement \<longleftrightarrow> names < displacement \<and> displacement - names <s mb 32"

fun token_index_phase :: "addr \<Rightarrow> addr \<Rightarrow> instr list \<Rightarrow> (addr \<times> addr \<times> instr list) option" where
  "token_index_phase names prev_displacement [] = None"
| "token_index_phase names prev_displacement (i # is) =
     (let displacement = in_memory_displacement64 i;
          hit = (in_memory_base i \<noteq> RIP \<and> within_tables names displacement
                 \<and> displacement \<noteq> prev_displacement \<and> displacement \<noteq> prev_displacement + 1);
          prev' = (if in_memory_base i \<noteq> RIP then displacement else prev_displacement)
      in if hit then Some (displacement, prev_displacement, is)
         else if in_mnemonic i = Ret then None
         else token_index_phase names prev' is)"

fun token_table_phase :: "addr \<Rightarrow> addr \<Rightarrow> instr list \<Rightarrow> addr option" where
  "token_table_phase names prev_displacement [] = None"
| "token_table_phase names prev_displacement (i # is) =
     (let displacement = in_memory_displacement64 i
      in if within_tables names displacement \<and> displacement \<noteq> prev_displacement then Some displacement
         else if in_mnemonic i = Ret then None
         else token_table_phase names displacement is)"

definition parse_expand_symbol ::
    "decoder \<Rightarrow> addr \<Rightarrow> memview \<Rightarrow> nat \<Rightarrow> (addr \<times> addr \<times> addr) result" where
  "parse_expand_symbol decode entry mem len =
     rbind (strict (rd_raw mem entry len)) (\<lambda>buf.
     rbind (ok_or (OsLayer NotFound) (names_phase NULL (decode entry buf))) (\<lambda>(names, prev, rest).
     rbind (ok_or (OsLayer NotFound) (token_index_phase names prev rest)) (\<lambda>(token_index, prev2, rest2).
     rbind (ok_or (OsLayer NotFound) (token_table_phase names prev2 rest2)) (\<lambda>token_table.
     Inr (names, token_index, token_table)))))"

text \<open>
  \<open>buf[(kallsyms_lookup - virt_text) as usize ..]\<close> panics when the slice starts past the buffer, which
  it does for a call target below the text base too.
\<close>

definition slice_from :: "u64 \<Rightarrow> bytes \<Rightarrow> bytes result" where
  "slice_from start buf = (if unat start \<le> length buf then Inr (drop (unat start) buf) else Inl Panic)"

definition find_kallsyms :: "decoder \<Rightarrow> physmem \<Rightarrow> addr \<Rightarrow> addr \<Rightarrow> kallsyms_info result" where
  "find_kallsyms decode pm cr3 virt_text =
     (let mem = pm_virt pm cr3 in
     rbind (strict (rd_raw mem virt_text (2 * 1048576))) (\<lambda>buf.
     rbind (find_kallsyms_lookup decode mem buf virt_text) (\<lambda>kallsyms_lookup.
     rbind (slice_from (kallsyms_lookup - virt_text) buf) (\<lambda>tail.
     rbind (find_kallsyms_expand_symbol decode mem tail kallsyms_lookup) (\<lambda>(expand, _).
     rbind (parse_expand_symbol decode expand mem 4096) (\<lambda>(names, token_index, token_table).
     kallsyms_new names token_table token_index 8 mem))))))"

section \<open>Properties\<close>

definition is_prologue :: "instr \<Rightarrow> bool" where
  "is_prologue i \<longleftrightarrow> in_mnemonic i = Push \<and> in_op0_register i = R14"

definition loads_format :: "memview \<Rightarrow> instr \<Rightarrow> bool" where
  "loads_format mem i \<longleftrightarrow> in_mnemonic i = Mov \<and>
     (\<exists>t. in_op1_immediate32to64 i = Some t \<and> is_format_string mem t)"

text \<open>
  The contract of the walk: instruction \<open>m\<close> loads the format string, instruction \<open>k\<close> before it (or
  the call remembered in \<open>p\<close>) is a call of \<open>c\<close>, and no function starts between the two.
\<close>

definition call_before_format :: "memview \<Rightarrow> addr \<Rightarrow> addr option \<Rightarrow> instr list \<Rightarrow> bool" where
  "call_before_format mem c p is \<longleftrightarrow> (\<exists>m < length is. loads_format mem (is ! m) \<and>
    (p = Some c \<and> (\<forall>j < m. \<not> is_prologue (is ! j)) \<or>
     (\<exists>k < m. in_is_call_near (is ! k) \<and> in_near_branch_target (is ! k) = c \<and>
        (\<forall>j. k < j \<and> j < m \<longrightarrow> \<not> is_prologue (is ! j)))))"

lemma call_before_format_hit:
  "loads_format mem i \<Longrightarrow> call_before_format mem c (Some c) (i # is)"
  unfolding call_before_format_def by (intro exI [of _ 0]) simp

lemma call_before_format_step:
  assumes "call_before_format mem c q is"
    and "q = None \<or> q = p \<and> \<not> is_prologue i
      \<or> in_is_call_near i \<and> q = Some (in_near_branch_target i)"
  shows "call_before_format mem c p (i # is)"
proof -
  from assms(1) obtain m where m: "m < length is" "loads_format mem (is ! m)"
    and d: "q = Some c \<and> (\<forall>j < m. \<not> is_prologue (is ! j)) \<or>
     (\<exists>k < m. in_is_call_near (is ! k) \<and> in_near_branch_target (is ! k) = c \<and>
        (\<forall>j. k < j \<and> j < m \<longrightarrow> \<not> is_prologue (is ! j)))"
    unfolding call_before_format_def by blast
  from d assms(2) consider
      "p = Some c" "\<not> is_prologue i" "\<forall>j < m. \<not> is_prologue (is ! j)"
    | "in_is_call_near i" "in_near_branch_target i = c" "\<forall>j < m. \<not> is_prologue (is ! j)"
    | k where "k < m" "in_is_call_near (is ! k)" "in_near_branch_target (is ! k) = c"
        "\<forall>j. k < j \<and> j < m \<longrightarrow> \<not> is_prologue (is ! j)" by fastforce
  then show ?thesis
  proof cases
    case 1
    with m show ?thesis unfolding call_before_format_def
      by (intro exI [of _ "Suc m"]) (auto simp: nth_Cons split: nat.splits)
  next
    case 2
    with m show ?thesis unfolding call_before_format_def
      by (intro exI [of _ "Suc m"] conjI disjI2 exI [of _ 0]) (auto simp: nth_Cons split: nat.splits)
  next
    case 3
    with m show ?thesis unfolding call_before_format_def
      by (intro exI [of _ "Suc m"] conjI disjI2 exI [of _ "Suc k"]) (auto simp: nth_Cons split: nat.splits)
  qed
qed

lemma lookup_walk_sound:
  "lookup_walk mem p is = Inr c \<Longrightarrow> call_before_format mem c p is"
proof (induction "is" arbitrary: p)
  case (Cons i "is")
  note step = call_before_format_step
  consider (call) "in_is_call_near i" "p = None"
    | (start) "\<not> (in_is_call_near i \<and> p = None)" "is_prologue i"
    | (hit) "\<not> (in_is_call_near i \<and> p = None)" "\<not> is_prologue i" "loads_format mem i" "p = Some c"
    | (other) "\<not> (in_is_call_near i \<and> p = None)" "\<not> is_prologue i"
        "\<not> (loads_format mem i \<and> p = Some c)" by blast
  then show ?case
  proof cases
    case call
    with Cons show ?thesis by (intro step [where q = "Some (in_near_branch_target i)"]) simp_all
  next
    case start
    then have "lookup_walk mem None is = Inr c"
      using Cons.prems by (auto simp: is_prologue_def)
    from Cons.IH [OF this] show ?thesis by (rule step) simp
  next
    case hit
    then show ?thesis by (simp add: call_before_format_hit)
  next
    case other
    then have "lookup_walk mem p is = Inr c"
      using Cons.prems by (auto simp: is_prologue_def loads_format_def split: option.splits if_splits)
    from Cons.IH [OF this] other(2) show ?thesis by (blast intro: step)
  qed
qed simp

text \<open>
  C33. When \<open>find_kallsyms_lookup\<close> succeeds, the address it returns is the target of a near call
  of the decoded text that is followed, with no \<open>push r14\<close> (a function start) in between, by a
  \<open>mov\<close> of the address of a string that begins with \<open>+%#lx/%#lx\<close>.
\<close>

theorem find_kallsyms_lookup_sound:
  assumes "find_kallsyms_lookup decode mem buf text = Inr c"
  shows "\<exists>k m. k < m \<and> m < length (decode text buf) \<and>
    in_is_call_near (decode text buf ! k) \<and> in_near_branch_target (decode text buf ! k) = c \<and>
    loads_format mem (decode text buf ! m) \<and>
    (\<forall>j. k < j \<and> j < m \<longrightarrow> \<not> is_prologue (decode text buf ! j))"
  using lookup_walk_sound [OF assms [unfolded find_kallsyms_lookup_def]]
  unfolding call_before_format_def by auto

definition sample_instr :: "u64 \<Rightarrow> instr" where
  "sample_instr ip = \<lparr> in_ip = ip, in_mnemonic = OtherMnemonic, in_is_call_near = False,
     in_near_branch_target = 0, in_op0_register = OtherRegister, in_op1_immediate32to64 = None,
     in_memory_base = OtherRegister, in_memory_displacement64 = 0 \<rparr>"

definition sample_text :: "instr list" where
  "sample_text =
    [(sample_instr 0x1000)\<lparr>in_mnemonic := Push, in_op0_register := R14\<rparr>,
     (sample_instr 0x1002)\<lparr>in_is_call_near := True, in_near_branch_target := 0x2000\<rparr>,
     (sample_instr 0x1007)\<lparr>in_mnemonic := Mov, in_op1_immediate32to64 := Some 0x3000\<rparr>]"

definition sample_strings :: memview where
  "sample_strings = empty_view\<lparr>rd_utf8_lossy :=
     (\<lambda>a n. if a = 0x3000 then Full ''+%#lx/%#lx'' else Fail (Connector 1))\<rparr>"

lemma sample_lookup: "find_kallsyms_lookup (\<lambda>_ _. sample_text) sample_strings [] 0x1000 = Inr 0x2000"
  by (simp add: find_kallsyms_lookup_def sample_text_def sample_instr_def is_format_string_def
      sample_strings_def target_str_def checked_add_def starts_with_def)

theorem find_kallsyms_lookup_sound_witness:
  "\<exists>k m. k < m \<and> m < length sample_text \<and>
    in_is_call_near (sample_text ! k) \<and> in_near_branch_target (sample_text ! k) = 0x2000 \<and>
    loads_format sample_strings (sample_text ! m) \<and>
    (\<forall>j. k < j \<and> j < m \<longrightarrow> \<not> is_prologue (sample_text ! j))"
  by (rule find_kallsyms_lookup_sound [OF sample_lookup])

lemma names_phase_sound:
  "names_phase p is = Some (n, q, rest) \<Longrightarrow>
    n \<noteq> NULL \<and> (n = q \<or> n = q + 1) \<and> length rest < length is"
proof (induction "is" arbitrary: p)
  case (Cons i "is")
  then show ?case by (force simp: Let_def split: if_splits)
qed simp

lemma token_index_phase_sound:
  "token_index_phase names p is = Some (t, q, rest) \<Longrightarrow>
    within_tables names t \<and> t \<noteq> q \<and> t \<noteq> q + 1 \<and> length rest < length is"
proof (induction "is" arbitrary: p)
  case (Cons i "is")
  then show ?case by (force simp: Let_def split: if_splits)
qed simp

lemma token_table_phase_sound:
  "token_table_phase names p is = Some t \<Longrightarrow> within_tables names t"
proof (induction "is" arbitrary: p)
  case (Cons i "is")
  then show ?case by (force simp: Let_def split: if_splits)
qed simp

text \<open>
  When \<open>parse_expand_symbol\<close> succeeds, \<open>kallsyms_names\<close> is not null and both token tables
  lie above it, at a signed distance below 32 MiB.
\<close>

theorem parse_expand_symbol_sound:
  assumes "parse_expand_symbol decode entry mem len = Inr (names, token_index, token_table)"
  shows "names \<noteq> NULL \<and> names < token_index \<and> token_index - names <s mb 32
    \<and> names < token_table \<and> token_table - names <s mb 32"
proof -
  from assms obtain buf p r q r2 where
    "names_phase NULL (decode entry buf) = Some (names, p, r)"
    "token_index_phase names p r = Some (token_index, q, r2)"
    "token_table_phase names q r2 = Some token_table"
    by (auto simp: parse_expand_symbol_def result_simps)
  from names_phase_sound [OF this(1)] token_index_phase_sound [OF this(2)] token_table_phase_sound [OF this(3)]
  show ?thesis by (simp add: within_tables_def)
qed

text \<open>
  A text whose name expander reads the token index table in two instructions. The second read is
  accepted as the token table: the third phase compares with the displacement seen before the index,
  not with the index itself.
\<close>

definition sample_expander :: "instr list" where
  "sample_expander =
    [(sample_instr 0x1000)\<lparr>in_memory_base := RAX, in_memory_displacement64 := 0x5000\<rparr>,
     (sample_instr 0x1007)\<lparr>in_memory_base := RAX, in_memory_displacement64 := 0x5001\<rparr>,
     (sample_instr 0x100e)\<lparr>in_memory_base := R14, in_memory_displacement64 := 0x9000\<rparr>,
     (sample_instr 0x1015)\<lparr>in_memory_base := R14, in_memory_displacement64 := 0x9000\<rparr>]"

definition sample_code_view :: memview where
  "sample_code_view = empty_view\<lparr>rd_raw := (\<lambda>a n. Full (replicate n 0))\<rparr>"

lemma sample_expander_parse:
  "parse_expand_symbol (\<lambda>_ _. sample_expander) 0x1000 sample_code_view 16 = Inr (0x5001, 0x9000, 0x9000)"
  by (simp add: parse_expand_symbol_def sample_expander_def sample_instr_def sample_code_view_def
      within_tables_def word_sless_alt)

theorem parse_expand_symbol_sound_witness:
  "(0x5001 :: addr) \<noteq> NULL \<and> (0x5001 :: addr) < 0x9000 \<and> (0x9000 :: addr) - 0x5001 <s mb 32
    \<and> (0x5001 :: addr) < 0x9000 \<and> (0x9000 :: addr) - 0x5001 <s mb 32"
  by (rule parse_expand_symbol_sound [OF sample_expander_parse])

end
