(* ===== verification/Kernel_Scan.thy ===== *)
theory Kernel_Scan
  imports Kernel_Sigs Kallsyms_Find
begin

text \<open>
  \<open>memflow-linux/src/kernel/x64.rs\<close>, third part: \<open>find_kernel\<close>, the scan of physical memory for the
  bootstrap code of a kernel. A match gives the page-table root, the physical base and, through the
  translator and \<open>find_kallsyms\<close>, the virtual text base and the symbol tables.
\<close>

section \<open>State\<close>

record kernel_info =
  ki_cr3 :: addr
  ki_phys_base :: addr
  ki_la57_on :: bool
  ki_virt_text :: addr
  ki_phys_text :: addr
  ki_kallsyms :: "kallsyms_info option"
  ki_version :: version_range

section \<open>Reading the operands of a match\<close>

text \<open>\<open>u32::from_le_bytes(buf[off .. off + 4])\<close>; a slice that leaves the buffer panics.\<close>

definition read_val_at :: "bytes \<Rightarrow> nat \<Rightarrow> u32 result" where
  "read_val_at buf buf_off =
     (if buf_off + 4 \<le> length buf
      then Inr (of_nat (unat (buf ! buf_off) + 256 * unat (buf ! (buf_off + 1))
        + 65536 * unat (buf ! (buf_off + 2)) + 16777216 * unat (buf ! (buf_off + 3))))
      else Inl Panic)"

text \<open>
  \<open>read_val_relat::<T>\<close>: the argument \<open>rd\<close> is the read of the type \<open>T\<close>. The offset is a \<open>u32\<close>
  converted by \<open>as usize\<close>, which does not extend a sign.
\<close>

definition read_val_relat :: "(addr \<Rightarrow> 'a partial) \<Rightarrow> bytes \<Rightarrow> nat \<Rightarrow> addr \<Rightarrow> 'a result" where
  "read_val_relat rd buf buf_off off =
     rbind (read_val_at buf buf_off) (\<lambda>reloff.
       data_part (rd (off + ucast reloff + of_nat buf_off)))"

text \<open>\<open>unwrap_or\<close> replaces an error of the read, not a panic.\<close>

definition value_or :: "'a \<Rightarrow> 'a result \<Rightarrow> 'a result" where
  "value_or d r = (case r of Inl Panic \<Rightarrow> Inl Panic | Inl _ \<Rightarrow> Inr d | Inr x \<Rightarrow> Inr x)"

definition find_kernel_base :: "physmem \<Rightarrow> addr \<Rightarrow> addr \<Rightarrow> addr result" where
  "find_kernel_base pm cr3 text_base = ok_or (OsLayer NotFound) (pm_phys_to_virt pm cr3 text_base)"

section \<open>Matches\<close>

type_synonym sig_table = "(version_range \<times> bool \<times> signature) list"
type_synonym sig_match = "nat \<times> bytes \<times> version_range \<times> bool \<times> signature"

text \<open>The matches of a window, signature by signature and, for each, by increasing offset.\<close>

definition sig_matches :: "sig_table \<Rightarrow> bytes \<Rightarrow> sig_match list" where
  "sig_matches tbl buf =
     concat (map (\<lambda>(version, la57, sg).
       map (\<lambda>(off, w). (off, w, version, la57, sg))
         (filter (\<lambda>(off, w). signature_eq sg w) (enumerate 0 (windows (signature_len sg) buf)))) tbl)"

definition deref_at :: "signature \<Rightarrow> nat \<Rightarrow> nat result" where
  "deref_at sg i = (if i < length (deref_pos sg) then Inr (deref_pos sg ! i) else Inl Panic)"

definition match_positions :: "bool \<Rightarrow> signature \<Rightarrow> (nat \<times> nat option \<times> nat) result" where
  "match_positions config_la57 sg =
     (if config_la57 then
        rbind (deref_at sg 0) (\<lambda>c. rbind (deref_at sg 1) (\<lambda>l. rbind (deref_at sg 2) (\<lambda>p.
          Inr (c, Some l, p))))
      else
        rbind (deref_at sg 0) (\<lambda>c. rbind (deref_at sg 1) (\<lambda>p. Inr (c, None, p))))"

text \<open>
  The body of the match loop for a match at \<open>addr\<close>: \<open>Inr None\<close> goes on with the next match,
  \<open>Inr (Some k)\<close> is \<open>return Ok(k)\<close>, \<open>Inl e\<close> is the error the function returns.
\<close>

definition try_match :: "decoder \<Rightarrow> physmem \<Rightarrow> addr \<Rightarrow> sig_match \<Rightarrow> kernel_info option result" where
  "try_match decode pm base = (\<lambda>(off, num, version, config_la57, sg).
     let address = base + of_nat off in
     rbind (match_positions config_la57 sg) (\<lambda>(cr3_off, la57_reloff, phys_base_reloff).
     rbind (read_val_at num cr3_off) (\<lambda>cr3_off.
     rbind (case la57_reloff of
              None \<Rightarrow> Inr 0
            | Some r \<Rightarrow> rbind (value_or 0 (read_val_relat (rd_i32 (pm_view pm)) num r (address + 8)))
                         (\<lambda>v. Inr (v AND 1))) (\<lambda>la57.
     rbind (value_or 0 (read_val_relat (rd_u64 (pm_view pm)) num phys_base_reloff (address + 4))) (\<lambda>phys_base.
     let cr3 = phys_base + ucast cr3_off;
         text_base = as_page_aligned address (mb 2)
     in if cr3 \<noteq> phys_base \<and> cr3 < pm_max_address pm then
          rbind (find_kernel_base pm cr3 text_base) (\<lambda>virt_text.
          rbind (find_kallsyms decode pm cr3 virt_text) (\<lambda>kallsyms.
          Inr (Some \<lparr> ki_cr3 = cr3, ki_phys_base = phys_base, ki_la57_on = (la57 \<noteq> 0),
            ki_virt_text = virt_text, ki_phys_text = text_base, ki_kallsyms = Some kallsyms,
            ki_version = version \<rparr>)))
        else Inr None)))))"

fun try_matches :: "decoder \<Rightarrow> physmem \<Rightarrow> addr \<Rightarrow> sig_match list \<Rightarrow> kernel_info option result" where
  "try_matches decode pm base [] = Inr None"
| "try_matches decode pm base (m # ms) =
     rbind (try_match decode pm base m) (\<lambda>k.
       case k of Some info \<Rightarrow> Inr (Some info) | None \<Rightarrow> try_matches decode pm base ms)"

section \<open>The scan\<close>

definition max_sig_len :: "sig_table \<Rightarrow> nat" where
  "max_sig_len tbl = (case tbl of [] \<Rightarrow> 1 | _ \<Rightarrow> Max (set (map (\<lambda>(_, _, sg). signature_len sg) tbl)))"

definition scan_step :: "nat \<Rightarrow> nat \<Rightarrow> nat" where
  "scan_step buf_len max_len = max (buf_len - (max_len - 1)) 4096"

definition scan_read_len :: "physmem \<Rightarrow> nat \<Rightarrow> nat \<Rightarrow> nat" where
  "scan_read_len pm buf_len base =
     min buf_len (unat (sat_add (sat_sub (pm_max_address pm) (of_nat base)) 1))"

text \<open>
  The loop over \<open>(0 .. max_address + 1).step_by(scan_step)\<close>; \<open>base\<close> is the loop address and
  \<open>Inr None\<close> the loop's end without a kernel.
\<close>

function find_kernel_loop ::
    "decoder \<Rightarrow> physmem \<Rightarrow> sig_table \<Rightarrow> nat \<Rightarrow> nat \<Rightarrow> kernel_info option result" where
  "find_kernel_loop decode pm tbl buf_len base =
     (if unat (pm_total pm) \<le> base then Inr None
      else
        let read_len = scan_read_len pm buf_len base
        in if read_len < max_sig_len tbl then Inr None
           else
             rbind (data_part (rd_raw (pm_view pm) (of_nat base) read_len)) (\<lambda>buf.
             rbind (try_matches decode pm (of_nat base) (sig_matches tbl buf)) (\<lambda>k.
               case k of
                 Some info \<Rightarrow> Inr (Some info)
               | None \<Rightarrow> find_kernel_loop decode pm tbl buf_len
                           (base + scan_step buf_len (max_sig_len tbl)))))"
  by pat_completeness auto
termination
  by (relation "measure (\<lambda>(decode, pm, tbl, buf_len, base). unat (pm_total pm) - base)")
    (auto simp: scan_step_def)

declare find_kernel_loop.simps [simp del]

definition scan_buf_len :: nat where
  "scan_buf_len = 2 * 1048576"

definition find_kernel :: "decoder \<Rightarrow> physmem \<Rightarrow> kernel_info result" where
  "find_kernel decode pm =
     rbind (find_kernel_loop decode pm sigs scan_buf_len 0) (\<lambda>k.
       case k of Some info \<Rightarrow> Inr info | None \<Rightarrow> Inl (OsLayer NotFound))"

section \<open>Properties\<close>

text \<open>
  What \<open>find_kernel\<close> takes from a match of each table entry, in table order: the offset of the CR3 operand, the one of
  the LA57 operand and the one of the physical base.
\<close>

lemma sigs_match_positions:
  "map (\<lambda>(v, la57, sg). (signature_len sg, match_positions la57 sg)) sigs =
    [(33, Inr (19, None, 26)), (25, Inr (11, None, 18)), (25, Inr (11, None, 18)),
     (25, Inr (3, None, 18)), (25, Inr (3, None, 18)), (25, Inr (3, None, 18)),
     (31, Inl Panic), (37, Inl Panic),
     (49, Inr (9, Some 20, 42)), (31, Inr (9, None, 24)),
     (54, Inr (14, Some 25, 47)), (36, Inr (14, None, 29)),
     (73, Inr (14, Some 25, 47)), (55, Inr (14, None, 29)),
     (92, Inr (14, Some 25, 47)), (74, Inr (14, None, 29)),
     (100, Inr (15, Some 33, 55)), (82, Inr (15, None, 37))]"
proof -
  define f :: "bool \<times> nat \<times> nat list \<Rightarrow> nat \<times> (nat \<times> nat option \<times> nat) result" where
    "f = (\<lambda>(la57, n, ds). (n, match_positions la57 \<lparr>sg_bytes = [], sg_mask = [], deref_pos = ds\<rparr>))"
  have "map (\<lambda>(v, la57, sg). (signature_len sg, match_positions la57 sg)) sigs =
    map f (map (\<lambda>(v, la57, s). (la57, signature_len s, deref_pos s)) sigs)"
    by (simp add: f_def o_def split_def match_positions_def deref_at_def)
  then show ?thesis
    unfolding sigs_shape by (simp add: f_def match_positions_def deref_at_def)
qed

lemma max_sig_len_sigs [simp]: "max_sig_len sigs = 100"
proof -
  have "map (\<lambda>(_, _, sg). signature_len sg) sigs = map (\<lambda>(la57, n, ds). n) (map (\<lambda>(v, la57, s). (la57, signature_len s, deref_pos s)) sigs)"
    by (simp add: o_def split_def)
  also have "\<dots> = [33, 25, 25, 25, 25, 25, 31, 37, 49, 31, 54, 36, 73, 55, 92, 74, 100, 82]"
    unfolding sigs_shape by simp
  finally have "Max (set (map (\<lambda>(_, _, sg). signature_len sg) sigs)) = 100" by simp
  moreover have "sigs \<noteq> []" by (simp add: sigs_def sigs_before_5_def)
  ultimately show ?thesis by (auto simp: max_sig_len_def split: list.split)
qed

lemma signature_len_sigs:
  assumes "(v, la57, sg) \<in> set sigs"
  shows "0 < signature_len sg \<and> signature_len sg \<le> 100"
proof -
  have "(la57, signature_len sg, deref_pos sg) \<in> set (map (\<lambda>(v, la57, s). (la57, signature_len s, deref_pos s)) sigs)"
    using assms by force
  then show ?thesis unfolding sigs_shape by auto
qed

lemma scan_step_sigs: "scan_step scan_buf_len 100 = 2097053"
  by (simp add: scan_step_def scan_buf_len_def)

text \<open>The windows of the scan: none leaves the memory, and two neighbours share 99 bytes.\<close>

lemma scan_read_len_eq:
  assumes "base < Suc (unat (pm_max_address pm))" "buf_len < 18446744073709551615"
  shows "scan_read_len pm buf_len base = min buf_len (Suc (unat (pm_max_address pm)) - base)"
proof -
  have "base < 18446744073709551616" using assms unat_u64_less [of "pm_max_address pm"] by linarith
  then have "unat (of_nat base :: addr) = base" by (simp add: unat_of_nat)
  then show ?thesis using assms by (auto simp: scan_read_len_def rust_simps)
qed

interpretation kernel_scan: chunk_scan "Suc (unat (pm_max_address pm))" "scan_read_len pm scan_buf_len"
    "\<lambda>base. base + scan_step scan_buf_len (max_sig_len sigs)" 99 for pm
proof unfold_locales
  fix base assume b: "base < Suc (unat (pm_max_address pm))"
  show "base + scan_read_len pm scan_buf_len base \<le> Suc (unat (pm_max_address pm))"
    using b by (simp add: scan_read_len_eq scan_buf_len_def)
  assume "base + scan_read_len pm scan_buf_len base < Suc (unat (pm_max_address pm))"
  with scan_read_len_eq [OF b, of scan_buf_len] b have "scan_read_len pm scan_buf_len base = 2097152"
    by (simp add: min_def scan_buf_len_def split: if_splits)
  then show "base + scan_step scan_buf_len (max_sig_len sigs) + 99 = base + scan_read_len pm scan_buf_len base"
    by (simp add: scan_step_def scan_buf_len_def)
  show "base < base + scan_step scan_buf_len (max_sig_len sigs)" by (simp add: scan_step_def)
qed

lemma try_match_offset:
  "try_match decode pm base (off, r) = try_match decode pm (base + of_nat off) (0, r)"
proof -
  have "base + of_nat off + of_nat 0 = base + of_nat off" by simp
  then show ?thesis by (cases r) (unfold try_match_def prod.case Let_def, simp only:)
qed

lemma sig_matches_iff:
  "(off, w, v, la57, sg) \<in> set (sig_matches tbl buf) \<longleftrightarrow>
    (v, la57, sg) \<in> set tbl \<and> off < length buf + 1 - signature_len sg \<and>
    w = take (signature_len sg) (drop off buf) \<and> signature_eq sg w"
  by (force simp: sig_matches_def windows_def in_set_enumerate_eq)

text \<open>A physical memory whose view reads the bytes of an image, from address 0 up.\<close>

definition phys_image :: "physmem \<Rightarrow> bytes \<Rightarrow> bool" where
  "phys_image pm img \<longleftrightarrow> length img = Suc (unat (pm_max_address pm)) \<and>
     (\<forall>a n. a + n \<le> length img \<longrightarrow> data_part (rd_raw (pm_view pm) (of_nat a) n) = Inr (take n (drop a img)))"

section \<open>The order of the scan\<close>

text \<open>
  An occurrence: an entry of the table whose signature accepts the bytes of the image at a position; \<open>sig_attempt\<close> is
  what the body of the match loop gives for it.
\<close>

type_synonym occurrence = "nat \<times> version_range \<times> bool \<times> signature"

definition sig_occurs :: "bytes \<Rightarrow> occurrence \<Rightarrow> bool" where
  "sig_occurs img = (\<lambda>(p, v, la57, sg). (v, la57, sg) \<in> set sigs \<and> p + signature_len sg \<le> length img \<and>
     signature_eq sg (take (signature_len sg) (drop p img)))"

definition sig_attempt :: "decoder \<Rightarrow> physmem \<Rightarrow> bytes \<Rightarrow> occurrence \<Rightarrow> kernel_info option result" where
  "sig_attempt decode pm img = (\<lambda>(p, v, la57, sg).
     try_match decode pm (of_nat p) (0, take (signature_len sg) (drop p img), v, la57, sg))"

text \<open>
  The order in which the scan meets them: windows of two MiB that share 99 bytes, in a window entry by entry
  of the table, for an entry by position. An occurrence that two windows share is met in both.
\<close>

definition window_occurrences :: "bytes \<Rightarrow> nat \<Rightarrow> occurrence list" where
  "window_occurrences img b =
     concat (map (\<lambda>(v, la57, sg). map (\<lambda>p. (p, v, la57, sg))
       (filter (\<lambda>p. signature_eq sg (take (signature_len sg) (drop p img)))
         [b ..< b + (min scan_buf_len (length img - b) + 1 - signature_len sg)])) sigs)"

definition scan_order :: "bytes \<Rightarrow> occurrence list" where
  "scan_order img = concat (map (\<lambda>i. window_occurrences img (i * 2097053)) [0 ..< (length img - 100) div 2097053 + 1])"

text \<open>The first of a list that decides: what it gives, or that none does.\<close>

definition first_decided :: "('a \<Rightarrow> 'b option result) \<Rightarrow> 'a list \<Rightarrow> 'b option result" where
  "first_decided f xs = (case find (\<lambda>x. f x \<noteq> Inr None) xs of None \<Rightarrow> Inr None | Some x \<Rightarrow> f x)"

lemma first_decided_simps [simp]:
  "first_decided f [] = Inr None"
  "first_decided f (x # xs) = (if f x = Inr None then first_decided f xs else f x)"
  by (simp_all add: first_decided_def)

lemma first_decided_append: "first_decided f (xs @ ys) = (if first_decided f xs = Inr None then first_decided f ys else first_decided f xs)"
  by (induction xs) simp_all

lemma first_decided_map: "first_decided f (map g xs) = first_decided (\<lambda>x. f (g x)) xs"
  by (induction xs) simp_all

lemma first_decided_cong: "(\<And>x. x \<in> set xs \<Longrightarrow> f x = g x) \<Longrightarrow> first_decided f xs = first_decided g xs"
  by (induction xs) simp_all

lemma try_matches_decide: "try_matches decode pm base ms = first_decided (try_match decode pm base) ms"
proof (induction ms)
  case (Cons m ms)
  show ?case
  proof (cases "try_match decode pm base m")
    case (Inr k)
    then show ?thesis using Cons by (cases k) simp_all
  qed simp
qed simp

text \<open>The matches of a window of the image are the occurrences that lie in it.\<close>

lemma windows_of_image:
  assumes "0 < n" "m = length buf" "buf = take m (drop b img)"
  shows "map (\<lambda>(off, w). b + off) (filter (\<lambda>(off, w). P w) (enumerate 0 (windows n buf))) =
    filter (\<lambda>p. P (take n (drop p img))) [b ..< b + (m + 1 - n)]"
proof -
  have w: "take n (drop i buf) = take n (drop (b + i) img)" if "i + n \<le> m" for i
    using that by (simp add: assms(3) drop_take add.commute min_def)
  have e: "enumerate 0 (windows n buf) = map (\<lambda>i. (i, take n (drop (b + i) img))) [0 ..< m + 1 - n]"
  proof (rule nth_equalityI)
    fix i assume "i < length (enumerate 0 (windows n buf))"
    then have i: "i < m + 1 - n" by (simp add: windows_def assms(2))
    then have "i + n \<le> m" by linarith
    from w [OF this] i show "enumerate 0 (windows n buf) ! i = map (\<lambda>i. (i, take n (drop (b + i) img))) [0 ..< m + 1 - n] ! i"
      by (simp add: nth_enumerate_eq windows_def assms(2) [symmetric] del: upt_Suc)
  qed (simp add: windows_def assms(2) del: upt_Suc)
  have u: "[b ..< b + k] = map (\<lambda>i. b + i) [0 ..< k]" for k
    by (simp add: map_add_upt add.commute)
  show ?thesis unfolding e u by (simp add: filter_map o_def)
qed

lemma sig_matches_window:
  assumes "buf = take m (drop b img)" "m = min scan_buf_len (length img - b)" "b \<le> length img"
  shows "map (\<lambda>(off, w, e). (b + off, e)) (sig_matches sigs buf) = window_occurrences img b"
proof -
  have m: "m = length buf" using assms by simp
  have "map (\<lambda>(off, w, e). (b + off, e)) (map (\<lambda>(off, w). (off, w, v, la57, sg))
        (filter (\<lambda>(off, w). signature_eq sg w) (enumerate 0 (windows (signature_len sg) buf)))) =
      map (\<lambda>p. (p, v, la57, sg)) (filter (\<lambda>p. signature_eq sg (take (signature_len sg) (drop p img)))
        [b ..< b + (m + 1 - signature_len sg)])" if "(v, la57, sg) \<in> set sigs" for v la57 sg
  proof -
    have "0 < signature_len sg" using signature_len_sigs [OF that] by simp
    from windows_of_image [OF this m assms(1), of "signature_eq sg", symmetric]
    show ?thesis by (simp add: o_def split_def)
  qed
  then show ?thesis
    unfolding sig_matches_def window_occurrences_def map_concat map_map assms(2) [symmetric]
    by (intro arg_cong [where f = concat] map_cong refl) auto
qed

lemma try_match_attempt:
  assumes "m \<in> set (sig_matches sigs (take k (drop b img)))"
  shows "try_match decode pm (of_nat b) m = sig_attempt decode pm img (case m of (off, w, e) \<Rightarrow> (b + off, e))"
proof -
  obtain off w v la57 sg where m: "m = (off, w, v, la57, sg)" by (cases m) auto
  have h: "off < length (take k (drop b img)) + 1 - signature_len sg"
    "w = take (signature_len sg) (drop off (take k (drop b img)))"
    using assms unfolding m sig_matches_iff by blast+
  have "off + signature_len sg \<le> length (take k (drop b img))" using h(1) by linarith
  then have "off + signature_len sg \<le> k" by simp
  then have "signature_len sg \<le> k - off" by linarith
  then have "w = take (signature_len sg) (drop (b + off) img)" using h(2) by (simp add: drop_take add.commute min_def)
  then show ?thesis by (simp add: m sig_attempt_def try_match_offset [of _ _ _ off])
qed

lemma first_decided_window:
  assumes "m = min scan_buf_len (length img - b)" "b \<le> length img"
  shows "try_matches decode pm (of_nat b) (sig_matches sigs (take m (drop b img))) =
    first_decided (sig_attempt decode pm img) (window_occurrences img b)"
  unfolding try_matches_decide sig_matches_window [OF refl assms, symmetric] first_decided_map
  by (rule first_decided_cong) (rule try_match_attempt)

lemma phys_image_window:
  assumes img: "phys_image pm img" "pm_max_address pm \<noteq> INVALID" and b: "b < length img"
  shows "unat (pm_total pm) = length img" "scan_read_len pm scan_buf_len b = min scan_buf_len (length img - b)"
    "data_part (rd_raw (pm_view pm) (of_nat b) (min scan_buf_len (length img - b))) =
       Inr (take (min scan_buf_len (length img - b)) (drop b img))"
proof -
  have len: "length img = Suc (unat (pm_max_address pm))" using img(1) by (simp add: phys_image_def)
  have "unat (pm_max_address pm) \<noteq> unat (INVALID :: addr)" using img(2) by (metis word_unat_eq_iff)
  then show "unat (pm_total pm) = length img" using unat_u64_less [of "pm_max_address pm"]
    by (simp add: pm_total_def rust_simps len unat_max)
  show "scan_read_len pm scan_buf_len b = min scan_buf_len (length img - b)"
    using b by (simp add: scan_read_len_eq len scan_buf_len_def)
  show "data_part (rd_raw (pm_view pm) (of_nat b) (min scan_buf_len (length img - b))) =
      Inr (take (min scan_buf_len (length img - b)) (drop b img))"
    using img(1) b unfolding phys_image_def by (metis add.commute le_diff_conv2 min.cobounded2 less_imp_le)
qed

lemma find_kernel_loop_order:
  assumes img: "phys_image pm img" "pm_max_address pm \<noteq> INVALID" "100 \<le> length img"
    and i: "i \<le> (length img - 100) div 2097053 + 1"
  shows "find_kernel_loop decode pm sigs scan_buf_len (i * 2097053) =
    first_decided (sig_attempt decode pm img)
      (concat (map (\<lambda>i. window_occurrences img (i * 2097053)) [i ..< (length img - 100) div 2097053 + 1]))"
  using i
proof (induction "(length img - 100) div 2097053 + 1 - i" arbitrary: i)
  case 0
  let ?b = "i * 2097053"
  from 0 have "i = (length img - 100) div 2097053 + 1" by simp
  then have far: "length img < ?b + 100"
    using img(3) div_less_iff_less_mult [of 2097053 "length img - 100" i] by linarith
  show ?case
  proof (cases "?b < length img")
    case True
    note w = phys_image_window [OF img(1,2) True]
    have "scan_read_len pm scan_buf_len ?b < 100" using far by (simp add: w)
    then show ?thesis using 0 by (subst find_kernel_loop.simps) (simp add: Let_def)
  next
    case False
    have "0 < length img" using img(3) by linarith
    note w = phys_image_window(1) [OF img(1,2) this]
    show ?thesis using 0 False by (subst find_kernel_loop.simps) (simp add: w)
  qed
next
  case (Suc n)
  let ?b = "i * 2097053" and ?N = "(length img - 100) div 2097053 + 1"
  have i: "i < ?N" using Suc(2) by simp
  then have "?b \<le> (length img - 100) div 2097053 * 2097053" by simp
  also have "\<dots> \<le> length img - 100" by (rule div_times_less_eq_dividend)
  finally have "?b \<le> length img - 100" .
  then have near: "?b + 100 \<le> length img" using img(3) by simp
  then have b: "?b < length img" by simp
  note w = phys_image_window [OF img(1,2) b]
  have nxt: "?b + 2097053 = Suc i * 2097053" by simp
  have IH: "find_kernel_loop decode pm sigs scan_buf_len (Suc i * 2097053) = first_decided (sig_attempt decode pm img)
      (concat (map (\<lambda>i. window_occurrences img (i * 2097053)) [Suc i ..< ?N]))"
    by (rule Suc(1)) (use Suc(2) i in simp_all)
  have "\<not> min scan_buf_len (length img - ?b) < 100" using near by (simp add: scan_buf_len_def)
  then have "find_kernel_loop decode pm sigs scan_buf_len ?b =
      rbind (first_decided (sig_attempt decode pm img) (window_occurrences img ?b)) (\<lambda>k. case k of Some info \<Rightarrow> Inr (Some info)
        | None \<Rightarrow> find_kernel_loop decode pm sigs scan_buf_len (Suc i * 2097053))"
    using b by (subst find_kernel_loop.simps)
      (simp add: w Let_def not_le first_decided_window scan_step_sigs nxt del: mult_Suc of_nat_mult)
  moreover have "[i ..< ?N] = i # [Suc i ..< ?N]" using i by (rule upt_conv_Cons)
  ultimately show ?case
    unfolding IH
    by (cases "first_decided (sig_attempt decode pm img) (window_occurrences img ?b)")
      (auto simp: first_decided_append split: option.splits)
qed

lemma table_positions:
  "(p, v, la57, sg) \<in> set (concat (map (\<lambda>(v, la57, sg). map (\<lambda>p. (p, v, la57, sg)) (f sg)) tbl)) \<longleftrightarrow>
     (v, la57, sg) \<in> set tbl \<and> p \<in> set (f sg)"
  by (induction tbl) auto

lemma window_occurrences_iff:
  "(p, v, la57, sg) \<in> set (window_occurrences img b) \<longleftrightarrow>
     sig_occurs img (p, v, la57, sg) \<and> b \<le> p \<and> p + signature_len sg \<le> b + min scan_buf_len (length img - b)"
proof -
  have mem: "(p, v, la57, sg) \<in> set (window_occurrences img b) \<longleftrightarrow> (v, la57, sg) \<in> set sigs \<and>
      signature_eq sg (take (signature_len sg) (drop p img)) \<and> b \<le> p \<and>
      p < b + (min scan_buf_len (length img - b) + 1 - signature_len sg)"
    unfolding window_occurrences_def table_positions by auto
  show ?thesis
  proof (cases "(v, la57, sg) \<in> set sigs \<and> b \<le> p")
    case True
    then have sl: "0 < signature_len sg" using signature_len_sigs by blast
    have "p < b + (min scan_buf_len (length img - b) + 1 - signature_len sg) \<longleftrightarrow>
        p + signature_len sg \<le> b + min scan_buf_len (length img - b)"
      using True sl by linarith
    moreover have "p + signature_len sg \<le> length img" if "p + signature_len sg \<le> b + min scan_buf_len (length img - b)"
      using that True sl by linarith
    ultimately show ?thesis unfolding mem sig_occurs_def prod.case using True by blast
  qed (auto simp: mem sig_occurs_def)
qed

text \<open>From a window on that starts before it, the scan comes to one that holds the whole occurrence.\<close>

lemma occurrence_reached:
  assumes img: "phys_image pm img" and occ: "sig_occurs img (p, v, la57, sg)"
    and i: "i \<le> (length img - 100) div 2097053" "i * 2097053 \<le> p" and len: "100 \<le> length img"
  shows "\<exists>j. i \<le> j \<and> j \<le> (length img - 100) div 2097053 \<and> (p, v, la57, sg) \<in> set (window_occurrences img (j * 2097053))"
  using i
proof (induction "(length img - 100) div 2097053 - i" arbitrary: i rule: less_induct)
  case less
  let ?b = "i * 2097053"
  have tot: "length img = Suc (unat (pm_max_address pm))" using img by (simp add: phys_image_def)
  have o': "(v, la57, sg) \<in> set sigs" "p + signature_len sg \<le> length img" using occ by (simp_all add: sig_occurs_def)
  then have sl: "0 < signature_len sg" "signature_len sg \<le> Suc 99" using signature_len_sigs by force+
  have b: "?b < length img" using less.prems(2) o' sl by linarith
  have w: "scan_read_len pm scan_buf_len ?b = min scan_buf_len (length img - ?b)"
    using b by (simp add: scan_read_len_eq tot scan_buf_len_def)
  have step: "?b + scan_step scan_buf_len (max_sig_len sigs) = Suc i * 2097053" by (simp add: scan_step_sigs)
  from kernel_scan.covered_or_next [of ?b pm p "signature_len sg"] b less.prems o' sl
  consider (here) "p + signature_len sg \<le> ?b + min scan_buf_len (length img - ?b)"
    | (nxt) "?b + min scan_buf_len (length img - ?b) < length img" "Suc i * 2097053 \<le> p"
    unfolding w step by (auto simp: tot)
  then show ?case
  proof cases
    case here
    then have "(p, v, la57, sg) \<in> set (window_occurrences img ?b)"
      using occ less.prems(2) by (simp add: window_occurrences_iff)
    then show ?thesis using less.prems(1) by blast
  next
    case nxt
    then have "Suc i * 2097053 \<le> length img - 100" by (simp add: scan_buf_len_def min_def split: if_splits)
    then have "Suc i \<le> (length img - 100) div 2097053" by (metis div_le_mono nonzero_mult_div_cancel_right zero_neq_numeral)
    moreover from this have "(length img - 100) div 2097053 - Suc i < (length img - 100) div 2097053 - i" by linarith
    ultimately obtain j where "Suc i \<le> j" "j \<le> (length img - 100) div 2097053"
      "(p, v, la57, sg) \<in> set (window_occurrences img (j * 2097053))" using less.hyps [of "Suc i"] nxt(2) by blast
    then show ?thesis by (meson Suc_leD)
  qed
qed

lemma scan_order_iff:
  "m \<in> set (scan_order img) \<longleftrightarrow> (\<exists>i \<le> (length img - 100) div 2097053. m \<in> set (window_occurrences img (i * 2097053)))"
  by (auto simp: scan_order_def less_Suc_eq_le simp del: upt_Suc)

lemma scan_order_set:
  assumes "phys_image pm img" "100 \<le> length img"
  shows "set (scan_order img) = Collect (sig_occurs img)"
proof (intro set_eqI iffI)
  fix m assume m: "m \<in> set (scan_order img)"
  obtain p v la57 sg where "m = (p, v, la57, sg)" by (rule prod_cases4)
  with m show "m \<in> Collect (sig_occurs img)" by (auto simp: scan_order_iff window_occurrences_iff)
next
  fix m assume m: "m \<in> Collect (sig_occurs img)"
  obtain p v la57 sg where p: "m = (p, v, la57, sg)" by (rule prod_cases4)
  with m have "sig_occurs img (p, v, la57, sg)" by simp
  from occurrence_reached [OF assms(1) this _ _ assms(2), of 0] show "m \<in> set (scan_order img)"
    unfolding p scan_order_iff by auto
qed

lemma find_kernel_decide:
  assumes "phys_image pm img" "pm_max_address pm \<noteq> INVALID" "100 \<le> length img"
  shows "find_kernel decode pm = rbind (first_decided (sig_attempt decode pm img) (scan_order img))
    (\<lambda>k. case k of Some info \<Rightarrow> Inr info | None \<Rightarrow> Inl (OsLayer NotFound))"
  using find_kernel_loop_order [OF assms, of 0 decode] by (simp add: find_kernel_def scan_order_def del: upt_Suc)

lemma find_kernel_decides:
  assumes "phys_image pm img" "pm_max_address pm \<noteq> INVALID" "100 \<le> length img"
  shows "find_kernel decode pm = (case find (\<lambda>m. sig_attempt decode pm img m \<noteq> Inr None) (scan_order img) of
      None \<Rightarrow> Inl (OsLayer NotFound)
    | Some m \<Rightarrow> (case sig_attempt decode pm img m of Inr (Some info) \<Rightarrow> Inr info | Inr None \<Rightarrow> Inl (OsLayer NotFound) | Inl e \<Rightarrow> Inl e))"
  unfolding find_kernel_decide [OF assms]
  by (cases "find (\<lambda>m. sig_attempt decode pm img m \<noteq> Inr None) (scan_order img)")
    (auto simp: first_decided_def rbind_def split: option.splits sum.splits)

lemma short_la57_entries: "filter (\<lambda>(v, la57, sg). la57 \<and> length (deref_pos sg) < 3) sigs = [sigs ! 6, sigs ! 7]"
proof -
  define row where "row = (\<lambda>(v :: version_range, la57 :: bool, sg). (la57, signature_len sg, deref_pos sg))"
  note shape = sigs_shape [folded row_def]
  have len: "length sigs = 18" using arg_cong [OF shape, of length] by simp
  have P: "(\<lambda>(v, la57, sg). la57 \<and> length (deref_pos sg) < 3) = (\<lambda>e. case row e of (l, n, ds) \<Rightarrow> l \<and> length ds < 3)"
    by (auto simp: row_def fun_eq_iff)
  have row: "row (sigs ! i) = map row sigs ! i" if "i < 18" for i using that len by simp
  have "sigs = map ((!) sigs) [0 ..< 18]" using map_nth [of sigs] by (simp add: len)
  also have "[0 ..< 18] = [0, 1, 2, 3, 4, 5, 6, 7, 8, 9, 10, 11, 12, 13, 14, 15, 16, 17 :: nat]" by code_simp
  finally have all: "sigs = map ((!) sigs) [0, 1, 2, 3, 4, 5, 6, 7, 8, 9, 10, 11, 12, 13, 14, 15, 16, 17]" .
  have "filter (\<lambda>e. case row e of (l, n, ds) \<Rightarrow> l \<and> length ds < 3) sigs =
      filter (\<lambda>e. case row e of (l, n, ds) \<Rightarrow> l \<and> length ds < 3)
        (map ((!) sigs) [0, 1, 2, 3, 4, 5, 6, 7, 8, 9, 10, 11, 12, 13, 14, 15, 16, 17])"
    by (rule arg_cong [OF all])
  then show ?thesis unfolding P by (simp add: row shape)
qed

text \<open>
  C3. The scan of physical memory is exact. It meets every occurrence of a bootstrap signature, wherever it lies, also across two
  windows, and nothing else. \<open>find_kernel\<close> gives what the first one gives that is not passed over for an
  implausible page-table root: the kernel it leads to, or its error, which ends the scan; without such an occurrence no kernel is
  found. So when one occurrence leads to a kernel and none to an error, a kernel is returned.
\<close>

theorem find_kernel_exact:
  assumes "phys_image pm img" "pm_max_address pm \<noteq> INVALID" "100 \<le> length img"
  shows "set (scan_order img) = Collect (sig_occurs img) \<and>
    find_kernel decode pm = (case find (\<lambda>m. sig_attempt decode pm img m \<noteq> Inr None) (scan_order img) of
      None \<Rightarrow> Inl (OsLayer NotFound)
    | Some m \<Rightarrow> (case sig_attempt decode pm img m of Inr (Some info) \<Rightarrow> Inr info | Inr None \<Rightarrow> Inl (OsLayer NotFound) | Inl e \<Rightarrow> Inl e)) \<and>
    (sig_occurs img m \<and> sig_attempt decode pm img m = Inr (Some info) \<and> (\<forall>n e. sig_occurs img n \<longrightarrow> sig_attempt decode pm img n \<noteq> Inl e) \<longrightarrow>
      (\<exists>n found. sig_occurs img n \<and> sig_attempt decode pm img n = Inr (Some found) \<and> find_kernel decode pm = Inr found))"
proof -
  have set: "set (scan_order img) = Collect (sig_occurs img)" by (rule scan_order_set [OF assms(1,3)])
  note dec = find_kernel_decides [OF assms, of decode]
  have "\<exists>n found. sig_occurs img n \<and> sig_attempt decode pm img n = Inr (Some found) \<and> find_kernel decode pm = Inr found"
    if m: "sig_occurs img m" "sig_attempt decode pm img m = Inr (Some info)" and all: "\<forall>n e. sig_occurs img n \<longrightarrow> sig_attempt decode pm img n \<noteq> Inl e"
  proof -
    have "m \<in> set (scan_order img)" using m(1) set by simp
    moreover have "sig_attempt decode pm img m \<noteq> Inr None" using m(2) by simp
    ultimately have "find (\<lambda>m. sig_attempt decode pm img m \<noteq> Inr None) (scan_order img) \<noteq> None"
      unfolding find_None_iff by blast
    then obtain n where n: "find (\<lambda>m. sig_attempt decode pm img m \<noteq> Inr None) (scan_order img) = Some n" by blast
    then have "n \<in> set (scan_order img)" "sig_attempt decode pm img n \<noteq> Inr None" by (auto simp: find_Some_iff)
    moreover from this have occ: "sig_occurs img n" using set by blast
    moreover have "sig_attempt decode pm img n \<noteq> Inl e" for e using all occ by blast
    ultimately obtain found where "sig_attempt decode pm img n = Inr (Some found)"
      by (cases "sig_attempt decode pm img n") auto
    moreover from this have "find_kernel decode pm = Inr found" using dec n by simp
    ultimately show ?thesis using occ by blast
  qed
  then show ?thesis using set dec by blast
qed

lemma la57_operands:
  assumes "(v, True, sg) \<in> set sigs" "length (deref_pos sg) < 3"
  shows "sig_attempt decode pm img (p, v, True, sg) = Inl Panic"
proof -
  have "(True, signature_len sg, deref_pos sg) \<in> set (map (\<lambda>(v, la57, s). (la57, signature_len s, deref_pos s)) sigs)"
    using assms(1) by force
  then have "deref_pos sg \<in> {[3, 24], [9, 30]}" using assms(2) unfolding sigs_shape by auto
  then have "match_positions True sg = Inl Panic" by (auto simp: match_positions_def deref_at_def)
  then show ?thesis by (simp add: sig_attempt_def try_match_def Let_def)
qed

text \<open>
  C36. Two entries of the table, those of 4.13 and of 4.14 to 4.16, are marked as LA57 configurations but carry two dereference
  marks where three are taken. When the scan comes to an occurrence of such an entry without having settled before, which
  every memory with the boot code of such a kernel and no earlier candidate does, \<open>find_kernel\<close> panics instead of returning a kernel
  or an error.
\<close>

theorem find_kernel_panics_without_la57_mark:
  assumes "phys_image pm img" "pm_max_address pm \<noteq> INVALID" "100 \<le> length img"
    and "scan_order img = before @ (p, v, True, sg) # rest" "\<forall>m \<in> set before. sig_attempt decode pm img m = Inr None"
    and "length (deref_pos sg) < 3"
  shows "find_kernel decode pm = Inl Panic \<and>
    filter (\<lambda>(v, la57, sg). la57 \<and> length (deref_pos sg) < 3) sigs =
      [sigs ! 6, sigs ! 7] \<and> fst (sigs ! 6) = vr_major_minor 4 13 \<and> fst (sigs ! 7) = vr_minor_range 4 (14, 16)"
proof -
  have "(p, v, True, sg) \<in> set (scan_order img)" by (simp add: assms(4))
  then have "(v, True, sg) \<in> set sigs" using scan_order_set [OF assms(1,3)] by (auto simp: sig_occurs_def)
  then have panic: "sig_attempt decode pm img (p, v, True, sg) = Inl Panic" by (rule la57_operands [OF _ assms(6)])
  have "first_decided (sig_attempt decode pm img) before = Inr None"
    using assms(5) by (induction before) simp_all
  then have "first_decided (sig_attempt decode pm img) (scan_order img) = Inl Panic"
    unfolding assms(4) first_decided_append by (simp add: panic)
  then have "find_kernel decode pm = Inl Panic"
    by (simp add: find_kernel_decide [OF assms(1-3)])
  moreover have "filter (\<lambda>(v, la57, sg). la57 \<and> length (deref_pos sg) < 3) sigs = [sigs ! 6, sigs ! 7]"
    by (rule short_la57_entries)
  ultimately show ?thesis by (simp add: sigs_def sigs_before_5_def)
qed

lemma find_kernel_base_Inr [result_simps]:
  "find_kernel_base pm cr3 t = Inr v \<longleftrightarrow> pm_phys_to_virt pm cr3 t = Some v"
  by (simp add: find_kernel_base_def result_simps)

lemma page_aligned_mb2: "unat (as_page_aligned a (mb 2)) mod (2 * 1048576) = 0"
proof -
  have "unat (as_page_aligned a (mb 2)) = unat a - unat a mod 2097152"
    by (simp add: as_page_aligned_def unat_sub word_le_nat_alt unat_mod)
  then show ?thesis by (simp add: minus_mod_eq_mult_div)
qed

lemma try_match_sound:
  assumes "try_match decode pm base (off, num, version, la57, sg) = Inr (Some info)"
  shows "ki_phys_text info = as_page_aligned (base + of_nat off) (mb 2) \<and>
    ki_cr3 info \<noteq> ki_phys_base info \<and> ki_cr3 info < pm_max_address pm \<and>
    pm_phys_to_virt pm (ki_cr3 info) (ki_phys_text info) = Some (ki_virt_text info) \<and>
    (\<exists>ks. find_kallsyms decode pm (ki_cr3 info) (ki_virt_text info) = Inr ks \<and> ki_kallsyms info = Some ks) \<and>
    ki_version info = version \<and> (ki_la57_on info \<longrightarrow> la57)"
  using assms
  by (auto simp: try_match_def Let_def result_simps match_positions_def split: if_splits prod.splits)

lemma try_matches_Some:
  "try_matches decode pm base ms = Inr (Some info) \<Longrightarrow>
    \<exists>m \<in> set ms. try_match decode pm base m = Inr (Some info)"
  by (induction ms) (auto simp: result_simps split: option.splits)

lemma find_kernel_loop_Some:
  "find_kernel_loop decode pm tbl buf_len base = Inr (Some info) \<Longrightarrow>
    \<exists>b buf m. data_part (rd_raw (pm_view pm) (of_nat b) (scan_read_len pm buf_len b)) = Inr buf \<and>
      m \<in> set (sig_matches tbl buf) \<and> try_match decode pm (of_nat b) m = Inr (Some info)"
proof (induction decode pm tbl buf_len base rule: find_kernel_loop.induct)
  case (1 decode pm tbl buf_len base)
  from 1(2) obtain buf k where
      c: "\<not> unat (pm_total pm) \<le> base" "\<not> scan_read_len pm buf_len base < max_sig_len tbl"
      and rd: "data_part (rd_raw (pm_view pm) (of_nat base) (scan_read_len pm buf_len base)) = Inr buf"
      and k: "try_matches decode pm (of_nat base) (sig_matches tbl buf) = Inr k"
      and r: "(case k of Some info \<Rightarrow> Inr (Some info)
        | None \<Rightarrow> find_kernel_loop decode pm tbl buf_len (base + scan_step buf_len (max_sig_len tbl)))
        = Inr (Some info)"
    by (subst (asm) find_kernel_loop.simps) (auto simp: Let_def result_simps split: if_splits)
  show ?case
  proof (cases k)
    case None
    with r 1(1) [OF c(1) refl c(2)] show ?thesis by simp
  next
    case (Some i)
    with r k have "try_matches decode pm (of_nat base) (sig_matches tbl buf) = Inr (Some info)" by simp
    from try_matches_Some [OF this] rd show ?thesis by blast
  qed
qed

text \<open>
  C9. A kernel \<open>find_kernel\<close> returns comes from a match in memory: some window of physical memory
  holds bytes that a signature of the table accepts, the physical text base is the match's address
  rounded down to 2 MiB (so a multiple of it), the page-table root lies inside physical memory and
  translates the physical text base to the virtual one, the symbol tables were found through it, the
  version is the signature's, and LA57 is reported for LA57 signatures only.
\<close>

theorem find_kernel_sound:
  assumes "find_kernel decode pm = Inr info"
  shows "(\<exists>base buf off v la57 sg.
      data_part (rd_raw (pm_view pm) (of_nat base) (scan_read_len pm scan_buf_len base)) = Inr buf \<and>
      (v, la57, sg) \<in> set sigs \<and> off + signature_len sg \<le> length buf \<and>
      signature_eq sg (take (signature_len sg) (drop off buf)) \<and>
      ki_phys_text info = as_page_aligned (of_nat base + of_nat off) (mb 2) \<and>
      ki_version info = v \<and> (ki_la57_on info \<longrightarrow> la57)) \<and>
    unat (ki_phys_text info) mod (2 * 1048576) = 0 \<and>
    ki_cr3 info \<noteq> ki_phys_base info \<and> ki_cr3 info < pm_max_address pm \<and>
    pm_phys_to_virt pm (ki_cr3 info) (ki_phys_text info) = Some (ki_virt_text info) \<and>
    (\<exists>ks. find_kallsyms decode pm (ki_cr3 info) (ki_virt_text info) = Inr ks \<and> ki_kallsyms info = Some ks)"
proof -
  from assms have "find_kernel_loop decode pm sigs scan_buf_len 0 = Inr (Some info)"
    by (auto simp: find_kernel_def result_simps split: option.splits)
  from find_kernel_loop_Some [OF this] obtain b buf off num v la57 sg where
    rd: "data_part (rd_raw (pm_view pm) (of_nat b) (scan_read_len pm scan_buf_len b)) = Inr buf"
    and m: "(off, num, v, la57, sg) \<in> set (sig_matches sigs buf)"
    and t: "try_match decode pm (of_nat b) (off, num, v, la57, sg) = Inr (Some info)"
    by (metis prod.collapse)
  from m have "(v, la57, sg) \<in> set sigs \<and> off + signature_len sg \<le> length buf \<and>
      signature_eq sg (take (signature_len sg) (drop off buf))"
    by (auto simp: sig_matches_iff)
  with rd try_match_sound [OF t] page_aligned_mb2 [of "of_nat b + of_nat off"] show ?thesis by metis
qed

section \<open>A sample machine\<close>

text \<open>Memory that starts with the bootstrap code of a 2.6.27 kernel.\<close>

definition sample_sig :: signature where
  "sample_sig = signature_new
     [pat_middle_eax, pat_mid_movcr4rax, pat_no_startup_secondary_64, pat_mid_addphysbase, pat_movcr3]"

definition sample_boot :: bytes where
  "sample_boot = [0xb8, 0xa0, 0, 0, 0, 0x0f, 0x22, 0xe0, 0x48, 0xc7, 0xc0, 0, 0x10, 0, 0,
     0x48, 0x03, 0x05, 0, 0, 0, 0, 0x0f, 0x22, 0xd8]"

lemma sample_sig_matches: "signature_eq sample_sig sample_boot"
  by code_simp

lemma sample_sig_shape: "signature_len sample_sig = 25" "deref_pos sample_sig = [11, 18]"
  by (simp_all add: sample_sig_def signature_shape tokens_def pattern_tokens starred_Cons star_first)

lemma sample_sig_in: "(vr_point_range 2 6 (27, 39), False, sample_sig) \<in> set sigs"
  by (simp add: sigs_def sigs_before_5_def sample_sig_def)

definition sample_physmem :: physmem where
  "sample_physmem = \<lparr> pm_max_address = 0x1fff, pm_real_size = 0x2000, pm_ideal_batch_size = 4096,
     pm_readonly = True,
     pm_view = empty_view\<lparr>rd_raw := (\<lambda>a n. Full (take n (drop (unat a) (sample_boot @ replicate 8167 0))))\<rparr>,
     pm_virt = (\<lambda>_. sample_relative_view),
     pm_virt_to_phys = (\<lambda>_ _. Inl (Connector 0)), pm_phys_to_virt = (\<lambda>_ _. None) \<rparr>"

text \<open>A machine whose first 25 bytes are all the connector delivers, with a kernel behind them.\<close>

definition sample_decoder :: decoder where
  "sample_decoder = (\<lambda>a _.
     if a = 0x10000 then
       [(sample_instr 0x10000)\<lparr>in_is_call_near := True, in_near_branch_target := 0x10010\<rparr>,
        (sample_instr 0x10005)\<lparr>in_mnemonic := Mov, in_op1_immediate32to64 := Some 0x3000\<rparr>]
     else if a = 0x10010 then
       [(sample_instr 0x10010)\<lparr>in_is_call_near := True, in_near_branch_target := 0x1000\<rparr>]
     else sample_expander)"

definition sample_kernel_view :: memview where
  "sample_kernel_view = sample_relative_view
     \<lparr>rd_raw := (\<lambda>_ n. Full (replicate n 0)), rd_utf8_lossy := (\<lambda>_ _. Full ''+%#lx/%#lx'')\<rparr>"

definition sample_machine :: physmem where
  "sample_machine = sample_physmem\<lparr>pm_view := empty_view\<lparr>rd_raw := (\<lambda>_ _. Partial sample_boot)\<rparr>,
     pm_virt := (\<lambda>_. sample_kernel_view), pm_phys_to_virt := (\<lambda>_ _. Some 0x10000)\<rparr>"

lemma sample_kallsyms_new: "\<exists>k. kallsyms_new 0x5001 0x9000 0x9000 8 sample_kernel_view = Inr k"
proof -
  have "(case kallsyms_new 0x5001 0x9000 0x9000 8 sample_kernel_view of Inl _ \<Rightarrow> False | Inr _ \<Rightarrow> True)"
    by code_simp
  then show ?thesis by (auto split: sum.splits)
qed

lemma sample_find_kallsyms:
  assumes "pm_virt pm = (\<lambda>_. sample_kernel_view)"
  shows "\<exists>k. find_kallsyms sample_decoder pm cr3 0x10000 = Inr k"
proof -
  have "sat_add (0x5000 :: addr) 1 = 0x5001" by code_simp
  then have "find_kallsyms sample_decoder pm cr3 0x10000 = kallsyms_new 0x5001 0x9000 0x9000 8 sample_kernel_view"
    by (simp add: find_kallsyms_def assms sample_kernel_view_def sample_decoder_def
        find_kallsyms_lookup_def sample_instr_def is_format_string_def target_str_def checked_add_def
        starts_with_def slice_from_def find_kallsyms_expand_symbol_def is_kallsyms_expand_symbol_def
        parse_expand_symbol_def sample_expander_def within_tables_def word_sless_alt Let_def)
  with sample_kallsyms_new show ?thesis by simp
qed

lemma sample_matches:
  "\<exists>rest. sig_matches sigs sample_boot = (0, sample_boot, vr_point_range 2 6 (27, 39), False, sample_sig) # rest"
proof -
  obtain s1 rest where s: "sigs = (vr_point_range 2 6 (22, 26), False, s1) #
      (vr_point_range 2 6 (27, 39), False, sample_sig) # rest"
    and s1: "s1 = signature_new [pat_pae_pge_v2, pat_mid_movcr4rax, pat_no_startup_secondary_64,
        pat_mid_addphysbase, pat_movcr3]"
    by (simp add: sigs_def sigs_before_5_def sample_sig_def)
  have "signature_len s1 = 33" unfolding s1 by (simp add: tokens_def pattern_tokens)
  moreover have "length sample_boot = 25" by (simp add: sample_boot_def)
  ultimately show ?thesis using sample_sig_matches sample_sig_shape
    by (simp add: s sig_matches_def windows_def)
qed

lemma sample_kernel_found: "\<exists>info. find_kernel sample_decoder sample_machine = Inr info"
proof -
  obtain k where k: "find_kallsyms sample_decoder sample_machine 0x1000 0x10000 = Inr k"
    using sample_find_kallsyms [of sample_machine] by (auto simp: sample_machine_def)
  have tried: "\<exists>info. try_match sample_decoder sample_machine 0 (0, sample_boot, v, False, sample_sig) = Inr (Some info)" for v
  proof -
    have "read_val_at sample_boot 11 = Inr 0x1000" "read_val_at sample_boot 18 = Inr 0"
      by (simp_all add: read_val_at_def sample_boot_def)
    moreover have "rd_u64 (pm_view sample_machine) a = Fail (Connector 0)"
        "pm_max_address sample_machine = 0x1fff" "pm_phys_to_virt sample_machine c a = Some 0x10000" for a c
      by (simp_all add: sample_machine_def sample_physmem_def empty_view_def)
    ultimately show ?thesis using k
      by (simp add: try_match_def match_positions_def deref_at_def sample_sig_shape
          read_val_relat_def value_or_def Let_def find_kernel_base_def)
  qed
  obtain rest where "sig_matches sigs sample_boot = (0, sample_boot, vr_point_range 2 6 (27, 39), False, sample_sig) # rest"
    using sample_matches by blast
  moreover obtain info where "try_match sample_decoder sample_machine 0
      (0, sample_boot, vr_point_range 2 6 (27, 39), False, sample_sig) = Inr (Some info)"
    using tried by blast
  ultimately have "try_matches sample_decoder sample_machine 0 (sig_matches sigs sample_boot) = Inr (Some info)" by simp
  moreover have "unat (pm_total sample_machine) = 8192" "scan_read_len sample_machine scan_buf_len 0 = 8192"
    by (simp_all add: sample_machine_def sample_physmem_def pm_total_def rust_simps scan_read_len_def
        scan_buf_len_def)
  moreover have "data_part (rd_raw (pm_view sample_machine) a n) = Inr sample_boot" for a n
    by (simp add: sample_machine_def)
  ultimately have "find_kernel_loop sample_decoder sample_machine sigs scan_buf_len 0 = Inr (Some info)"
    by (subst find_kernel_loop.simps) simp
  then show ?thesis by (simp add: find_kernel_def)
qed

theorem find_kernel_sound_witness:
  "\<exists>info. find_kernel sample_decoder sample_machine = Inr info \<and>
    unat (ki_phys_text info) mod (2 * 1048576) = 0 \<and>
    pm_phys_to_virt sample_machine (ki_cr3 info) (ki_phys_text info) = Some (ki_virt_text info)"
proof -
  from sample_kernel_found obtain info where i: "find_kernel sample_decoder sample_machine = Inr info" ..
  from find_kernel_sound [OF i] i show ?thesis by (elim conjE) (intro exI [of _ info] conjI)
qed

section \<open>Sample images\<close>

text \<open>Where the code of a sample ends: every signature of the first entries ends with the same byte.\<close>

lemma signature_eq_nth:
  assumes "signature_eq (signature_new frags) (take n (drop p img))" "i < length (tokens frags)" "p + n \<le> length img"
  shows "img ! (p + i) AND token_mask (tokens frags ! i) = token_byte (tokens frags ! i)"
proof -
  let ?w = "take n (drop p img)"
  have len: "length ?w = length (tokens frags)"
    and m: "map (\<lambda>(b, m). b AND m) (zip ?w (map token_mask (tokens frags))) = map token_byte (tokens frags)"
    using assms(1) by (auto simp: signature_eq_def signature_len_def signature_new_tokens split: if_splits)
  have "?w ! i = img ! (p + i)" using assms(2,3) len by simp
  then show ?thesis using arg_cong [OF m, of "\<lambda>xs. xs ! i"] assms(2) len by simp
qed

lemma movcr3_end:
  assumes "signature_eq (signature_new (fs @ [pat_movcr3])) (take n (drop p img))" "p + n \<le> length img" "n = length (tokens fs) + 3"
  shows "img ! (p + n - 1) = 0xd8"
proof -
  have t: "tokens (fs @ [pat_movcr3]) = tokens fs @ [''0f'', ''22'', ''d8'']"
    by (simp add: tokens_def pat_movcr3_tokens)
  have "token_mask ''d8'' = - 1" "token_byte ''d8'' = 0xd8" by code_simp+
  then show ?thesis
    using signature_eq_nth [OF assms(1), of "length (tokens fs) + 2"] assms(2,3) by (simp add: t nth_append add.assoc)
qed

text \<open>Memory of 100 bytes with the boot code of a 2.6.27 kernel, and with that of a 4.13 kernel built for LA57.\<close>

definition sample_scan_image :: bytes where
  "sample_scan_image = [0xb8, 0xa0, 0, 0, 0, 0x0f, 0x22, 0xe0, 0x48, 0xc7, 0xc0, 0x10, 0, 0, 0,
     0x48, 0x03, 0x05, 0, 0, 0, 0, 0x0f, 0x22, 0xd8] @ replicate 75 0"

definition sample_la57_image :: bytes where
  "sample_la57_image = [0x48, 0xc7, 0xc0, 0, 0, 0, 0, 0xb9, 0xa0, 0, 0, 0, 0x81, 0xc9, 0, 0x10, 0, 0, 0x0f, 0x22, 0xe1,
     0x48, 0x03, 0x05, 0, 0, 0, 0, 0x0f, 0x22, 0xd8] @ replicate 69 0"

lemma sample_images:
  "length sample_scan_image = 100" "length sample_la57_image = 100"
  "filter (\<lambda>j. sample_scan_image ! j = 0xd8) [0 ..< 100] = [24]"
  "filter (\<lambda>j. sample_la57_image ! j = 0xd8) [0 ..< 100] = [30]"
  by code_simp+

lemma sample_ends:
  "j < 100 \<Longrightarrow> sample_scan_image ! j = 0xd8 \<Longrightarrow> j = 24" "j < 100 \<Longrightarrow> sample_la57_image ! j = 0xd8 \<Longrightarrow> j = 30"
  using arg_cong [OF sample_images(3), of set] arg_cong [OF sample_images(4), of set] by (auto simp del: upt_rec_numeral)

definition image_machine :: "bytes \<Rightarrow> physmem" where
  "image_machine img = sample_machine\<lparr> pm_max_address := of_nat (length img - 1),
     pm_view := empty_view\<lparr>rd_raw := (\<lambda>a n. Full (take n (drop (unat a) img)))\<rparr> \<rparr>"

lemma image_machine_image:
  assumes "length img = 100"
  shows "phys_image (image_machine img) img" "pm_max_address (image_machine img) \<noteq> INVALID" "100 \<le> length img"
    "pm_virt (image_machine img) = (\<lambda>_. sample_kernel_view)"
proof -
  show "phys_image (image_machine img) img"
    unfolding phys_image_def
  proof (intro conjI allI impI)
    show "length img = Suc (unat (pm_max_address (image_machine img)))" by (simp add: image_machine_def assms)
    fix a n assume "a + n \<le> length img"
    then have "a < 18446744073709551616" by (simp add: assms)
    then show "data_part (rd_raw (pm_view (image_machine img)) (of_nat a) n) = Inr (take n (drop a img))"
      by (simp add: image_machine_def unat_of_nat)
  qed
qed (simp_all add: image_machine_def sample_machine_def assms)

lemma scan_order_100: "length img = 100 \<Longrightarrow> scan_order img = window_occurrences img 0"
  by (simp add: scan_order_def)

lemma no_occurrences:
  assumes "\<And>p. p + n \<le> 100 \<Longrightarrow> \<not> P (take n (drop p img))" "0 < n" "n \<le> 100"
  shows "filter (\<lambda>p. P (take n (drop p img))) [0 ..< 101 - n] = []"
  using assms by (auto simp: filter_empty_conv)

lemma window_entries:
  assumes "length img = 100" "sigs = xs @ (v, la57, sg) # ys"
    and "\<And>v l s p. (v, l, s) \<in> set xs \<Longrightarrow> p + signature_len s \<le> 100 \<Longrightarrow> \<not> signature_eq s (take (signature_len s) (drop p img))"
    and "signature_eq sg (take (signature_len sg) img)"
  shows "\<exists>rest. scan_order img = (0, v, la57, sg) # rest"
proof -
  let ?ps = "\<lambda>s. filter (\<lambda>p. signature_eq s (take (signature_len s) (drop p img))) [0 ..< 101 - signature_len s]"
  have w: "scan_order img = concat (map (\<lambda>(v, l, s). map (\<lambda>p. (p, v, l, s)) (?ps s)) sigs)"
    using assms(1) by (simp add: scan_order_100 window_occurrences_def scan_buf_len_def)
  have bounds: "0 < signature_len s \<and> signature_len s \<le> 100" if "(v, l, s) \<in> set sigs" for v l s
    using signature_len_sigs [OF that] by simp
  have "?ps s = []" if x: "(v, l, s) \<in> set xs" for v l s
  proof -
    have "(v, l, s) \<in> set sigs" using x by (simp add: assms(2))
    with bounds show ?thesis by (intro no_occurrences assms(3) [OF x]) auto
  qed
  then have none: "concat (map (\<lambda>(v, l, s). map (\<lambda>p. (p, v, l, s)) (?ps s)) xs) = []" by auto
  have "0 < signature_len sg" "signature_len sg \<le> 100" using bounds [of v la57 sg] by (simp_all add: assms(2))
  then have one: "?ps sg = 0 # filter (\<lambda>p. signature_eq sg (take (signature_len sg) (drop p img))) [1 ..< 101 - signature_len sg]"
    using assms(4) by (simp add: upt_conv_Cons)
  show ?thesis unfolding w assms(2) map_append concat_append none by (simp add: one)
qed

lemma sample_scan_order:
  "\<exists>rest. scan_order sample_scan_image = (0, vr_point_range 2 6 (27, 39), False, sample_sig) # rest"
proof -
  let ?fs = "[pat_pae_pge_v2, pat_mid_movcr4rax, pat_no_startup_secondary_64, pat_mid_addphysbase]"
  obtain rest where s: "sigs = [(vr_point_range 2 6 (22, 26), False, signature_new (?fs @ [pat_movcr3]))] @
      (vr_point_range 2 6 (27, 39), False, sample_sig) # rest"
    by (simp add: sigs_def sigs_before_5_def sample_sig_def)
  have n: "length (tokens ?fs) = 30" "length (tokens (?fs @ [pat_movcr3])) = 33" by (simp_all add: tokens_def pattern_tokens)
  have "\<not> signature_eq (signature_new (?fs @ [pat_movcr3])) (take 33 (drop p sample_scan_image))" if "p + 33 \<le> 100" for p
  proof
    assume s: "signature_eq (signature_new (?fs @ [pat_movcr3])) (take 33 (drop p sample_scan_image))"
    have "p + 33 \<le> length sample_scan_image" "33 = length (tokens ?fs) + 3"
      using that n(1) sample_images(1) by linarith+
    then have "sample_scan_image ! (p + 33 - 1) = 0xd8" by (rule movcr3_end [OF s])
    then have "p + 33 - 1 = 24" by (rule sample_ends(1) [rotated]) (use that in linarith)
    then show False by simp
  qed
  moreover have "signature_eq sample_sig (take 25 sample_scan_image)" by code_simp
  ultimately show ?thesis
    by (intro window_entries [OF sample_images(1) s]) (use n(2) in \<open>auto simp: sample_sig_shape\<close>)
qed

lemma sample_scan_attempt:
  "\<exists>info. sig_attempt sample_decoder (image_machine sample_scan_image) sample_scan_image (0, v, False, sample_sig) = Inr (Some info)"
proof -
  obtain k where k: "find_kallsyms sample_decoder (image_machine sample_scan_image) 0x10 0x10000 = Inr k"
    using sample_find_kallsyms [OF image_machine_image(4) [OF sample_images(1)]] by blast
  have w: "take 25 sample_scan_image = [0xb8, 0xa0, 0, 0, 0, 0x0f, 0x22, 0xe0, 0x48, 0xc7, 0xc0, 0x10, 0, 0, 0,
     0x48, 0x03, 0x05, 0, 0, 0, 0, 0x0f, 0x22, 0xd8]" by (simp add: sample_scan_image_def)
  have "read_val_at (take 25 sample_scan_image) 11 = Inr 0x10" "read_val_at (take 25 sample_scan_image) 18 = Inr 0"
    unfolding w by (simp_all add: read_val_at_def)
  moreover have "rd_u64 (pm_view (image_machine sample_scan_image)) a = Fail (Connector 0)"
      "pm_max_address (image_machine sample_scan_image) = 99" "pm_phys_to_virt (image_machine sample_scan_image) c a = Some 0x10000" for a c
    by (simp_all add: image_machine_def sample_machine_def empty_view_def sample_images)
  ultimately show ?thesis using k
    by (simp add: sig_attempt_def try_match_def match_positions_def deref_at_def sample_sig_shape
        read_val_relat_def value_or_def Let_def find_kernel_base_def)
qed

theorem find_kernel_exact_witness:
  "\<exists>info. find_kernel sample_decoder (image_machine sample_scan_image) = Inr info"
proof -
  note img = image_machine_image [OF sample_images(1)]
  obtain info rest where "sig_attempt sample_decoder (image_machine sample_scan_image) sample_scan_image
      (0, vr_point_range 2 6 (27, 39), False, sample_sig) = Inr (Some info)"
    "scan_order sample_scan_image = (0, vr_point_range 2 6 (27, 39), False, sample_sig) # rest"
    using sample_scan_attempt sample_scan_order by blast
  then show ?thesis
    using find_kernel_exact [OF img(1-3), of sample_decoder] by simp
qed

definition sample_la57_sig :: signature where
  "sample_la57_sig = signature_new
     [pat_no_startup_secondary_64, pat_middle, pat_la57_assign, pat_mid_movcr4, pat_mid_addphysbase, pat_movcr3]"

lemma sample_la57_sig_shape: "signature_len sample_la57_sig = 31" "deref_pos sample_la57_sig = [3, 24]"
  by (simp_all add: sample_la57_sig_def signature_shape tokens_def pattern_tokens starred_Cons star_first)

lemma not_at_6:
  assumes "signature_eq (signature_new (f # fs)) (take n (drop 6 sample_la57_image))" "6 + n \<le> 100"
  shows "split_whitespace f \<noteq> ''b8'' # ts" "split_whitespace f \<noteq> ''48'' # ts"
proof -
  have "sample_la57_image ! 6 = 0" by (simp add: sample_la57_image_def)
  moreover have "token_mask ''b8'' = - 1" "token_byte ''b8'' = 0xb8" "token_mask ''48'' = - 1" "token_byte ''48'' = 0x48"
    by code_simp+
  ultimately show "split_whitespace f \<noteq> ''b8'' # ts" "split_whitespace f \<noteq> ''48'' # ts"
    using signature_eq_nth [OF assms(1), of 0] assms(2) by (auto simp: tokens_def sample_images)
qed

lemma sample_la57_order:
  "\<exists>rest. scan_order sample_la57_image = (0, vr_major_minor 4 13, True, sample_la57_sig) # rest"
proof -
  let ?movcr3 = "\<lambda>fs. signature_new (fs @ [pat_movcr3])"
  let ?a = "[pat_pae_pge_v2, pat_mid_movcr4rax, pat_no_startup_secondary_64, pat_mid_addphysbase]"
  let ?b = "[pat_middle_eax, pat_mid_movcr4rax, pat_no_startup_secondary_64, pat_mid_addphysbase]"
  let ?c = "\<lambda>m. [pat_no_startup_secondary_64, m, pat_mid_movcr4, pat_mid_addphysbase]"
  obtain rest where s: "sigs = [(vr_point_range 2 6 (22, 26), False, ?movcr3 ?a), (vr_point_range 2 6 (27, 39), False, ?movcr3 ?b),
      (vr_minor_range 3 (0, 8), False, ?movcr3 ?b), (vr_minor_range 3 (9, 19), False, ?movcr3 (?c pat_middle)),
      (vr_major_minor 4 4, False, ?movcr3 (?c pat_middle_44)), (vr_minor_range 4 (0, 12), False, ?movcr3 (?c pat_middle))] @
      (vr_major_minor 4 13, True, sample_la57_sig) # rest"
    by (simp add: sigs_def sigs_before_5_def sample_la57_sig_def)
  have len: "length (tokens ?a) = 30" "length (tokens ?b) = 22" "length (tokens (?c pat_middle)) = 22" "length (tokens (?c pat_middle_44)) = 22"
    "signature_len (?movcr3 ?a) = 33" "signature_len (?movcr3 ?b) = 25" "signature_len (?movcr3 (?c pat_middle)) = 25"
    "signature_len (?movcr3 (?c pat_middle_44)) = 25"
    by (simp_all add: tokens_def pattern_tokens)
  have last: "p + n = 31" if "signature_eq (?movcr3 fs) (take n (drop p sample_la57_image))" "p + n \<le> 100"
      "n = length (tokens fs) + 3" for p n fs
  proof -
    have "sample_la57_image ! (p + n - 1) = 0xd8" by (rule movcr3_end [OF that(1) _ that(3)]) (simp only: sample_images(2) that(2))
    then have "p + n - 1 = 30" by (rule sample_ends(2) [rotated]) (use that(2,3) in linarith)
    then show ?thesis by linarith
  qed
  have a: "\<not> signature_eq (?movcr3 ?a) (take 33 (drop p sample_la57_image))" if "p + 33 \<le> 100" for p
  proof
    assume s: "signature_eq (?movcr3 ?a) (take 33 (drop p sample_la57_image))"
    have "33 = length (tokens ?a) + 3" using len(1) by linarith
    from last [OF s that this] show False by linarith
  qed
  have at6: "p = 6" if "signature_eq (?movcr3 fs) (take 25 (drop p sample_la57_image))" "p + 25 \<le> 100" "length (tokens fs) = 22" for p fs
    using last [OF that(1,2)] that(3) by simp
  have b: "\<not> signature_eq (?movcr3 (f # fs)) (take 25 (drop p sample_la57_image))"
    if "p + 25 \<le> 100" "length (tokens (f # fs)) = 22" "split_whitespace f \<in> {''b8'' # ts, ''48'' # ts}" for p f fs ts
    using at6 [of "f # fs" p] not_at_6 [of f "fs @ [pat_movcr3]" 25] that by auto
  have eax: "\<not> signature_eq (?movcr3 ?b) (take 25 (drop p sample_la57_image))" if "p + 25 \<le> 100" for p
    using b [of p pat_middle_eax "tl ?b" "[''a0'', ''00'', ''00'', ''00'']"] that len(2) by (simp add: pattern_tokens)
  have c: "\<not> signature_eq (?movcr3 (?c m)) (take 25 (drop p sample_la57_image))"
    if "p + 25 \<le> 100" "length (tokens (?c m)) = 22" for p m
    using b [of p pat_no_startup_secondary_64 "tl (?c m)" "[''c7'', ''c0'', ''*?'', ''?'', ''?'', ''?'']"] that
    by (simp add: pattern_tokens)
  have "\<not> signature_eq s (take (signature_len s) (drop p sample_la57_image))"
    if "(v, l, s) \<in> set (take 6 sigs)" "p + signature_len s \<le> 100" for v l s p
  proof -
    have "s \<in> {?movcr3 ?a, ?movcr3 ?b, ?movcr3 (?c pat_middle), ?movcr3 (?c pat_middle_44)}"
      using that(1) unfolding s by auto
    then consider "s = ?movcr3 ?a" | "s = ?movcr3 ?b" | "s = ?movcr3 (?c pat_middle)" | "s = ?movcr3 (?c pat_middle_44)" by blast
    then show ?thesis
      using that(2) a [of p] eax [of p] c [of p pat_middle, OF _ len(3)] c [of p pat_middle_44, OF _ len(4)]
      by cases (simp_all only: len(5-8) not_False_eq_True)
  qed
  moreover have "signature_eq sample_la57_sig (take 31 sample_la57_image)" by code_simp
  ultimately show ?thesis
    by (intro window_entries [OF sample_images(2) s]) (auto simp: s sample_la57_sig_shape)
qed

theorem find_kernel_panics_without_la57_mark_witness:
  "find_kernel sample_decoder (image_machine sample_la57_image) = Inl Panic"
proof -
  note img = image_machine_image [OF sample_images(2)]
  obtain rest where o: "scan_order sample_la57_image = [] @ (0, vr_major_minor 4 13, True, sample_la57_sig) # rest"
    using sample_la57_order by auto
  have "length (deref_pos sample_la57_sig) < 3" by (simp add: sample_la57_sig_shape)
  from find_kernel_panics_without_la57_mark [OF img(1-3) o _ this, of sample_decoder] show ?thesis by simp
qed

end
