(* ===== verification/Version_Scan.thy ===== *)
theory Version_Scan
  imports Physical
begin

text \<open>
  \<open>memflow-linux/src/discover.rs\<close>: the scan of physical memory for kernel banners. Positions are
  natural numbers: they stay below the memory size, which fits \<open>u64\<close>, so no addition of the scan
  saturates. The substring search is \<open>memchr::memmem\<close>'s: a parameter \<open>search\<close> that gives the offsets of
  the matches of a needle in a haystack.
\<close>

definition BANNER_PREFIX :: bytes where
  "BANNER_PREFIX = to_bytes ''Linux version ''"

definition SCAN_CHUNK :: nat where "SCAN_CHUNK = 64 * 1048576"
definition MAX_BANNER_LEN :: nat where "MAX_BANNER_LEN = 512"

type_synonym searcher = "bytes \<Rightarrow> bytes \<Rightarrow> nat list"

record kernel_version_info =
  kv_banner :: string
  kv_version :: string
  kv_phys_address :: addr

section \<open>One banner\<close>

definition banner_end :: "bytes \<Rightarrow> nat" where
  "banner_end content =
     (case position (\<lambda>b. b = 0 \<or> b = 10 \<or> b = 13) content of
        Some i \<Rightarrow> i | None \<Rightarrow> length content)"

definition banner_suffix :: "bytes \<Rightarrow> string" where
  "banner_suffix content = from_utf8_lossy (take (banner_end content) content)"

definition banner_version :: "string \<Rightarrow> string" where
  "banner_version suffix = (case split_whitespace suffix of [] \<Rightarrow> [] | v # _ \<Rightarrow> v)"

text \<open>The loop over the matches of one window; the state is the list of versions seen and the results.\<close>

type_synonym version_state = "string list \<times> kernel_version_info list"

definition take_banner :: "nat \<Rightarrow> bytes \<Rightarrow> nat \<Rightarrow> version_state \<Rightarrow> version_state" where
  "take_banner base buf off = (\<lambda>(seen, results).
     let content_start = off + length BANNER_PREFIX;
         content_end = min (content_start + MAX_BANNER_LEN) (length buf);
         content = take (content_end - content_start) (drop content_start buf);
         suffix = banner_suffix content;
         version = banner_version suffix
     in if version = [] \<or> version \<in> set seen then (seen, results)
        else (seen @ [version],
              results @ [\<lparr> kv_banner = ''Linux version '' @ suffix, kv_version = version,
                           kv_phys_address = of_nat (base + off) \<rparr>]))"

section \<open>The scan\<close>

definition vs_chunk :: "nat \<Rightarrow> nat \<Rightarrow> nat" where
  "vs_chunk tot base = min SCAN_CHUNK (tot - base)"

definition vs_window :: "nat \<Rightarrow> nat \<Rightarrow> nat" where
  "vs_window tot base = vs_chunk tot base + min MAX_BANNER_LEN (tot - base - vs_chunk tot base)"

definition vs_next :: "nat \<Rightarrow> nat \<Rightarrow> nat" where
  "vs_next tot base = base + vs_chunk tot base - (length BANNER_PREFIX - 1)"

lemma BANNER_PREFIX_length [simp]: "length BANNER_PREFIX = 14"
  by (simp add: BANNER_PREFIX_def)

lemma vs_next_progress:
  "base < tot \<Longrightarrow> \<not> vs_window tot base < length BANNER_PREFIX \<Longrightarrow> base < vs_next tot base"
  by (auto simp: vs_window_def vs_next_def vs_chunk_def SCAN_CHUNK_def MAX_BANNER_LEN_def min_def
      split: if_splits)

lemma vs_next_decreases:
  "\<not> tot \<le> base \<Longrightarrow> \<not> vs_window tot base < length BANNER_PREFIX \<Longrightarrow> tot - vs_next tot base < tot - base"
  using vs_next_progress [of base tot] by linarith

function version_scan :: "searcher \<Rightarrow> memview \<Rightarrow> nat \<Rightarrow> nat \<Rightarrow> version_state \<Rightarrow> version_state" where
  "version_scan search view tot base st =
     (if tot \<le> base then st
      else if vs_window tot base < length BANNER_PREFIX then st
      else case strict (rd_raw view (of_nat base) (vs_window tot base)) of
        Inl _ \<Rightarrow> version_scan search view tot (vs_next tot base) st
      | Inr buf \<Rightarrow>
          let st' = fold (take_banner base buf) (search (take (vs_chunk tot base) buf) BANNER_PREFIX) st
          in if vs_chunk tot base = tot - base then st'
             else version_scan search view tot (vs_next tot base) st')"
  by pat_completeness auto
termination
  by (relation "measure (\<lambda>(search, view, tot, base, st). tot - base)")
    (simp_all only: wf_measure in_measure prod.case, (rule vs_next_decreases, assumption+)+)

declare version_scan.simps [simp del]

definition discover_kernel_versions :: "searcher \<Rightarrow> physmem \<Rightarrow> kernel_version_info list" where
  "discover_kernel_versions search pm =
     snd (version_scan search (pm_view pm) (unat (pm_total pm)) 0 ([], []))"

section \<open>The substring search\<close>

definition occurs_at :: "bytes \<Rightarrow> bytes \<Rightarrow> nat \<Rightarrow> bool" where
  "occurs_at needle hay i \<longleftrightarrow> i + length needle \<le> length hay \<and> take (length needle) (drop i hay) = needle"

text \<open>
  The documented behaviour of \<open>memmem::find_iter\<close>: it reports occurrences only, and leaves out an
  occurrence only when it overlaps a reported one that starts before it.
\<close>

definition searches :: "searcher \<Rightarrow> bool" where
  "searches search \<longleftrightarrow> (\<forall>hay needle. needle \<noteq> [] \<longrightarrow>
     (\<forall>i \<in> set (search hay needle). occurs_at needle hay i) \<and>
     (\<forall>i. occurs_at needle hay i \<longrightarrow>
        (\<exists>j \<in> set (search hay needle). j \<le> i \<and> i < j + length needle)))"

text \<open>
  A needle without a border (no proper prefix of it is a suffix) does not overlap itself, so every
  occurrence of it is reported.
\<close>

definition border_free :: "bytes \<Rightarrow> bool" where
  "border_free needle \<longleftrightarrow>
     (\<forall>k \<in> {1 ..< length needle}. drop k needle \<noteq> take (length needle - k) needle)"

lemma border_free_apart:
  assumes "border_free needle" "occurs_at needle hay i" "occurs_at needle hay j" "j \<le> i" "i < j + length needle"
  shows "i = j"
proof -
  let ?n = "length needle"
  define k where "k = i - j"
  have k: "i = j + k" "k < ?n" using assms(4,5) by (auto simp: k_def)
  have pj: "take ?n (drop j hay) = needle" and pi: "take ?n (drop i hay) = needle"
    using assms(2,3) by (simp_all add: occurs_at_def)
  have "drop k needle = drop k (take ?n (drop j hay))" unfolding pj ..
  also have "\<dots> = take (?n - k) (drop i hay)" unfolding k(1) by (simp add: drop_take add.commute)
  also have "\<dots> = take (?n - k) (take ?n (drop i hay))" by (simp add: min_def)
  also have "\<dots> = take (?n - k) needle" unfolding pi ..
  finally have "drop k needle = take (?n - k) needle" .
  with assms(1) k(2) have "k = 0" unfolding border_free_def by (cases "k = 0") auto
  then show ?thesis using k by simp
qed

lemma search_border_free:
  assumes "searches search" "border_free needle" "needle \<noteq> []"
  shows "i \<in> set (search hay needle) \<longleftrightarrow> occurs_at needle hay i"
proof
  show "occurs_at needle hay i" if "i \<in> set (search hay needle)"
    using assms(1,3) that unfolding searches_def by blast
  assume i: "occurs_at needle hay i"
  then obtain j where j: "j \<in> set (search hay needle)" "j \<le> i" "i < j + length needle"
    using assms(1,3) unfolding searches_def by metis
  moreover have "occurs_at needle hay j" using assms(1,3) j(1) unfolding searches_def by blast
  ultimately show "i \<in> set (search hay needle)" using border_free_apart [OF assms(2) i] by blast
qed

lemma banner_prefix_border_free: "border_free BANNER_PREFIX" "BANNER_PREFIX \<noteq> []"
  by code_simp+

lemmas search_banner = search_border_free [OF _ banner_prefix_border_free]

section \<open>The scan over a memory image\<close>

text \<open>A view all of whose reads inside the image give its bytes.\<close>

definition holds_image :: "memview \<Rightarrow> bytes \<Rightarrow> bool" where
  "holds_image view img \<longleftrightarrow> length img < 2 ^ 64 \<and>
     (\<forall>a n. a + n \<le> length img \<longrightarrow> rd_raw view (of_nat a) n = Full (take n (drop a img)))"

text \<open>What the banner at a position of the image says: its text and its version.\<close>

definition image_suffix :: "bytes \<Rightarrow> nat \<Rightarrow> string" where
  "image_suffix img p = banner_suffix (take MAX_BANNER_LEN (drop (p + 14) img))"

definition banner_at :: "bytes \<Rightarrow> nat \<Rightarrow> kernel_version_info" where
  "banner_at img p = \<lparr> kv_banner = ''Linux version '' @ image_suffix img p,
     kv_version = banner_version (image_suffix img p), kv_phys_address = of_nat p \<rparr>"

lemma take_banner_image:
  assumes "occurs_at BANNER_PREFIX (take (vs_chunk (length img) base) (take (vs_window (length img) base) (drop base img))) off"
    and "base < length img"
  shows "take_banner base (take (vs_window (length img) base) (drop base img)) off (seen, results) =
    (if kv_version (banner_at img (base + off)) = [] \<or> kv_version (banner_at img (base + off)) \<in> set seen
     then (seen, results)
     else (seen @ [kv_version (banner_at img (base + off))], results @ [banner_at img (base + off)]))"
proof -
  let ?buf = "take (vs_window (length img) base) (drop base img)"
  have w: "vs_window (length img) base \<le> length img - base" "vs_chunk (length img) base \<le> vs_window (length img) base"
    by (auto simp: vs_window_def vs_chunk_def)
  have off: "off + 14 \<le> vs_chunk (length img) base" using assms(1) w by (auto simp: occurs_at_def)
  have lb: "length ?buf = vs_window (length img) base" using w by simp
  let ?e = "min (off + 14 + MAX_BANNER_LEN) (length ?buf)"
  have num: "min (o' + m) (c + min m (r - c)) - o' = min m (r - o')" if "o' \<le> c" "c \<le> r" for o' c r m :: nat
    using that by (auto simp: min_def)
  have e: "?e - (off + 14) = min MAX_BANNER_LEN (length img - base - (off + 14))"
    unfolding lb by (subst vs_window_def) (rule num [OF off], simp add: vs_chunk_def)
  have "?e - (off + 14) \<le> vs_window (length img) base - (off + 14)" by (simp add: lb)
  then have "take (?e - (off + 14)) (drop (off + 14) ?buf) = take (?e - (off + 14)) (drop (base + (off + 14)) img)"
    by (simp add: drop_take min_absorb1 add.commute del: take_drop)
  also have "\<dots> = take MAX_BANNER_LEN (drop (base + (off + 14)) img)"
    unfolding e by (simp add: min_def)
  finally show ?thesis
    by (simp add: take_banner_def Let_def banner_at_def image_suffix_def add.assoc lb)
qed

interpretation version_windows: chunk_scan tot "vs_chunk tot" "vs_next tot" 13 for tot
proof unfold_locales
  fix base
  show "base < tot \<Longrightarrow> base + vs_chunk tot base \<le> tot" by (simp add: vs_chunk_def)
  assume "base < tot" "base + vs_chunk tot base < tot"
  then have "vs_chunk tot base = SCAN_CHUNK" by (auto simp: vs_chunk_def)
  then show "vs_next tot base + 13 = base + vs_chunk tot base" "base < vs_next tot base"
    by (simp_all add: vs_next_def SCAN_CHUNK_def)
qed

lemma occurs_in_window:
  assumes "n \<le> m"
  shows "occurs_at BANNER_PREFIX (take n (take m (drop base img))) off \<longleftrightarrow>
    off + 14 \<le> n \<and> occurs_at BANNER_PREFIX img (base + off)"
  using assms by (auto simp: occurs_at_def drop_take add.commute min_def split: if_splits)

definition version_at :: "bytes \<Rightarrow> nat \<Rightarrow> string" where
  "version_at img p = kv_version (banner_at img p)"

text \<open>The state after some of the image: distinct versions, each from a banner of the image.\<close>

definition scan_ok :: "bytes \<Rightarrow> version_state \<Rightarrow> bool" where
  "scan_ok img st \<longleftrightarrow> fst st = map kv_version (snd st) \<and> distinct (fst st) \<and>
     (\<forall>r \<in> set (snd st). \<exists>p. occurs_at BANNER_PREFIX img p \<and> r = banner_at img p \<and> version_at img p \<noteq> [])"

lemma take_banner_ok:
  assumes "occurs_at BANNER_PREFIX (take (vs_chunk (length img) base) (take (vs_window (length img) base) (drop base img))) off"
    and "base < length img" "scan_ok img st" "occurs_at BANNER_PREFIX img (base + off)"
  shows "scan_ok img (take_banner base (take (vs_window (length img) base) (drop base img)) off st) \<and>
    set (fst st) \<subseteq> set (fst (take_banner base (take (vs_window (length img) base) (drop base img)) off st)) \<and>
    (version_at img (base + off) = [] \<or>
     version_at img (base + off) \<in> set (fst (take_banner base (take (vs_window (length img) base) (drop base img)) off st)))"
proof (cases st)
  case (Pair seen results)
  show ?thesis
    using assms(3,4) unfolding Pair take_banner_image [OF assms(1,2)]
    by (auto simp: scan_ok_def version_at_def)
qed

lemma fold_banners_ok:
  assumes "base < length img" "scan_ok img st"
    and "\<forall>off \<in> set offs. occurs_at BANNER_PREFIX (take (vs_chunk (length img) base)
      (take (vs_window (length img) base) (drop base img))) off \<and> occurs_at BANNER_PREFIX img (base + off)"
  shows "let st' = fold (take_banner base (take (vs_window (length img) base) (drop base img))) offs st in
    scan_ok img st' \<and> set (fst st) \<subseteq> set (fst st') \<and>
    (\<forall>off \<in> set offs. version_at img (base + off) = [] \<or> version_at img (base + off) \<in> set (fst st'))"
  using assms(2,3)
proof (induction offs arbitrary: st)
  case (Cons off offs)
  let ?st = "take_banner base (take (vs_window (length img) base) (drop base img)) off st"
  have s: "scan_ok img ?st" "set (fst st) \<subseteq> set (fst ?st)"
      "version_at img (base + off) = [] \<or> version_at img (base + off) \<in> set (fst ?st)"
    using take_banner_ok [OF _ assms(1) Cons.prems(1)] Cons.prems(2) by simp_all
  from Cons.IH [OF s(1)] Cons.prems(2) s show ?case by (auto simp: Let_def)
qed simp

lemma version_scan_complete:
  assumes "searches search" "holds_image view img" "scan_ok img st"
  shows "let st' = version_scan search view (length img) base st in
    scan_ok img st' \<and> set (fst st) \<subseteq> set (fst st') \<and>
    (\<forall>p. base \<le> p \<longrightarrow> occurs_at BANNER_PREFIX img p \<longrightarrow> version_at img p = [] \<or> version_at img p \<in> set (fst st'))"
  using assms(3)
proof (induction "length img - base" arbitrary: base st rule: less_induct)
  case less
  let ?w = "vs_window (length img) base" and ?c = "vs_chunk (length img) base"
  let ?buf = "take ?w (drop base img)" and ?next = "vs_next (length img) base"
  show ?case
  proof (cases "length img \<le> base \<or> ?w < length BANNER_PREFIX")
    case True
    then have "\<not> occurs_at BANNER_PREFIX img p" if "base \<le> p" for p
      using that by (auto simp: occurs_at_def vs_window_def vs_chunk_def SCAN_CHUNK_def min_def split: if_splits)
    moreover have "version_scan search view (length img) base st = st"
      using True by (subst version_scan.simps) auto
    ultimately show ?thesis using less.prems by (auto simp: Let_def)
  next
    case False
    then have b: "base < length img" and w14: "\<not> ?w < length BANNER_PREFIX" by simp_all
    have cw: "?c \<le> ?w" "base + ?w \<le> length img" using b by (auto simp: vs_window_def vs_chunk_def)
    have rd: "strict (rd_raw view (of_nat base) ?w) = Inr ?buf"
      using assms(2) cw(2) unfolding holds_image_def by simp
    define st' where "st' = fold (take_banner base ?buf) (search (take ?c ?buf) BANNER_PREFIX) st"
    have offs: "off \<in> set (search (take ?c ?buf) BANNER_PREFIX) \<longleftrightarrow>
        off + 14 \<le> ?c \<and> occurs_at BANNER_PREFIX img (base + off)" for off
      using search_banner [OF assms(1)] occurs_in_window [OF cw(1), of base img off]
      by auto
    have step: "scan_ok img st'" "set (fst st) \<subseteq> set (fst st')"
      and here: "\<And>off. off + 14 \<le> ?c \<Longrightarrow> occurs_at BANNER_PREFIX img (base + off) \<Longrightarrow>
        version_at img (base + off) = [] \<or> version_at img (base + off) \<in> set (fst st')"
      using fold_banners_ok [OF b less.prems, of "search (take ?c ?buf) BANNER_PREFIX"]
        search_banner [OF assms(1), of _ "take ?c ?buf"] offs
      unfolding st'_def Let_def by blast+
    have here': "version_at img p = [] \<or> version_at img p \<in> set (fst st')"
      if "base \<le> p" "occurs_at BANNER_PREFIX img p" "p + 14 \<le> base + ?c" for p
      using here [of "p - base"] that by simp
    show ?thesis
    proof (cases "?c = length img - base")
      case True
      have "version_scan search view (length img) base st = st'"
        using b w14 rd True by (subst version_scan.simps) (simp add: st'_def Let_def)
      moreover have "p + 14 \<le> base + ?c" if "occurs_at BANNER_PREFIX img p" for p
        using that b True by (simp add: occurs_at_def)
      ultimately show ?thesis using step here' by (auto simp: Let_def)
    next
      case last: False
      have rec: "version_scan search view (length img) base st = version_scan search view (length img) ?next st'"
        using b w14 rd last by (subst version_scan.simps) (simp add: st'_def Let_def)
      have "length img - ?next < length img - base"
        using vs_next_progress [OF b w14] b by linarith
      from less.hyps [OF this step(1)] step(2)
      have r: "scan_ok img (version_scan search view (length img) ?next st')"
          "set (fst st') \<subseteq> set (fst (version_scan search view (length img) ?next st'))"
        and after: "\<And>p. ?next \<le> p \<Longrightarrow> occurs_at BANNER_PREFIX img p \<Longrightarrow> version_at img p = [] \<or>
          version_at img p \<in> set (fst (version_scan search view (length img) ?next st'))"
        by (auto simp: Let_def)
      have "version_at img p = [] \<or> version_at img p \<in> set (fst (version_scan search view (length img) ?next st'))"
        if "base \<le> p" "occurs_at BANNER_PREFIX img p" for p
        using version_windows.covered_or_next [OF b that(1), of 14] that(2) here' [OF that] after [OF _ that(2)] r(2)
        by (auto simp: occurs_at_def)
      with rec r step(2) show ?thesis by (auto simp: Let_def)
    qed
  qed
qed

text \<open>
  C8. The banner scan finds every kernel version in memory: over a memory image whose reads
  succeed, the versions it reports are exactly those of the banners anywhere in the image, also across
  two windows; no version is reported twice, and each report has the text and the address of a banner.
\<close>

theorem discover_kernel_versions_exact:
  assumes "searches search" "holds_image (pm_view pm) img" "length img = unat (pm_total pm)"
  shows "set (map kv_version (discover_kernel_versions search pm)) =
      {version_at img p | p. occurs_at BANNER_PREFIX img p \<and> version_at img p \<noteq> []} \<and>
    distinct (map kv_version (discover_kernel_versions search pm)) \<and>
    (\<forall>r \<in> set (discover_kernel_versions search pm).
       \<exists>p. occurs_at BANNER_PREFIX img p \<and> r = banner_at img p)"
proof -
  have "scan_ok img ([], [])" by (simp add: scan_ok_def)
  from version_scan_complete [OF assms(1,2) this, of 0]
  have ok: "scan_ok img (version_scan search (pm_view pm) (length img) 0 ([], []))"
    and all: "\<And>p. occurs_at BANNER_PREFIX img p \<Longrightarrow> version_at img p = [] \<or>
      version_at img p \<in> set (fst (version_scan search (pm_view pm) (length img) 0 ([], [])))"
    by (simp_all add: Let_def)
  from ok all show ?thesis
    unfolding discover_kernel_versions_def assms(3) [symmetric] scan_ok_def version_at_def by fastforce
qed

definition naive_search :: searcher where
  "naive_search hay needle = filter (occurs_at needle hay) [0 ..< Suc (length hay)]"

lemma naive_search_searches: "searches naive_search"
  unfolding searches_def naive_search_def
proof (intro allI impI conjI ballI)
  fix hay needle :: bytes and i
  show "i \<in> set (filter (occurs_at needle hay) [0 ..< Suc (length hay)]) \<Longrightarrow> occurs_at needle hay i" by (simp del: upt_Suc)
  assume "needle \<noteq> []" "occurs_at needle hay i"
  then show "\<exists>j \<in> set (filter (occurs_at needle hay) [0 ..< Suc (length hay)]). j \<le> i \<and> i < j + length needle"
    by (intro bexI [of _ i]) (auto simp: occurs_at_def simp del: upt_Suc)
qed

definition sample_banner_image :: bytes where
  "sample_banner_image = to_bytes ''xLinux version 6.1.0 (gcc)''"

definition sample_banner_machine :: physmem where
  "sample_banner_machine = \<lparr> pm_max_address = 25, pm_real_size = 26, pm_ideal_batch_size = 4096,
     pm_readonly = True,
     pm_view = empty_view\<lparr>rd_raw := (\<lambda>a n. Full (take n (drop (unat a) sample_banner_image)))\<rparr>,
     pm_virt = (\<lambda>_. empty_view), pm_virt_to_phys = (\<lambda>_ _. Inl (Connector 0)),
     pm_phys_to_virt = (\<lambda>_ _. None) \<rparr>"

theorem discover_kernel_versions_exact_witness:
  "''6.1.0'' \<in> set (map kv_version (discover_kernel_versions naive_search sample_banner_machine))"
proof -
  have len: "length sample_banner_image = 26" by (simp add: sample_banner_image_def)
  have "holds_image (pm_view sample_banner_machine) sample_banner_image"
    by (auto simp: holds_image_def len sample_banner_machine_def unat_of_nat)
  moreover have "length sample_banner_image = unat (pm_total sample_banner_machine)"
    by (simp add: len pm_total_def sample_banner_machine_def rust_simps)
  moreover have "occurs_at BANNER_PREFIX sample_banner_image 1"
    by (simp add: occurs_at_def len) (simp add: sample_banner_image_def BANNER_PREFIX_def to_bytes_def)
  moreover have "version_at sample_banner_image 1 = ''6.1.0''"
    by code_simp
  ultimately show ?thesis
    using discover_kernel_versions_exact [OF naive_search_searches] by fastforce
qed

end
