(* ===== verification/Defs.thy ===== *)
theory Defs
  imports Rust_Num
begin

text \<open>
  \<open>memflow-linux/src/defs.rs\<close> and \<open>memflow-linux/src/profile.rs\<close>: the generated description of one
  kernel build (symbol addresses, enum values, structure offsets), its loader, and the rebasing of
  its addresses by the KASLR slide. Offsets and sizes are \<open>usize\<close>, symbols \<open>u64\<close>. The TOML reader is
  the \<open>toml\<close> crate: a parameter that turns a text into a document, or fails.
\<close>

section \<open>The document\<close>

definition LINUX_DEFS_FORMAT_VERSION :: u32 where
  "LINUX_DEFS_FORMAT_VERSION = 1"

record linux_metadata =
  md_banner :: string

record linux_defs_symbols =
  ds_text :: u64
  ds_init_task :: u64
  ds_init_top_pgt :: "u64 option"
  ds_level4_kernel_pgt :: "u64 option"
  ds_linux_banner :: u64
  ds_modules :: "u64 option"
  ds_elf_format :: "u64 option"
  ds_compat_elf_format :: "u64 option"

record module_state_values =
  ms_live :: u64
  ms_coming :: u64
  ms_going :: u64
  ms_unformed :: u64

record linux_enums =
  en_module_state :: module_state_values

record task_struct_offsets =
  task_tasks :: usize
  task_pid :: usize
  task_tgid :: usize
  task_comm :: usize
  task_comm_len :: usize
  task_state :: usize
  task_mm :: usize
  task_active_mm :: usize
  task_exit_state :: usize
  task_exit_code :: usize
  task_real_parent :: usize
  task_parent :: usize
  task_group_leader :: usize
  task_fs :: usize
  task_files :: usize
  task_signal :: usize

record mm_struct_offsets =
  mm_mmap :: "usize option"
  mm_mm_mt :: "usize option"
  mm_pgd :: usize
  mm_binfmt :: "usize option"
  mm_exe_file :: usize
  mm_start_code :: usize
  mm_end_code :: usize
  mm_arg_start :: usize
  mm_arg_end :: usize
  mm_env_start :: usize
  mm_env_end :: usize

record vm_area_struct_offsets =
  vma_vm_start :: usize
  vma_vm_end :: usize
  vma_vm_flags :: usize
  vma_vm_file :: usize
  vma_vm_next :: "usize option"

record maple_tree_offsets =
  mt_ma_root :: usize

record maple_range64_offsets =
  mr_pivot :: usize
  mr_pivot_count :: usize
  mr_slot :: usize
  mr_slot_count :: usize
  mr_meta_end :: usize

record maple_arange64_offsets =
  ma_pivot :: usize
  ma_pivot_count :: usize
  ma_slot :: usize
  ma_slot_count :: usize
  ma_meta_end :: usize

record maple_offsets =
  maple_tree :: maple_tree_offsets
  maple_range64 :: maple_range64_offsets
  maple_arange64 :: maple_arange64_offsets

record list_head_offsets =
  list_next :: usize
  list_prev :: usize

record module_offsets =
  mod_list :: usize
  mod_name :: usize
  mod_name_len :: usize
  mod_state :: usize
  mod_mem :: usize
  mod_mem_count :: usize

record module_memory_offsets =
  modmem_base :: usize
  modmem_size :: usize
  modmem_struct_size :: usize

record fs_struct_offsets =
  fss_root :: usize
  fss_pwd :: usize

record file_offsets =
  file_f_path :: usize

record path_offsets =
  path_mnt :: usize
  path_dentry :: usize

record mount_offsets =
  mount_mnt_parent :: usize
  mount_mnt_mountpoint :: usize
  mount_mnt :: usize

record vfsmount_offsets =
  vfsmount_mnt_root :: usize

record dentry_offsets =
  dentry_d_parent :: usize
  dentry_d_name :: usize

record qstr_offsets =
  qstr_name :: usize

record linux_offsets =
  off_task :: task_struct_offsets
  off_mm :: mm_struct_offsets
  off_vma :: vm_area_struct_offsets
  off_maple :: maple_offsets
  off_list :: list_head_offsets
  off_module :: module_offsets
  off_module_memory :: module_memory_offsets
  off_fs :: fs_struct_offsets
  off_file :: file_offsets
  off_path :: path_offsets
  off_mount :: mount_offsets
  off_vfsmount :: vfsmount_offsets
  off_dentry :: dentry_offsets
  off_qstr :: qstr_offsets

record linux_defs =
  defs_format :: u32
  defs_metadata :: linux_metadata
  defs_symbols :: linux_defs_symbols
  defs_enums :: linux_enums
  defs_offsets :: linux_offsets

section \<open>Loading\<close>

definition default_format_version :: u32 where
  "default_format_version = LINUX_DEFS_FORMAT_VERSION"

text \<open>\<open>format!("0x{value:016x}")\<close>, the text a symbol address is serialized to.\<close>

definition serialize_hex_u64 :: "u64 \<Rightarrow> string" where
  "serialize_hex_u64 value = ''0x'' @ pad_left 16 (CHR ''0'') (radix_str 16 (unat value))"

definition defs_parse_hex_u64 :: "string \<Rightarrow> u64 option" where
  "defs_parse_hex_u64 value =
     (let trimmed = trim value;
          hex = (case strip_prefix ''0x'' trimmed of
                   Some s \<Rightarrow> s
                 | None \<Rightarrow> (case strip_prefix ''0X'' trimmed of Some s \<Rightarrow> s | None \<Rightarrow> trimmed))
      in map_option of_nat (from_str_radix (2 ^ 64) 16 hex))"

text \<open>The optional form: an absent value stays absent, a present one must parse.\<close>

definition serialize_hex_opt_u64 :: "u64 option \<Rightarrow> string option" where
  "serialize_hex_opt_u64 value = map_option serialize_hex_u64 value"

definition deserialize_hex_opt_u64 :: "string option \<Rightarrow> u64 option option" where
  "deserialize_hex_opt_u64 value =
     (case value of
        None \<Rightarrow> Some None
      | Some s \<Rightarrow> (case defs_parse_hex_u64 s of None \<Rightarrow> None | Some v \<Rightarrow> Some (Some v)))"

definition from_toml_str :: "(string \<Rightarrow> linux_defs option) \<Rightarrow> string \<Rightarrow> linux_defs result" where
  "from_toml_str toml data =
     rbind (ok_or (OsLayer Encoding) (toml data)) (\<lambda>defs.
       if defs_format defs \<noteq> LINUX_DEFS_FORMAT_VERSION then Inl (OsLayer NotSupported) else Inr defs)"

text \<open>\<open>fs::read\<close> gives the bytes of the file or fails.\<close>

definition linux_defs_load ::
    "(string \<Rightarrow> linux_defs option) \<Rightarrow> (string \<Rightarrow> bytes option) \<Rightarrow> string \<Rightarrow> linux_defs result" where
  "linux_defs_load toml read path =
     rbind (ok_or (OsLayer UnableToReadFile) (read path)) (\<lambda>data.
       if take 4 data = [0x7f, 0x45, 0x4c, 0x46] then Inl (OsLayer NotSupported)
       else rbind (ok_or (OsLayer Encoding) (from_utf8 data)) (from_toml_str toml))"

section \<open>The profile\<close>

record linux_symbols =
  sym_text :: addr
  sym_init_task :: addr
  sym_init_top_pgt :: "addr option"
  sym_level4_kernel_pgt :: "addr option"
  sym_linux_banner :: addr
  sym_modules :: "addr option"
  sym_elf_format :: "addr option"
  sym_compat_elf_format :: "addr option"

record linux_profile =
  pr_source :: string
  pr_banner :: string
  pr_symbols :: linux_symbols
  pr_enums :: linux_enums
  pr_offsets :: linux_offsets

definition from_defs :: "string \<Rightarrow> linux_defs \<Rightarrow> linux_profile" where
  "from_defs path defs =
     (let s = defs_symbols defs in
      \<lparr> pr_source = path,
        pr_banner = md_banner (defs_metadata defs),
        pr_symbols =
          \<lparr> sym_text = ds_text s, sym_init_task = ds_init_task s,
            sym_init_top_pgt = ds_init_top_pgt s,
            sym_level4_kernel_pgt = ds_level4_kernel_pgt s,
            sym_linux_banner = ds_linux_banner s,
            sym_modules = ds_modules s, sym_elf_format = ds_elf_format s,
            sym_compat_elf_format = ds_compat_elf_format s \<rparr>,
        pr_enums = defs_enums defs,
        pr_offsets = defs_offsets defs \<rparr>)"

definition linux_profile_load ::
    "(string \<Rightarrow> linux_defs option) \<Rightarrow> (string \<Rightarrow> bytes option) \<Rightarrow> string \<Rightarrow> linux_profile result" where
  "linux_profile_load toml read path =
     rbind (linux_defs_load toml read path) (\<lambda>defs. Inr (from_defs path defs))"

text \<open>
  The slide is an \<open>imem\<close> (\<open>i64\<close>), held as its 64 bits with \<open>sint\<close> its value; the difference is taken in
  \<open>i128\<close>, where it cannot overflow, and refused when it does not fit.
\<close>

definition compute_slide :: "linux_profile \<Rightarrow> addr \<Rightarrow> u64 result" where
  "compute_slide p runtime_text =
     (let delta = int (unat runtime_text) - int (unat (sym_text (pr_symbols p)))
      in if delta < - (2 ^ 63) \<or> 2 ^ 63 - 1 < delta then Inl (OsLayer Offset)
         else Inr (word_of_int delta))"

definition rebase :: "addr \<Rightarrow> u64 \<Rightarrow> addr" where
  "rebase address slide = word_of_int (int (unat address) + sint slide)"

section \<open>Properties\<close>

lemma rebase_add: "rebase a s = a + s"
  by (simp add: rebase_def)

lemma sint_word_of_int: "sint (word_of_int n :: u64) = signed_take_bit 63 n"
  by (simp add: signed_of_int)

lemma compute_slide_Inr_iff:
  "compute_slide p text = Inr s \<longleftrightarrow>
     - (2 ^ 63) \<le> int (unat text) - int (unat (sym_text (pr_symbols p))) \<and>
     int (unat text) - int (unat (sym_text (pr_symbols p))) < 2 ^ 63 \<and>
     s = text - sym_text (pr_symbols p)"
  by (auto simp: compute_slide_def Let_def)

text \<open>
  The slide computed from the observed text address rebases every symbol of the profile by
  the distance the kernel text moved: the text lands exactly on the observed address and the distance
  between any two symbols is kept.
\<close>

theorem compute_slide_rebases:
  assumes "compute_slide p text = Inr slide"
  shows "rebase (sym_text (pr_symbols p)) slide = text \<and>
    rebase a slide - rebase b slide = a - b \<and>
    int (unat text) = int (unat (sym_text (pr_symbols p))) + sint slide"
proof -
  have s: "slide = text - sym_text (pr_symbols p)" using assms by (simp add: compute_slide_Inr_iff)
  let ?d = "int (unat text) - int (unat (sym_text (pr_symbols p)))"
  have "slide = word_of_int ?d" using s by simp
  then have "sint slide = signed_take_bit 63 ?d" by (simp only: sint_word_of_int)
  also have "\<dots> = ?d"
    using assms by (subst signed_take_bit_int_eq_self_iff) (auto simp: compute_slide_Inr_iff)
  finally show ?thesis by (simp add: rebase_add s)
qed

text \<open>
  The hexadecimal text of an address in the defs file reads back as the same address, also for
  the optional symbols.
\<close>

theorem hex_u64_roundtrip:
  "defs_parse_hex_u64 (serialize_hex_u64 v) = Some v \<and>
   deserialize_hex_opt_u64 (serialize_hex_opt_u64 w) = Some w"
proof -
  have hex: "defs_parse_hex_u64 (serialize_hex_u64 v) = Some v" for v
  proof -
    let ?d = "pad_left 16 (CHR ''0'') (radix_str 16 (unat v))"
    have "digit_text 16 ?d" by (simp add: pad_left_digits radix_str_digits)
    then have "trim (''0x'' @ ?d) = ''0x'' @ ?d" by (rule trim_hex_literal)
    moreover have "strip_prefix ''0x'' (''0x'' @ ?d) = Some ?d"
      by (simp add: strip_prefix_def starts_with_def)
    moreover have "from_str_radix (2 ^ 64) 16 ?d = Some (unat v)"
      by (rule parse_padded) (use unat_u64_less [of v] in simp_all)
    ultimately show ?thesis
      unfolding defs_parse_hex_u64_def serialize_hex_u64_def Let_def by simp
  qed
  then show ?thesis
    by (cases w) (simp_all add: serialize_hex_opt_u64_def deserialize_hex_opt_u64_def)
qed

text \<open>
  Loading a profile succeeds exactly for a readable file that is no ELF image, is UTF-8 and
  parses to a document of format version 1; the profile then carries the document's addresses, enum
  values and offsets unchanged. Each refusal has its own error.
\<close>

theorem linux_profile_load_iff:
  "linux_profile_load toml read path = Inr p \<longleftrightarrow>
    (\<exists>data text defs. read path = Some data \<and> take 4 data \<noteq> [0x7f, 0x45, 0x4c, 0x46] \<and>
      from_utf8 data = Some text \<and> toml text = Some defs \<and> defs_format defs = 1 \<and>
      p = from_defs path defs)"
  by (auto simp: linux_profile_load_def linux_defs_load_def from_toml_str_def result_simps
      LINUX_DEFS_FORMAT_VERSION_def split: if_splits)

definition sample_profile :: linux_profile where
  "sample_profile =
     \<lparr> pr_source = ''/defs/sample.toml'', pr_banner = ''Linux version 6.1.0-sample'',
       pr_symbols =
         \<lparr> sym_text = 0xffffffff81000000, sym_init_task = 0xffffffff82000000,
           sym_init_top_pgt = Some 0xffffffff82400000, sym_level4_kernel_pgt = None,
           sym_linux_banner = 0xffffffff81c00000, sym_modules = Some 0xffffffff82800000,
           sym_elf_format = Some 0xffffffff82900000, sym_compat_elf_format = None \<rparr>,
       pr_enums = \<lparr> en_module_state = \<lparr> ms_live = 0, ms_coming = 1, ms_going = 2, ms_unformed = 3 \<rparr> \<rparr>,
       pr_offsets =
         \<lparr> off_task = \<lparr> task_tasks = 0x400, task_pid = 0x4a0, task_tgid = 0x4a4, task_comm = 0x640,
             task_comm_len = 16, task_state = 0x18, task_mm = 0x450, task_active_mm = 0x458,
             task_exit_state = 0x488, task_exit_code = 0x48c, task_real_parent = 0x4b0,
             task_parent = 0x4b8, task_group_leader = 0x4f0, task_fs = 0x680, task_files = 0x688,
             task_signal = 0x698 \<rparr>,
           off_mm = \<lparr> mm_mmap = None, mm_mm_mt = Some 0x40, mm_pgd = 0x48, mm_binfmt = Some 0x2e0,
             mm_exe_file = 0x300, mm_start_code = 0xf0, mm_end_code = 0xf8, mm_arg_start = 0x110,
             mm_arg_end = 0x118, mm_env_start = 0x120, mm_env_end = 0x128 \<rparr>,
           off_vma = \<lparr> vma_vm_start = 0, vma_vm_end = 8, vma_vm_flags = 0x20, vma_vm_file = 0xa0,
             vma_vm_next = None \<rparr>,
           off_maple = \<lparr> maple_tree = \<lparr> mt_ma_root = 8 \<rparr>,
             maple_range64 = \<lparr> mr_pivot = 8, mr_pivot_count = 15, mr_slot = 0x80, mr_slot_count = 16,
               mr_meta_end = 0xf8 \<rparr>,
             maple_arange64 = \<lparr> ma_pivot = 8, ma_pivot_count = 9, ma_slot = 0x50, ma_slot_count = 10,
               ma_meta_end = 0xf0 \<rparr> \<rparr>,
           off_list = \<lparr> list_next = 0, list_prev = 8 \<rparr>,
           off_module = \<lparr> mod_list = 8, mod_name = 0x18, mod_name_len = 56, mod_state = 0,
             mod_mem = 0x100, mod_mem_count = 7 \<rparr>,
           off_module_memory = \<lparr> modmem_base = 0, modmem_size = 8, modmem_struct_size = 0x48 \<rparr>,
           off_fs = \<lparr> fss_root = 0x18, fss_pwd = 0x28 \<rparr>,
           off_file = \<lparr> file_f_path = 0x10 \<rparr>,
           off_path = \<lparr> path_mnt = 0, path_dentry = 8 \<rparr>,
           off_mount = \<lparr> mount_mnt_parent = 0x10, mount_mnt_mountpoint = 0x18, mount_mnt = 0x20 \<rparr>,
           off_vfsmount = \<lparr> vfsmount_mnt_root = 0 \<rparr>,
           off_dentry = \<lparr> dentry_d_parent = 0x18, dentry_d_name = 0x20 \<rparr>,
           off_qstr = \<lparr> qstr_name = 8 \<rparr> \<rparr> \<rparr>"

theorem compute_slide_rebases_witness:
  "rebase 0xffffffff81000000 0x1e00000 = 0xffffffff82e00000"
proof -
  have "compute_slide sample_profile 0xffffffff82e00000 = Inr 0x1e00000"
    by (simp add: compute_slide_Inr_iff sample_profile_def)
  from compute_slide_rebases [OF this] show ?thesis by (simp add: sample_profile_def)
qed

end
