(* ===== verification/Discovery.thy ===== *)
theory Discovery
  imports Kernel_Scan Version_Scan Defs
begin

text \<open>
  \<open>memflow-linux/src/kernel.rs\<close>, second half: finding the kernel of a physical memory with the help of
  the defs. Three searches propose a physical text base or a physical \<open>init_task\<close>, each proposal is
  validated against the task structure, the page tables and the banner; the bootstrap signature scan
  of \<open>Kernel_Scan\<close> is the last resort.

  The crates the code calls are collected in one argument: the disassembler, the substring search and
  \<open>set_mem_map\<close>, which restricts a connector to one window.
\<close>

record toolkit =
  tk_decode :: decoder
  tk_search :: searcher
  tk_set_mem_map :: "addr \<Rightarrow> u64 \<Rightarrow> physmem \<Rightarrow> physmem"

definition KERNEL_SCAN_CHUNK_SIZE :: nat where "KERNEL_SCAN_CHUNK_SIZE = 64 * 1048576"
definition BANNER_SCAN_PREFIX_LEN :: nat where "BANNER_SCAN_PREFIX_LEN = 96"
definition SWAPPER_COMM :: bytes where "SWAPPER_COMM = to_bytes ''swapper/0'' @ [0]"

text \<open>\<open>if let Ok(x)\<close> goes on after an error, but a panic unwinds through it.\<close>

definition if_let_ok :: "'a result \<Rightarrow> 'a option result" where
  "if_let_ok r = (case r of Inl Panic \<Rightarrow> Inl Panic | Inl _ \<Rightarrow> Inr None | Inr x \<Rightarrow> Inr (Some x))"

definition or_else :: "'a option result \<Rightarrow> (unit \<Rightarrow> 'a result) \<Rightarrow> 'a result" where
  "or_else r k = rbind r (\<lambda>x. case x of Some v \<Rightarrow> Inr v | None \<Rightarrow> k ())"

section \<open>Helpers\<close>

definition trim_trailing_nuls :: "bytes \<Rightarrow> bytes" where
  "trim_trailing_nuls data = rev (dropWhile (\<lambda>b. b = 0) (rev data))"

definition checked_symbol_delta :: "addr \<Rightarrow> addr \<Rightarrow> u64 result" where
  "checked_symbol_delta base target = ok_or (OsLayer Offset) (checked_sub target base)"

definition kernel_checked_add :: "addr \<Rightarrow> u64 \<Rightarrow> addr result" where
  "kernel_checked_add base delta = ok_or (OsLayer Offset) (checked_add base delta)"

definition kernel_checked_sub :: "addr \<Rightarrow> u64 \<Rightarrow> addr result" where
  "kernel_checked_sub base delta = ok_or (OsLayer Offset) (checked_sub base delta)"

definition read_physical_addr :: "physmem \<Rightarrow> addr \<Rightarrow> addr result" where
  "read_physical_addr pm a = data_part (rd_u64 (pm_view pm) a)"

definition read_physical_u32 :: "physmem \<Rightarrow> addr \<Rightarrow> u32 result" where
  "read_physical_u32 pm a = data_part (rd_u32 (pm_view pm) a)"

definition read_physical_cstring :: "physmem \<Rightarrow> addr \<Rightarrow> nat \<Rightarrow> string result" where
  "read_physical_cstring pm a max_len =
     rbind (data_part (rd_raw (pm_view pm) a max_len)) (\<lambda>buf.
       let e = (case position (\<lambda>b. b = 0) buf of Some i \<Rightarrow> i | None \<Rightarrow> length buf)
       in Inr (from_utf8_lossy (take e buf)))"

definition compute_slide_from_symbol :: "addr \<Rightarrow> addr \<Rightarrow> u64 result" where
  "compute_slide_from_symbol runtime profile =
     (let delta = int (unat runtime) - int (unat profile)
      in if delta < - (2 ^ 63) \<or> 2 ^ 63 - 1 < delta then Inl (OsLayer Offset)
         else Inr (word_of_int delta))"

definition is_kernel_slide_aligned :: "u64 \<Rightarrow> bool" where
  "is_kernel_slide_aligned slide \<longleftrightarrow> 0 \<le> sint slide \<and> slide mod mb 2 = 0"

definition parse_usize :: "string \<Rightarrow> nat option" where
  "parse_usize s = from_str_radix (2 ^ 64) 10 s"

definition is_ascii_digit :: "char \<Rightarrow> bool" where
  "is_ascii_digit c \<longleftrightarrow> c \<in> set ''0123456789''"

text \<open>Every \<open>?\<close> of the function is a \<open>None\<close> branch.\<close>

definition parse_version_range :: "bytes \<Rightarrow> version_range option" where
  "parse_version_range banner =
     Option.bind (from_utf8 (trim_trailing_nuls banner)) (\<lambda>banner.
     Option.bind (strip_prefix ''Linux version '' banner) (\<lambda>version.
     case split_whitespace version of
       [] \<Rightarrow> None
     | version # _ \<Rightarrow>
         (case split_on (\<lambda>c. c = CHR ''.'') version of
            major # minor # point # _ \<Rightarrow>
              Option.bind (parse_usize major) (\<lambda>x.
              Option.bind (parse_usize minor) (\<lambda>y.
              let digits = takeWhile is_ascii_digit point in
              if digits = [] then None
              else Option.bind (parse_usize digits) (\<lambda>z. Some (vr_exact x y z))))
          | _ \<Rightarrow> None)))"

section \<open>Validating a candidate\<close>

record task_candidate =
  tc_phys_task :: addr
  tc_runtime_init_task :: addr
  tc_slide :: u64

definition validate_init_task_candidate :: "physmem \<Rightarrow> linux_profile \<Rightarrow> addr \<Rightarrow> task_candidate result" where
  "validate_init_task_candidate pm profile phys_task =
     (let t = off_task (pr_offsets profile) in
     rbind (read_physical_cstring pm (phys_task + task_comm t) (unat (task_comm_len t))) (\<lambda>name.
     if name \<noteq> ''swapper/0'' then Inl (OsLayer NotFound) else
     rbind (read_physical_u32 pm (phys_task + task_pid t)) (\<lambda>pid.
     rbind (read_physical_u32 pm (phys_task + task_tgid t)) (\<lambda>tgid.
     if pid \<noteq> 0 \<or> tgid \<noteq> 0 then Inl (OsLayer NotFound) else
     rbind (read_physical_addr pm (phys_task + task_group_leader t)) (\<lambda>runtime_init_task.
     if \<not> looks_like_kernel_pointer runtime_init_task then Inl (OsLayer NotFound) else
     rbind (read_physical_addr pm (phys_task + task_parent t)) (\<lambda>parent.
     rbind (read_physical_addr pm (phys_task + task_real_parent t)) (\<lambda>real_parent.
     if parent \<noteq> runtime_init_task \<or> real_parent \<noteq> runtime_init_task then Inl (OsLayer NotFound) else
     rbind (compute_slide_from_symbol runtime_init_task (sym_init_task (pr_symbols profile))) (\<lambda>slide.
     if \<not> is_kernel_slide_aligned slide then Inl (OsLayer NotFound) else
     Inr \<lparr> tc_phys_task = phys_task, tc_runtime_init_task = runtime_init_task, tc_slide = slide \<rparr>))))))))"

fun add_page_tables :: "addr \<Rightarrow> addr \<Rightarrow> addr list \<Rightarrow> addr list \<Rightarrow> addr list result" where
  "add_page_tables text phys_text candidates [] = Inr candidates"
| "add_page_tables text phys_text candidates (symbol # symbols) =
     rbind (checked_symbol_delta text symbol) (\<lambda>delta.
     rbind (kernel_checked_add phys_text delta) (\<lambda>a.
     let phys = as_page_aligned a (kb 4)
     in add_page_tables text phys_text
          (if phys \<in> set candidates then candidates else candidates @ [phys]) symbols))"

definition option_list :: "'a option \<Rightarrow> 'a list" where
  "option_list x = (case x of None \<Rightarrow> [] | Some v \<Rightarrow> [v])"

definition page_table_candidates :: "linux_profile \<Rightarrow> addr \<Rightarrow> addr list result" where
  "page_table_candidates profile phys_text =
     (let s = pr_symbols profile in
     rbind (add_page_tables (sym_text s) phys_text []
       (option_list (sym_init_top_pgt s) @ option_list (sym_level4_kernel_pgt s))) (\<lambda>candidates.
     if candidates = [] then Inl (OsLayer Offset) else Inr candidates))"

definition validate_kernel_translation ::
    "physmem \<Rightarrow> linux_profile \<Rightarrow> addr \<Rightarrow> addr \<Rightarrow> addr \<Rightarrow> task_candidate \<Rightarrow> bool" where
  "validate_kernel_translation pm profile cr3 virt_text phys_text candidate =
     (if pm_virt_to_phys pm cr3 virt_text \<noteq> Inr phys_text then False
      else if pm_virt_to_phys pm cr3 (tc_runtime_init_task candidate) \<noteq> Inr (tc_phys_task candidate) then False
      else
        let banner_addr = rebase (sym_linux_banner (pr_symbols profile)) (tc_slide candidate);
            expected = trim_trailing_nuls (to_bytes (pr_banner profile));
            n = min (length expected) 256
        in if expected = [] then True
           else (case strict (rd_raw (pm_virt pm cr3) banner_addr n) of
                   Inr actual \<Rightarrow> actual = take n expected
                 | Inl _ \<Rightarrow> False))"

definition defs_kernel_info :: "linux_profile \<Rightarrow> addr \<Rightarrow> addr \<Rightarrow> addr \<Rightarrow> kernel_info" where
  "defs_kernel_info profile cr3 virt_text phys_text =
     \<lparr> ki_cr3 = cr3, ki_phys_base = phys_text, ki_la57_on = False, ki_virt_text = virt_text,
       ki_phys_text = phys_text, ki_kallsyms = None,
       ki_version = (case parse_version_range (to_bytes (pr_banner profile)) of
                       Some v \<Rightarrow> v | None \<Rightarrow> vr_major_only 0) \<rparr>"

definition resolve_kernel_from_candidate ::
    "physmem \<Rightarrow> linux_profile \<Rightarrow> task_candidate \<Rightarrow> addr \<Rightarrow> kernel_info result" where
  "resolve_kernel_from_candidate pm profile candidate phys_text_hint =
     (let s = pr_symbols profile;
          virt_text = rebase (sym_text s) (tc_slide candidate) in
     rbind (if phys_text_hint = NULL then
              rbind (checked_symbol_delta (sym_text s) (sym_init_task s)) (\<lambda>text_delta.
              rbind (kernel_checked_sub (tc_phys_task candidate) text_delta) (\<lambda>phys_text.
              if phys_text mod mb 2 \<noteq> 0 then Inl (OsLayer NotFound) else Inr phys_text))
            else Inr phys_text_hint) (\<lambda>phys_text.
     rbind (page_table_candidates profile phys_text) (\<lambda>candidates.
     case find (\<lambda>cr3. validate_kernel_translation pm profile cr3 virt_text phys_text candidate) candidates of
       Some cr3 \<Rightarrow> Inr (defs_kernel_info profile cr3 virt_text phys_text)
     | None \<Rightarrow> Inl (OsLayer NotFound))))"

definition discover_kernel_with_hint :: "physmem \<Rightarrow> linux_profile \<Rightarrow> addr \<Rightarrow> kernel_info result" where
  "discover_kernel_with_hint pm profile phys_text =
     (let s = pr_symbols profile in
     rbind (checked_symbol_delta (sym_text s) (sym_init_task s)) (\<lambda>task_delta.
     rbind (kernel_checked_add phys_text task_delta) (\<lambda>phys_task.
     rbind (validate_init_task_candidate pm profile phys_task) (\<lambda>candidate.
     resolve_kernel_from_candidate pm profile candidate phys_text))))"

section \<open>The scans\<close>

text \<open>
  The candidate scan: \<open>(0 .. total).step_by(2 MiB)\<close>; it stops at the first position whose task address
  overflows.
\<close>

function candidate_scan_loop :: "physmem \<Rightarrow> linux_profile \<Rightarrow> u64 \<Rightarrow> nat \<Rightarrow> kernel_info option result" where
  "candidate_scan_loop pm profile task_delta base =
     (if unat (pm_total pm) \<le> base then Inr None
      else case kernel_checked_add (of_nat base) task_delta of
        Inl _ \<Rightarrow> Inr None
      | Inr phys_task \<Rightarrow>
          rbind (if_let_ok (rbind (validate_init_task_candidate pm profile phys_task) (\<lambda>candidate.
                   resolve_kernel_from_candidate pm profile candidate (of_nat base)))) (\<lambda>r.
          case r of
            Some info \<Rightarrow> Inr (Some info)
          | None \<Rightarrow> candidate_scan_loop pm profile task_delta (base + 2 * 1048576)))"
  by pat_completeness auto
termination
  by (relation "measure (\<lambda>(pm, profile, d, base). unat (pm_total pm) - base)") simp_all

declare candidate_scan_loop.simps [simp del]

definition discover_kernel_from_candidate_scan :: "physmem \<Rightarrow> linux_profile \<Rightarrow> kernel_info result" where
  "discover_kernel_from_candidate_scan pm profile =
     rbind (checked_symbol_delta (sym_text (pr_symbols profile)) (sym_init_task (pr_symbols profile))) (\<lambda>task_delta.
       or_else (candidate_scan_loop pm profile task_delta 0) (\<lambda>_. Inl (OsLayer NotFound)))"

text \<open>
  The banner scan and the task scan run the same loop over windows of physical memory: read a window,
  try the matches of a pattern in order, stop at the last window, else go on with \<open>length pat - 1\<close>
  bytes of overlap. \<open>try_at p\<close> is the body for a match at the physical position \<open>p\<close>.
\<close>

fun try_matches_at :: "(nat \<Rightarrow> kernel_info option result) \<Rightarrow> nat list \<Rightarrow> kernel_info option result" where
  "try_matches_at try_at [] = Inr None"
| "try_matches_at try_at (p # ps) =
     rbind (try_at p) (\<lambda>r. case r of Some info \<Rightarrow> Inr (Some info) | None \<Rightarrow> try_matches_at try_at ps)"

definition window_len :: "nat \<Rightarrow> nat \<Rightarrow> nat" where
  "window_len tot base = min KERNEL_SCAN_CHUNK_SIZE (tot - base)"

definition window_next :: "bytes \<Rightarrow> nat \<Rightarrow> nat \<Rightarrow> nat" where
  "window_next pat tot base = base + window_len tot base - (length pat - 1)"

lemma window_next_decreases:
  assumes "\<not> tot \<le> base" "\<not> window_len tot base < length pat"
  shows "tot - window_next pat tot base < tot - base"
proof -
  have "0 < window_len tot base" using assms(1) by (simp add: window_len_def KERNEL_SCAN_CHUNK_SIZE_def)
  then have "base < window_next pat tot base" using assms(2) unfolding window_next_def by linarith
  with assms(1) show ?thesis by linarith
qed

function window_scan ::
    "searcher \<Rightarrow> memview \<Rightarrow> bytes \<Rightarrow> (nat \<Rightarrow> kernel_info option result) \<Rightarrow> nat \<Rightarrow> nat \<Rightarrow>
     kernel_info option result" where
  "window_scan search view pat try_at tot base =
     (if tot \<le> base then Inr None
      else if window_len tot base < length pat then Inr None
      else
        rbind (data_part (rd_raw view (of_nat base) (window_len tot base))) (\<lambda>buf.
        rbind (try_matches_at try_at (map (\<lambda>off. base + off) (search buf pat))) (\<lambda>r.
        case r of
          Some info \<Rightarrow> Inr (Some info)
        | None \<Rightarrow>
            if window_len tot base = tot - base then Inr None
            else window_scan search view pat try_at tot (window_next pat tot base))))"
  by pat_completeness auto
termination
  by (relation "measure (\<lambda>(search, view, pat, try_at, tot, base). tot - base)")
    (simp_all only: wf_measure in_measure prod.case, (rule window_next_decreases, assumption+)+)

declare window_scan.simps [simp del]

definition try_banner_at :: "physmem \<Rightarrow> linux_profile \<Rightarrow> u64 \<Rightarrow> nat \<Rightarrow> kernel_info option result" where
  "try_banner_at pm profile banner_delta p =
     (case kernel_checked_sub (of_nat p) banner_delta of
        Inl _ \<Rightarrow> Inr None
      | Inr phys_text \<Rightarrow>
          if phys_text mod mb 2 \<noteq> 0 then Inr None
          else if_let_ok (discover_kernel_with_hint pm profile phys_text))"

definition discover_kernel_from_banner_scan :: "searcher \<Rightarrow> physmem \<Rightarrow> linux_profile \<Rightarrow> kernel_info result" where
  "discover_kernel_from_banner_scan search pm profile =
     (let banner = trim_trailing_nuls (to_bytes (pr_banner profile)) in
      if banner = [] then Inl (OsLayer NotFound)
      else
        let banner_prefix = take BANNER_SCAN_PREFIX_LEN banner in
        rbind (checked_symbol_delta (sym_text (pr_symbols profile)) (sym_linux_banner (pr_symbols profile))) (\<lambda>banner_delta.
        or_else (window_scan search (pm_view pm) banner_prefix (try_banner_at pm profile banner_delta)
                   (unat (pm_total pm)) 0) (\<lambda>_. Inl (OsLayer NotFound))))"

definition try_task_at :: "physmem \<Rightarrow> linux_profile \<Rightarrow> nat \<Rightarrow> kernel_info option result" where
  "try_task_at pm profile p =
     (case checked_sub (of_nat p) (task_comm (off_task (pr_offsets profile))) of
        None \<Rightarrow> Inr None
      | Some phys_task \<Rightarrow>
          rbind (if_let_ok (validate_init_task_candidate pm profile phys_task)) (\<lambda>r.
          case r of
            None \<Rightarrow> Inr None
          | Some candidate \<Rightarrow> if_let_ok (resolve_kernel_from_candidate pm profile candidate NULL)))"

definition discover_kernel_from_task_scan :: "searcher \<Rightarrow> physmem \<Rightarrow> linux_profile \<Rightarrow> kernel_info result" where
  "discover_kernel_from_task_scan search pm profile =
     or_else (window_scan search (pm_view pm) SWAPPER_COMM (try_task_at pm profile) (unat (pm_total pm)) 0)
       (\<lambda>_. Inl (OsLayer NotFound))"

definition discover_kernel_from_profile :: "searcher \<Rightarrow> physmem \<Rightarrow> linux_profile \<Rightarrow> kernel_info result" where
  "discover_kernel_from_profile search pm profile =
     or_else (if_let_ok (discover_kernel_from_candidate_scan pm profile)) (\<lambda>_.
     or_else (if_let_ok (discover_kernel_from_banner_scan search pm profile)) (\<lambda>_.
     discover_kernel_from_task_scan search pm profile))"

definition scan_with_kernel_hint :: "toolkit \<Rightarrow> physmem \<Rightarrow> addr \<Rightarrow> kernel_info result" where
  "scan_with_kernel_hint tk pm kernel_hint =
     find_kernel (tk_decode tk) (tk_set_mem_map tk kernel_hint (mb 2) pm)"

text \<open>The order of the strategies; the cached hint only counts when it differs from the explicit one.\<close>

definition try_hint :: "(addr \<Rightarrow> kernel_info result) \<Rightarrow> addr option \<Rightarrow> kernel_info option result" where
  "try_hint f hint = (case hint of None \<Rightarrow> Inr None | Some h \<Rightarrow> if_let_ok (f h))"

definition discover_kernel ::
    "toolkit \<Rightarrow> physmem \<Rightarrow> linux_profile \<Rightarrow> addr option \<Rightarrow> addr option \<Rightarrow> bool \<Rightarrow> kernel_info result" where
  "discover_kernel tk pm profile kernel_hint cached_kernel_hint generic_fallback =
     (let cached = (if cached_kernel_hint = kernel_hint then None else cached_kernel_hint) in
     or_else (try_hint (discover_kernel_with_hint pm profile) kernel_hint) (\<lambda>_.
     or_else (try_hint (discover_kernel_with_hint pm profile) cached) (\<lambda>_.
     or_else (if_let_ok (discover_kernel_from_profile (tk_search tk) pm profile)) (\<lambda>_.
     or_else (try_hint (scan_with_kernel_hint tk pm) kernel_hint) (\<lambda>_.
     or_else (try_hint (scan_with_kernel_hint tk pm) cached) (\<lambda>_.
     if generic_fallback then find_kernel (tk_decode tk) pm else Inl (OsLayer NotFound)))))))"

section \<open>Properties: a kernel found with the defs is validated\<close>

lemma if_let_ok_simps [simp]:
  "if_let_ok (Inr x) = Inr (Some x)"
  "if_let_ok r = Inr (Some y) \<longleftrightarrow> r = Inr y"
  "if_let_ok r = Inr None \<longleftrightarrow> (\<exists>e. r = Inl e \<and> e \<noteq> Panic)"
  by (auto simp: if_let_ok_def split: sum.splits error.splits)

lemma or_else_Inr [result_simps]:
  "or_else r k = Inr v \<longleftrightarrow> r = Inr (Some v) \<or> r = Inr None \<and> k () = Inr v"
  by (auto simp: or_else_def result_simps split: option.splits)

lemma try_hint_Some [simp]: "try_hint f h = Inr (Some x) \<longleftrightarrow> (\<exists>a. h = Some a \<and> f a = Inr x)"
  by (auto simp: try_hint_def split: option.splits)

lemma compute_slide_from_symbol_Inr:
  "compute_slide_from_symbol runtime a = Inr s \<Longrightarrow> runtime = rebase a s"
  by (auto simp: compute_slide_from_symbol_def Let_def rebase_add split: if_splits)

text \<open>
  What makes a kernel description trustworthy: a task at \<open>task\<close> in physical memory that looks like
  \<open>init_task\<close> (name, ids, and parent and group leader pointing to one kernel address), an aligned
  slide under which that address is the profile's \<open>init_task\<close>, a page-table root that maps the rebased
  text and task symbols to where they were found, and the profile's banner at its rebased address.
\<close>

definition looks_like_init_task :: "physmem \<Rightarrow> linux_profile \<Rightarrow> addr \<Rightarrow> addr \<Rightarrow> bool" where
  "looks_like_init_task pm p task runtime \<longleftrightarrow>
     (let t = off_task (pr_offsets p) in
      read_physical_cstring pm (task + task_comm t) (unat (task_comm_len t)) = Inr ''swapper/0'' \<and>
      read_physical_u32 pm (task + task_pid t) = Inr 0 \<and>
      read_physical_u32 pm (task + task_tgid t) = Inr 0 \<and>
      read_physical_addr pm (task + task_group_leader t) = Inr runtime \<and>
      read_physical_addr pm (task + task_parent t) = Inr runtime \<and>
      read_physical_addr pm (task + task_real_parent t) = Inr runtime \<and>
      looks_like_kernel_pointer runtime)"

definition banner_matches :: "physmem \<Rightarrow> linux_profile \<Rightarrow> addr \<Rightarrow> u64 \<Rightarrow> bool" where
  "banner_matches pm p cr3 slide \<longleftrightarrow>
     (let expected = trim_trailing_nuls (to_bytes (pr_banner p)); n = min (length expected) 256
      in expected = [] \<or>
         rd_raw (pm_virt pm cr3) (rebase (sym_linux_banner (pr_symbols p)) slide) n = Full (take n expected))"

definition validated_kernel :: "physmem \<Rightarrow> linux_profile \<Rightarrow> kernel_info \<Rightarrow> bool" where
  "validated_kernel pm p k \<longleftrightarrow>
     (\<exists>task slide.
        looks_like_init_task pm p task (rebase (sym_init_task (pr_symbols p)) slide) \<and>
        is_kernel_slide_aligned slide \<and>
        ki_virt_text k = rebase (sym_text (pr_symbols p)) slide \<and>
        pm_virt_to_phys pm (ki_cr3 k) (ki_virt_text k) = Inr (ki_phys_text k) \<and>
        pm_virt_to_phys pm (ki_cr3 k) (rebase (sym_init_task (pr_symbols p)) slide) = Inr task \<and>
        banner_matches pm p (ki_cr3 k) slide) \<and>
     unat (ki_cr3 k) mod 4096 = 0 \<and> \<not> ki_la57_on k"

lemma strict_Inr [simp]: "strict r = Inr x \<longleftrightarrow> r = Full x"
  by (cases r) auto

lemma validate_init_task_candidate_sound:
  assumes "validate_init_task_candidate pm p task = Inr c"
  shows "looks_like_init_task pm p task (tc_runtime_init_task c) \<and> tc_phys_task c = task \<and>
    tc_runtime_init_task c = rebase (sym_init_task (pr_symbols p)) (tc_slide c) \<and>
    is_kernel_slide_aligned (tc_slide c)"
  using assms compute_slide_from_symbol_Inr
  by (auto simp: validate_init_task_candidate_def looks_like_init_task_def Let_def result_simps
      split: if_splits)

lemma validate_kernel_translation_sound:
  assumes "validate_kernel_translation pm p cr3 vt pt c"
  shows "pm_virt_to_phys pm cr3 vt = Inr pt \<and>
    pm_virt_to_phys pm cr3 (tc_runtime_init_task c) = Inr (tc_phys_task c) \<and>
    banner_matches pm p cr3 (tc_slide c)"
  using assms
  by (auto simp: validate_kernel_translation_def banner_matches_def Let_def strict_Inr [symmetric]
      simp del: strict_Inr split: if_splits sum.splits)

lemma page_aligned_4096: "unat (as_page_aligned a (kb 4)) mod 4096 = 0"
proof -
  have "unat (as_page_aligned a (kb 4)) = unat a - unat a mod 4096"
    by (simp add: as_page_aligned_def unat_sub word_le_nat_alt unat_mod)
  then show ?thesis by (simp add: minus_mod_eq_mult_div)
qed

lemma add_page_tables_aligned:
  "add_page_tables text pt cs syms = Inr cs' \<Longrightarrow> \<forall>c \<in> set cs. unat c mod 4096 = 0 \<Longrightarrow>
    \<forall>c \<in> set cs'. unat c mod 4096 = 0"
proof (induction syms arbitrary: cs)
  case (Cons s syms)
  from Cons.prems(1) obtain a where
    a: "add_page_tables text pt (if as_page_aligned a (kb 4) \<in> set cs then cs
          else cs @ [as_page_aligned a (kb 4)]) syms = Inr cs'"
    unfolding add_page_tables.simps rbind_Inr_iff Let_def by blast
  define b where "b = as_page_aligned a (kb 4)"
  have b: "unat b mod 4096 = 0" and r: "add_page_tables text pt (if b \<in> set cs then cs else cs @ [b]) syms = Inr cs'"
    unfolding b_def by (rule page_aligned_4096, rule a)
  have "\<forall>c \<in> set (if b \<in> set cs then cs else cs @ [b]). unat c mod 4096 = 0"
    using b Cons.prems(2) by (cases "b \<in> set cs") auto
  from Cons.IH [OF r this] show ?case .
qed simp

lemma resolve_kernel_from_candidate_sound:
  assumes "resolve_kernel_from_candidate pm p c hint = Inr k"
    and "looks_like_init_task pm p (tc_phys_task c) (tc_runtime_init_task c)"
    and "tc_runtime_init_task c = rebase (sym_init_task (pr_symbols p)) (tc_slide c)"
    and "is_kernel_slide_aligned (tc_slide c)"
  shows "validated_kernel pm p k \<and> ki_kallsyms k = None \<and> (hint \<noteq> NULL \<longrightarrow> ki_phys_text k = hint)"
proof -
  from assms(1) obtain pt cs cr3 where
      pt: "hint \<noteq> NULL \<longrightarrow> pt = hint" and cs: "page_table_candidates p pt = Inr cs"
    and cr3: "find (\<lambda>cr3. validate_kernel_translation pm p cr3 (rebase (sym_text (pr_symbols p)) (tc_slide c)) pt c) cs
          = Some cr3"
    and k: "k = defs_kernel_info p cr3 (rebase (sym_text (pr_symbols p)) (tc_slide c)) pt"
    unfolding resolve_kernel_from_candidate_def Let_def rbind_Inr_iff
    by (auto split: option.splits if_splits)
  from cr3 have v: "validate_kernel_translation pm p cr3 (rebase (sym_text (pr_symbols p)) (tc_slide c)) pt c"
    and m: "cr3 \<in> set cs" by (auto simp: find_Some_iff)
  from cs m have "unat cr3 mod 4096 = 0"
    using add_page_tables_aligned [of "sym_text (pr_symbols p)" pt "[]"]
    by (auto simp: page_table_candidates_def Let_def result_simps split: if_splits)
  with validate_kernel_translation_sound [OF v] assms(2-4) pt show ?thesis
    unfolding validated_kernel_def k defs_kernel_info_def
    by (intro conjI exI [of _ "tc_phys_task c"] exI [of _ "tc_slide c"]) auto
qed

lemma validate_and_resolve_sound:
  assumes "validate_init_task_candidate pm p task = Inr c" "resolve_kernel_from_candidate pm p c hint = Inr k"
  shows "validated_kernel pm p k \<and> ki_kallsyms k = None \<and> (hint \<noteq> NULL \<longrightarrow> ki_phys_text k = hint)"
  using validate_init_task_candidate_sound [OF assms(1)]
  by (intro resolve_kernel_from_candidate_sound [OF assms(2)]) auto

lemma discover_kernel_with_hint_validated:
  "discover_kernel_with_hint pm p h = Inr k \<Longrightarrow> validated_kernel pm p k"
  by (auto simp: discover_kernel_with_hint_def Let_def result_simps dest: validate_and_resolve_sound)

lemma candidate_scan_validated:
  "candidate_scan_loop pm p d base = Inr (Some k) \<Longrightarrow> validated_kernel pm p k"
proof (induction pm p d base rule: candidate_scan_loop.induct)
  case (1 pm p d base)
  from 1(2) show ?case
    by (subst (asm) candidate_scan_loop.simps)
      (auto simp: result_simps split: if_splits sum.splits option.splits
        dest: validate_and_resolve_sound 1(1))
qed

lemma try_matches_at_Some:
  "try_matches_at f ps = Inr (Some k) \<Longrightarrow> \<exists>q \<in> set ps. f q = Inr (Some k)"
  by (induction ps) (auto simp: result_simps split: option.splits)

lemma window_scan_Some:
  "window_scan search view pat f tot base = Inr (Some k) \<Longrightarrow> \<exists>q. f q = Inr (Some k)"
proof (induction search view pat f tot base rule: window_scan.induct)
  case (1 search view pat f tot base)
  from 1(2) show ?case
    by (subst (asm) window_scan.simps)
      (auto simp: result_simps split: if_splits option.splits dest: try_matches_at_Some 1(1))
qed

lemma try_banner_at_validated: "try_banner_at pm p d q = Inr (Some k) \<Longrightarrow> validated_kernel pm p k"
  by (auto simp: try_banner_at_def split: sum.splits if_splits dest: discover_kernel_with_hint_validated)

lemma try_task_at_validated: "try_task_at pm p q = Inr (Some k) \<Longrightarrow> validated_kernel pm p k"
  by (auto simp: try_task_at_def result_simps split: option.splits dest: validate_and_resolve_sound)

lemma discover_kernel_from_profile_validated:
  "discover_kernel_from_profile search pm p = Inr k \<Longrightarrow> validated_kernel pm p k"
  by (auto simp: discover_kernel_from_profile_def discover_kernel_from_candidate_scan_def
      discover_kernel_from_banner_scan_def discover_kernel_from_task_scan_def Let_def result_simps
      dest!: window_scan_Some split: if_splits
      dest: candidate_scan_validated try_banner_at_validated try_task_at_validated)

text \<open>
  C2. A kernel that discovery reports was validated against memory, whichever search proposed
  it: the task structure, the slide, the page tables and the banner agree with the profile. The only
  other source are the signature scans, over the window of a hint or, when the fallback is enabled,
  over all of memory.
\<close>

theorem discover_kernel_sound:
  assumes "discover_kernel tk pm p hint cached fallback = Inr k"
  shows "validated_kernel pm p k \<or>
    (\<exists>h. (hint = Some h \<or> cached = Some h) \<and> find_kernel (tk_decode tk) (tk_set_mem_map tk h (mb 2) pm) = Inr k) \<or>
    fallback \<and> find_kernel (tk_decode tk) pm = Inr k"
  using assms
  by (auto simp: discover_kernel_def Let_def result_simps scan_with_kernel_hint_def
      dest: discover_kernel_with_hint_validated discover_kernel_from_profile_validated
      split: if_splits)

section \<open>A sample machine with a running kernel\<close>

definition sample_running :: physmem where
  "sample_running = \<lparr> pm_max_address = 0x3ffffff, pm_real_size = 0x4000000, pm_ideal_batch_size = 4096,
     pm_readonly = True,
     pm_view = empty_view
       \<lparr> rd_raw := (\<lambda>a n. Full (take n (to_bytes ''swapper/0'' @ [0, 0, 0, 0, 0, 0, 0]))),
         rd_u32 := (\<lambda>_. Full 0), rd_u64 := (\<lambda>_. Full 0xffffffff82000000) \<rparr>,
     pm_virt = (\<lambda>_. empty_view
       \<lparr> rd_raw := (\<lambda>_ n. Full (take n (to_bytes (pr_banner sample_profile)))),
         rd_utf8_lossy := (\<lambda>_ _. Full (pr_banner sample_profile)) \<rparr>),
     pm_virt_to_phys = (\<lambda>_ a. if a = 0xffffffff81000000 then Inr 0x1000000 else Inr 0x2000000),
     pm_phys_to_virt = (\<lambda>_ _. None) \<rparr>"

lemma sample_cstring:
  "read_physical_cstring sample_running a 16 = Inr ''swapper/0''"
proof -
  have "to_bytes ''swapper/0'' = [0x73, 0x77, 0x61, 0x70, 0x70, 0x65, 0x72, 0x2f, 0x30]"
    by (simp add: to_bytes_def)
  moreover from this have "utf8_valid (to_bytes ''swapper/0'')" by (simp add: utf8_valid_ascii)
  then have "from_utf8_lossy (to_bytes ''swapper/0'') = ''swapper/0''"
    by (simp only: from_utf8_lossy_valid to_chars_to_bytes)
  ultimately show ?thesis
    by (simp add: read_physical_cstring_def sample_running_def)
qed

definition sample_candidate :: task_candidate where
  "sample_candidate = \<lparr> tc_phys_task = 0x2000000, tc_runtime_init_task = 0xffffffff82000000, tc_slide = 0 \<rparr>"

lemma sample_validates:
  "validate_init_task_candidate sample_running sample_profile 0x2000000 = Inr sample_candidate"
proof -
  have o: "task_comm_len (off_task (pr_offsets sample_profile)) = 16"
      "sym_init_task (pr_symbols sample_profile) = 0xffffffff82000000"
    by (simp_all add: sample_profile_def)
  have r: "read_physical_u32 sample_running a = Inr 0"
      "read_physical_addr sample_running a = Inr 0xffffffff82000000" for a
    by (simp_all add: read_physical_u32_def read_physical_addr_def sample_running_def)
  show ?thesis
    by (simp add: validate_init_task_candidate_def Let_def o r sample_cstring
        looks_like_kernel_pointer_def compute_slide_from_symbol_def is_kernel_slide_aligned_def
        sample_candidate_def)
qed

lemma sample_translation:
  "validate_kernel_translation sample_running sample_profile 0x2400000 0xffffffff81000000 0x1000000 sample_candidate"
proof -
  have b: "trim_trailing_nuls (to_bytes (pr_banner sample_profile)) = to_bytes (pr_banner sample_profile)"
    by (simp add: trim_trailing_nuls_def sample_profile_def to_bytes_def)
  show ?thesis
    unfolding validate_kernel_translation_def b Let_def
    by (simp add: sample_running_def sample_candidate_def)
qed

lemma sample_discovered:
  "discover_kernel_with_hint sample_running sample_profile 0x1000000 =
     Inr (defs_kernel_info sample_profile 0x2400000 0xffffffff81000000 0x1000000)"
proof -
  have s: "sym_text (pr_symbols sample_profile) = 0xffffffff81000000"
      "sym_init_task (pr_symbols sample_profile) = 0xffffffff82000000"
      "sym_init_top_pgt (pr_symbols sample_profile) = Some 0xffffffff82400000"
      "sym_level4_kernel_pgt (pr_symbols sample_profile) = None"
    by (simp_all add: sample_profile_def)
  have "page_table_candidates sample_profile 0x1000000 = Inr [0x2400000]"
    by (simp add: page_table_candidates_def Let_def s option_list_def checked_symbol_delta_def
        kernel_checked_add_def checked_sub_def checked_add_def word_le_nat_alt as_page_aligned_def)
  then have "resolve_kernel_from_candidate sample_running sample_profile sample_candidate 0x1000000 =
     Inr (defs_kernel_info sample_profile 0x2400000 0xffffffff81000000 0x1000000)"
    using sample_translation
    by (simp add: resolve_kernel_from_candidate_def Let_def s rebase_add sample_candidate_def)
  then show ?thesis
    using sample_validates
    by (simp add: discover_kernel_with_hint_def Let_def s checked_symbol_delta_def
        kernel_checked_add_def checked_sub_def checked_add_def word_le_nat_alt)
qed

theorem discover_kernel_sound_witness:
  "\<exists>k. discover_kernel \<lparr> tk_decode = sample_decoder, tk_search = naive_search, tk_set_mem_map = (\<lambda>_ _ pm. pm) \<rparr>
      sample_running sample_profile (Some 0x1000000) None False = Inr k \<and>
    (validated_kernel sample_running sample_profile k \<or> find_kernel sample_decoder sample_running = Inr k)"
proof -
  have d: "discover_kernel \<lparr> tk_decode = sample_decoder, tk_search = naive_search, tk_set_mem_map = (\<lambda>_ _ pm. pm) \<rparr>
      sample_running sample_profile (Some 0x1000000) None False =
      Inr (defs_kernel_info sample_profile 0x2400000 0xffffffff81000000 0x1000000)"
    by (simp add: discover_kernel_def Let_def try_hint_def or_else_def sample_discovered)
  from discover_kernel_sound [OF d] d show ?thesis by auto
qed

section \<open>Properties: the scans miss nothing\<close>

interpretation scan_windows: chunk_scan tot "window_len tot" "window_next (take BANNER_SCAN_PREFIX_LEN pat) tot"
    "length (take BANNER_SCAN_PREFIX_LEN pat) - 1" for tot pat
proof unfold_locales
  fix base
  show "base < tot \<Longrightarrow> base + window_len tot base \<le> tot" by (simp add: window_len_def)
  assume "base < tot" "base + window_len tot base < tot"
  then have w: "window_len tot base = KERNEL_SCAN_CHUNK_SIZE" by (auto simp: window_len_def)
  have "length (take BANNER_SCAN_PREFIX_LEN pat) \<le> 96" by (simp add: BANNER_SCAN_PREFIX_LEN_def)
  with w show "window_next (take BANNER_SCAN_PREFIX_LEN pat) tot base + (length (take BANNER_SCAN_PREFIX_LEN pat) - 1)
        = base + window_len tot base"
      "base < window_next (take BANNER_SCAN_PREFIX_LEN pat) tot base"
    by (simp_all add: window_next_def KERNEL_SCAN_CHUNK_SIZE_def del: length_take)
qed

lemma try_matches_at_None:
  "try_matches_at f ps = Inr None \<Longrightarrow> p \<in> set ps \<Longrightarrow> f p = Inr None"
  by (induction ps) (auto simp: result_simps split: option.splits)

text \<open>
  The windows of a scan over an image: an occurrence of the pattern that the search reports in the
  window that holds it is tried, so a scan that ends without a result has refused it.
\<close>

lemma window_scan_visits:
  assumes img: "\<And>a n. a + n \<le> length img \<Longrightarrow> data_part (rd_raw view (of_nat a) n) = Inr (take n (drop a img))"
    and pat: "pat = take BANNER_SCAN_PREFIX_LEN pat'" "pat \<noteq> []"
    and srch: "\<And>hay i. occurs_at pat hay i \<Longrightarrow> i \<in> set (search hay pat)"
    and occ: "occurs_at pat img p" and acc: "f p \<noteq> Inr None"
    and base: "base \<le> p"
  shows "window_scan search view pat f (length img) base \<noteq> Inr None"
  using base
proof (induction "length img - base" arbitrary: base rule: less_induct)
  case less
  let ?w = "window_len (length img) base" and ?next = "window_next pat (length img) base"
  let ?buf = "take ?w (drop base img)"
  have pl: "p + length pat \<le> length img" using occ by (simp add: occurs_at_def)
  have b: "base < length img" using less.prems pl pat(2) by (cases pat) auto
  from scan_windows.covered_or_next [OF b less.prems pl, of pat'] pat
  have cases: "p + length pat \<le> base + ?w \<or>
      base + ?w < length img \<and> base < ?next \<and> ?next < length img \<and> ?next \<le> p" by auto
  have wl: "base + ?w \<le> length img" using b by (simp add: window_len_def)
  have rd: "data_part (rd_raw view (of_nat base) ?w) = Inr ?buf" using img wl by simp
  have enough: "\<not> ?w < length pat"
  proof
    assume "?w < length pat"
    moreover have "length pat \<le> 96" using pat(1) by (simp add: BANNER_SCAN_PREFIX_LEN_def)
    ultimately have "?w = length img - base" by (auto simp: window_len_def KERNEL_SCAN_CHUNK_SIZE_def)
    with \<open>?w < length pat\<close> less.prems pl show False by linarith
  qed
  show ?case
  proof
    assume none: "window_scan search view pat f (length img) base = Inr None"
    have refused: "try_matches_at f (map (\<lambda>off. base + off) (search ?buf pat)) = Inr None"
      and rest: "?w = length img - base \<or> window_scan search view pat f (length img) ?next = Inr None"
      using none b enough rd
      by (subst (asm) window_scan.simps, auto simp: result_simps split: option.splits if_splits)+
    from cases show False
    proof
      assume here: "p + length pat \<le> base + ?w"
      have "occurs_at pat ?buf (p - base)"
        using occ here less.prems wl by (auto simp: occurs_at_def drop_take)
      from srch [OF this] less.prems have "p \<in> set (map (\<lambda>off. base + off) (search ?buf pat))"
        by (auto simp: image_iff intro!: bexI [of _ "p - base"])
      from try_matches_at_None [OF refused this] acc show False by simp
    next
      assume n: "base + ?w < length img \<and> base < ?next \<and> ?next < length img \<and> ?next \<le> p"
      then have "window_scan search view pat f (length img) ?next \<noteq> Inr None"
        using less.hyps [of ?next] b by linarith
      with rest n show False by linarith
    qed
  qed
qed

lemma try_matches_at_Inl:
  "try_matches_at f ps = Inl e \<Longrightarrow> \<exists>p. f p = Inl e"
  by (induction ps) (auto simp: result_simps split: option.splits)

lemma window_scan_Inl:
  assumes img: "\<And>a n. a + n \<le> length img \<Longrightarrow> data_part (rd_raw view (of_nat a) n) = Inr (take n (drop a img))"
    and f: "\<And>p. f p \<noteq> Inl e"
  shows "window_scan search view pat f (length img) base \<noteq> Inl e"
proof (induction "length img - base" arbitrary: base rule: less_induct)
  case less
  let ?w = "window_len (length img) base"
  have rd: "data_part (rd_raw view (of_nat base) ?w) = Inr (take ?w (drop base img))" if "base < length img"
    using img [of base ?w] that by (simp add: window_len_def)
  show ?case
    using less.hyps window_next_decreases [of "length img" base pat] rd f
    by (subst window_scan.simps)
      (auto simp: result_simps dest!: try_matches_at_Inl split: option.splits)
qed

lemma if_let_ok_Inl: "if_let_ok r = Inl e \<longleftrightarrow> e = Panic \<and> r = Inl Panic"
  by (auto simp: if_let_ok_def split: sum.splits error.splits)

text \<open>The connector's reads of physical memory may fail, but they do not panic.\<close>

definition reads_no_panic :: "physmem \<Rightarrow> bool" where
  "reads_no_panic pm \<longleftrightarrow> (\<forall>a. rd_u32 (pm_view pm) a \<noteq> Fail Panic \<and> rd_u64 (pm_view pm) a \<noteq> Fail Panic \<and>
     (\<forall>n. rd_raw (pm_view pm) a n \<noteq> Fail Panic))"

lemma data_part_Inl [simp]: "data_part r = Inl e \<longleftrightarrow> r = Fail e"
  by (cases r) auto

lemma validate_no_panic:
  "reads_no_panic pm \<Longrightarrow> validate_init_task_candidate pm p t \<noteq> Inl Panic"
  by (auto simp: validate_init_task_candidate_def Let_def result_simps read_physical_cstring_def
      read_physical_u32_def read_physical_addr_def reads_no_panic_def compute_slide_from_symbol_def
      split: if_splits)

lemma add_page_tables_no_panic: "add_page_tables text pt cs ss \<noteq> Inl Panic"
  by (induction ss arbitrary: cs)
    (auto simp: result_simps checked_symbol_delta_def kernel_checked_add_def Let_def)

lemma resolve_no_panic: "resolve_kernel_from_candidate pm p c h \<noteq> Inl Panic"
  by (auto simp: resolve_kernel_from_candidate_def Let_def result_simps checked_symbol_delta_def
      kernel_checked_sub_def page_table_candidates_def add_page_tables_no_panic
      split: if_splits option.splits)

lemma with_hint_no_panic:
  "reads_no_panic pm \<Longrightarrow> discover_kernel_with_hint pm p h \<noteq> Inl Panic"
  by (auto simp: discover_kernel_with_hint_def Let_def result_simps checked_symbol_delta_def
      kernel_checked_add_def validate_no_panic resolve_no_panic)

lemma try_task_at_Inl: "reads_no_panic pm \<Longrightarrow> try_task_at pm p q \<noteq> Inl e"
  by (auto simp: try_task_at_def result_simps if_let_ok_Inl validate_no_panic resolve_no_panic
      split: option.splits)

lemma swapper_border_free: "border_free SWAPPER_COMM" "SWAPPER_COMM \<noteq> []" "take BANNER_SCAN_PREFIX_LEN SWAPPER_COMM = SWAPPER_COMM"
  by code_simp+

lemma phys_image_total:
  assumes "phys_image pm img" "pm_max_address pm \<noteq> INVALID"
  shows "unat (pm_total pm) = length img"
proof -
  have "unat (pm_max_address pm) \<noteq> unat (INVALID :: addr)" using assms(2) by (metis word_unat_eq_iff)
  then show ?thesis using assms(1) unat_u64_less [of "pm_max_address pm"]
    by (simp add: pm_total_def rust_simps phys_image_def unat_max)
qed

text \<open>
  C24. The task scan finds a kernel wherever its \<open>init_task\<close> lies: over a memory image, when the
  name \<open>swapper/0\<close> occurs at \<open>p\<close> (also across two windows) and the task around it validates and
  resolves, the scan returns a kernel.
\<close>

theorem task_scan_finds_kernel:
  assumes "searches search" "phys_image pm img" "pm_max_address pm \<noteq> INVALID"
    and "occurs_at SWAPPER_COMM img p" "try_task_at pm profile p = Inr (Some k)"
    and "reads_no_panic pm"
  shows "\<exists>k'. discover_kernel_from_task_scan search pm profile = Inr k'"
proof -
  have img: "\<And>a n. a + n \<le> length img \<Longrightarrow> data_part (rd_raw (pm_view pm) (of_nat a) n) = Inr (take n (drop a img))"
    using assms(2) by (simp add: phys_image_def)
  let ?r = "window_scan search (pm_view pm) SWAPPER_COMM (try_task_at pm profile) (length img) 0"
  have "?r \<noteq> Inr None"
    using search_border_free [OF assms(1) swapper_border_free(1,2)] assms(4,5)
    by (intro window_scan_visits [OF img, where pat' = SWAPPER_COMM and p = p])
      (simp_all add: swapper_border_free)
  moreover have "?r \<noteq> Inl e" for e
    by (rule window_scan_Inl [OF img try_task_at_Inl [OF assms(6)]])
  ultimately obtain k' where "?r = Inr (Some k')" by (cases ?r) auto
  then show ?thesis
    by (simp add: discover_kernel_from_task_scan_def phys_image_total [OF assms(2,3)] or_else_def)
qed

lemma kernel_checked_add_Inr:
  "kernel_checked_add b d = Inr t \<longleftrightarrow> unat b + unat d < 2 ^ 64 \<and> t = b + d"
  by (simp add: kernel_checked_add_def result_simps rust_simps)

lemma of_nat_addr: "n < 18446744073709551616 \<Longrightarrow> unat (of_nat n :: addr) = n"
  by (simp add: unat_of_nat)

lemma candidate_scan_loop_first:
  assumes "2097152 dvd base" "base \<le> a" "2097152 dvd a" "a < unat (pm_total pm)"
    and "checked_symbol_delta (sym_text (pr_symbols profile)) (sym_init_task (pr_symbols profile)) = Inr d"
    and "discover_kernel_with_hint pm profile (of_nat a) = Inr k"
    and "reads_no_panic pm"
  shows "\<exists>b k'. base \<le> b \<and> b \<le> a \<and> 2097152 dvd b \<and> candidate_scan_loop pm profile d base = Inr (Some k') \<and>
    discover_kernel_with_hint pm profile (of_nat b) = Inr k' \<and>
    (\<forall>c. base \<le> c \<longrightarrow> c < b \<longrightarrow> 2097152 dvd c \<longrightarrow> res_ok (discover_kernel_with_hint pm profile (of_nat c)) = None)"
  using assms(1,2)
proof (induction "a - base" arbitrary: base rule: less_induct)
  case less
  let ?hint = "discover_kernel_with_hint pm profile (of_nat base)"
  have lt: "\<not> unat (pm_total pm) \<le> base" using less.prems(2) assms(4) by simp
  have a64: "a < 18446744073709551616" using assms(4) unat_u64_less [of "pm_total pm"] by simp
  obtain t' where "kernel_checked_add (of_nat a) d = Inr t'"
    using assms(5,6) by (auto simp: discover_kernel_with_hint_def Let_def result_simps)
  then have "a + unat d < 2 ^ 64" using of_nat_addr [OF a64] by (simp only: kernel_checked_add_Inr)
  then have "unat (of_nat base :: addr) + unat d < 2 ^ 64"
    using less.prems(2) of_nat_addr [of base] a64 by simp
  then obtain t where t: "kernel_checked_add (of_nat base) d = Inr t"
    by (simp only: kernel_checked_add_Inr)
  let ?body = "rbind (validate_init_task_candidate pm profile t) (\<lambda>candidate.
                   resolve_kernel_from_candidate pm profile candidate (of_nat base))"
  have body: "?hint = ?body" using t assms(5) by (simp add: discover_kernel_with_hint_def Let_def)
  have nopanic: "?hint \<noteq> Inl Panic" using assms(7) by (rule with_hint_no_panic)
  show ?case
  proof (cases ?hint)
    case (Inr k')
    then have "candidate_scan_loop pm profile d base = Inr (Some k')"
      using lt t body by (subst candidate_scan_loop.simps) simp
    with Inr less.prems show ?thesis by (intro exI [of _ base] exI [of _ k']) auto
  next
    case (Inl e)
    then have "base \<noteq> a" using assms(6) by auto
    then have next_le: "base + 2097152 \<le> a" using less.prems assms(3)
      by (metis add.commute dvd_imp_le dvd_minus_self le_add_diff_inverse le_neq_implies_less
          nat_add_left_cancel_le less_imp_le zero_less_diff dvd_diff_nat)
    have ilo: "if_let_ok ?body = Inr None" using Inl nopanic body by auto
    then have step: "candidate_scan_loop pm profile d base = candidate_scan_loop pm profile d (base + 2097152)"
      by (subst candidate_scan_loop.simps)
        (simp only: lt t ilo if_False sum.case rbind_simps option.case, simp)
    have "a - (base + 2097152) < a - base" using next_le by linarith
    from less.hyps [OF this _ next_le] less.prems(1) obtain b k' where
      b: "base + 2097152 \<le> b" "b \<le> a" "2097152 dvd b"
        "candidate_scan_loop pm profile d (base + 2097152) = Inr (Some k')"
        "discover_kernel_with_hint pm profile (of_nat b) = Inr k'"
      and below: "\<And>c. base + 2097152 \<le> c \<Longrightarrow> c < b \<Longrightarrow> 2097152 dvd c \<Longrightarrow>
        res_ok (discover_kernel_with_hint pm profile (of_nat c)) = None"
      by auto
    have "res_ok (discover_kernel_with_hint pm profile (of_nat c)) = None"
      if c: "base \<le> c" "c < b" "2097152 dvd c" for c
    proof (cases "c = base")
      case True
      with Inl show ?thesis by simp
    next
      case False
      with c have "base + 2097152 \<le> c" using less.prems(1)
        by (metis add.commute dvd_imp_le dvd_minus_self le_add_diff_inverse le_neq_implies_less
            nat_add_left_cancel_le less_imp_le zero_less_diff dvd_diff_nat)
      with below c show ?thesis by blast
    qed
    with b step show ?thesis by (intro exI [of _ b] exI [of _ k']) auto
  qed
qed

text \<open>
  C29. The candidate scan returns the kernel of the lowest 2 MiB aligned text base that
  validates: when one at \<open>a\<close> does, the scan succeeds with the result for some \<open>b \<le> a\<close> and nothing
  below \<open>b\<close> validates.
\<close>

theorem candidate_scan_first:
  assumes "2097152 dvd a" "a < unat (pm_total pm)"
    and "discover_kernel_with_hint pm profile (of_nat a) = Inr k" "reads_no_panic pm"
  shows "\<exists>b k'. b \<le> a \<and> 2097152 dvd b \<and> discover_kernel_from_candidate_scan pm profile = Inr k' \<and>
    discover_kernel_with_hint pm profile (of_nat b) = Inr k' \<and>
    (\<forall>c < b. 2097152 dvd c \<longrightarrow> res_ok (discover_kernel_with_hint pm profile (of_nat c)) = None)"
proof -
  obtain d where d: "checked_symbol_delta (sym_text (pr_symbols profile)) (sym_init_task (pr_symbols profile)) = Inr d"
    using assms(3) by (auto simp: discover_kernel_with_hint_def Let_def result_simps)
  from candidate_scan_loop_first [OF _ _ assms(1,2) d assms(3,4), of 0] obtain b k' where
    "b \<le> a" "2097152 dvd b" "candidate_scan_loop pm profile d 0 = Inr (Some k')"
    "discover_kernel_with_hint pm profile (of_nat b) = Inr k'"
    "\<forall>c < b. 2097152 dvd c \<longrightarrow> res_ok (discover_kernel_with_hint pm profile (of_nat c)) = None" by auto
  then show ?thesis
    by (intro exI [of _ b] exI [of _ k']) (simp add: discover_kernel_from_candidate_scan_def d or_else_def)
qed

lemma sample_reads_no_panic: "reads_no_panic sample_running"
  by (simp add: reads_no_panic_def sample_running_def)

theorem candidate_scan_first_witness:
  "\<exists>k. discover_kernel_from_candidate_scan sample_running sample_profile = Inr k"
proof -
  have "discover_kernel_with_hint sample_running sample_profile (of_nat 16777216) =
      Inr (defs_kernel_info sample_profile 0x2400000 0xffffffff81000000 0x1000000)"
    using sample_discovered by simp
  moreover have "(2097152 :: nat) dvd 16777216" by simp
  moreover have "16777216 < unat (pm_total sample_running)"
    by (simp add: pm_total_def sample_running_def rust_simps)
  ultimately show ?thesis using candidate_scan_first sample_reads_no_panic by blast
qed

definition sample_task_image :: bytes where
  "sample_task_image = replicate 0x1000640 0 @ SWAPPER_COMM @ replicate 6 0"

definition sample_task_machine :: physmem where
  "sample_task_machine = sample_running
     \<lparr> pm_max_address := 0x100064f,
       pm_view := empty_view
         \<lparr> rd_raw := (\<lambda>a n. Full (take n (drop (unat a) sample_task_image))),
           rd_u32 := (\<lambda>_. Full 0), rd_u64 := (\<lambda>_. Full 0xffffffff82000000) \<rparr>,
       pm_virt_to_phys := (\<lambda>_ a. if a = 0xffffffff81000000 then Inr 0 else Inr 0x1000000) \<rparr>"

lemma sample_task_image_at:
  "length sample_task_image = 0x1000650" "drop 0x1000640 sample_task_image = SWAPPER_COMM @ replicate 6 0"
  by (simp_all add: sample_task_image_def SWAPPER_COMM_def)

lemma swapper_text: "from_utf8_lossy (to_bytes ''swapper/0'') = ''swapper/0''"
proof -
  have "to_bytes ''swapper/0'' = [0x73, 0x77, 0x61, 0x70, 0x70, 0x65, 0x72, 0x2f, 0x30]"
    by (simp add: to_bytes_def)
  then have "utf8_valid (to_bytes ''swapper/0'')" by (simp add: utf8_valid_ascii)
  then show ?thesis by (simp only: from_utf8_lossy_valid to_chars_to_bytes)
qed

lemma sample_task_at:
  "try_task_at sample_task_machine sample_profile 0x1000640 =
     Inr (Some (defs_kernel_info sample_profile 0x1400000 0xffffffff81000000 0))"
proof -
  have c: "read_physical_cstring sample_task_machine 0x1000640 16 = Inr ''swapper/0''"
    by (simp add: read_physical_cstring_def sample_task_machine_def sample_task_image_at
        SWAPPER_COMM_def swapper_text to_bytes_def [of "''swapper/0''"])
       (use swapper_text in \<open>simp add: to_bytes_def\<close>)
  have s: "sym_text (pr_symbols sample_profile) = 0xffffffff81000000"
      "sym_init_task (pr_symbols sample_profile) = 0xffffffff82000000"
      "sym_init_top_pgt (pr_symbols sample_profile) = Some 0xffffffff82400000"
      "sym_level4_kernel_pgt (pr_symbols sample_profile) = None"
      "task_comm_len (off_task (pr_offsets sample_profile)) = 16"
      "task_comm (off_task (pr_offsets sample_profile)) = 0x640"
    by (simp_all add: sample_profile_def)
  have r: "read_physical_u32 sample_task_machine a = Inr 0"
      "read_physical_addr sample_task_machine a = Inr 0xffffffff82000000" for a
    by (simp_all add: read_physical_u32_def read_physical_addr_def sample_task_machine_def)
  define cand where "cand = \<lparr> tc_phys_task = 0x1000000, tc_runtime_init_task = 0xffffffff82000000, tc_slide = 0 \<rparr>"
  have v: "validate_init_task_candidate sample_task_machine sample_profile 0x1000000 = Inr cand"
    by (simp add: validate_init_task_candidate_def Let_def s r c looks_like_kernel_pointer_def
        compute_slide_from_symbol_def is_kernel_slide_aligned_def cand_def)
  have p: "page_table_candidates sample_profile 0 = Inr [0x1400000]"
    by (simp add: page_table_candidates_def Let_def s option_list_def checked_symbol_delta_def
        kernel_checked_add_def checked_sub_def checked_add_def word_le_nat_alt as_page_aligned_def unat_max)
  have b: "trim_trailing_nuls (to_bytes (pr_banner sample_profile)) = to_bytes (pr_banner sample_profile)"
    by (simp add: trim_trailing_nuls_def sample_profile_def to_bytes_def)
  have t: "validate_kernel_translation sample_task_machine sample_profile 0x1400000 0xffffffff81000000 0 cand"
    unfolding validate_kernel_translation_def b Let_def
    by (simp add: sample_task_machine_def sample_running_def cand_def)
  have "resolve_kernel_from_candidate sample_task_machine sample_profile cand NULL =
      Inr (defs_kernel_info sample_profile 0x1400000 0xffffffff81000000 0)"
    using p t by (simp add: resolve_kernel_from_candidate_def Let_def s rebase_add
        checked_symbol_delta_def kernel_checked_sub_def checked_sub_def word_le_nat_alt cand_def)
  with v show ?thesis
    by (simp add: try_task_at_def s checked_sub_def word_le_nat_alt)
qed

theorem task_scan_finds_kernel_witness:
  "\<exists>k. discover_kernel_from_task_scan naive_search sample_task_machine sample_profile = Inr k"
proof (rule task_scan_finds_kernel [OF naive_search_searches])
  show "phys_image sample_task_machine sample_task_image"
    by (auto simp: phys_image_def sample_task_machine_def sample_task_image_at unat_of_nat)
  show "pm_max_address sample_task_machine \<noteq> INVALID" by (simp add: sample_task_machine_def)
  show "occurs_at SWAPPER_COMM sample_task_image 0x1000640"
    by (simp add: occurs_at_def sample_task_image_at) (simp add: SWAPPER_COMM_def)
  show "reads_no_panic sample_task_machine" by (simp add: reads_no_panic_def sample_task_machine_def)
qed (rule sample_task_at)

end
