(* ===== verification/Paths.thy ===== *)
theory Paths
  imports Defs
begin

text \<open>
  \<open>memflow-linux/src/util.rs\<close>: bounded string ranges, command lines, and the resolution of a kernel
  \<open>struct path\<close> to an absolute path by walking dentries and mounts up to the process root. The walks
  are bounded by counts, as in the code: the recursion is on the turns left.
\<close>

definition MAX_DENTRY_DEPTH :: nat where "MAX_DENTRY_DEPTH = 256"
definition MAX_MOUNT_DEPTH :: nat where "MAX_MOUNT_DEPTH = 64"
definition MAX_ARGUMENT_BYTES :: nat where "MAX_ARGUMENT_BYTES = 1048576"
definition MAX_ENVIRONMENT_BYTES :: nat where "MAX_ENVIRONMENT_BYTES = 1048576"
definition MAX_PATH_COMPONENT_BYTES :: nat where "MAX_PATH_COMPONENT_BYTES = 4096"

section \<open>Strings\<close>

definition read_string_range :: "memview \<Rightarrow> addr \<Rightarrow> addr \<Rightarrow> nat \<Rightarrow> bytes result" where
  "read_string_range mem start end max_len =
     rbind (ok_or (OsLayer OutOfBounds) (checked_sub end start)) (\<lambda>n.
       let len = unat n in
       if start = NULL \<or> end = NULL \<or> len = 0 \<or> max_len < len then Inl (OsLayer OutOfBounds)
       else data_part (rd_raw mem start len))"

definition nul_split_strings :: "bytes \<Rightarrow> string list" where
  "nul_split_strings data =
     map from_utf8_lossy (filter (\<lambda>part. part \<noteq> []) (split_on (\<lambda>byte. byte = 0) data))"

definition read_command_line :: "memview \<Rightarrow> addr \<Rightarrow> addr \<Rightarrow> string result" where
  "read_command_line mem start end =
     rbind (read_string_range mem start end MAX_ARGUMENT_BYTES) (\<lambda>data.
       Inr (join '' '' (nul_split_strings data)))"

section \<open>Paths\<close>

definition dentry_name :: "memview \<Rightarrow> linux_offsets \<Rightarrow> addr \<Rightarrow> string result" where
  "dentry_name mem offs current =
     (let qstr = current + dentry_d_name (off_dentry offs) in
      rbind (strict (rd_addr64 mem (qstr + qstr_name (off_qstr offs)))) (\<lambda>name_ptr.
        if name_ptr = NULL then Inr []
        else data_part (rd_utf8_lossy mem name_ptr MAX_PATH_COMPONENT_BYTES)))"

definition push_name :: "string \<Rightarrow> string list \<Rightarrow> string list" where
  "push_name name components =
     (if name \<noteq> [] \<and> name \<noteq> ''/'' then components @ [name] else components)"

text \<open>The walk without a mount: the dentry whose parent is itself or null ends it and gives no name.\<close>

fun bare_walk :: "nat \<Rightarrow> memview \<Rightarrow> linux_offsets \<Rightarrow> addr \<Rightarrow> string list \<Rightarrow> string list result" where
  "bare_walk 0 mem offs current components = Inr components"
| "bare_walk (Suc n) mem offs current components =
     rbind (dentry_name mem offs current) (\<lambda>name.
     rbind (strict (rd_addr64 mem (current + dentry_d_parent (off_dentry offs)))) (\<lambda>parent.
     if parent = current \<or> parent = NULL then Inr components
     else bare_walk n mem offs parent (push_name name components)))"

text \<open>
  The walk inside one mount. \<open>Inl components\<close> is the early \<open>return\<close> at a dentry without a parent,
  \<open>Inr (current, components)\<close> the end of the inner loop.
\<close>

fun dentry_walk ::
    "nat \<Rightarrow> memview \<Rightarrow> linux_offsets \<Rightarrow> addr \<Rightarrow> addr \<Rightarrow> string list \<Rightarrow>
     (string list + addr \<times> string list) result" where
  "dentry_walk 0 mem offs mount_root current components = Inr (Inr (current, components))"
| "dentry_walk (Suc n) mem offs mount_root current components =
     (if current = mount_root \<or> current = NULL then Inr (Inr (current, components))
      else
        rbind (dentry_name mem offs current) (\<lambda>name.
        rbind (strict (rd_addr64 mem (current + dentry_d_parent (off_dentry offs)))) (\<lambda>parent.
        if parent = current \<or> parent = NULL then Inr (Inl (push_name name components))
        else dentry_walk n mem offs mount_root parent (push_name name components))))"

fun mount_walk ::
    "nat \<Rightarrow> memview \<Rightarrow> linux_offsets \<Rightarrow> (addr \<times> addr) option \<Rightarrow> addr \<Rightarrow> addr \<Rightarrow> string list \<Rightarrow>
     string list result" where
  "mount_walk 0 mem offs root mnt current components = Inr components"
| "mount_walk (Suc n) mem offs root mnt current components =
     rbind (case root of
              Some (root_mnt, root_dentry) \<Rightarrow>
                if root_mnt = mnt then Inr root_dentry
                else strict (rd_addr64 mem (mnt + vfsmount_mnt_root (off_vfsmount offs)))
            | None \<Rightarrow> strict (rd_addr64 mem (mnt + vfsmount_mnt_root (off_vfsmount offs)))) (\<lambda>mount_root.
     rbind (dentry_walk MAX_DENTRY_DEPTH mem offs mount_root current components) (\<lambda>r.
     case r of
       Inl components' \<Rightarrow> Inr components'
     | Inr (current', components') \<Rightarrow>
         if (case root of None \<Rightarrow> False
             | Some (root_mnt, root_dentry) \<Rightarrow> root_mnt = mnt \<and> root_dentry = current')
         then Inr components'
         else
           rbind (ok_or (OsLayer Offset) (checked_sub mnt (mount_mnt (off_mount offs)))) (\<lambda>mount.
           rbind (strict (rd_addr64 mem (mount + mount_mnt_parent (off_mount offs)))) (\<lambda>parent_mount.
           if parent_mount = NULL \<or> parent_mount = mount then Inr components'
           else
             rbind (strict (rd_addr64 mem (mount + mount_mnt_mountpoint (off_mount offs)))) (\<lambda>next.
             mount_walk n mem offs root (parent_mount + mount_mnt (off_mount offs)) next components')))))"

definition read_path_components ::
    "memview \<Rightarrow> addr \<Rightarrow> addr \<Rightarrow> (addr \<times> addr) option \<Rightarrow> linux_offsets \<Rightarrow> string list result" where
  "read_path_components mem mnt dentry root offs =
     (if dentry = NULL then Inl (OsLayer InvalidProcessInfo)
      else if mnt = NULL then bare_walk MAX_DENTRY_DEPTH mem offs dentry []
      else mount_walk MAX_MOUNT_DEPTH mem offs root mnt dentry [])"

definition read_path :: "memview \<Rightarrow> addr \<Rightarrow> addr option \<Rightarrow> linux_offsets \<Rightarrow> string result" where
  "read_path mem path root offs =
     (if path = NULL then Inl (OsLayer InvalidProcessInfo)
      else
        rbind (strict (rd_addr64 mem (path + path_mnt (off_path offs)))) (\<lambda>mnt.
        rbind (strict (rd_addr64 mem (path + path_dentry (off_path offs)))) (\<lambda>dentry.
        rbind (case root of
                 None \<Rightarrow> Inr None
               | Some r \<Rightarrow>
                   if r = NULL then Inr None
                   else
                     rbind (strict (rd_addr64 mem (r + path_mnt (off_path offs)))) (\<lambda>root_mnt.
                     rbind (strict (rd_addr64 mem (r + path_dentry (off_path offs)))) (\<lambda>root_dentry.
                     Inr (Some (root_mnt, root_dentry))))) (\<lambda>root'.
        rbind (read_path_components mem mnt dentry root' offs) (\<lambda>components.
        if components = [] then Inr ''/''
        else Inr (''/'' @ join ''/'' (rev components)))))))"

section \<open>Properties: strings\<close>

lemma split_on_part:
  assumes "\<forall>x \<in> set s. \<not> p x" "p c"
  shows "split_on p (s @ c # t) = s # split_on p t"
  using assms by (induction s) auto

lemma nul_split_args:
  assumes "\<forall>a \<in> set args. a \<noteq> [] \<and> 0 \<notin> set a"
  shows "filter (\<lambda>part. part \<noteq> []) (split_on (\<lambda>b. b = 0) (concat (map (\<lambda>a. a @ [0 :: u8]) args))) = args"
  using assms
proof (induction args)
  case (Cons a args)
  then have "split_on (\<lambda>b. b = 0) (a @ 0 # concat (map (\<lambda>a. a @ [0]) args)) =
      a # split_on (\<lambda>b. b = 0) (concat (map (\<lambda>a. a @ [0 :: u8]) args))"
    by (intro split_on_part) auto
  with Cons show ?case by simp
qed simp

lemma nul_split_strings_args:
  assumes "\<forall>a \<in> set args. a \<noteq> [] \<and> 0 \<notin> set (to_bytes a) \<and> utf8_valid (to_bytes a)"
  shows "nul_split_strings (concat (map (\<lambda>a. to_bytes a @ [0]) args)) = args"
proof -
  have "filter (\<lambda>part. part \<noteq> []) (split_on (\<lambda>b. b = 0) (concat (map (\<lambda>a. a @ [0]) (map to_bytes args))))
      = map to_bytes args"
    by (rule nul_split_args) (use assms in \<open>auto simp: to_bytes_def\<close>)
  moreover have "map from_utf8_lossy (map to_bytes args) = args"
    using assms by (simp add: map_idI from_utf8_lossy_valid)
  ultimately show ?thesis by (simp add: nul_split_strings_def o_def)
qed

text \<open>
  The argument block of a process, its UTF-8 arguments each ended by a NUL, reads as the
  arguments joined by spaces, when the block is not empty and at most a mebibyte.
\<close>

theorem read_command_line_args:
  assumes "start \<noteq> NULL" "start < end" "unat (end - start) \<le> 1048576"
    and "rd_raw mem start (unat (end - start)) = Full (concat (map (\<lambda>a. to_bytes a @ [0]) args))"
    and "\<forall>a \<in> set args. a \<noteq> [] \<and> 0 \<notin> set (to_bytes a) \<and> utf8_valid (to_bytes a)"
  shows "read_command_line mem start end = Inr (join '' '' args)"
proof -
  have "end \<noteq> NULL" "unat (end - start) \<noteq> 0" "start \<le> end" using assms(2) by (auto simp: unat_eq_0)
  moreover have "checked_sub end start = Some (end - start)" using assms(2) by (simp add: rust_simps)
  moreover have "nul_split_strings (concat (map (\<lambda>a. to_bytes a @ [0]) args)) = args"
    by (rule nul_split_strings_args [OF assms(5)])
  ultimately show ?thesis using assms(1,3,4)
    by (simp add: read_command_line_def read_string_range_def MAX_ARGUMENT_BYTES_def Let_def)
qed

theorem read_command_line_args_witness:
  "read_command_line (empty_view\<lparr>rd_raw := (\<lambda>_ _. Full [0x6c, 0x73, 0, 0x2d, 0x6c, 0])\<rparr>) 0x1000 0x1006
     = Inr ''ls -l''"
proof -
  have b: "to_bytes ''ls'' = [0x6c, 0x73]" "to_bytes ''-l'' = [0x2d, 0x6c]" by (simp_all add: to_bytes_def)
  have "utf8_valid [0x6c, 0x73]" "utf8_valid [0x2d, 0x6c]" by (simp_all add: utf8_valid_ascii)
  with b show ?thesis
    using read_command_line_args [where start = "0x1000" and args = "[''ls'', ''-l'']"
      and mem = "empty_view\<lparr>rd_raw := (\<lambda>_ _. Full [0x6c, 0x73, 0, 0x2d, 0x6c, 0])\<rparr>"]
    by simp
qed

section \<open>Properties: path resolution\<close>

text \<open>
  The abstract file system a walk sees. \<open>dentry_chain d r ns\<close>: following parents from the dentry \<open>d\<close>
  reaches the root dentry \<open>r\<close>, and \<open>ns\<close> are the names on the way, outermost first.
\<close>

inductive dentry_chain :: "memview \<Rightarrow> linux_offsets \<Rightarrow> addr \<Rightarrow> addr \<Rightarrow> string list \<Rightarrow> bool"
  for mem offs r where
  here: "dentry_chain mem offs r r []"
| up: "d \<noteq> r \<Longrightarrow> d \<noteq> NULL \<Longrightarrow> dentry_name mem offs d = Inr n \<Longrightarrow> n \<noteq> [] \<Longrightarrow> n \<noteq> ''/'' \<Longrightarrow>
    strict (rd_addr64 mem (d + dentry_d_parent (off_dentry offs))) = Inr p \<Longrightarrow> p \<noteq> d \<Longrightarrow> p \<noteq> NULL \<Longrightarrow>
    dentry_chain mem offs r p ns \<Longrightarrow> dentry_chain mem offs r d (ns @ [n])"

text \<open>
  \<open>mount_chain k root m d ns\<close>: the path of dentry \<open>d\<close> in mount \<open>m\<close>, seen from the process root, has the
  components \<open>ns\<close> and crosses \<open>k\<close> mount points, each mount's part at most \<open>MAX_DENTRY_DEPTH\<close> deep.
\<close>

inductive mount_chain ::
    "memview \<Rightarrow> linux_offsets \<Rightarrow> addr \<times> addr \<Rightarrow> nat \<Rightarrow> addr \<Rightarrow> addr \<Rightarrow> string list \<Rightarrow> bool"
  for mem offs root where
  top: "m = fst root \<Longrightarrow> dentry_chain mem offs (snd root) d ns \<Longrightarrow> length ns \<le> MAX_DENTRY_DEPTH \<Longrightarrow>
    mount_chain mem offs root 0 m d ns"
| cross: "m \<noteq> fst root \<Longrightarrow>
    strict (rd_addr64 mem (m + vfsmount_mnt_root (off_vfsmount offs))) = Inr r \<Longrightarrow>
    dentry_chain mem offs r d inner \<Longrightarrow> length inner \<le> MAX_DENTRY_DEPTH \<Longrightarrow>
    mount_mnt (off_mount offs) \<le> m \<Longrightarrow> mount = m - mount_mnt (off_mount offs) \<Longrightarrow>
    strict (rd_addr64 mem (mount + mount_mnt_parent (off_mount offs))) = Inr parent \<Longrightarrow>
    parent \<noteq> NULL \<Longrightarrow> parent \<noteq> mount \<Longrightarrow>
    strict (rd_addr64 mem (mount + mount_mnt_mountpoint (off_mount offs))) = Inr point \<Longrightarrow>
    mount_chain mem offs root k (parent + mount_mnt (off_mount offs)) point outer \<Longrightarrow>
    mount_chain mem offs root (Suc k) m d (outer @ inner)"

lemma dentry_walk_chain:
  assumes "dentry_chain mem offs r d ns" "length ns \<le> n"
  shows "dentry_walk n mem offs r d cs = Inr (Inr (r, cs @ rev ns))"
  using assms
proof (induction arbitrary: n cs)
  case here
  then show ?case by (cases n) simp_all
next
  case (up d nm p ns)
  then obtain m where "n = Suc m" "length ns \<le> m" by (cases n) auto
  with up show ?case by (simp add: push_name_def)
qed

lemma mount_walk_chain:
  assumes "mount_chain mem offs root k m d ns" "k < n"
  shows "mount_walk n mem offs (Some root) m d cs = Inr (cs @ rev ns)"
  using assms
proof (induction arbitrary: n cs)
  case (top m d ns)
  then obtain j where "n = Suc j" by (cases n) auto
  moreover have "dentry_walk MAX_DENTRY_DEPTH mem offs (snd root) d cs = Inr (Inr (snd root, cs @ rev ns))"
    using top by (simp add: dentry_walk_chain)
  ultimately show ?case using top by (cases root) simp
next
  case (cross m r d inner mount parent point k outer)
  then obtain j where "n = Suc j" "k < j" by (cases n) auto
  moreover have "dentry_walk MAX_DENTRY_DEPTH mem offs r d cs = Inr (Inr (r, cs @ rev inner))"
    using cross by (simp add: dentry_walk_chain)
  ultimately show ?case using cross by (cases root) (simp add: checked_sub_def)
qed

text \<open>
  C10. A \<open>struct path\<close> whose dentries and mounts lead up to the process root resolves to the
  absolute path of its components, mount points crossed, when it crosses fewer than
  \<open>MAX_MOUNT_DEPTH\<close> mounts; the root itself resolves to a slash.
\<close>

theorem read_path_resolves:
  assumes "path \<noteq> NULL" "rt \<noteq> NULL"
    and "rd_addr64 mem (path + path_mnt (off_path offs)) = Full m"
    and "rd_addr64 mem (path + path_dentry (off_path offs)) = Full d" "m \<noteq> NULL" "d \<noteq> NULL"
    and "rd_addr64 mem (rt + path_mnt (off_path offs)) = Full root_mnt"
    and "rd_addr64 mem (rt + path_dentry (off_path offs)) = Full root_dentry"
    and "mount_chain mem offs (root_mnt, root_dentry) k m d names" "k < MAX_MOUNT_DEPTH"
  shows "read_path mem path (Some rt) offs = Inr (''/'' @ join ''/'' names)"
proof -
  have "mount_walk MAX_MOUNT_DEPTH mem offs (Some (root_mnt, root_dentry)) m d [] = Inr (rev names)"
    using mount_walk_chain [OF assms(9,10)] by simp
  then show ?thesis using assms by (simp add: read_path_def read_path_components_def)
qed

text \<open>A file \<open>/mnt/a\<close>: dentry \<open>a\<close> in a file system mounted on \<open>mnt\<close> of the root file system.\<close>

definition sample_path_view :: memview where
  "sample_path_view = empty_view
     \<lparr> rd_addr64 := (\<lambda>a. case map_of
          [(0x100, 0x2020), (0x108, 0x4000),
           (0x200, 0x1020), (0x208, 0x3000),
           (0x2020, 0x5000),
           (0x4018, 0x5000), (0x4028, 0x6000),
           (0x2010, 0x1000), (0x2018, 0x7000),
           (0x7018, 0x3000), (0x7028, 0x6010)] a of
            Some v \<Rightarrow> Full v | None \<Rightarrow> Fail (Connector 2)),
       rd_utf8_lossy := (\<lambda>a n. if a = 0x6000 then Full ''a'' else if a = 0x6010 then Full ''mnt''
                          else Fail (Connector 3)) \<rparr>"

theorem read_path_resolves_witness:
  "read_path sample_path_view 0x100 (Some 0x200) (pr_offsets sample_profile) = Inr ''/mnt/a''"
proof -
  let ?o = "pr_offsets sample_profile"
  have d1: "dentry_chain sample_path_view ?o 0x5000 0x4000 ([] @ [''a''])"
    by (rule dentry_chain.up [OF _ _ _ _ _ _ _ _ dentry_chain.here])
      (simp_all add: sample_path_view_def sample_profile_def dentry_name_def)
  have d2: "dentry_chain sample_path_view ?o 0x3000 0x7000 ([] @ [''mnt''])"
    by (rule dentry_chain.up [OF _ _ _ _ _ _ _ _ dentry_chain.here])
      (simp_all add: sample_path_view_def sample_profile_def dentry_name_def)
  have "mount_chain sample_path_view ?o (0x1020, 0x3000) 0 0x1020 0x7000 ([] @ [''mnt''])"
    by (rule mount_chain.top) (simp_all add: d2 [simplified] MAX_DENTRY_DEPTH_def)
  then have "mount_chain sample_path_view ?o (0x1020, 0x3000) (Suc 0) 0x2020 0x4000 (([] @ [''mnt'']) @ [] @ [''a''])"
    by (intro mount_chain.cross [where r = "0x5000" and mount = "0x2000" and parent = "0x1000" and point = "0x7000"] d1)
      (simp_all add: sample_path_view_def sample_profile_def MAX_DENTRY_DEPTH_def)
  then have c: "mount_chain sample_path_view ?o (0x1020, 0x3000) (Suc 0) 0x2020 0x4000 [''mnt'', ''a'']" by simp
  have "read_path sample_path_view 0x100 (Some 0x200) ?o = Inr (''/'' @ join ''/'' [''mnt'', ''a''])"
    by (rule read_path_resolves [OF _ _ _ _ _ _ _ _ c])
      (simp_all add: sample_path_view_def sample_profile_def MAX_MOUNT_DEPTH_def)
  then show ?thesis by simp
qed

end
