(* ===== verification/Vma.thy ===== *)
theory Vma
  imports Paths Physical "HOL-Library.Product_Lexorder" "HOL-Library.Multiset"
begin

text \<open>
  \<open>memflow-linux/src/process.rs\<close>, first part: the records of a process, its virtual memory areas, and
  the two walks that collect them: the maple tree of \<open>mm_struct.mm_mt\<close> (Linux 6.1 and later) and the
  \<open>mmap\<close> list of earlier kernels. What a walk reads is checked against an abstract tree and an abstract
  list laid out in the view.

  \<open>ReprCString\<close> is memflow's C string: the model carries the text it is made from. memflow's
  \<open>ArchitectureIdent\<close>, \<open>ProcessState\<close>, \<open>ProcessInfo\<close> and \<open>ModuleInfo\<close> are plain data; \<open>PageType\<close> is a
  set of flags behind methods, which are a parameter. A read of a view reports errors and does not panic.
\<close>

section \<open>Constants\<close>

definition MAPLE_NODE_MASK :: u64 where "MAPLE_NODE_MASK = 0xff"
definition MAPLE_INTERNAL_NODE :: u64 where "MAPLE_INTERNAL_NODE = 0x04"
definition MAPLE_ROOT_NODE :: u64 where "MAPLE_ROOT_NODE = 0x02"
definition MAPLE_DENSE_SLOTS :: nat where "MAPLE_DENSE_SLOTS = 31"
definition MAX_MAPLE_DEPTH :: nat where "MAX_MAPLE_DEPTH = 64"
definition MAX_VMA_ITER :: nat where "MAX_VMA_ITER = 1048576"
definition VM_READ :: u64 where "VM_READ = 0x1"
definition VM_WRITE :: u64 where "VM_WRITE = 0x2"
definition VM_EXEC :: u64 where "VM_EXEC = 0x4"

section \<open>Processes\<close>

datatype arch_ident = X86 nat bool | Other_Arch nat

definition linux_arch :: arch_ident where "linux_arch = X86 64 False"

datatype process_state = Alive | Dead u32

record process_info =
  pi_address :: addr
  pi_pid :: u32
  pi_state :: process_state
  pi_name :: string
  pi_path :: string
  pi_command_line :: string
  pi_sys_arch :: arch_ident
  pi_proc_arch :: arch_ident
  pi_dtb1 :: addr
  pi_dtb2 :: addr

record linux_process_info =
  lpi_base_info :: process_info
  lpi_task :: addr
  lpi_mm :: addr
  lpi_active_mm :: addr
  lpi_fs :: addr
  lpi_files :: addr
  lpi_signal :: addr
  lpi_exe_file :: addr
  lpi_start_code :: addr
  lpi_end_code :: addr
  lpi_arg_start :: addr
  lpi_arg_end :: addr
  lpi_env_start :: addr
  lpi_env_end :: addr

section \<open>Virtual memory areas\<close>

record linux_vma_info =
  v_vma :: addr
  v_start :: addr
  v_end :: addr
  v_flags :: u64
  v_file :: addr
  v_path :: string
  v_name :: string

text \<open>\<open>sort_by_key\<close> is stable, as is \<open>sort_key\<close>; \<open>dedup_by_key\<close> keeps the first of each run.\<close>

definition vma_key :: "linux_vma_info \<Rightarrow> u64 \<times> u64 \<times> u64" where
  "vma_key v = (v_start v, v_end v, v_vma v)"

fun dedup_by_key :: "('a \<Rightarrow> 'k) \<Rightarrow> 'a list \<Rightarrow> 'a list" where
  "dedup_by_key f [] = []"
| "dedup_by_key f [x] = [x]"
| "dedup_by_key f (x # y # xs) =
     (if f x = f y then dedup_by_key f (x # xs) else x # dedup_by_key f (y # xs))"

definition read_or :: "'a \<Rightarrow> 'a partial \<Rightarrow> 'a" where
  "read_or d r = unwrap_or d (strict r)"

definition module_basename :: "string \<Rightarrow> string" where
  "module_basename path =
     (let base = last (split_on (\<lambda>c. c = CHR ''/'' \<or> c = CHR 0x5c) path)
      in if base = [] then ''unknown'' else base)"

definition read_vma_info ::
    "memview \<Rightarrow> linux_offsets \<Rightarrow> addr option \<Rightarrow> addr \<Rightarrow> linux_vma_info option result" where
  "read_vma_info mem offs root vma =
     rbind (strict (rd_u64 mem (vma + vma_vm_start (off_vma offs)))) (\<lambda>start.
     rbind (strict (rd_u64 mem (vma + vma_vm_end (off_vma offs)))) (\<lambda>vm_end.
     if start = NULL \<or> vm_end \<le> start then Inr None
     else
       rbind (strict (rd_u64 mem (vma + vma_vm_flags (off_vma offs)))) (\<lambda>flags.
         let file = read_or NULL (rd_addr mem (vma + vma_vm_file (off_vma offs)));
             path = (if file = NULL then []
                     else unwrap_or [] (read_path mem (file + file_f_path (off_file offs)) root offs));
             name = (if path = [] then [] else module_basename path)
         in Inr (Some \<lparr> v_vma = vma, v_start = start, v_end = vm_end, v_flags = flags,
                        v_file = file, v_path = path, v_name = name \<rparr>))))"

definition push_vma_entry ::
    "memview \<Rightarrow> linux_offsets \<Rightarrow> addr option \<Rightarrow> addr \<Rightarrow> linux_vma_info list \<Rightarrow> linux_vma_info list result" where
  "push_vma_entry mem offs root vma out =
     (if vma = NULL \<or> vma < 4096 then Inr out
      else
        rbind (read_vma_info mem offs root vma) (\<lambda>info.
        Inr (case info of Some i \<Rightarrow> out @ [i] | None \<Rightarrow> out)))"

section \<open>The maple tree\<close>

datatype maple_type = Dense | Leaf64 | Range64 | Arange64

definition maple_type :: "u64 \<Rightarrow> maple_type option" where
  "maple_type entry =
     (if entry AND (MAPLE_INTERNAL_NODE OR MAPLE_ROOT_NODE) = 0 then None
      else let t = drop_bit 3 entry AND 0x0f in
        if t = 0 then Some Dense
        else if t = 1 then Some Leaf64
        else if t = 2 then Some Range64
        else if t = 3 then Some Arange64
        else None)"

definition read_maple_u64 :: "memview \<Rightarrow> addr \<Rightarrow> u64 result" where
  "read_maple_u64 mem a = strict (rd_u64 mem a)"

definition range64_data_end :: "memview \<Rightarrow> addr \<Rightarrow> u64 \<Rightarrow> maple_range64_offsets \<Rightarrow> usize result" where
  "range64_data_end mem node hi r =
     rbind (read_maple_u64 mem (node + mr_pivot r + sat_sub (mr_pivot_count r) 1 * 8)) (\<lambda>last_pivot.
       let data_end =
             (if last_pivot = 0 then ucast (read_or 0 (rd_u8 mem (node + mr_meta_end r)))
              else if last_pivot = hi then sat_sub (mr_pivot_count r) 1
              else sat_sub (mr_slot_count r) 1)
       in Inr (min data_end (sat_sub (mr_slot_count r) 1)))"

text \<open>
  The walk of an entry and the walks of the node kinds call each other. The node walks take the walk
  of the entries below as an argument; the walk of an entry is then a recursion on the levels left,
  \<open>MAX_MAPLE_DEPTH + 1 - depth\<close>: at none the code's test \<open>depth > MAX_MAPLE_DEPTH\<close> holds.
\<close>

type_synonym entry_walk =
  "u64 \<Rightarrow> u64 \<Rightarrow> u64 \<Rightarrow> linux_vma_info list \<Rightarrow> linux_vma_info list result"

fun dense_loop ::
    "entry_walk \<Rightarrow> memview \<Rightarrow> addr \<Rightarrow> u64 \<Rightarrow> nat list \<Rightarrow> linux_vma_info list \<Rightarrow> linux_vma_info list result" where
  "dense_loop visit mem node lo [] out = Inr out"
| "dense_loop visit mem node lo (index # rest) out =
     rbind (read_maple_u64 mem (node + of_nat index * 8)) (\<lambda>slot.
       if slot = 0 then dense_loop visit mem node lo rest out
       else
         let slot_min = sat_add lo (of_nat index) in
         rbind (visit slot slot_min slot_min out) (dense_loop visit mem node lo rest))"

definition walk_maple_dense ::
    "entry_walk \<Rightarrow> memview \<Rightarrow> addr \<Rightarrow> u64 \<Rightarrow> u64 \<Rightarrow> linux_vma_info list \<Rightarrow> linux_vma_info list result" where
  "walk_maple_dense visit mem node lo hi out =
     (let span = sat_sub hi lo;
          slots = min MAPLE_DENSE_SLOTS (unat (sat_add span 1))
      in dense_loop visit mem node lo [0 ..< slots] out)"

text \<open>The loop over the slots of a range node, the same in both kinds of range node.\<close>

fun slot_loop ::
    "entry_walk \<Rightarrow> memview \<Rightarrow> addr \<Rightarrow> usize \<Rightarrow> usize \<Rightarrow> usize \<Rightarrow> u64 \<Rightarrow> nat list \<Rightarrow> u64 \<Rightarrow>
     linux_vma_info list \<Rightarrow> linux_vma_info list result" where
  "slot_loop visit mem node pivot pivot_count slot_off hi [] current_min out = Inr out"
| "slot_loop visit mem node pivot pivot_count slot_off hi (index # rest) current_min out =
     rbind (if index < unat pivot_count then read_maple_u64 mem (node + pivot + of_nat index * 8)
            else Inr hi) (\<lambda>pivot_last.
     rbind (read_maple_u64 mem (node + slot_off + of_nat index * 8)) (\<lambda>slot.
     rbind (if slot \<noteq> 0 then visit slot current_min pivot_last out else Inr out) (\<lambda>out.
       if hi \<le> pivot_last then Inr out
       else slot_loop visit mem node pivot pivot_count slot_off hi rest (sat_add pivot_last 1) out)))"

definition walk_maple_range64 ::
    "entry_walk \<Rightarrow> memview \<Rightarrow> linux_offsets \<Rightarrow> addr \<Rightarrow> maple_type \<Rightarrow> u64 \<Rightarrow> u64 \<Rightarrow>
     linux_vma_info list \<Rightarrow> linux_vma_info list result" where
  "walk_maple_range64 visit mem offs node node_type lo hi out =
     (let r = maple_range64 (off_maple offs) in
      rbind (range64_data_end mem node hi r) (\<lambda>data_end.
      rbind (slot_loop visit mem node (mr_pivot r) (mr_pivot_count r) (mr_slot r) hi
               [0 ..< Suc (unat (min data_end (sat_sub (mr_slot_count r) 1)))] lo out) (\<lambda>out.
      Inr (if node_type = Leaf64 then sort_key vma_key out else out))))"

definition walk_maple_arange64 ::
    "entry_walk \<Rightarrow> memview \<Rightarrow> linux_offsets \<Rightarrow> addr \<Rightarrow> u64 \<Rightarrow> u64 \<Rightarrow>
     linux_vma_info list \<Rightarrow> linux_vma_info list result" where
  "walk_maple_arange64 visit mem offs node lo hi out =
     (let a = maple_arange64 (off_maple offs);
          data_end = min (ucast (read_or 0 (rd_u8 mem (node + ma_meta_end a)))) (sat_sub (ma_slot_count a) 1)
      in slot_loop visit mem node (ma_pivot a) (ma_pivot_count a) (ma_slot a) hi
           [0 ..< Suc (unat data_end)] lo out)"

fun walk_maple_entry ::
    "nat \<Rightarrow> memview \<Rightarrow> linux_offsets \<Rightarrow> addr option \<Rightarrow> entry_walk" where
  "walk_maple_entry 0 mem offs root entry lo hi out = Inr out"
| "walk_maple_entry (Suc levels) mem offs root entry lo hi out =
     (if entry = 0 \<or> MAX_VMA_ITER \<le> length out then Inr out
      else
        let visit = walk_maple_entry levels mem offs root;
            node = entry AND NOT MAPLE_NODE_MASK in
        case maple_type entry of
          Some Dense \<Rightarrow> walk_maple_dense visit mem node lo hi out
        | Some Leaf64 \<Rightarrow> walk_maple_range64 visit mem offs node Leaf64 lo hi out
        | Some Range64 \<Rightarrow> walk_maple_range64 visit mem offs node Range64 lo hi out
        | Some Arange64 \<Rightarrow> walk_maple_arange64 visit mem offs node lo hi out
        | None \<Rightarrow> push_vma_entry mem offs root entry out)"

definition collect_vmas_maple ::
    "memview \<Rightarrow> linux_offsets \<Rightarrow> addr option \<Rightarrow> addr \<Rightarrow> linux_vma_info list result" where
  "collect_vmas_maple mem offs root tree =
     rbind (strict (rd_u64 mem (tree + mt_ma_root (maple_tree (off_maple offs))))) (\<lambda>entry.
     rbind (walk_maple_entry (Suc MAX_MAPLE_DEPTH) mem offs root entry 0 (- 1) []) (\<lambda>out.
     Inr (dedup_by_key v_vma (sort_key vma_key out))))"

section \<open>The mmap list\<close>

fun mmap_walk ::
    "nat \<Rightarrow> memview \<Rightarrow> linux_offsets \<Rightarrow> addr option \<Rightarrow> usize \<Rightarrow> addr \<Rightarrow> linux_vma_info list \<Rightarrow>
     linux_vma_info list result" where
  "mmap_walk 0 mem offs root vm_next current out = Inr out"
| "mmap_walk (Suc n) mem offs root vm_next current out =
     (if current = NULL then Inr out
      else
        rbind (read_vma_info mem offs root current) (\<lambda>info.
          let out = (case info of Some i \<Rightarrow> out @ [i] | None \<Rightarrow> out);
              successor = read_or NULL (rd_addr mem (current + vm_next)) in
          if successor = NULL \<or> successor = current then Inr out
          else mmap_walk n mem offs root vm_next successor out))"

definition collect_vmas_mmap ::
    "memview \<Rightarrow> linux_offsets \<Rightarrow> addr option \<Rightarrow> addr \<Rightarrow> usize \<Rightarrow> linux_vma_info list result" where
  "collect_vmas_mmap mem offs root mmap_head vm_next =
     mmap_walk MAX_VMA_ITER mem offs root vm_next (read_or NULL (rd_addr mem mmap_head)) []"

text \<open>The tree is tried first; the list is the fallback when the tree fails or is empty.\<close>

definition collect_vmas_mm ::
    "memview \<Rightarrow> linux_offsets \<Rightarrow> addr option \<Rightarrow> addr \<Rightarrow> linux_vma_info list result" where
  "collect_vmas_mm mem offs root mm =
     (let by_list =
            (case (mm_mmap (off_mm offs), vma_vm_next (off_vma offs)) of
               (Some mmap, Some vm_next) \<Rightarrow> collect_vmas_mmap mem offs root (mm + mmap) vm_next
             | _ \<Rightarrow> Inr [])
      in if mm = NULL then Inr []
         else case mm_mm_mt (off_mm offs) of
             None \<Rightarrow> by_list
           | Some mm_mt \<Rightarrow>
               (case collect_vmas_maple mem offs root (mm + mm_mt) of
                  Inr vmas \<Rightarrow> if vmas \<noteq> [] then Inr vmas else by_list
                | Inl _ \<Rightarrow> by_list))"

section \<open>What a walk collects\<close>

lemma read_vma_info_Some:
  assumes "read_vma_info mem offs root a = Inr (Some v)"
  shows "v_vma v = a \<and> v_start v \<noteq> NULL \<and> v_start v < v_end v"
  using assms by (auto simp: read_vma_info_def result_simps Let_def split: if_splits)

text \<open>
  The interface between the walk of an entry and the node walks: a preorder on the collected lists
  that a walk below keeps and that sorting keeps. Every node walk then keeps it.
\<close>

locale vma_walk =
  fixes visit :: entry_walk and kept :: "linux_vma_info list \<Rightarrow> linux_vma_info list \<Rightarrow> bool"
  assumes visit_kept: "visit e lo hi out = Inr out' \<Longrightarrow> kept out out'"
    and kept_refl: "kept out out"
    and kept_trans: "kept out out' \<Longrightarrow> kept out' out'' \<Longrightarrow> kept out out''"
    and kept_sort: "kept out (sort_key vma_key out)"
begin

lemma dense_loop_kept: "dense_loop visit mem node lo is out = Inr out' \<Longrightarrow> kept out out'"
proof (induction "is" arbitrary: out)
  case (Cons i "is")
  then show ?case
    by (auto simp: result_simps Let_def intro: kept_trans visit_kept split: if_splits)
qed (simp add: kept_refl)

lemma slot_loop_kept: "slot_loop visit mem node p pc sl hi is cur out = Inr out' \<Longrightarrow> kept out out'"
proof (induction "is" arbitrary: cur out)
  case (Cons i "is")
  from Cons.prems obtain l s o1 where
    o1: "(if s \<noteq> 0 then visit s cur l out else Inr out) = Inr o1"
    and tl: "(if hi \<le> l then Inr o1 else slot_loop visit mem node p pc sl hi is (sat_add l 1) o1) = Inr out'"
    unfolding slot_loop.simps rbind_Inr_iff by blast
  from o1 have "kept out o1" by (auto intro: visit_kept kept_refl split: if_splits)
  moreover from tl have "kept o1 out'" by (auto intro: Cons.IH kept_refl split: if_splits)
  ultimately show ?case by (rule kept_trans)
qed (simp add: kept_refl)

lemma walk_maple_dense_kept: "walk_maple_dense visit mem node lo hi out = Inr out' \<Longrightarrow> kept out out'"
  by (auto simp: walk_maple_dense_def Let_def intro: dense_loop_kept)

lemma walk_maple_arange64_kept: "walk_maple_arange64 visit mem offs node lo hi out = Inr out' \<Longrightarrow> kept out out'"
  unfolding walk_maple_arange64_def Let_def by (rule slot_loop_kept)

lemma walk_maple_range64_kept:
  assumes "walk_maple_range64 visit mem offs node k lo hi out = Inr out'"
  shows "kept out out'"
proof -
  from assms obtain d o1 where
    "slot_loop visit mem node (mr_pivot (maple_range64 (off_maple offs))) (mr_pivot_count (maple_range64 (off_maple offs)))
       (mr_slot (maple_range64 (off_maple offs))) hi
       [0 ..< Suc (unat (min d (sat_sub (mr_slot_count (maple_range64 (off_maple offs))) 1)))] lo out = Inr o1"
    and out': "out' = (if k = Leaf64 then sort_key vma_key o1 else o1)"
    unfolding walk_maple_range64_def Let_def rbind_Inr_iff by blast
  then have "kept out o1" by (intro slot_loop_kept)
  then show ?thesis using out' by (auto intro: kept_trans [OF _ kept_sort])
qed

end

text \<open>An area is genuine when it is what its address reads as.\<close>

definition genuine :: "memview \<Rightarrow> linux_offsets \<Rightarrow> addr option \<Rightarrow> linux_vma_info \<Rightarrow> bool" where
  "genuine mem offs root v \<longleftrightarrow> read_vma_info mem offs root (v_vma v) = Inr (Some v)"

definition keeps_genuine ::
    "memview \<Rightarrow> linux_offsets \<Rightarrow> addr option \<Rightarrow> linux_vma_info list \<Rightarrow> linux_vma_info list \<Rightarrow> bool" where
  "keeps_genuine mem offs root out out' \<longleftrightarrow>
     (list_all (genuine mem offs root) out \<longrightarrow> list_all (genuine mem offs root) out')"

lemma read_vma_info_genuine: "read_vma_info mem offs root a = Inr (Some v) \<Longrightarrow> genuine mem offs root v"
  using read_vma_info_Some [of mem offs root a v] by (simp add: genuine_def)

lemma push_vma_entry_genuine:
  "push_vma_entry mem offs root a out = Inr out' \<Longrightarrow> keeps_genuine mem offs root out out'"
  by (auto simp: push_vma_entry_def rbind_Inr_iff keeps_genuine_def read_vma_info_genuine
      split: if_splits option.splits)

lemma walk_maple_entry_genuine:
  "walk_maple_entry levels mem offs root e lo hi out = Inr out' \<Longrightarrow> keeps_genuine mem offs root out out'"
proof (induction levels arbitrary: e lo hi out out')
  case 0
  then show ?case by (simp add: keeps_genuine_def)
next
  case (Suc levels)
  have walk: "vma_walk (walk_maple_entry levels mem offs root) (keeps_genuine mem offs root)"
    by unfold_locales (rule Suc.IH, assumption | simp add: keeps_genuine_def list_all_iff)+
  show ?case
    using Suc.prems
      vma_walk.walk_maple_dense_kept [OF walk] vma_walk.walk_maple_range64_kept [OF walk]
      vma_walk.walk_maple_arange64_kept [OF walk] push_vma_entry_genuine
    by (auto simp: Let_def keeps_genuine_def split: if_splits option.splits maple_type.splits)
qed



interpretation entry_walk: vma_walk "walk_maple_entry levels mem offs root" "keeps_genuine mem offs root"
  for levels mem offs root
  by unfold_locales
    (rule walk_maple_entry_genuine, assumption | simp add: keeps_genuine_def list_all_iff)+

subsection \<open>Removing duplicates\<close>

lemma dedup_by_key_set: "set (dedup_by_key f xs) \<subseteq> set xs"
  by (induction f xs rule: dedup_by_key.induct) auto

lemma dedup_by_key_hd: "xs \<noteq> [] \<Longrightarrow> dedup_by_key f xs \<noteq> [] \<and> hd (dedup_by_key f xs) = hd xs"
  by (induction f xs rule: dedup_by_key.induct) auto

lemma dedup_by_key_id: "distinct (map f xs) \<Longrightarrow> dedup_by_key f xs = xs"
  by (induction f xs rule: dedup_by_key.induct) auto

text \<open>On a list sorted by a key that the deduplication key determines, the result is strictly sorted.\<close>

lemma dedup_by_key_strict:
  fixes k :: "'a \<Rightarrow> 'k :: linorder"
  assumes "sorted (map k xs)" "\<And>x y. x \<in> set xs \<Longrightarrow> y \<in> set xs \<Longrightarrow> f x = f y \<longleftrightarrow> k x = k y"
  shows "sorted_wrt (\<lambda>x y. k x < k y) (dedup_by_key f xs)"
  using assms
proof (induction f xs rule: dedup_by_key.induct)
  case (3 f x y xs)
  show ?case
  proof (cases "f x = f y")
    case True
    have "sorted_wrt (\<lambda>x y. k x < k y) (dedup_by_key f (x # xs))"
      by (rule 3(1) [OF True]) (use 3(3,4) in auto)
    with True show ?thesis by simp
  next
    case False
    then have "k x < k y" using 3(3,4) by (auto simp: order_less_le)
    moreover have "k y \<le> k z" if "z \<in> set (dedup_by_key f (y # xs))" for z
      using that dedup_by_key_set [of f "y # xs"] 3(3) by auto
    moreover have "sorted_wrt (\<lambda>x y. k x < k y) (dedup_by_key f (y # xs))"
      using False 3(2,3,4) by simp
    ultimately show ?thesis using False by (auto intro: order_less_le_trans)
  qed
qed simp_all

definition vma_before :: "linux_vma_info \<Rightarrow> linux_vma_info \<Rightarrow> bool" where
  "vma_before a b \<longleftrightarrow> vma_key a < vma_key b"

lemma genuine_same_key:
  "genuine mem offs root a \<Longrightarrow> genuine mem offs root b \<Longrightarrow> v_vma a = v_vma b \<longleftrightarrow> vma_key a = vma_key b"
  unfolding genuine_def vma_key_def by (metis Inr_inject option.inject prod.inject)

lemma sorted_wrt_distinct_key:
  "sorted_wrt (\<lambda>x y. k x < (k y :: 'k :: linorder)) xs \<Longrightarrow> distinct (map k xs)"
  by (induction xs) force+

lemma collect_vmas_maple_genuine:
  assumes "collect_vmas_maple mem offs root tree = Inr vmas"
  shows "list_all (genuine mem offs root) vmas \<and> sorted_wrt vma_before vmas \<and> distinct (map v_vma vmas)"
proof -
  from assms obtain e out where
    w: "walk_maple_entry (Suc MAX_MAPLE_DEPTH) mem offs root e 0 (- 1) [] = Inr out"
    and vmas: "vmas = dedup_by_key v_vma (sort_key vma_key out)"
    unfolding collect_vmas_maple_def rbind_Inr_iff by blast
  have all: "list_all (genuine mem offs root) out"
    using walk_maple_entry_genuine [OF w] by (simp add: keeps_genuine_def)
  have sub: "set vmas \<subseteq> set out" unfolding vmas using dedup_by_key_set by fastforce
  have g: "list_all (genuine mem offs root) vmas" using all sub by (auto simp: list_all_iff)
  have s: "sorted_wrt vma_before vmas"
    unfolding vmas vma_before_def using all
    by (intro dedup_by_key_strict) (simp_all add: list_all_iff genuine_same_key [of mem offs root])
  have "distinct (map vma_key vmas)"
    using s unfolding vma_before_def by (rule sorted_wrt_distinct_key)
  then have "distinct (map v_vma vmas)"
    using g by (simp add: distinct_map inj_on_def list_all_iff genuine_same_key [of mem offs root])
  with g s show ?thesis by simp
qed

end
