(* ===== verification/Vma_Trees.thy ===== *)
theory Vma_Trees
  imports Vma
begin

text \<open>
  What the walks of \<open>Vma\<close> compute: on a memory that holds a maple tree, respectively an \<open>mmap\<close> list, of
  areas they return exactly those areas. The tree is an abstract value and a relation says how memory
  holds it; the walks meet it through one interface on their recursive visits.
\<close>

section \<open>The abstract maple tree\<close>

text \<open>
  A tree of areas, and what it means for memory to hold it: the entries of a node with the last index
  each covers, their number, and the node's own record of where its data ends, as the kernel's maple
  tree keeps them. Nothing here mentions the walk.
\<close>

datatype mtree = MEmpty | MVma linux_vma_info | MNode "mtree list"

fun leaves :: "mtree \<Rightarrow> linux_vma_info list" where
  "leaves MEmpty = []"
| "leaves (MVma v) = [v]"
| "leaves (MNode ts) = concat (map leaves ts)"

definition lower :: "u64 \<Rightarrow> (u64 \<times> u64) list \<Rightarrow> nat \<Rightarrow> u64" where
  "lower lo ps i = (if i = 0 then lo else sat_add (snd (ps ! (i - 1))) 1)"

definition range_layout ::
    "memview \<Rightarrow> addr \<Rightarrow> usize \<Rightarrow> usize \<Rightarrow> usize \<Rightarrow> u64 \<Rightarrow> (u64 \<times> u64) list \<Rightarrow> bool" where
  "range_layout mem node pivot pivot_count slot hi ps \<longleftrightarrow> ps \<noteq> [] \<and>
     (\<forall>i < length ps. rd_u64 mem (node + slot + of_nat i * 8) = Full (fst (ps ! i)) \<and>
        (if i < unat pivot_count then rd_u64 mem (node + pivot + of_nat i * 8) = Full (snd (ps ! i))
         else snd (ps ! i) = hi)) \<and>
     (\<forall>i. Suc i < length ps \<longrightarrow> snd (ps ! i) < hi) \<and> hi \<le> snd (last ps)"

definition range64_end :: "memview \<Rightarrow> addr \<Rightarrow> maple_range64_offsets \<Rightarrow> u64 \<Rightarrow> nat \<Rightarrow> bool" where
  "range64_end mem node r hi n \<longleftrightarrow> n \<le> unat (mr_slot_count r) \<and>
     (\<exists>p. rd_u64 mem (node + mr_pivot r + sat_sub (mr_pivot_count r) 1 * 8) = Full p \<and>
       (if p = 0 then \<exists>m. rd_u8 mem (node + mr_meta_end r) = Full m \<and> n \<le> Suc (unat m)
        else p = hi \<longrightarrow> n \<le> unat (mr_pivot_count r)))"

definition arange64_end :: "memview \<Rightarrow> addr \<Rightarrow> maple_arange64_offsets \<Rightarrow> nat \<Rightarrow> bool" where
  "arange64_end mem node a n \<longleftrightarrow> n \<le> unat (ma_slot_count a) \<and>
     (\<exists>m. rd_u8 mem (node + ma_meta_end a) = Full m \<and> n \<le> Suc (unat m))"

inductive maple_at ::
    "memview \<Rightarrow> linux_offsets \<Rightarrow> addr option \<Rightarrow> nat \<Rightarrow> u64 \<Rightarrow> u64 \<Rightarrow> u64 \<Rightarrow> mtree \<Rightarrow> bool"
  for mem offs root where
  nothing: "maple_at mem offs root h 0 lo hi MEmpty"
| area: "maple_type e = None \<Longrightarrow> 4096 \<le> e \<Longrightarrow> genuine mem offs root v \<Longrightarrow> v_vma v = e \<Longrightarrow>
    maple_at mem offs root (Suc h) e lo hi (MVma v)"
| range64: "maple_type e = Some k \<Longrightarrow> k = Leaf64 \<or> k = Range64 \<Longrightarrow> node = e AND NOT MAPLE_NODE_MASK \<Longrightarrow>
    r = maple_range64 (off_maple offs) \<Longrightarrow>
    range_layout mem node (mr_pivot r) (mr_pivot_count r) (mr_slot r) hi ps \<Longrightarrow>
    range64_end mem node r hi (length ps) \<Longrightarrow> length ts = length ps \<Longrightarrow>
    (\<forall>i < length ps. maple_at mem offs root h (fst (ps ! i)) (lower lo ps i) (snd (ps ! i)) (ts ! i)) \<Longrightarrow>
    maple_at mem offs root (Suc h) e lo hi (MNode ts)"
| arange64: "maple_type e = Some Arange64 \<Longrightarrow> node = e AND NOT MAPLE_NODE_MASK \<Longrightarrow>
    a = maple_arange64 (off_maple offs) \<Longrightarrow>
    range_layout mem node (ma_pivot a) (ma_pivot_count a) (ma_slot a) hi ps \<Longrightarrow>
    arange64_end mem node a (length ps) \<Longrightarrow> length ts = length ps \<Longrightarrow>
    (\<forall>i < length ps. maple_at mem offs root h (fst (ps ! i)) (lower lo ps i) (snd (ps ! i)) (ts ! i)) \<Longrightarrow>
    maple_at mem offs root (Suc h) e lo hi (MNode ts)"
| dense: "maple_type e = Some Dense \<Longrightarrow> node = e AND NOT MAPLE_NODE_MASK \<Longrightarrow>
    length es = min MAPLE_DENSE_SLOTS (unat (sat_add (sat_sub hi lo) 1)) \<Longrightarrow> length ts = length es \<Longrightarrow>
    (\<forall>i < length es. rd_u64 mem (node + of_nat i * 8) = Full (es ! i) \<and>
       maple_at mem offs root h (es ! i) (sat_add lo (of_nat i)) (sat_add lo (of_nat i)) (ts ! i)) \<Longrightarrow>
    maple_at mem offs root (Suc h) e lo hi (MNode ts)"

inductive_cases maple_at_noneE: "maple_at mem offs root h 0 lo hi t"

lemma maple_at_none: "maple_at mem offs root h 0 lo hi t \<Longrightarrow> t = MEmpty"
  by (erule maple_at_noneE) (auto simp: maple_type_def)

lemma maple_at_genuine: "maple_at mem offs root h e lo hi t \<Longrightarrow> v \<in> set (leaves t) \<Longrightarrow> genuine mem offs root v"
proof (induction rule: maple_at.induct)
  case (range64 e k node r hi ps ts lo h)
  then show ?case by (fastforce simp: in_set_conv_nth)
next
  case (arange64 e node a hi ps ts lo h)
  then show ?case by (fastforce simp: in_set_conv_nth)
next
  case (dense e node es hi lo ts h)
  then show ?case by (fastforce simp: in_set_conv_nth)
qed simp_all

section \<open>The walk collects the leaves\<close>

text \<open>
  What the node walks rely on: a visit of an entry that holds the areas \<open>vs\<close> succeeds and adds them,
  while the count of areas stays within \<open>MAX_VMA_ITER\<close>. Sorting in between makes it a statement on multisets.
\<close>

definition adds :: "linux_vma_info list result \<Rightarrow> linux_vma_info list \<Rightarrow> linux_vma_info list \<Rightarrow> bool" where
  "adds r out vs \<longleftrightarrow> (\<exists>out'. r = Inr out' \<and> mset out' = mset out + mset vs)"

lemma adds_bind:
  assumes "adds r out vs" "\<And>out'. length out' = length out + length vs \<Longrightarrow> adds (f out') out' ws"
  shows "adds (rbind r f) out (vs @ ws)"
proof -
  from assms(1) obtain o1 where o1: "r = Inr o1" "mset o1 = mset out + mset vs" by (auto simp: adds_def)
  then have "size (mset o1) = size (mset out + mset vs)" by simp
  then have "length o1 = length out + length vs" by simp
  from assms(2) [OF this] show ?thesis using o1 by (auto simp: adds_def)
qed

lemma unat_min: "unat (min a (b :: 'a::len word)) = min (unat a) (unat b)"
  by (simp add: min_def word_le_nat_alt)

lemma read_or_simps [simp]:
  "read_or d (Full x) = x" "read_or d (Partial x) = d" "read_or d (Fail e) = d"
  by (simp_all add: read_or_def)

lemma range64_data_end_covers:
  assumes "range64_end mem node r hi n"
  shows "\<exists>d. range64_data_end mem node hi r = Inr d \<and> n \<le> Suc (unat (min d (sat_sub (mr_slot_count r) 1)))"
  using assms
  by (auto simp: range64_end_def range64_data_end_def read_maple_u64_def Let_def unat_min unat_sat_sub
      split: if_splits)

lemma arange64_end_covers:
  assumes "arange64_end mem node a n"
  shows "n \<le> Suc (unat (min (ucast (read_or 0 (rd_u8 mem (node + ma_meta_end a)))) (sat_sub (ma_slot_count a) 1) :: usize))"
  using assms by (auto simp: arange64_end_def unat_min unat_sat_sub)

locale area_visitor =
  fixes visit :: entry_walk and holds :: "u64 \<Rightarrow> u64 \<Rightarrow> u64 \<Rightarrow> linux_vma_info list \<Rightarrow> bool"
  assumes visit_adds: "holds e lo hi vs \<Longrightarrow> e \<noteq> 0 \<Longrightarrow> length out + length vs \<le> MAX_VMA_ITER \<Longrightarrow>
      adds (visit e lo hi out) out vs"
    and holds_zero: "holds 0 lo hi vs \<Longrightarrow> vs = []"
begin

lemma entry_adds:
  "holds e lo hi vs \<Longrightarrow> length out + length vs \<le> MAX_VMA_ITER \<Longrightarrow>
   adds (if e \<noteq> 0 then visit e lo hi out else Inr out) out vs"
  using visit_adds holds_zero by (auto simp: adds_def)

lemma slot_loop_adds:
  assumes layout: "range_layout mem node pivot pc sl hi ps"
    and vss: "length vss = length ps"
      "\<And>i. i < length ps \<Longrightarrow> holds (fst (ps ! i)) (lower lo ps i) (snd (ps ! i)) (vss ! i)"
    and i: "i < length ps" "length ps \<le> b"
    and room: "length out + length (concat (drop i vss)) \<le> MAX_VMA_ITER"
  shows "adds (slot_loop visit mem node pivot pc sl hi [i ..< b] (lower lo ps i) out) out (concat (drop i vss))"
  using i room
proof (induction "length ps - i" arbitrary: i out)
  case (Suc n)
  have upt: "[i ..< b] = i # [Suc i ..< b]" using Suc.prems by (simp add: upt_conv_Cons)
  have drop: "drop i vss = vss ! i # drop (Suc i) vss"
    using Suc.prems vss(1) by (simp add: Cons_nth_drop_Suc)
  have slot: "read_maple_u64 mem (node + sl + of_nat i * 8) = Inr (fst (ps ! i))"
    and piv: "(if i < unat pc then read_maple_u64 mem (node + pivot + of_nat i * 8) else Inr hi) = Inr (snd (ps ! i))"
    using layout Suc.prems by (auto simp: range_layout_def read_maple_u64_def split: if_splits)
  have first: "adds (if fst (ps ! i) \<noteq> 0 then visit (fst (ps ! i)) (lower lo ps i) (snd (ps ! i)) out else Inr out)
      out (vss ! i)"
    using vss(2) Suc.prems by (intro entry_adds) (simp_all add: drop)
  have rest: "adds (if hi \<le> snd (ps ! i) then Inr out'
        else slot_loop visit mem node pivot pc sl hi [Suc i ..< b] (sat_add (snd (ps ! i)) 1) out')
      out' (concat (drop (Suc i) vss))"
    if "length out' = length out + length (vss ! i)" for out'
  proof (cases "Suc i < length ps")
    case True
    then have "snd (ps ! i) < hi" using layout by (simp add: range_layout_def)
    moreover have "lower lo ps (Suc i) = sat_add (snd (ps ! i)) 1" by (simp add: lower_def)
    moreover have "adds (slot_loop visit mem node pivot pc sl hi [Suc i ..< b] (lower lo ps (Suc i)) out')
        out' (concat (drop (Suc i) vss))"
      using Suc.hyps(2) Suc.prems True that by (intro Suc.hyps(1)) (simp_all add: drop)
    ultimately show ?thesis by (auto dest: leD)
  next
    case False
    then have "i = length ps - 1" using Suc.prems by linarith
    moreover have "ps \<noteq> []" "hi \<le> snd (last ps)" using layout by (simp_all add: range_layout_def)
    ultimately have "hi \<le> snd (ps ! i)" by (simp add: last_conv_nth)
    then show ?thesis using False vss(1) by (simp add: adds_def)
  qed
  show ?case
    unfolding upt slot_loop.simps piv slot rbind_simps drop concat.simps
    by (rule adds_bind [OF first rest])
qed simp

lemma dense_loop_adds:
  assumes "length vss = length es"
    and "\<And>i. i < length es \<Longrightarrow> rd_u64 mem (node + of_nat i * 8) = Full (es ! i) \<and>
       holds (es ! i) (sat_add lo (of_nat i)) (sat_add lo (of_nat i)) (vss ! i)"
    and "i \<le> length es" "length out + length (concat (drop i vss)) \<le> MAX_VMA_ITER"
  shows "adds (dense_loop visit mem node lo [i ..< length es] out) out (concat (drop i vss))"
  using assms(3,4)
proof (induction "length es - i" arbitrary: i out)
  case 0
  then show ?case using assms(1) by (simp add: adds_def)
next
  case (Suc n)
  then have i: "i < length es" by linarith
  have upt: "[i ..< length es] = i # [Suc i ..< length es]" using i by (simp add: upt_conv_Cons)
  have drop: "drop i vss = vss ! i # drop (Suc i) vss" using i assms(1) by (simp add: Cons_nth_drop_Suc)
  have e: "rd_u64 mem (node + of_nat i * 8) = Full (es ! i)"
    and h: "holds (es ! i) (sat_add lo (of_nat i)) (sat_add lo (of_nat i)) (vss ! i)"
    using assms(2) [OF i] by simp_all
  have IH: "adds (dense_loop visit mem node lo [Suc i ..< length es] out') out' (concat (drop (Suc i) vss))"
    if "length out' = length out + length (vss ! i)" for out'
    using Suc.hyps(2) Suc.prems i that by (intro Suc.hyps(1)) (simp_all add: drop)
  show ?case
  proof (cases "es ! i = 0")
    case True
    then have "vss ! i = []" using h holds_zero by simp
    then show ?thesis using IH [of out] True by (simp add: upt drop e read_maple_u64_def)
  next
    case False
    have "adds (visit (es ! i) (sat_add lo (of_nat i)) (sat_add lo (of_nat i)) out) out (vss ! i)"
      using h False Suc.prems by (intro visit_adds) (simp_all add: drop)
    from adds_bind [OF this IH] False show ?thesis
      by (simp add: upt drop e read_maple_u64_def Let_def)
  qed
qed

lemma walk_maple_dense_adds:
  assumes "length es = min MAPLE_DENSE_SLOTS (unat (sat_add (sat_sub hi lo) 1))" "length vss = length es"
    and "\<And>i. i < length es \<Longrightarrow> rd_u64 mem (node + of_nat i * 8) = Full (es ! i) \<and>
       holds (es ! i) (sat_add lo (of_nat i)) (sat_add lo (of_nat i)) (vss ! i)"
    and "length out + length (concat vss) \<le> MAX_VMA_ITER"
  shows "adds (walk_maple_dense visit mem node lo hi out) out (concat vss)"
  using dense_loop_adds [of vss es mem node lo 0 out] assms
  by (simp add: walk_maple_dense_def Let_def)

lemma walk_maple_range64_adds:
  assumes r: "r = maple_range64 (off_maple offs)"
    and layout: "range_layout mem node (mr_pivot r) (mr_pivot_count r) (mr_slot r) hi ps"
    and fin: "range64_end mem node r hi (length ps)" and len: "length vss = length ps"
    and holds: "\<And>i. i < length ps \<Longrightarrow> holds (fst (ps ! i)) (lower lo ps i) (snd (ps ! i)) (vss ! i)"
    and room: "length out + length (concat vss) \<le> MAX_VMA_ITER"
  shows "adds (walk_maple_range64 visit mem offs node k lo hi out) out (concat vss)"
proof -
  obtain d where d: "range64_data_end mem node hi r = Inr d"
    "length ps \<le> Suc (unat (min d (sat_sub (mr_slot_count r) 1)))"
    using range64_data_end_covers [OF fin] by blast
  have "0 < length ps" using layout by (simp add: range_layout_def)
  from slot_loop_adds [OF layout len holds this d(2), of out] room
  have "adds (slot_loop visit mem node (mr_pivot r) (mr_pivot_count r) (mr_slot r) hi
      [0 ..< Suc (unat (min d (sat_sub (mr_slot_count r) 1)))] lo out) out (concat vss)"
    by (simp add: lower_def del: upt_Suc)
  then show ?thesis
    unfolding walk_maple_range64_def Let_def r [symmetric] d(1) rbind_simps
    by (auto simp: adds_def)
qed

lemma walk_maple_arange64_adds:
  assumes a: "a = maple_arange64 (off_maple offs)"
    and layout: "range_layout mem node (ma_pivot a) (ma_pivot_count a) (ma_slot a) hi ps"
    and fin: "arange64_end mem node a (length ps)" and len: "length vss = length ps"
    and holds: "\<And>i. i < length ps \<Longrightarrow> holds (fst (ps ! i)) (lower lo ps i) (snd (ps ! i)) (vss ! i)"
    and room: "length out + length (concat vss) \<le> MAX_VMA_ITER"
  shows "adds (walk_maple_arange64 visit mem offs node lo hi out) out (concat vss)"
proof -
  let ?d = "min (ucast (read_or 0 (rd_u8 mem (node + ma_meta_end a)))) (sat_sub (ma_slot_count a) 1) :: usize"
  have "0 < length ps" using layout by (simp add: range_layout_def)
  moreover have "length ps \<le> Suc (unat ?d)" by (rule arange64_end_covers [OF fin])
  ultimately have "adds (slot_loop visit mem node (ma_pivot a) (ma_pivot_count a) (ma_slot a) hi
      [0 ..< Suc (unat ?d)] lo out) out (concat vss)"
    using slot_loop_adds [OF layout len holds, of 0 "Suc (unat ?d)" out] room
    by (simp add: lower_def del: upt_Suc)
  then show ?thesis unfolding walk_maple_arange64_def Let_def a [symmetric] .
qed

end

text \<open>What an entry holds for a walk with some levels left: the leaves of a tree of at most that height.\<close>

definition entry_holds ::
    "nat \<Rightarrow> memview \<Rightarrow> linux_offsets \<Rightarrow> addr option \<Rightarrow> u64 \<Rightarrow> u64 \<Rightarrow> u64 \<Rightarrow> linux_vma_info list \<Rightarrow> bool" where
  "entry_holds levels mem offs root e lo hi vs \<longleftrightarrow>
     (\<exists>h t. h \<le> levels \<and> maple_at mem offs root h e lo hi t \<and> vs = leaves t)"

lemma entry_holds_zero: "entry_holds levels mem offs root 0 lo hi vs \<Longrightarrow> vs = []"
  by (auto simp: entry_holds_def dest: maple_at_none)

lemma walk_adds_leaves:
  assumes "maple_at mem offs root h e lo hi t" "h \<le> levels" "e \<noteq> 0"
    and "length out + length (leaves t) \<le> MAX_VMA_ITER"
  shows "adds (walk_maple_entry levels mem offs root e lo hi out) out (leaves t)"
  using assms
proof (induction levels arbitrary: h e lo hi t out)
  case 0
  then show ?case by (cases rule: maple_at.cases) auto
next
  case (Suc levels)
  have visitor: "area_visitor (walk_maple_entry levels mem offs root) (entry_holds levels mem offs root)"
    by unfold_locales (auto simp: entry_holds_def intro: Suc.IH dest: maple_at_none)
  show ?case
  proof (cases "MAX_VMA_ITER \<le> length out")
    case True
    then have "length (leaves t) = 0" using Suc.prems(4) by linarith
    then show ?thesis using True by (simp add: adds_def)
  next
    case False
    from Suc.prems(1) show ?thesis
    proof (cases rule: maple_at.cases)
      case (area v h')
      then show ?thesis using Suc.prems(3) False
        by (auto simp: push_vma_entry_def genuine_def adds_def not_less)
    next
      case (range64 k node r ps ts h')
      have "adds (walk_maple_range64 (walk_maple_entry levels mem offs root) mem offs node k lo hi out)
          out (concat (map leaves ts))"
        by (rule area_visitor.walk_maple_range64_adds [OF visitor range64(6,7,8)])
          (use range64 Suc.prems in \<open>auto simp: entry_holds_def\<close>)
      then show ?thesis using range64 Suc.prems(3) False by (auto simp: Let_def)
    next
      case (arange64 node a ps ts h')
      have "adds (walk_maple_arange64 (walk_maple_entry levels mem offs root) mem offs node lo hi out)
          out (concat (map leaves ts))"
        by (rule area_visitor.walk_maple_arange64_adds [OF visitor arange64(5,6,7)])
          (use arange64 Suc.prems in \<open>auto simp: entry_holds_def\<close>)
      then show ?thesis using arange64 Suc.prems(3) False by (auto simp: Let_def)
    next
      case (dense node es ts h')
      have "adds (walk_maple_dense (walk_maple_entry levels mem offs root) mem node lo hi out)
          out (concat (map leaves ts))"
        by (rule area_visitor.walk_maple_dense_adds [OF visitor dense(5)])
          (use dense Suc.prems in \<open>auto simp: entry_holds_def\<close>)
      then show ?thesis using dense Suc.prems(3) False by (auto simp: Let_def)
    qed (use Suc.prems in simp)
  qed
qed

interpretation entry_visitor: area_visitor "walk_maple_entry levels mem offs root" "entry_holds levels mem offs root"
  for levels mem offs root
  by unfold_locales (auto simp: entry_holds_def intro: walk_adds_leaves dest: maple_at_none)


section \<open>Properties\<close>

text \<open>
  C31. The areas collected from the maple tree of any memory, well formed or not, are the areas
  their addresses read as, are not empty and not null, come in increasing order of their bounds, and
  none is listed twice.
\<close>

theorem collect_vmas_maple_sound:
  assumes "collect_vmas_maple mem offs root tree = Inr vmas"
  shows "list_all (\<lambda>v. read_vma_info mem offs root (v_vma v) = Inr (Some v) \<and>
           v_start v \<noteq> NULL \<and> v_start v < v_end v) vmas \<and>
         sorted_wrt (\<lambda>a b. vma_key a < vma_key b) vmas \<and> distinct (map v_vma vmas)"
  using collect_vmas_maple_genuine [OF assms] read_vma_info_Some
  by (fastforce simp: list_all_iff genuine_def vma_before_def [abs_def])

lemma sorted_starts_distinct:
  assumes "sorted_wrt (\<lambda>a b. v_start a < v_start b) vs" "\<And>v. v \<in> set vs \<Longrightarrow> genuine mem offs root v"
  shows "distinct (map v_vma vs) \<and> sorted (map vma_key vs) \<and> inj_on vma_key (set vs)"
proof -
  have "distinct (map v_start vs)" using assms(1) by (rule sorted_wrt_distinct_key)
  then have inj: "inj_on v_start (set vs)" "distinct vs" by (simp_all add: distinct_map)
  have "v_start a = v_start b" if "a \<in> set vs" "b \<in> set vs" "v_vma a = v_vma b" for a b
    using genuine_same_key [OF assms(2) [OF that(1)] assms(2) [OF that(2)]] that(3) by (simp add: vma_key_def)
  then have "inj_on v_vma (set vs)" by (meson inj(1) inj_on_def)
  then have "distinct (map v_vma vs)" using inj(2) by (simp add: distinct_map)
  moreover have "inj_on vma_key (set vs)" using inj(1) unfolding inj_on_def vma_key_def by blast
  moreover have "sorted (map vma_key vs)"
    using assms(1) by (induction vs) (auto simp: vma_key_def)
  ultimately show ?thesis by blast
qed

lemma collect_vmas_maple_tree:
  assumes "rd_u64 mem (tree + mt_ma_root (maple_tree (off_maple offs))) = Full entry"
    and t: "maple_at mem offs root h entry 0 (- 1) t" "h \<le> Suc MAX_MAPLE_DEPTH"
    and "length (leaves t) \<le> MAX_VMA_ITER" "sorted_wrt (\<lambda>a b. v_start a < v_start b) (leaves t)"
  shows "collect_vmas_maple mem offs root tree = Inr (leaves t)"
proof -
  have "adds (walk_maple_entry (Suc MAX_MAPLE_DEPTH) mem offs root entry 0 (- 1) []) [] (leaves t)"
  proof (cases "entry = 0")
    case True
    then show ?thesis using t(1) by (auto simp: adds_def dest: maple_at_none)
  next
    case False
    then show ?thesis using t assms(4) by (intro walk_adds_leaves) simp_all
  qed
  then obtain out where out: "walk_maple_entry (Suc MAX_MAPLE_DEPTH) mem offs root entry 0 (- 1) [] = Inr out"
    and m: "mset out = mset (leaves t)" by (auto simp: adds_def)
  have k: "distinct (map v_vma (leaves t))" "sorted (map vma_key (leaves t))" "inj_on vma_key (set (leaves t))"
    using sorted_starts_distinct [OF assms(5) maple_at_genuine [OF t(1)]] by blast+
  then have "sort_key vma_key out = leaves t"
    using m by (intro sort_key_inj_key_eq) (simp_all add: mset_eq_setD [OF m])
  then show ?thesis
    unfolding collect_vmas_maple_def assms(1) strict.simps rbind_simps out
    using k(1) by (simp add: dedup_by_key_id)
qed

text \<open>
  C5. When memory holds a maple tree of at most 65 levels whose areas are in address order, the
  walk collects exactly the areas at its leaves, in that order: through leaf, range, allocation-range
  and dense nodes, partly filled or full.
\<close>

theorem collect_vmas_maple_leaves:
  assumes "rd_u64 mem (tree + mt_ma_root (maple_tree (off_maple offs))) = Full entry"
    and "maple_at mem offs root h entry 0 (- 1) t" "h \<le> Suc MAX_MAPLE_DEPTH"
    and "length (leaves t) \<le> MAX_VMA_ITER" "sorted_wrt (\<lambda>a b. v_start a < v_start b) (leaves t)"
  shows "collect_vmas_maple mem offs root tree = Inr (leaves t)"
  using assms by (rule collect_vmas_maple_tree)

section \<open>The mmap list holds what the walk collects\<close>

inductive mmap_at ::
    "memview \<Rightarrow> linux_offsets \<Rightarrow> addr option \<Rightarrow> usize \<Rightarrow> addr \<Rightarrow> linux_vma_info list \<Rightarrow> bool"
  for mem offs root vm_next where
  nil: "mmap_at mem offs root vm_next NULL []"
| cons: "a \<noteq> NULL \<Longrightarrow> genuine mem offs root v \<Longrightarrow> v_vma v = a \<Longrightarrow>
    rd_addr mem (a + vm_next) = Full b \<Longrightarrow> b \<noteq> a \<Longrightarrow> mmap_at mem offs root vm_next b vs \<Longrightarrow>
    mmap_at mem offs root vm_next a (v # vs)"

inductive_cases mmap_at_NULL: "mmap_at mem offs root vm_next NULL vs"

lemma mmap_walk_list:
  "mmap_at mem offs root vm_next a vs \<Longrightarrow> length vs \<le> n \<Longrightarrow>
   mmap_walk n mem offs root vm_next a out = Inr (out @ vs)"
proof (induction arbitrary: n out rule: mmap_at.induct)
  case nil
  then show ?case by (cases n) simp_all
next
  case (cons a v b vs)
  then obtain m where m: "n = Suc m" "length vs \<le> m" by (cases n) auto
  show ?case
  proof (cases "b = NULL")
    case True
    then have "vs = []" using cons.hyps(6) by (auto elim: mmap_at_NULL)
    then show ?thesis using cons True m by (simp add: genuine_def Let_def)
  next
    case False
    then show ?thesis using cons m by (simp add: genuine_def Let_def)
  qed
qed

text \<open>
  On a kernel without the maple tree, the areas of an \<open>mmap\<close> list of at most
  \<open>MAX_VMA_ITER\<close> elements are collected in the order of the list.
\<close>

theorem collect_vmas_mm_list:
  assumes "mm_mm_mt (off_mm offs) = None" "mm_mmap (off_mm offs) = Some mmap"
    and "vma_vm_next (off_vma offs) = Some vm_next" "mm \<noteq> NULL"
    and "rd_addr mem (mm + mmap) = Full head" "mmap_at mem offs root vm_next head vs" "length vs \<le> MAX_VMA_ITER"
  shows "collect_vmas_mm mem offs root mm = Inr vs"
  using assms mmap_walk_list [OF assms(6,7), of "[]"]
  by (simp add: collect_vmas_mm_def collect_vmas_mmap_def Let_def)


section \<open>A sample process\<close>

text \<open>
  Two anonymous areas, in a leaf of a maple tree with a trailing gap and in an \<open>mmap\<close> list. The tree
  is at \<open>0x2000\<close>, its root node at \<open>0x5000\<close>; the list head is at \<open>0x3000\<close>, its links at offset 16.
\<close>

definition sample_vma_view :: memview where
  "sample_vma_view = empty_view
     \<lparr> rd_u64 := (\<lambda>a. case map_of
          [(0x2008, 0x500e), (0x5008, 0x401fff), (0x5010, 0x7fffff), (0x5018, - 1), (0x5078, 0),
           (0x5080, 0x10000), (0x5088, 0x10100), (0x5090, 0),
           (0x10000, 0x400000), (0x10008, 0x402000), (0x10020, 5),
           (0x10100, 0x600000), (0x10108, 0x603000), (0x10120, 3)] a of
            Some v \<Rightarrow> Full v | None \<Rightarrow> Fail (Connector 2)),
       rd_addr := (\<lambda>a. case map_of [(0x3000, 0x10000), (0x10010, 0x10100), (0x10110, 0)] a of
            Some v \<Rightarrow> Full v | None \<Rightarrow> Fail (Connector 2)),
       rd_u8 := (\<lambda>a. if a = 0x50f8 then Full 2 else Fail (Connector 2)) \<rparr>"

definition sample_area :: "addr \<Rightarrow> addr \<Rightarrow> addr \<Rightarrow> u64 \<Rightarrow> linux_vma_info" where
  "sample_area a s e f = \<lparr> v_vma = a, v_start = s, v_end = e, v_flags = f, v_file = NULL, v_path = [], v_name = [] \<rparr>"

definition sample_areas :: "linux_vma_info list" where
  "sample_areas = [sample_area 0x10000 0x400000 0x402000 5, sample_area 0x10100 0x600000 0x603000 3]"

lemma sample_genuine:
  "genuine sample_vma_view (pr_offsets sample_profile) None (sample_area 0x10000 0x400000 0x402000 5)"
  "genuine sample_vma_view (pr_offsets sample_profile) None (sample_area 0x10100 0x600000 0x603000 3)"
  by (simp_all add: genuine_def sample_area_def read_vma_info_def sample_vma_view_def sample_profile_def
      Let_def empty_view_def)

lemma all_less_3: "(\<forall>i < length [a, b, c]. P i) \<longleftrightarrow> P 0 \<and> P 1 \<and> P 2"
  by (auto simp: all_less_Suc numeral_2_eq_2)

lemma sample_maple_at:
  "maple_at sample_vma_view (pr_offsets sample_profile) None 2 0x500e 0 (- 1)
     (MNode [MVma (sample_areas ! 0), MVma (sample_areas ! 1), MEmpty])"
proof -
  let ?ps = "[(0x10000, 0x401fff), (0x10100, 0x7fffff), (0, - 1)] :: (u64 \<times> u64) list"
  have "maple_at sample_vma_view (pr_offsets sample_profile) None (Suc 1) 0x500e 0 (- 1)
     (MNode [MVma (sample_areas ! 0), MVma (sample_areas ! 1), MEmpty])"
  proof (rule maple_at.range64 [where k = Leaf64 and node = "0x5000" and ps = ?ps, OF _ _ _ refl])
    show "maple_type 0x500e = Some Leaf64"
      by (simp add: maple_type_def MAPLE_INTERNAL_NODE_def MAPLE_ROOT_NODE_def)
    show "(0x5000 :: u64) = 0x500e AND NOT MAPLE_NODE_MASK" by (simp add: MAPLE_NODE_MASK_def)
    show "range_layout sample_vma_view 0x5000 (mr_pivot (maple_range64 (off_maple (pr_offsets sample_profile))))
        (mr_pivot_count (maple_range64 (off_maple (pr_offsets sample_profile))))
        (mr_slot (maple_range64 (off_maple (pr_offsets sample_profile)))) (- 1) ?ps"
      unfolding range_layout_def all_less_3
      by (auto simp: sample_vma_view_def sample_profile_def less_Suc_eq)
    show "range64_end sample_vma_view 0x5000 (maple_range64 (off_maple (pr_offsets sample_profile))) (- 1) (length ?ps)"
      by (simp add: range64_end_def sample_vma_view_def sample_profile_def sat_sub_def)
    show "\<forall>i < length ?ps. maple_at sample_vma_view (pr_offsets sample_profile) None 1 (fst (?ps ! i))
        (lower 0 ?ps i) (snd (?ps ! i)) ([MVma (sample_areas ! 0), MVma (sample_areas ! 1), MEmpty] ! i)"
      unfolding all_less_3 One_nat_def
      by (auto simp: sample_areas_def maple_type_def MAPLE_INTERNAL_NODE_def MAPLE_ROOT_NODE_def
          sample_genuine sample_area_def [THEN arg_cong [where f = v_vma]]
          intro!: maple_at.area maple_at.nothing)
  qed simp_all
  then show ?thesis by (simp add: numeral_2_eq_2)
qed

lemma sample_leaves: "leaves (MNode [MVma (sample_areas ! 0), MVma (sample_areas ! 1), MEmpty]) = sample_areas"
  by (simp add: sample_areas_def)

lemma sample_areas_sorted: "sorted_wrt (\<lambda>a b. v_start a < v_start b) sample_areas"
  "length sample_areas \<le> MAX_VMA_ITER"
  by (simp_all add: sample_areas_def sample_area_def MAX_VMA_ITER_def)

lemma sample_root: "rd_u64 sample_vma_view (0x2000 + mt_ma_root (maple_tree (off_maple (pr_offsets sample_profile)))) = Full 0x500e"
  by (simp add: sample_vma_view_def sample_profile_def)

theorem collect_vmas_maple_leaves_witness:
  "collect_vmas_maple sample_vma_view (pr_offsets sample_profile) None 0x2000 = Inr sample_areas"
  using collect_vmas_maple_leaves [OF sample_root sample_maple_at] sample_areas_sorted
  unfolding sample_leaves by (simp add: MAX_MAPLE_DEPTH_def)

theorem collect_vmas_maple_sound_witness:
  "sorted_wrt (\<lambda>a b. vma_key a < vma_key b) sample_areas \<and> distinct (map v_vma sample_areas)"
proof -
  have "collect_vmas_maple sample_vma_view (pr_offsets sample_profile) None 0x2000 = Inr sample_areas"
    using collect_vmas_maple_tree [OF sample_root sample_maple_at] sample_areas_sorted
    unfolding sample_leaves by (simp add: MAX_MAPLE_DEPTH_def)
  from collect_vmas_maple_sound [OF this] show ?thesis by blast
qed

text \<open>The same process on a kernel with the list.\<close>

definition sample_list_offsets :: linux_offsets where
  "sample_list_offsets = (pr_offsets sample_profile)
     \<lparr> off_mm := (off_mm (pr_offsets sample_profile)) \<lparr> mm_mmap := Some 0, mm_mm_mt := None \<rparr>,
       off_vma := (off_vma (pr_offsets sample_profile)) \<lparr> vma_vm_next := Some 16 \<rparr> \<rparr>"

lemma sample_list_genuine:
  "genuine sample_vma_view sample_list_offsets None (sample_area 0x10000 0x400000 0x402000 5)"
  "genuine sample_vma_view sample_list_offsets None (sample_area 0x10100 0x600000 0x603000 3)"
  by (simp_all add: genuine_def sample_area_def read_vma_info_def sample_vma_view_def sample_profile_def
      sample_list_offsets_def Let_def empty_view_def)

lemma sample_mmap_at: "mmap_at sample_vma_view sample_list_offsets None 16 0x10000 sample_areas"
  unfolding sample_areas_def
  by (rule mmap_at.cons [where b = "0x10100"], simp, rule sample_list_genuine, simp add: sample_area_def,
      simp add: sample_vma_view_def, simp,
      rule mmap_at.cons [where b = 0], simp, rule sample_list_genuine, simp add: sample_area_def,
      simp add: sample_vma_view_def, simp, rule mmap_at.nil)

theorem collect_vmas_mm_list_witness:
  "collect_vmas_mm sample_vma_view sample_list_offsets None 0x3000 = Inr sample_areas"
  by (rule collect_vmas_mm_list [OF _ _ _ _ _ sample_mmap_at])
    (simp_all add: sample_list_offsets_def sample_vma_view_def sample_areas_sorted)

end
