(* ===== verification/Modules.thy ===== *)
theory Modules
  imports Vma
begin

text \<open>
  \<open>memflow-linux/src/process.rs\<close>, second part: the pure operations on collected areas. File-backed areas
  become module seeds, seeds of one file become modules, and areas become page-typed memory ranges.
  A callback of the caller is a function on a state of its own that says whether to go on.
\<close>

section \<open>Callbacks\<close>

type_synonym ('a, 's) callback = "'s \<Rightarrow> 'a \<Rightarrow> bool \<times> 's"

text \<open>Calling back on each item until it declines: what a loop that breaks does.\<close>

fun feed :: "('a, 's) callback \<Rightarrow> 's \<Rightarrow> 'a list \<Rightarrow> bool \<times> 's" where
  "feed cb s [] = (True, s)"
| "feed cb s (x # xs) = (case cb s x of (go, s') \<Rightarrow> if go then feed cb s' xs else (False, s'))"

text \<open>The callback that collects everything.\<close>

definition collect :: "('a, 'a list) callback" where
  "collect acc x = (True, acc @ [x])"

lemma feed_collect: "feed collect acc xs = (True, acc @ xs)"
  by (induction xs arbitrary: acc) (simp_all add: collect_def)

section \<open>Modules\<close>

definition MAX_MODULE_MERGE_GAP :: u64 where "MAX_MODULE_MERGE_GAP = mb 4"
definition ELF_MAGIC :: bytes where "ELF_MAGIC = [0x7f, 0x45, 0x4c, 0x46]"

record linux_module_entry =
  me_address :: addr
  me_base :: addr
  me_size :: u64
  me_file :: addr
  me_path :: string
  me_name :: string

record linux_module_seed =
  sd_start :: addr
  sd_end :: addr
  sd_file :: addr
  sd_path :: string
  sd_name :: string
  sd_has_elf_header :: bool

record module_info =
  mi_address :: addr
  mi_parent_process :: addr
  mi_base :: addr
  mi_size :: u64
  mi_name :: string
  mi_path :: string
  mi_arch :: arch_ident

definition to_module_info :: "linux_process_info \<Rightarrow> linux_module_entry \<Rightarrow> module_info" where
  "to_module_info p m =
     \<lparr> mi_address = me_address m, mi_parent_process = pi_address (lpi_base_info p), mi_base = me_base m,
       mi_size = me_size m, mi_name = me_name m, mi_path = me_path m,
       mi_arch = pi_proc_arch (lpi_base_info p) \<rparr>"

definition is_elf_image :: "memview \<Rightarrow> addr \<Rightarrow> bool" where
  "is_elf_image mem base =
     (case strict (rd_raw mem base 4) of Inr magic \<Rightarrow> magic = ELF_MAGIC | Inl _ \<Rightarrow> False)"

definition seed_of :: "memview \<Rightarrow> linux_vma_info \<Rightarrow> linux_module_seed" where
  "seed_of mem v =
     \<lparr> sd_start = v_start v, sd_end = v_end v, sd_file = v_file v, sd_path = v_path v,
       sd_name = v_name v, sd_has_elf_header = is_elf_image mem (v_start v) \<rparr>"

definition module_seeds :: "memview \<Rightarrow> linux_vma_info list \<Rightarrow> linux_module_seed list" where
  "module_seeds mem vmas =
     map (seed_of mem) (filter (\<lambda>v. sat_sub (v_end v) (v_start v) \<noteq> 0) (filter (\<lambda>v. v_file v \<noteq> NULL) vmas))"

definition module_end :: "linux_module_entry \<Rightarrow> u64" where
  "module_end m = sat_add (me_base m) (me_size m)"

definition can_merge :: "linux_module_seed \<Rightarrow> linux_module_entry \<Rightarrow> bool" where
  "can_merge seed m =
     (if me_file m \<noteq> sd_file seed then False
      else sd_start seed \<le> sat_add (module_end m) MAX_MODULE_MERGE_GAP)"

definition merge_seed :: "linux_module_seed \<Rightarrow> linux_module_entry \<Rightarrow> linux_module_entry" where
  "merge_seed seed m =
     (let start = min (me_base m) (sd_start seed);
          fin = max (module_end m) (sd_end seed);
          m1 = m \<lparr> me_address := start, me_base := start, me_size := sat_sub fin start \<rparr>;
          m2 = (if me_path m1 = [] \<and> sd_path seed \<noteq> [] then m1 \<lparr> me_path := sd_path seed \<rparr> else m1);
          m3 = (if me_name m2 = [] \<and> sd_name seed \<noteq> [] then m2 \<lparr> me_name := sd_name seed \<rparr> else m2)
      in if sd_has_elf_header seed then m3 \<lparr> me_address := me_base m3 \<rparr> else m3)"

definition add_seed :: "linux_module_entry list \<Rightarrow> linux_module_seed \<Rightarrow> linux_module_entry list" where
  "add_seed modules seed =
     (let size = sat_sub (sd_end seed) (sd_start seed) in
      if size = 0 then modules
      else case rposition (can_merge seed) modules of
          Some index \<Rightarrow> modules[index := merge_seed seed (modules ! index)]
        | None \<Rightarrow>
            if \<not> sd_has_elf_header seed then modules
            else modules @ [\<lparr> me_address = sd_start seed, me_base = sd_start seed, me_size = size,
                              me_file = sd_file seed, me_path = sd_path seed, me_name = sd_name seed \<rparr>])"

definition seed_key :: "linux_module_seed \<Rightarrow> u64 \<times> u64 \<times> u64" where
  "seed_key s = (sd_file s, sd_start s, sd_end s)"

definition aggregate_module_seeds :: "linux_module_seed list \<Rightarrow> linux_module_entry list" where
  "aggregate_module_seeds seeds =
     sort_key me_base (foldl add_seed [] (sort_key seed_key seeds))"

section \<open>Memory ranges\<close>

text \<open>memflow's \<open>PageType\<close>: the flags are built by its methods.\<close>

record 'pt page_ops =
  pt_empty :: 'pt
  pt_unknown :: 'pt
  pt_write :: "bool \<Rightarrow> 'pt \<Rightarrow> 'pt"
  pt_noexec :: "bool \<Rightarrow> 'pt \<Rightarrow> 'pt"

definition linux_vma_page_type :: "'pt page_ops \<Rightarrow> u64 \<Rightarrow> 'pt" where
  "linux_vma_page_type ops flags =
     (let page_type =
            (if flags AND VM_WRITE \<noteq> 0 then pt_write ops True (pt_empty ops)
             else if flags AND VM_READ \<noteq> 0 then pt_write ops False (pt_empty ops)
             else pt_unknown ops)
      in pt_noexec ops (flags AND VM_EXEC = 0) page_type)"

definition vm_flags_to_page_type :: "'pt page_ops \<Rightarrow> u64 \<Rightarrow> 'pt option" where
  "vm_flags_to_page_type ops flags = Some (linux_vma_page_type ops flags)"

type_synonym 'pt range = "addr \<times> u64 \<times> 'pt"

text \<open>The \<open>imem\<close> gap is held as its 64 bits, \<open>sint\<close> its value.\<close>

fun emit_loop ::
    "'pt page_ops \<Rightarrow> u64 \<Rightarrow> addr \<Rightarrow> addr \<Rightarrow> ('pt range, 's) callback \<Rightarrow> linux_vma_info list \<Rightarrow>
     'pt range option \<Rightarrow> 's \<Rightarrow> 's" where
  "emit_loop ops gap start fin cb [] pending s =
     (case pending of Some p \<Rightarrow> snd (cb s p) | None \<Rightarrow> s)"
| "emit_loop ops gap start fin cb (v # vs) pending s =
     (case vm_flags_to_page_type ops (v_flags v) of
        None \<Rightarrow> emit_loop ops gap start fin cb vs pending s
      | Some page_type \<Rightarrow>
          if v_end v \<le> start \<or> fin \<le> v_start v then emit_loop ops gap start fin cb vs pending s
          else
            let range_start = (if v_start v < start then start else v_start v);
                range_end = (if fin < v_end v then fin else v_end v) in
            if range_end \<le> range_start then emit_loop ops gap start fin cb vs pending s
            else
              let range_size = sat_sub range_end range_start in
              case pending of
                None \<Rightarrow> emit_loop ops gap start fin cb vs (Some (range_start, range_size, page_type)) s
              | Some (p_start, p_size, p_type) \<Rightarrow>
                  let p_end = sat_add p_start p_size in
                  if 0 \<le> sint gap \<and> p_type = page_type \<and> range_start \<le> sat_add p_end gap
                  then emit_loop ops gap start fin cb vs (Some (p_start, sat_sub range_end p_start, p_type)) s
                  else case cb s (p_start, p_size, p_type) of
                      (go, s') \<Rightarrow>
                        if go then emit_loop ops gap start fin cb vs (Some (range_start, range_size, page_type)) s'
                        else s')"

definition emit_vma_ranges ::
    "'pt page_ops \<Rightarrow> linux_vma_info list \<Rightarrow> u64 \<Rightarrow> addr \<Rightarrow> addr \<Rightarrow> ('pt range, 's) callback \<Rightarrow> 's \<Rightarrow> 's" where
  "emit_vma_ranges ops vmas gap start fin cb s = emit_loop ops gap start fin cb vmas None s"


section \<open>Aggregation\<close>

lemma sat_add_sat_sub: "b \<le> f \<Longrightarrow> sat_add b (sat_sub f (b :: 'a::len word)) = f"
proof -
  assume "b \<le> f"
  moreover have "unat f \<le> 2 ^ LENGTH('a) - 1" using unsigned_less [of f, where 'a = nat] by linarith
  ultimately show ?thesis by (simp add: word_unat_eq_iff unat_sat_add unat_sat_sub word_le_nat_alt)
qed

lemma min_eq_left: "a \<le> b \<Longrightarrow> min a b = (a :: 'a :: linorder)"
  by (simp add: min_def)

lemma le_module_end: "me_base m \<le> module_end m"
  by (simp add: module_end_def le_sat_add)

lemma merge_seed_facts:
  assumes "me_base m \<le> sd_start x"
  shows "me_base (merge_seed x m) = me_base m" "me_address (merge_seed x m) = me_base m"
    "me_file (merge_seed x m) = me_file m"
    "me_size (merge_seed x m) = sat_sub (max (module_end m) (sd_end x)) (me_base m)"
    "module_end (merge_seed x m) = max (module_end m) (sd_end x)"
proof -
  have "me_base m \<le> max (module_end m) (sd_end x)" using le_module_end by (simp add: le_max_iff_disj)
  then show "me_base (merge_seed x m) = me_base m" "me_address (merge_seed x m) = me_base m"
    "me_file (merge_seed x m) = me_file m"
    "me_size (merge_seed x m) = sat_sub (max (module_end m) (sd_end x)) (me_base m)"
    "module_end (merge_seed x m) = max (module_end m) (sd_end x)"
    using assms by (simp_all add: merge_seed_def Let_def min_eq_left module_end_def sat_add_sat_sub)
qed

definition holds_seed :: "linux_module_entry \<Rightarrow> linux_module_seed \<Rightarrow> bool" where
  "holds_seed m s \<longleftrightarrow> me_file m = sd_file s \<and> me_base m \<le> sd_start s \<and> sd_end s \<le> module_end m"

text \<open>A module starts where a header of its file is and ends where an area it holds ends.\<close>

definition from_seeds :: "linux_module_seed set \<Rightarrow> linux_module_entry \<Rightarrow> bool" where
  "from_seeds S m \<longleftrightarrow> me_address m = me_base m \<and> me_base m < module_end m \<and>
     me_size m = module_end m - me_base m \<and>
     (\<exists>s \<in> S. sd_has_elf_header s \<and> sd_start s < sd_end s \<and> sd_file s = me_file m \<and> sd_start s = me_base m) \<and>
     (\<exists>s \<in> S. holds_seed m s \<and> sd_start s < sd_end s \<and> sd_end s = module_end m)"

definition separate :: "linux_module_entry \<Rightarrow> linux_module_entry \<Rightarrow> bool" where
  "separate a b \<longleftrightarrow> (me_file a = me_file b \<longrightarrow> sat_add (module_end a) MAX_MODULE_MERGE_GAP < me_base b)"

text \<open>
  The areas that no module gets: without a header, and more than the gap past the end of every module of the file that
  begins before.
\<close>

definition left_out :: "linux_module_entry list \<Rightarrow> linux_module_seed \<Rightarrow> bool" where
  "left_out ms s \<longleftrightarrow> \<not> sd_has_elf_header s \<and>
     (\<forall>m \<in> set ms. me_file m = sd_file s \<and> me_base m \<le> sd_start s \<longrightarrow>
        sat_add (module_end m) MAX_MODULE_MERGE_GAP < sd_start s)"

definition placed :: "linux_module_entry list \<Rightarrow> linux_module_seed \<Rightarrow> bool" where
  "placed ms s \<longleftrightarrow> (\<exists>m \<in> set ms. holds_seed m s) \<or> left_out ms s"

text \<open>Every address of a module is in an area the module holds, or less than the gap past one.\<close>

definition gaps_filled :: "linux_module_seed set \<Rightarrow> linux_module_entry \<Rightarrow> bool" where
  "gaps_filled S m \<longleftrightarrow> (\<forall>a. me_base m \<le> a \<and> a < module_end m \<longrightarrow>
     (\<exists>s \<in> S. holds_seed m s \<and> sd_start s < sd_end s \<and> sd_start s \<le> a \<and>
        a < sat_add (sd_end s) MAX_MODULE_MERGE_GAP))"

text \<open>A text of a module is that of an area it holds, and empty only where the areas have none.\<close>

definition text_of :: "(linux_module_seed \<Rightarrow> string) \<Rightarrow> linux_module_seed set \<Rightarrow> linux_module_entry \<Rightarrow> string \<Rightarrow> bool" where
  "text_of get S m x \<longleftrightarrow>
     (if x = [] then \<forall>s \<in> S. holds_seed m s \<and> sd_start s < sd_end s \<and> (sd_has_elf_header s \<or> me_base m < sd_start s) \<longrightarrow> get s = []
      else \<exists>s \<in> S. holds_seed m s \<and> sd_start s < sd_end s \<and> get s = x)"

definition module_ok :: "linux_module_seed set \<Rightarrow> linux_module_entry \<Rightarrow> bool" where
  "module_ok S m \<longleftrightarrow> from_seeds S m \<and> gaps_filled S m \<and> text_of sd_path S m (me_path m) \<and> text_of sd_name S m (me_name m)"

definition aggregated :: "linux_module_seed set \<Rightarrow> linux_module_entry list \<Rightarrow> bool" where
  "aggregated S ms \<longleftrightarrow> (\<forall>m \<in> set ms. module_ok S m) \<and>
     (\<forall>s \<in> S. sd_start s < sd_end s \<longrightarrow> placed ms s) \<and> sorted_wrt separate ms"

lemma sat_sub_zero_iff: "sat_sub a (b :: 'a::len word) = 0 \<longleftrightarrow> a \<le> b"
  by (auto simp: sat_sub_def)

lemma sat_add_mono_left: "a \<le> c \<Longrightarrow> sat_add a b \<le> sat_add c (b :: 'a::len word)"
  by (simp add: word_le_nat_alt unat_sat_add)

lemma from_seeds_mono: "from_seeds S m \<Longrightarrow> S \<subseteq> T \<Longrightarrow> from_seeds T m"
  unfolding from_seeds_def by blast

lemma from_seeds_le:
  assumes "from_seeds S m" "\<forall>s \<in> S. seed_key s \<le> seed_key x" "me_file m = sd_file x"
  shows "me_base m \<le> sd_start x"
proof -
  obtain s where "s \<in> S" "sd_file s = sd_file x" "sd_start s = me_base m"
    using assms(1,3) by (auto simp: from_seeds_def)
  then show ?thesis using assms(2) by (force simp: seed_key_def less_le)
qed

lemma from_seeds_merge:
  assumes "from_seeds S m" "me_base m \<le> sd_start x" "me_file m = sd_file x" "sd_start x < sd_end x"
  shows "from_seeds (insert x S) (merge_seed x m)"
proof -
  note f = merge_seed_facts [OF assms(2)]
  have lt: "me_base m < max (module_end m) (sd_end x)"
    using assms(1) by (simp add: from_seeds_def less_max_iff_disj)
  have e: "\<exists>s \<in> insert x S. holds_seed (merge_seed x m) s \<and> sd_start s < sd_end s \<and>
      sd_end s = max (module_end m) (sd_end x)"
    using assms by (auto simp: from_seeds_def holds_seed_def f max_def)
  have h: "\<exists>s \<in> insert x S. sd_has_elf_header s \<and> sd_start s < sd_end s \<and> sd_file s = me_file m \<and>
      sd_start s = me_base m"
    using assms(1) by (auto simp: from_seeds_def)
  show ?thesis
    unfolding from_seeds_def f(1,2,3,5) using lt less_imp_le [OF lt] e h by (simp add: f(4) sat_sub_def)
qed

lemma separate_distinct:
  assumes "sorted_wrt separate ms"
  shows "distinct ms"
proof -
  have "\<not> separate a a" for a
  proof
    assume "separate a a"
    then have "sat_add (module_end a) MAX_MODULE_MERGE_GAP < me_base a" by (simp add: separate_def)
    with le_module_end [of a] le_sat_add [of "module_end a" MAX_MODULE_MERGE_GAP] show False by simp
  qed
  then show ?thesis
    using assms unfolding distinct_conv_nth sorted_wrt_iff_nth_less by (metis nat_neq_iff)
qed

lemma module_ok_empty:
  assumes "module_ok S m" "\<not> sd_start x < sd_end x"
  shows "module_ok (insert x S) m"
  using assms from_seeds_mono [of S m "insert x S"] by (auto simp: module_ok_def gaps_filled_def text_of_def)

text \<open>A module is as before after an area it does not get.\<close>

lemma module_ok_other:
  assumes "module_ok S m" "holds_seed m x \<Longrightarrow> \<not> sd_has_elf_header x \<and> sd_start x \<le> me_base m"
  shows "module_ok (insert x S) m"
  using assms from_seeds_mono [of S m "insert x S"]
  by (auto simp: module_ok_def gaps_filled_def text_of_def split: if_splits)

text \<open>Areas come in the order of their keys: of one file, by their starts.\<close>

lemma key_le: "seed_key s \<le> seed_key x \<Longrightarrow> sd_file s = sd_file x \<Longrightarrow> sd_start s \<le> sd_start x"
  by (force simp: seed_key_def less_le)

lemma key_le_end: "seed_key s \<le> seed_key x \<Longrightarrow> sd_file s = sd_file x \<Longrightarrow> sd_start s = sd_start x \<Longrightarrow> sd_end s \<le> sd_end x"
  by (force simp: seed_key_def less_le)

lemma text_of_merge:
  assumes old: "text_of get S m t" and le: "me_base m \<le> sd_start x" and same: "me_file m = sd_file x"
    and x: "sd_start x < sd_end x"
    and held: "\<And>s. s \<in> S \<Longrightarrow> sd_start s < sd_end s \<Longrightarrow> holds_seed (merge_seed x m) s \<Longrightarrow>
      sd_has_elf_header s \<or> me_base m < sd_start s \<Longrightarrow> holds_seed m s"
  shows "text_of get (insert x S) (merge_seed x m) (if t = [] \<and> get x \<noteq> [] then get x else t)"
proof -
  note f = merge_seed_facts [OF le]
  have mono: "holds_seed (merge_seed x m) s" if "holds_seed m s" for s
    using that by (auto simp: holds_seed_def f le_max_iff_disj)
  have new: "holds_seed (merge_seed x m) x" using le same by (simp add: holds_seed_def f)
  show ?thesis
  proof (cases "t = []")
    case False
    then show ?thesis using old mono by (auto simp: text_of_def)
  next
    case True
    then show ?thesis using old new x held by (auto simp: text_of_def f(1))
  qed
qed

lemma merge_seed_texts:
  "me_path (merge_seed x m) = (if me_path m = [] \<and> sd_path x \<noteq> [] then sd_path x else me_path m)"
  "me_name (merge_seed x m) = (if me_name m = [] \<and> sd_name x \<noteq> [] then sd_name x else me_name m)"
  by (simp_all add: merge_seed_def Let_def)

lemma gaps_filled_merge:
  assumes old: "gaps_filled S m" and fs: "from_seeds S m" and le: "me_base m \<le> sd_start x"
    and same: "me_file m = sd_file x" and x: "sd_start x < sd_end x"
    and near: "sd_start x \<le> sat_add (module_end m) MAX_MODULE_MERGE_GAP"
  shows "gaps_filled (insert x S) (merge_seed x m)"
  unfolding gaps_filled_def merge_seed_facts [OF le]
proof (intro allI impI)
  note f = merge_seed_facts [OF le]
  have mono: "holds_seed (merge_seed x m) s" if "holds_seed m s" for s
    using that by (auto simp: holds_seed_def f le_max_iff_disj)
  have new: "holds_seed (merge_seed x m) x" using le same by (simp add: holds_seed_def f)
  fix a assume a: "me_base m \<le> a \<and> a < max (module_end m) (sd_end x)"
  let ?P = "\<lambda>s. holds_seed (merge_seed x m) s \<and> sd_start s < sd_end s \<and> sd_start s \<le> a \<and>
      a < sat_add (sd_end s) MAX_MODULE_MERGE_GAP"
  consider "a < module_end m" | "module_end m \<le> a" "a < sd_start x" | "sd_start x \<le> a" "a < sd_end x"
    using a unfolding less_max_iff_disj by (metis not_le)
  then show "\<exists>s \<in> insert x S. ?P s"
  proof cases
    case 1
    then show ?thesis using old a mono unfolding gaps_filled_def by blast
  next
    case 2
    obtain s where s: "s \<in> S" "holds_seed m s" "sd_start s < sd_end s" "sd_end s = module_end m"
      using fs by (auto simp: from_seeds_def)
    with 2 near have "?P s" using mono by auto
    then show ?thesis using s(1) by blast
  next
    case 3
    have "sd_end x \<le> sat_add (sd_end x) MAX_MODULE_MERGE_GAP" by (rule le_sat_add)
    then show ?thesis using 3 new x by auto
  qed
qed

lemma add_seed_skip:
  assumes agg: "aggregated S ms" and skip: "sd_start x < sd_end x \<Longrightarrow> \<not> sd_has_elf_header x"
    and none: "sd_start x < sd_end x \<Longrightarrow> rposition (can_merge x) ms = None"
  shows "aggregated (insert x S) ms"
proof (cases "sd_start x < sd_end x")
  case False
  then show ?thesis using agg module_ok_empty [of S _ x] by (auto simp: aggregated_def)
next
  case True
  have far: "sat_add (module_end n) MAX_MODULE_MERGE_GAP < sd_start x" if "n \<in> set ms" "me_file n = sd_file x" for n
    using none [OF True] that by (auto simp: rposition_None_iff can_merge_def not_le)
  have "\<not> holds_seed n x" if "n \<in> set ms" for n
    using far [OF that] le_sat_add [of "module_end n" MAX_MODULE_MERGE_GAP] True by (auto simp: holds_seed_def)
  then have "module_ok (insert x S) n" if "n \<in> set ms" for n
    using agg that module_ok_other [of S n x] by (auto simp: aggregated_def)
  moreover have "placed ms x" using far skip [OF True] by (auto simp: placed_def left_out_def)
  ultimately show ?thesis using agg by (auto simp: aggregated_def)
qed

lemma new_module_ok:
  assumes agg: "aggregated S ms" and ord: "\<forall>s \<in> S. seed_key s \<le> seed_key x"
    and x: "sd_has_elf_header x" "sd_start x < sd_end x"
    and m: "me_address m = sd_start x" "me_base m = sd_start x" "me_size m = sat_sub (sd_end x) (sd_start x)"
      "me_file m = sd_file x" "me_path m = sd_path x" "me_name m = sd_name x"
    and far: "\<And>n. n \<in> set ms \<Longrightarrow> me_file n = sd_file x \<Longrightarrow> sat_add (module_end n) MAX_MODULE_MERGE_GAP < sd_start x"
  shows "module_ok (insert x S) m"
proof -
  have e: "module_end m = sd_end x" using m x(2) by (simp add: module_end_def sat_add_sat_sub)
  have h: "holds_seed m x" using m e by (simp add: holds_seed_def)
  have "from_seeds (insert x S) m"
    using m x e h by (auto simp: from_seeds_def sat_sub_def)
  moreover have "gaps_filled (insert x S) m"
    unfolding gaps_filled_def
  proof (intro allI impI bexI [of _ x] conjI)
    fix a assume a: "me_base m \<le> a \<and> a < module_end m"
    then show "sd_start x \<le> a" using m by simp
    show "a < sat_add (sd_end x) MAX_MODULE_MERGE_GAP"
      using a e le_sat_add [of "sd_end x" MAX_MODULE_MERGE_GAP] by (metis order.strict_trans2)
  qed (use h x in simp_all)
  moreover have "text_of get (insert x S) m (get x)" for get
  proof -
    have "\<not> (sd_has_elf_header s \<or> me_base m < sd_start s)" if s: "s \<in> S" "holds_seed m s" "sd_start s < sd_end s" for s
    proof
      assume hd: "sd_has_elf_header s \<or> me_base m < sd_start s"
      have same_file: "sd_file s = sd_file x" and ge: "sd_start x \<le> sd_start s" using s(2) m by (simp_all add: holds_seed_def)
      have "sd_start s \<le> sd_start x" using ord s(1) same_file by (intro key_le) auto
      with ge hd m have "sd_start s = sd_start x" "sd_has_elf_header s" by simp_all
      moreover from this agg s obtain n where n: "n \<in> set ms" "holds_seed n s"
        by (auto simp: aggregated_def placed_def left_out_def)
      moreover have "me_file n = sd_file x" using n same_file by (simp add: holds_seed_def)
      ultimately show False
        using far [of n] le_sat_add [of "module_end n" MAX_MODULE_MERGE_GAP] s(3) by (auto simp: holds_seed_def)
    qed
    then show ?thesis using h x by (auto simp: text_of_def)
  qed
  ultimately show ?thesis using m by (simp add: module_ok_def)
qed

lemma add_seed_new:
  assumes agg: "aggregated S ms" and ord: "\<forall>s \<in> S. seed_key s \<le> seed_key x"
    and x: "sd_has_elf_header x" "sd_start x < sd_end x"
    and m: "me_address m = sd_start x" "me_base m = sd_start x" "me_size m = sat_sub (sd_end x) (sd_start x)"
      "me_file m = sd_file x" "me_path m = sd_path x" "me_name m = sd_name x"
    and none: "rposition (can_merge x) ms = None"
  shows "aggregated (insert x S) (ms @ [m])"
proof -
  have e: "module_end m = sd_end x" using m x(2) by (simp add: module_end_def sat_add_sat_sub)
  have far: "sat_add (module_end n) MAX_MODULE_MERGE_GAP < sd_start x" if "n \<in> set ms" "me_file n = sd_file x" for n
    using none that by (auto simp: rposition_None_iff can_merge_def not_le)
  have "\<not> holds_seed n x" if "n \<in> set ms" for n
    using far [OF that] le_sat_add [of "module_end n" MAX_MODULE_MERGE_GAP] x(2) by (auto simp: holds_seed_def)
  then have "module_ok (insert x S) n" if "n \<in> set ms" for n
    using agg that module_ok_other [of S n x] by (auto simp: aggregated_def)
  moreover have "module_ok (insert x S) m" by (rule new_module_ok [OF agg ord x m far])
  moreover have "separate n m" if "n \<in> set ms" for n
    using far [OF that] m by (simp add: separate_def)
  moreover have "placed (ms @ [m]) x" using m e by (auto simp: placed_def holds_seed_def)
  moreover have "placed (ms @ [m]) s" if s: "s \<in> S" "sd_start s < sd_end s" for s
  proof (cases "sd_file s = sd_file x \<and> sd_start s = sd_start x")
    case True
    then have "holds_seed m s" using ord s m e by (simp add: holds_seed_def key_le_end)
    then show ?thesis by (auto simp: placed_def)
  next
    case False
    then have "\<not> (me_file m = sd_file s \<and> me_base m \<le> sd_start s)"
      using key_le [of s x] ord s(1) m by auto
    then show ?thesis using agg s by (auto simp: aggregated_def placed_def left_out_def)
  qed
  ultimately show ?thesis
    using agg by (auto simp: aggregated_def sorted_wrt_append)
qed

lemma add_seed_merge:
  assumes agg: "aggregated S ms" and ord: "\<forall>s \<in> S. seed_key s \<le> seed_key x" and x: "sd_start x < sd_end x"
    and i: "rposition (can_merge x) ms = Some i"
  shows "aggregated (insert x S) (ms[i := merge_seed x (ms ! i)])"
proof -
  let ?m = "ms ! i" and ?m' = "merge_seed x (ms ! i)"
  have il: "i < length ms" "can_merge x ?m" using rposition_Some [OF i] by simp_all
  then have same: "me_file ?m = sd_file x" and near: "sd_start x \<le> sat_add (module_end ?m) MAX_MODULE_MERGE_GAP"
    by (simp_all add: can_merge_def split: if_splits)
  have ok: "module_ok S n" if "n \<in> set ms" for n using agg that by (simp add: aggregated_def)
  then have fs: "from_seeds S n" if "n \<in> set ms" for n using that by (simp add: module_ok_def)
  have le: "me_base ?m \<le> sd_start x" using from_seeds_le [OF fs ord same] il by simp
  note f = merge_seed_facts [OF le]
  have last: "me_file (ms ! j) \<noteq> sd_file x" if "i < j" "j < length ms" for j
  proof
    assume "me_file (ms ! j) = sd_file x"
    then have "me_base (ms ! j) \<le> sd_start x" using from_seeds_le [OF fs ord] that by simp
    moreover have "separate ?m (ms ! j)"
      using agg that by (simp add: aggregated_def sorted_wrt_iff_nth_less)
    ultimately show False
      using near same \<open>me_file (ms ! j) = sd_file x\<close> by (simp add: separate_def)
  qed
  have sep: "sorted_wrt separate (ms[i := ?m'])"
    unfolding sorted_wrt_iff_nth_less
  proof (intro allI impI)
    fix j k assume jk: "j < k" "k < length (ms[i := ?m'])"
    have old: "separate (ms ! j) (ms ! k)"
      using agg jk by (simp add: aggregated_def sorted_wrt_iff_nth_less)
    show "separate (ms[i := ?m'] ! j) (ms[i := ?m'] ! k)"
    proof (cases "j = i")
      case True
      then show ?thesis using last [of k] jk same by (simp add: separate_def f)
    next
      case False
      then show ?thesis using old jk by (cases "k = i") (simp_all add: separate_def f)
    qed
  qed
  text \<open>Another module of the file ends well before this one begins.\<close>
  have before: "n = ?m \<or> sat_add (module_end n) MAX_MODULE_MERGE_GAP < me_base ?m"
    if n: "n \<in> set ms" "me_file n = sd_file x" for n
  proof -
    obtain j where j: "j < length ms" "n = ms ! j" using n by (metis in_set_conv_nth)
    then have "j \<le> i" using last [of j] n by (metis not_le_imp_less)
    then show ?thesis
      using agg j il n same by (auto simp: aggregated_def sorted_wrt_iff_nth_less separate_def le_less)
  qed
  have others: "module_ok (insert x S) n" if n: "n \<in> set ms" "n \<noteq> ?m" for n
  proof (rule module_ok_other [OF ok [OF n(1)]])
    assume "holds_seed n x"
    then show "\<not> sd_has_elf_header x \<and> sd_start x \<le> me_base n"
      using before [OF n(1)] n(2) le x le_sat_add [of "module_end n" MAX_MODULE_MERGE_GAP] by (auto simp: holds_seed_def)
  qed
  have held: "holds_seed ?m s" if s: "s \<in> S" "sd_start s < sd_end s" "holds_seed ?m' s"
      "sd_has_elf_header s \<or> me_base ?m < sd_start s" for s
  proof -
    have same_file: "sd_file s = sd_file x" and ge: "me_base ?m \<le> sd_start s" using s(3) same by (simp_all add: holds_seed_def f)
    have "sd_start s \<le> sd_start x" using ord s(1) same_file by (intro key_le) auto
    with near have "\<not> left_out ms s" using il same same_file ge by (auto simp: left_out_def not_less intro!: bexI [of _ ?m])
    then obtain n where n: "n \<in> set ms" "holds_seed n s" using agg s by (auto simp: aggregated_def placed_def)
    then show ?thesis
      using before [of n] same_file ge s(2) le_sat_add [of "module_end n" MAX_MODULE_MERGE_GAP] by (auto simp: holds_seed_def)
  qed
  have mok: "module_ok S ?m" using ok il by simp
  have merged: "module_ok (insert x S) ?m'"
    using mok from_seeds_merge [OF _ le same x] gaps_filled_merge [OF _ _ le same x near] text_of_merge [OF _ le same x held]
    by (simp only: module_ok_def merge_seed_texts)
  have all: "module_ok (insert x S) n" if "n \<in> set (ms[i := ?m'])" for n
  proof (cases "n = ?m'")
    case False
    have "distinct ms" by (rule separate_distinct) (use agg in \<open>simp add: aggregated_def\<close>)
    then have "set (ms[i := ?m']) = insert ?m' (set ms - {?m})" using il by (simp add: set_update_distinct)
    then show ?thesis using others that False by auto
  qed (use merged in simp)
  have "placed (ms[i := ?m']) s" if s: "s \<in> S" "sd_start s < sd_end s" for s
  proof -
    consider n where "n \<in> set ms" "holds_seed n s" | "left_out ms s" using agg s by (auto simp: aggregated_def placed_def)
    then show ?thesis
    proof cases
      case 1
      show ?thesis
      proof (cases "n = ?m")
        case True
        then have "holds_seed ?m' s" using 1 by (auto simp: holds_seed_def f le_max_iff_disj)
        then show ?thesis unfolding placed_def using il by (meson set_update_memI)
      next
        case False
        then obtain j where "j < length ms" "n = ms ! j" "j \<noteq> i" using 1 by (metis in_set_conv_nth)
        then have "n \<in> set (ms[i := ?m'])" by (metis length_list_update nth_list_update_neq nth_mem)
        then show ?thesis unfolding placed_def using 1 by blast
      qed
    next
      case 2
      have "sd_start s \<le> sd_start x" if "sd_file s = sd_file x" using ord s(1) that by (intro key_le) auto
      with near 2 il same have "\<not> (me_file ?m = sd_file s \<and> me_base ?m \<le> sd_start s)"
        by (force simp: left_out_def)
      then have "left_out (ms[i := ?m']) s"
        using 2 set_update_subset_insert [of ms i ?m'] by (auto simp: left_out_def f)
      then show ?thesis by (simp add: placed_def)
    qed
  qed
  moreover have "placed (ms[i := ?m']) x"
    unfolding placed_def using le same il by (auto simp: holds_seed_def f intro!: disjI1 bexI [OF _ set_update_memI])
  ultimately show ?thesis using all sep by (auto simp: aggregated_def)
qed

lemma add_seed_aggregated:
  assumes "aggregated S ms" "\<forall>s \<in> S. seed_key s \<le> seed_key x"
  shows "aggregated (insert x S) (add_seed ms x)"
proof (cases "rposition (can_merge x) ms")
  case None
  then show ?thesis
    using add_seed_skip [OF assms(1), of x] add_seed_new [OF assms _ _ _ _ _ _ _ _ None]
    by (auto simp: add_seed_def Let_def sat_sub_zero_iff not_le)
next
  case (Some i)
  then show ?thesis
    using add_seed_skip [OF assms(1), of x] add_seed_merge [OF assms _ Some]
    by (cases "sd_start x < sd_end x") (auto simp: add_seed_def Let_def sat_sub_zero_iff not_le)
qed

lemma foldl_add_seed:
  "aggregated S ms \<Longrightarrow> \<forall>s \<in> S. \<forall>x \<in> set xs. seed_key s \<le> seed_key x \<Longrightarrow> sorted (map seed_key xs) \<Longrightarrow>
   aggregated (S \<union> set xs) (foldl add_seed ms xs)"
proof (induction xs arbitrary: S ms)
  case (Cons x xs)
  then have "aggregated (insert x S \<union> set xs) (foldl add_seed (add_seed ms x) xs)"
    by (intro Cons.IH add_seed_aggregated) auto
  then show ?case by simp
qed simp

lemma aggregate_aggregated: "aggregated (set seeds) (foldl add_seed [] (sort_key seed_key seeds))"
  using foldl_add_seed [of "{}" "[]" "sort_key seed_key seeds"] by (simp add: aggregated_def)


text \<open>
  C22. Whatever the areas of files, a nonempty one is in a module of its file, unless it has no ELF header and lies more than
  \<open>MAX_MODULE_MERGE_GAP\<close> past the end of every module of its file that begins before it. A module starts at an area of
  its file that has an ELF header, ends where an area it holds ends, and bridges no gap longer than that between areas it
  holds; two modules of one file are further apart than that. Its path and its name are those of an area it holds,
  and empty only where no area it took up has one. The modules come in the order of their bases, each once.
\<close>

theorem aggregate_module_seeds_sound:
  "let ms = aggregate_module_seeds seeds in
     sorted (map me_base ms) \<and> distinct ms \<and>
     list_all (from_seeds (set seeds)) ms \<and>
     list_all (placed ms) (filter (\<lambda>s. sd_start s < sd_end s) seeds) \<and>
     list_all (gaps_filled (set seeds)) ms \<and>
     list_all (\<lambda>m. text_of sd_path (set seeds) m (me_path m) \<and> text_of sd_name (set seeds) m (me_name m)) ms \<and>
     list_all (\<lambda>a. list_all (\<lambda>b. a = b \<or> separate a b \<or> separate b a) ms) ms"
proof -
  let ?us = "foldl add_seed [] (sort_key seed_key seeds)"
  have agg: "aggregated (set seeds) ?us" by (rule aggregate_aggregated)
  then have sep: "sorted_wrt separate ?us" by (simp add: aggregated_def)
  then have "a = b \<or> separate a b \<or> separate b a" if "a \<in> set ?us" "b \<in> set ?us" for a b
    using that unfolding sorted_wrt_iff_nth_less by (metis in_set_conv_nth nat_neq_iff)
  then show ?thesis
    using agg separate_distinct [OF sep]
    by (auto simp: aggregate_module_seeds_def aggregated_def module_ok_def Let_def list_all_iff placed_def left_out_def)
qed

section \<open>Ranges\<close>

text \<open>The page type of an area by the bits of its flags: bit 0 is read, bit 1 write, bit 2 execute.\<close>

definition flag_type :: "'pt page_ops \<Rightarrow> u64 \<Rightarrow> 'pt" where
  "flag_type ops flags =
     pt_noexec ops (\<not> bit flags 2)
       (if bit flags 1 then pt_write ops True (pt_empty ops)
        else if bit flags 0 then pt_write ops False (pt_empty ops) else pt_unknown ops)"

lemma linux_vma_page_type_bits: "linux_vma_page_type ops flags = flag_type ops flags"
proof -
  have "flags AND 2 ^ n = 0 \<longleftrightarrow> \<not> bit flags n" for n by (rule and_exp_eq_0_iff_not_bit)
  from this [of 0] this [of 1] this [of 2] show ?thesis
    by (simp add: linux_vma_page_type_def flag_type_def VM_READ_def VM_WRITE_def VM_EXEC_def Let_def)
qed

text \<open>The reference: clip every area to the window, then merge neighbours; the callback is fed the result.\<close>

fun clipped :: "'pt page_ops \<Rightarrow> addr \<Rightarrow> addr \<Rightarrow> linux_vma_info list \<Rightarrow> (addr \<times> addr \<times> 'pt) list" where
  "clipped ops start fin [] = []"
| "clipped ops start fin (v # vs) =
     (let s = max (v_start v) start; e = min (v_end v) fin in
      if s < e then (s, e, flag_type ops (v_flags v)) # clipped ops start fin vs
      else clipped ops start fin vs)"

fun merge_ranges :: "u64 \<Rightarrow> (addr \<times> addr \<times> 'pt) list \<Rightarrow> 'pt range option \<Rightarrow> 'pt range list" where
  "merge_ranges gap [] None = []"
| "merge_ranges gap [] (Some p) = [p]"
| "merge_ranges gap ((s, e, t) # cs) None = merge_ranges gap cs (Some (s, sat_sub e s, t))"
| "merge_ranges gap ((s, e, t) # cs) (Some (ps, n, pt)) =
     (if 0 \<le> sint gap \<and> pt = t \<and> s \<le> sat_add (sat_add ps n) gap
      then merge_ranges gap cs (Some (ps, sat_sub e ps, pt))
      else (ps, n, pt) # merge_ranges gap cs (Some (s, sat_sub e s, t)))"

lemma emit_loop_feed:
  assumes "list_all (\<lambda>v. v_start v < v_end v) vs"
  shows "emit_loop ops gap start fin cb vs pending s =
    snd (feed cb s (merge_ranges gap (clipped ops start fin vs) pending))"
  using assms
proof (induction vs arbitrary: pending s)
  case Nil
  then show ?case by (cases pending) (auto split: prod.splits)
next
  case (Cons v vs)
  define S where "S = max (v_start v) start"
  define E where "E = min (v_end v) fin"
  have ends: "(if v_start v < start then start else v_start v) = S" "(if fin < v_end v then fin else v_end v) = E"
    by (auto simp: S_def E_def max_def min_def not_less)
  have IH: "emit_loop ops gap start fin cb vs p s' = snd (feed cb s' (merge_ranges gap (clipped ops start fin vs) p))" for p s'
    using Cons by simp
  have clip: "clipped ops start fin (v # vs) =
      (if S < E then (S, E, flag_type ops (v_flags v)) # clipped ops start fin vs else clipped ops start fin vs)"
    by (simp only: clipped.simps Let_def S_def E_def)
  have out: "E \<le> S" if "v_end v \<le> start \<or> fin \<le> v_start v"
    using that by (auto simp: S_def E_def min_le_iff_disj le_max_iff_disj)
  show ?case
  proof (cases "S < E")
    case False
    then show ?thesis
      unfolding clip emit_loop.simps ends vm_flags_to_page_type_def linux_vma_page_type_bits Let_def option.case by (auto simp: IH)
  next
    case True
    then have "\<not> (v_end v \<le> start \<or> fin \<le> v_start v)" using out by auto
    with True show ?thesis
      unfolding clip emit_loop.simps ends vm_flags_to_page_type_def linux_vma_page_type_bits Let_def option.case
      by (cases pending) (auto simp: IH split: prod.splits)
  qed
qed

lemma emit_vma_ranges_feed:
  "list_all (\<lambda>v. v_start v < v_end v) vs \<Longrightarrow>
   emit_vma_ranges ops vs gap start fin cb s =
     snd (feed cb s (merge_ranges gap (clipped ops start fin vs) None))"
  unfolding emit_vma_ranges_def by (rule emit_loop_feed)

definition range_at :: "'pt range list \<Rightarrow> addr \<Rightarrow> 'pt \<Rightarrow> bool" where
  "range_at rs x t \<longleftrightarrow> (\<exists>s n. (s, n, t) \<in> set rs \<and> s \<le> x \<and> x < sat_add s n)"

text \<open>Neighbours of one page type are further apart than the gap.\<close>

fun unmergeable :: "u64 \<Rightarrow> 'pt range list \<Rightarrow> bool" where
  "unmergeable gap ((s, n, t) # (s', n', t') # rs) \<longleftrightarrow>
     \<not> (0 \<le> sint gap \<and> t = t' \<and> s' \<le> sat_add (sat_add s n) gap) \<and> unmergeable gap ((s', n', t') # rs)"
| "unmergeable gap rs \<longleftrightarrow> True"

definition clip_at :: "(addr \<times> addr \<times> 'pt) list \<Rightarrow> addr \<Rightarrow> 'pt \<Rightarrow> bool" where
  "clip_at cs x t \<longleftrightarrow> (\<exists>s e. (s, e, t) \<in> set cs \<and> s \<le> x \<and> x < e)"

text \<open>The clipped areas in order, from an address on.\<close>

fun ordered_from :: "addr \<Rightarrow> (addr \<times> addr \<times> 'pt) list \<Rightarrow> bool" where
  "ordered_from a [] \<longleftrightarrow> True"
| "ordered_from a ((s, e, t) # cs) \<longleftrightarrow> a \<le> s \<and> s < e \<and> ordered_from e cs"

fun disjoint_from :: "addr \<Rightarrow> 'pt range list \<Rightarrow> bool" where
  "disjoint_from a [] \<longleftrightarrow> True"
| "disjoint_from a ((s, n, t) # rs) \<longleftrightarrow> a \<le> s \<and> s < sat_add s n \<and> disjoint_from (sat_add s n) rs"

text \<open>An address between two neighbours of one type that are at most the gap apart.\<close>

fun gap_at :: "u64 \<Rightarrow> (addr \<times> addr \<times> 'pt) list \<Rightarrow> addr \<Rightarrow> 'pt \<Rightarrow> bool" where
  "gap_at gap ((s, e, t) # (s', e', t') # cs) x u \<longleftrightarrow>
     0 < sint gap \<and> t = u \<and> t' = u \<and> e \<le> x \<and> x < s' \<and> s' \<le> sat_add e gap \<or> gap_at gap ((s', e', t') # cs) x u"
| "gap_at gap cs x u \<longleftrightarrow> False"

lemma range_at_Cons: "range_at ((s, n, t') # rs) x t \<longleftrightarrow> t' = t \<and> s \<le> x \<and> x < sat_add s n \<or> range_at rs x t"
  by (auto simp: range_at_def)

lemma clip_at_Cons: "clip_at ((s, e, t') # cs) x t \<longleftrightarrow> t' = t \<and> s \<le> x \<and> x < e \<or> clip_at cs x t"
  by (auto simp: clip_at_def)

lemma at_Nil [simp]: "\<not> range_at [] x t" "\<not> clip_at [] x t"
  by (simp_all add: range_at_def clip_at_def)

lemma merge_ranges_disjoint:
  assumes "ordered_from (sat_add ps n) cs" "ps < sat_add ps n" "a \<le> ps"
  shows "disjoint_from a (merge_ranges gap cs (Some (ps, n, pt)))"
  using assms
proof (induction cs arbitrary: ps n pt a)
  case (Cons c cs)
  obtain s e t where c: "c = (s, e, t)" by (cases c) auto
  have ord: "sat_add ps n \<le> s" "s < e" "ordered_from e cs" using Cons.prems c by simp_all
  then have "ps < e" using Cons.prems(2) by simp
  then have "sat_add s (sat_sub e s) = e" "sat_add ps (sat_sub e ps) = e" using ord by (simp_all add: sat_add_sat_sub)
  then show ?case
    using ord Cons.prems \<open>ps < e\<close> Cons.IH [of ps "sat_sub e ps"] Cons.IH [of s "sat_sub e s"] by (auto simp: c)
qed simp

lemma merge_ranges_bound:
  assumes "ordered_from (sat_add ps n) cs" "ps < sat_add ps n" "sat_add ps n \<le> b" "\<forall>c \<in> set cs. fst (snd c) \<le> b"
    and "r \<in> set (merge_ranges gap cs (Some (ps, n, pt)))"
  shows "sat_add (fst r) (fst (snd r)) \<le> b"
  using assms
proof (induction cs arbitrary: ps n pt)
  case (Cons c cs)
  obtain s e t where c: "c = (s, e, t)" by (cases c) auto
  have ord: "sat_add ps n \<le> s" "s < e" "ordered_from e cs" "e \<le> b" "\<forall>c \<in> set cs. fst (snd c) \<le> b"
    using Cons.prems c by simp_all
  then have "ps < e" using Cons.prems(2) by simp
  then have "sat_add s (sat_sub e s) = e" "sat_add ps (sat_sub e ps) = e" using ord by (simp_all add: sat_add_sat_sub)
  then show ?case
    using ord Cons.prems \<open>ps < e\<close> Cons.IH [of ps "sat_sub e ps"] Cons.IH [of s "sat_sub e s"]
    by (auto simp: c split: if_splits)
qed simp

lemma merge_ranges_covers:
  assumes "ordered_from (sat_add ps n) cs" "ps < sat_add ps n"
    and "range_at [(ps, n, pt)] x u \<or> clip_at cs x u"
  shows "range_at (merge_ranges gap cs (Some (ps, n, pt))) x u"
  using assms
proof (induction cs arbitrary: ps n pt)
  case (Cons c cs)
  obtain s e t where c: "c = (s, e, t)" by (cases c) auto
  have ord: "sat_add ps n \<le> s" "s < e" "ordered_from e cs" using Cons.prems c by simp_all
  then have lt: "ps < e" "ps \<le> s" using Cons.prems(2) by simp_all
  have ends: "sat_add s (sat_sub e s) = e" "sat_add ps (sat_sub e ps) = e"
    using ord lt by (simp_all add: sat_add_sat_sub)
  have at: "pt = u \<and> ps \<le> x \<and> x < sat_add ps n \<or> t = u \<and> s \<le> x \<and> x < e \<or> clip_at cs x u"
    using Cons.prems(3) by (auto simp: c range_at_Cons clip_at_Cons)
  show ?case
  proof (cases "0 \<le> sint gap \<and> pt = t \<and> s \<le> sat_add (sat_add ps n) gap")
    case True
    have "range_at [(ps, sat_sub e ps, pt)] x u \<or> clip_at cs x u"
      using at True ord lt by (auto simp: range_at_Cons ends)
    from Cons.IH [OF _ _ this] show ?thesis using True ord lt by (simp add: c ends)
  next
    case False
    have "pt = u \<and> ps \<le> x \<and> x < sat_add ps n \<or> range_at [(s, sat_sub e s, t)] x u \<or> clip_at cs x u"
      using at by (auto simp: range_at_Cons ends)
    then show ?thesis using Cons.IH [of s "sat_sub e s" t] False ord by (auto simp: c ends range_at_Cons)
  qed
qed simp

lemma merge_ranges_exact:
  assumes "ordered_from (sat_add ps n) cs" "ps < sat_add ps n"
    and "range_at (merge_ranges gap cs (Some (ps, n, pt))) x u"
  shows "range_at [(ps, n, pt)] x u \<or> clip_at cs x u \<or> gap_at gap ((ps, sat_add ps n, pt) # cs) x u"
  using assms
proof (induction cs arbitrary: ps n pt)
  case (Cons c cs)
  obtain s e t where c: "c = (s, e, t)" by (cases c) auto
  have ord: "sat_add ps n \<le> s" "s < e" "ordered_from e cs" using Cons.prems c by simp_all
  then have lt: "ps < e" "ps \<le> s" using Cons.prems(2) by simp_all
  have ends: "sat_add s (sat_sub e s) = e" "sat_add ps (sat_sub e ps) = e"
    using ord lt by (simp_all add: sat_add_sat_sub)
  show ?case
  proof (cases "0 \<le> sint gap \<and> pt = t \<and> s \<le> sat_add (sat_add ps n) gap")
    case True
    have "range_at [(ps, sat_sub e ps, pt)] x u \<or> clip_at cs x u \<or> gap_at gap ((ps, e, pt) # cs) x u"
      using Cons.IH [of ps "sat_sub e ps" pt] Cons.prems True ord lt by (simp add: c ends)
    moreover have "gap_at gap ((ps, e, pt) # cs) x u = gap_at gap ((s, e, t) # cs) x u"
      using True by (cases cs) auto
    moreover have "sint gap = 0 \<Longrightarrow> s = sat_add ps n"
      using True ord by (simp add: signed_eq_0_iff sat_add_def)
    ultimately show ?thesis using True lt by (cases "sint gap = 0") (auto simp: c range_at_Cons clip_at_Cons ends)
  next
    case False
    then show ?thesis using Cons.IH [of s "sat_sub e s" t] Cons.prems ord
      by (auto simp: c ends range_at_Cons clip_at_Cons)
  qed
qed simp

lemma merge_ranges_unmergeable:
  "ordered_from (sat_add ps n) cs \<Longrightarrow> ps < sat_add ps n \<Longrightarrow>
   unmergeable gap (merge_ranges gap cs (Some (ps, n, pt))) \<and>
     (\<exists>n' rs. merge_ranges gap cs (Some (ps, n, pt)) = (ps, n', pt) # rs)"
proof (induction cs arbitrary: ps n pt)
  case (Cons c cs)
  obtain s e t where c: "c = (s, e, t)" by (cases c) auto
  have ord: "sat_add ps n \<le> s" "s < e" "ordered_from e cs" using Cons.prems c by simp_all
  then have "ps < e" using Cons.prems(2) by simp
  then have "sat_add s (sat_sub e s) = e" "sat_add ps (sat_sub e ps) = e" using ord by (simp_all add: sat_add_sat_sub)
  then show ?case
    using ord \<open>ps < e\<close> Cons.IH [of ps "sat_sub e ps" pt] Cons.IH [of s "sat_sub e s" t] by (auto simp: c)
qed simp

text \<open>Without merging, each area of the window is a range.\<close>

lemma merge_ranges_negative:
  "sint gap < 0 \<Longrightarrow> merge_ranges gap cs (Some p) = p # map (\<lambda>(s, e, t). (s, sat_sub e s, t)) cs"
  by (induction cs arbitrary: p) (auto split: prod.splits)

lemma merge_ranges_None_negative:
  "sint gap < 0 \<Longrightarrow> merge_ranges gap cs None = map (\<lambda>(s, e, t). (s, sat_sub e s, t)) cs"
  by (cases cs) (auto simp: merge_ranges_negative)

lemma merge_ranges_spec:
  assumes "ordered_from a cs" "\<forall>c \<in> set cs. fst (snd c) \<le> b"
  shows "disjoint_from a (merge_ranges gap cs None) \<and>
    (r \<in> set (merge_ranges gap cs None) \<longrightarrow> sat_add (fst r) (fst (snd r)) \<le> b) \<and>
    (clip_at cs x u \<longrightarrow> range_at (merge_ranges gap cs None) x u) \<and>
    (range_at (merge_ranges gap cs None) x u \<longrightarrow> clip_at cs x u \<or> gap_at gap cs x u) \<and>
    unmergeable gap (merge_ranges gap cs None)"
proof (cases cs)
  case (Cons c cs')
  obtain s e t where c: "c = (s, e, t)" by (cases c) auto
  have ord: "a \<le> s" "s < e" "ordered_from e cs'" "e \<le> b" "\<forall>c \<in> set cs'. fst (snd c) \<le> b"
    using assms by (simp_all add: Cons c)
  have ends: "sat_add s (sat_sub e s) = e" using ord by (simp add: sat_add_sat_sub)
  let ?n = "sat_sub e s"
  have o': "ordered_from (sat_add s ?n) cs'" "s < sat_add s ?n" "sat_add s ?n \<le> b" using ord by (simp_all add: ends)
  have m: "merge_ranges gap cs None = merge_ranges gap cs' (Some (s, ?n, t))" by (simp add: Cons c)
  have g: "gap_at gap cs x u = gap_at gap ((s, sat_add s ?n, t) # cs') x u" by (simp add: Cons c ends)
  have r: "range_at [(s, ?n, t)] x u \<or> clip_at cs' x u \<longleftrightarrow> clip_at cs x u"
    by (auto simp: Cons c range_at_Cons clip_at_Cons ends)
  show ?thesis
    unfolding m g
    using merge_ranges_disjoint [OF o'(1,2) ord(1), of gap t]
      merge_ranges_bound [OF o' ord(5), of r gap t] merge_ranges_covers [OF o'(1,2), of t x u gap]
      merge_ranges_exact [OF o'(1,2), of gap t x u] merge_ranges_unmergeable [OF o'(1,2), of gap t]
    unfolding r [symmetric] by blast
qed simp

lemma merge_ranges_facts:
  assumes "ordered_from a cs" "\<forall>c \<in> set cs. fst (snd c) \<le> b"
  shows "disjoint_from a (merge_ranges gap cs None)"
    and "r \<in> set (merge_ranges gap cs None) \<Longrightarrow> sat_add (fst r) (fst (snd r)) \<le> b"
    and "clip_at cs x u \<Longrightarrow> range_at (merge_ranges gap cs None) x u"
    and "range_at (merge_ranges gap cs None) x u \<Longrightarrow> clip_at cs x u \<or> gap_at gap cs x u"
    and "unmergeable gap (merge_ranges gap cs None)"
  using merge_ranges_spec [OF assms, of gap r x u] by blast+

text \<open>What lies between two neighbours is in no area.\<close>

lemma ordered_from_before: "ordered_from a cs \<Longrightarrow> y < a \<Longrightarrow> \<not> clip_at cs y u"
proof (induction cs arbitrary: a)
  case (Cons c cs)
  obtain s e t where c: "c = (s, e, t)" by (cases c) auto
  have "y < s" "y < e" using Cons.prems c by auto
  then show ?case using Cons c by (auto simp: clip_at_Cons)
qed simp

lemma gap_at_between:
  assumes "ordered_from a cs" "gap_at gap cs x u"
  shows "\<exists>s lo hi e. (s, lo, u) \<in> set cs \<and> (hi, e, u) \<in> set cs \<and> s < lo \<and> hi < e \<and> 0 < sint gap \<and>
    a \<le> s \<and> lo \<le> x \<and> x < hi \<and> hi \<le> sat_add lo gap \<and> (\<forall>y v. lo \<le> y \<and> y < hi \<longrightarrow> \<not> clip_at cs y v)"
  using assms
proof (induction gap cs x u arbitrary: a rule: gap_at.induct)
  case (1 gap s e t s' e' t' cs x u)
  then have ord: "a \<le> s" "s < e" "e \<le> s'" "s' < e'" "ordered_from e' cs" by simp_all
  have o': "ordered_from e ((s', e', t') # cs)" using ord by simp
  from 1(3) consider "0 < sint gap" "t = u" "t' = u" "e \<le> x" "x < s'" "s' \<le> sat_add e gap"
    | "gap_at gap ((s', e', t') # cs) x u" by auto
  then show ?case
  proof cases
    case 1
    have "\<not> clip_at ((s, e, t) # (s', e', t') # cs) y v" if "e \<le> y" "y < s'" for y v
      using that ord ordered_from_before [OF ord(5), of y v] by (auto simp: clip_at_Cons)
    with 1 ord show ?thesis
      by (intro exI [of _ s] exI [of _ e] exI [of _ s'] exI [of _ e']) simp
  next
    case 2
    from "1.IH" [OF o' this] obtain s1 lo hi e1 where h: "(s1, lo, u) \<in> set ((s', e', t') # cs)"
      "(hi, e1, u) \<in> set ((s', e', t') # cs)" "s1 < lo" "hi < e1" "0 < sint gap" "e \<le> s1" "lo \<le> x" "x < hi"
      "hi \<le> sat_add lo gap" "\<forall>y v. lo \<le> y \<and> y < hi \<longrightarrow> \<not> clip_at ((s', e', t') # cs) y v" by blast
    have "e < lo" "a \<le> s1" using h(3,6) ord by simp_all
    then have "\<forall>y v. lo \<le> y \<and> y < hi \<longrightarrow> \<not> clip_at ((s, e, t) # (s', e', t') # cs) y v"
      using h(10) by (auto simp: clip_at_Cons)
    with h \<open>a \<le> s1\<close> show ?thesis
      by (intro exI [of _ s1] exI [of _ lo] exI [of _ hi] exI [of _ e1]) simp
  qed
qed simp_all

text \<open>Areas in address order that do not overlap, as the kernel keeps them.\<close>

fun areas_from :: "addr \<Rightarrow> linux_vma_info list \<Rightarrow> bool" where
  "areas_from a [] \<longleftrightarrow> True"
| "areas_from a (v # vs) \<longleftrightarrow> a \<le> v_start v \<and> v_start v < v_end v \<and> areas_from (v_end v) vs"

definition area_at :: "'pt page_ops \<Rightarrow> linux_vma_info list \<Rightarrow> addr \<Rightarrow> 'pt \<Rightarrow> bool" where
  "area_at ops vs x t \<longleftrightarrow>
     list_ex (\<lambda>v. v_start v \<le> x \<and> x < v_end v \<and> flag_type ops (v_flags v) = t) vs"

lemma areas_from_le: "areas_from a vs \<Longrightarrow> b \<le> a \<Longrightarrow> areas_from b vs"
  by (cases vs) auto

lemma areas_from_all: "areas_from a vs \<Longrightarrow> list_all (\<lambda>v. v_start v < v_end v) vs"
  by (induction vs arbitrary: a) auto

lemma clipped_Cons_cases:
  obtains "clipped ops start fin (v # vs) = clipped ops start fin vs" "min (v_end v) fin \<le> max (v_start v) start"
  | "max (v_start v) start < min (v_end v) fin"
    "clipped ops start fin (v # vs) =
       (max (v_start v) start, min (v_end v) fin, flag_type ops (v_flags v)) # clipped ops start fin vs"
  by (cases "max (v_start v) start < min (v_end v) fin") (simp_all only: clipped.simps Let_def if_True if_False not_less)

lemma ordered_from_le: "ordered_from a cs \<Longrightarrow> b \<le> a \<Longrightarrow> ordered_from b cs"
  by (cases cs) auto

lemma clipped_ordered: "areas_from a vs \<Longrightarrow> ordered_from (max a start) (clipped ops start fin vs)"
proof (induction vs arbitrary: a)
  case (Cons v vs)
  have IH: "ordered_from (max (v_end v) start) (clipped ops start fin vs)" using Cons by simp
  show ?case
  proof (cases rule: clipped_Cons_cases [of ops start fin v vs])
    case 1
    have "max a start \<le> max (v_end v) start" using Cons.prems by (auto simp: max_def)
    then show ?thesis using IH 1 by (simp add: ordered_from_le)
  next
    case 2
    have "min (v_end v) fin \<le> max (v_end v) start"
      by (meson max.cobounded1 min.cobounded1 order_trans)
    then have "ordered_from (min (v_end v) fin) (clipped ops start fin vs)" by (rule ordered_from_le [OF IH])
    moreover have "max a start \<le> max (v_start v) start" using Cons.prems by (auto simp: max_def)
    ultimately show ?thesis using 2(1) unfolding 2(2) by (simp del: min_less_iff_conj max_less_iff_conj)
  qed
qed simp

lemma clipped_bound: "c \<in> set (clipped ops start fin vs) \<Longrightarrow> fst (snd c) \<le> fin"
proof (induction vs)
  case (Cons v vs)
  then show ?case by (cases rule: clipped_Cons_cases [of ops start fin v vs]) auto
qed simp

lemma clipped_at: "clip_at (clipped ops start fin vs) x t \<longleftrightarrow> start \<le> x \<and> x < fin \<and> area_at ops vs x t"
proof (induction vs)
  case (Cons v vs)
  show ?case
  proof (cases rule: clipped_Cons_cases [of ops start fin v vs])
    case 1
    have "\<not> (v_start v \<le> x \<and> start \<le> x \<and> x < v_end v \<and> x < fin)"
    proof
      assume "v_start v \<le> x \<and> start \<le> x \<and> x < v_end v \<and> x < fin"
      then have "max (v_start v) start \<le> x" "x < min (v_end v) fin" by simp_all
      with 1(2) show False by (meson leD order_trans)
    qed
    then show ?thesis unfolding 1(1) Cons.IH by (auto simp: area_at_def)
  next
    case 2
    show ?thesis unfolding 2(2) clip_at_Cons Cons.IH by (auto simp: area_at_def)
  qed
qed (simp add: area_at_def)

text \<open>
  An address that a range of a type has without an area there: between two areas of the type that meet the window, at most
  the gap apart, with nothing mapped between them.
\<close>

definition bridged :: "'pt page_ops \<Rightarrow> linux_vma_info list \<Rightarrow> u64 \<Rightarrow> addr \<Rightarrow> addr \<Rightarrow> addr \<Rightarrow> 'pt \<Rightarrow> bool" where
  "bridged ops vs gap start fin x t \<longleftrightarrow>
     (\<exists>lo hi. 0 < sint gap \<and> start < lo \<and> lo \<le> x \<and> x < hi \<and> hi < fin \<and> hi \<le> sat_add lo gap \<and>
        area_at ops vs (lo - 1) t \<and> area_at ops vs hi t \<and> (\<forall>y u. lo \<le> y \<and> y < hi \<longrightarrow> \<not> area_at ops vs y u))"

lemma before_end: "s < (lo :: 'a::len word) \<Longrightarrow> s \<le> lo - 1 \<and> lo - 1 < lo"
  by (auto simp: word_less_nat_alt word_le_nat_alt unat_sub_if_size)

lemma gap_at_bridged:
  assumes ord: "ordered_from start (clipped ops start fin vs)" and "gap_at gap (clipped ops start fin vs) x t"
  shows "bridged ops vs gap start fin x t"
proof -
  from gap_at_between [OF assms] obtain s lo hi e where h: "(s, lo, t) \<in> set (clipped ops start fin vs)"
    "(hi, e, t) \<in> set (clipped ops start fin vs)" "s < lo" "hi < e" "0 < sint gap" "start \<le> s" "lo \<le> x" "x < hi"
    "hi \<le> sat_add lo gap" "\<forall>y v. lo \<le> y \<and> y < hi \<longrightarrow> \<not> clip_at (clipped ops start fin vs) y v" by blast
  have "clip_at (clipped ops start fin vs) (lo - 1) t" "clip_at (clipped ops start fin vs) hi t"
    using h(1,2,4) before_end [OF h(3)] unfolding clip_at_def by blast+
  then have at: "area_at ops vs (lo - 1) t" "area_at ops vs hi t" "hi < fin" by (simp_all add: clipped_at)
  have "start < lo" using h(3,6) by simp
  have "\<not> area_at ops vs y u" if y: "lo \<le> y" "y < hi" for y u
  proof -
    have "start \<le> y" "y < fin" using y \<open>start < lo\<close> \<open>hi < fin\<close> by simp_all
    then show ?thesis using h(10) y by (simp add: clipped_at)
  qed
  with h at \<open>start < lo\<close> show ?thesis unfolding bridged_def by blast
qed

lemma clipped_map:
  "map (\<lambda>(s, e, t). (s, sat_sub e s, t)) (clipped ops start fin vs) =
     map (\<lambda>v. (max (v_start v) start, min (v_end v) fin - max (v_start v) start, flag_type ops (v_flags v)))
       (filter (\<lambda>v. max (v_start v) start < min (v_end v) fin) vs)"
proof (induction vs)
  case (Cons v vs)
  show ?case
  proof (cases rule: clipped_Cons_cases [of ops start fin v vs])
    case 1
    then have "\<not> max (v_start v) start < min (v_end v) fin" by (simp only: not_less)
    then show ?thesis by (simp only: 1(1) Cons.IH filter.simps if_False)
  next
    case 2
    then have "sat_sub (min (v_end v) fin) (max (v_start v) start) = min (v_end v) fin - max (v_start v) start"
      by (simp only: sat_sub_def less_imp_le if_True)
    then show ?thesis by (simp only: 2 Cons.IH filter.simps list.map split if_True)
  qed
qed simp

text \<open>
  C23. For areas in address order, the ranges reported are in order and disjoint and lie in the requested window. Every mapped
  address of the window is in a range of its page type; a range has no other addresses than these and the unmapped
  ones between two areas of its type that are at most the gap apart. Merging is complete: neighbouring ranges of one type are
  further apart than the gap; a negative gap merges nothing, and each area that meets the window is a range. A callback that
  declines stops the report: what it has seen is what it would have seen on the list of all ranges.
\<close>

theorem emit_vma_ranges_sound:
  assumes "areas_from 0 vs" "rs = emit_vma_ranges ops vs gap start fin collect []"
  shows "disjoint_from start rs \<and> list_all (\<lambda>r. sat_add (fst r) (fst (snd r)) \<le> fin) rs \<and>
    (start \<le> x \<and> x < fin \<and> area_at ops vs x t \<longrightarrow> range_at rs x t) \<and>
    (range_at rs x t \<longrightarrow> start \<le> x \<and> x < fin \<and> (area_at ops vs x t \<or> bridged ops vs gap start fin x t)) \<and>
    unmergeable gap rs \<and>
    (sint gap < 0 \<longrightarrow> rs =
       map (\<lambda>v. (max (v_start v) start, min (v_end v) fin - max (v_start v) start, flag_type ops (v_flags v)))
         (filter (\<lambda>v. max (v_start v) start < min (v_end v) fin) vs)) \<and>
    emit_vma_ranges ops vs gap start fin cb s = snd (feed cb s rs)"
proof -
  have ne: "list_all (\<lambda>v. v_start v < v_end v) vs" using assms(1) by (rule areas_from_all)
  have rs: "rs = merge_ranges gap (clipped ops start fin vs) None"
    using assms(2) by (simp add: emit_vma_ranges_feed [OF ne] feed_collect)
  have ord: "ordered_from start (clipped ops start fin vs)"
    using clipped_ordered [OF assms(1), of start] by simp
  have b: "\<forall>c \<in> set (clipped ops start fin vs). fst (snd c) \<le> fin" using clipped_bound by blast
  note spec = merge_ranges_facts [OF ord b, where gap = gap, folded rs]
  have "start \<le> x \<and> x < fin \<and> (area_at ops vs x t \<or> bridged ops vs gap start fin x t)" if "range_at rs x t"
    using spec(4) [OF that] gap_at_bridged [OF ord, of gap x t] unfolding clipped_at
    by (auto simp: bridged_def)
  moreover have "list_all (\<lambda>r. sat_add (fst r) (fst (snd r)) \<le> fin) rs"
    unfolding list_all_iff using spec(2) by blast
  moreover have "range_at rs x t" if "start \<le> x \<and> x < fin \<and> area_at ops vs x t"
    by (rule spec(3)) (use that in \<open>simp add: clipped_at\<close>)
  moreover have "emit_vma_ranges ops vs gap start fin cb s = snd (feed cb s rs)"
    unfolding rs by (rule emit_vma_ranges_feed [OF ne])
  moreover have "rs =
       map (\<lambda>v. (max (v_start v) start, min (v_end v) fin - max (v_start v) start, flag_type ops (v_flags v)))
         (filter (\<lambda>v. max (v_start v) start < min (v_end v) fin) vs)" if "sint gap < 0"
    unfolding rs merge_ranges_None_negative [OF that] by (rule clipped_map)
  ultimately show ?thesis using spec(1,5) by blast
qed

text \<open>Page types as numbers, for the witness: 1 writable, 2 not executable, 4 unknown.\<close>

definition sample_page_ops :: "nat page_ops" where
  "sample_page_ops = \<lparr> pt_empty = 0, pt_unknown = 4, pt_write = (\<lambda>w p. if w then p + 1 else p),
     pt_noexec = (\<lambda>n p. if n then p + 2 else p) \<rparr>"

definition sample_ranges_areas :: "linux_vma_info list" where
  "sample_ranges_areas =
     [\<lparr> v_vma = 0x10000, v_start = 0x400000, v_end = 0x402000, v_flags = 5, v_file = NULL, v_path = [], v_name = [] \<rparr>,
      \<lparr> v_vma = 0x10100, v_start = 0x600000, v_end = 0x603000, v_flags = 3, v_file = NULL, v_path = [], v_name = [] \<rparr>]"

theorem emit_vma_ranges_sound_witness:
  "range_at (emit_vma_ranges sample_page_ops sample_ranges_areas 0 0x401000 0x700000 collect []) 0x602000 (3 :: nat)"
proof -
  have "areas_from 0 sample_ranges_areas" by (simp add: sample_ranges_areas_def)
  moreover have "area_at sample_page_ops sample_ranges_areas 0x602000 3"
    by (simp add: sample_ranges_areas_def area_at_def flag_type_def sample_page_ops_def
        VM_WRITE_def VM_READ_def VM_EXEC_def)
  moreover have "(0x401000 :: addr) \<le> 0x602000" "(0x602000 :: addr) < 0x700000" by simp_all
  ultimately show ?thesis
    using emit_vma_ranges_sound [where vs = sample_ranges_areas and ops = sample_page_ops and gap = 0
        and start = "0x401000" and fin = "0x700000" and x = "0x602000" and t = 3
        and cb = "collect :: (nat range, nat range list) callback" and s = "[]",
        OF _ refl, THEN conjunct2, THEN conjunct2, THEN conjunct1]
    by (metis (no_types))
qed

end
