(* ===== verification/Process.thy ===== *)
theory Process
  imports Vma_Trees Modules
begin

text \<open>
  \<open>memflow-linux/src/process.rs\<close>, third part: the process object. Its state is the page-table root of its
  translator, its description and two lazily filled caches; the physical memory and the translation
  backends are memflow's and enter as the view they give through an architecture and a root. An
  operation returns its result and the process after it. \<open>module_import_list_callback\<close>,
  \<open>module_export_list_callback\<close> and \<open>module_section_list_callback\<close> only call memflow's own module
  reader and have no model.
\<close>

section \<open>State\<close>

record 'pt backend =
  be_phys :: physmem
  be_view :: "arch_ident \<Rightarrow> addr \<Rightarrow> memview"
  be_page_map :: "addr \<Rightarrow> u64 \<Rightarrow> addr \<Rightarrow> addr \<Rightarrow> 'pt range list"
  be_page_ops :: "'pt page_ops"

record 'pt linux_process =
  lp_backend :: "'pt backend"
  lp_arch :: arch_ident
  lp_translator :: addr
  lp_proc_info :: linux_process_info
  lp_profile :: linux_profile
  lp_cached_vmas :: "linux_vma_info list option"
  lp_cached_modules :: "linux_module_entry list option"

definition new_process :: "'pt backend \<Rightarrow> linux_profile \<Rightarrow> linux_process_info \<Rightarrow> 'pt linux_process" where
  "new_process backend profile info =
     \<lparr> lp_backend = backend, lp_arch = pi_proc_arch (lpi_base_info info),
       lp_translator = pi_dtb1 (lpi_base_info info), lp_proc_info = info, lp_profile = profile,
       lp_cached_vmas = None, lp_cached_modules = None \<rparr>"

definition proc_view :: "'pt linux_process \<Rightarrow> memview" where
  "proc_view p = be_view (lp_backend p) (lp_arch p) (lp_translator p)"

definition proc_arch :: "'pt linux_process \<Rightarrow> arch_ident" where
  "proc_arch p = pi_proc_arch (lpi_base_info (lp_proc_info p))"

definition root_path :: "'pt linux_process \<Rightarrow> addr option" where
  "root_path p = map_option (\<lambda>fs. fs + fss_root (off_fs (pr_offsets (lp_profile p)))) (non_null (lpi_fs (lp_proc_info p)))"

section \<open>Caches\<close>

text \<open>
  The shape of every lazily computed field: \<open>if self.field.is_none() { self.field = Some(compute()?) }\<close>.
  The computation may fill other fields on the way.
\<close>

definition lazily ::
    "('s \<Rightarrow> 'c option) \<Rightarrow> ('c \<Rightarrow> 's \<Rightarrow> 's) \<Rightarrow> ('s \<Rightarrow> 'c result \<times> 's) \<Rightarrow> 's \<Rightarrow> 'c result \<times> 's" where
  "lazily get_field put compute s =
     (case get_field s of
        Some c \<Rightarrow> (Inr c, s)
      | None \<Rightarrow> (case compute s of (Inr c, s') \<Rightarrow> (Inr c, put c s') | (Inl e, s') \<Rightarrow> (Inl e, s')))"

text \<open>
  The contract of such a field: the state has a part that the caches do not touch, the value is a
  function of that part, and the invariant says that a filled field holds the value.
\<close>

locale lazy_field =
  fixes get_field :: "'s \<Rightarrow> 'c option" and put :: "'c \<Rightarrow> 's \<Rightarrow> 's" and compute :: "'s \<Rightarrow> 'c result \<times> 's"
    and inv :: "'s \<Rightarrow> bool" and part :: "'s \<Rightarrow> 'd" and val :: "'d \<Rightarrow> 'c result"
  assumes filled: "inv s \<Longrightarrow> get_field s = Some c \<Longrightarrow> val (part s) = Inr c"
    and computed: "inv s \<Longrightarrow> fst (compute s) = val (part s) \<and> inv (snd (compute s)) \<and> part (snd (compute s)) = part s"
    and stored: "inv s \<Longrightarrow> val (part s) = Inr c \<Longrightarrow> inv (put c s) \<and> part (put c s) = part s"
begin

lemma lazily_value:
  assumes "inv s"
  shows "fst (lazily get_field put compute s) = val (part s) \<and>
    inv (snd (lazily get_field put compute s)) \<and> part (snd (lazily get_field put compute s)) = part s"
proof (cases "get_field s")
  case (Some c)
  then show ?thesis using filled [OF assms] assms by (simp add: lazily_def)
next
  case None
  obtain r s' where c: "compute s = (r, s')" by (cases "compute s") auto
  have r: "r = val (part s)" "inv s'" "part s' = part s" using computed [OF assms] by (simp_all add: c)
  show ?thesis
  proof (cases r)
    case (Inl e)
    then show ?thesis using None r by (simp add: lazily_def c)
  next
    case (Inr v)
    then have v: "val (part s) = Inr v" "val (part s') = Inr v" using r by simp_all
    have "lazily get_field put compute s = (Inr v, put v s')" using None Inr by (simp add: lazily_def c)
    then show ?thesis using stored [OF r(2) v(2)] r(3) v(1) by simp
  qed
qed

end

definition collect_vmas :: "'pt linux_process \<Rightarrow> linux_vma_info list result" where
  "collect_vmas p =
     collect_vmas_mm (proc_view p) (pr_offsets (lp_profile p)) (root_path p) (lpi_mm (lp_proc_info p))"

definition vma_cache :: "'pt linux_process \<Rightarrow> linux_vma_info list result \<times> 'pt linux_process" where
  "vma_cache = lazily lp_cached_vmas (\<lambda>c p. p \<lparr> lp_cached_vmas := Some c \<rparr>) (\<lambda>p. (collect_vmas p, p))"

definition collect_modules :: "'pt linux_process \<Rightarrow> linux_module_entry list result \<times> 'pt linux_process" where
  "collect_modules p =
     (case vma_cache p of
        (Inl e, p') \<Rightarrow> (Inl e, p')
      | (Inr vmas, p') \<Rightarrow> (Inr (aggregate_module_seeds (module_seeds (proc_view p') vmas)), p'))"

definition module_cache :: "'pt linux_process \<Rightarrow> linux_module_entry list result \<times> 'pt linux_process" where
  "module_cache = lazily lp_cached_modules (\<lambda>c p. p \<lparr> lp_cached_modules := Some c \<rparr>) collect_modules"

definition set_dtb :: "addr \<Rightarrow> 'pt linux_process \<Rightarrow> 'pt linux_process" where
  "set_dtb dtb1 p =
     (let info = lp_proc_info p;
          base = (lpi_base_info info) \<lparr> pi_dtb1 := dtb1, pi_dtb2 := INVALID \<rparr>
      in p \<lparr> lp_proc_info := info \<lparr> lpi_base_info := base \<rparr>, lp_translator := dtb1,
             lp_cached_vmas := None, lp_cached_modules := None \<rparr>)"

section \<open>Modules of a process\<close>

definition module_fallback :: "'pt linux_process \<Rightarrow> module_info option" where
  "module_fallback p =
     (let info = lp_proc_info p in
      if lpi_start_code info = NULL \<or> lpi_end_code info \<le> lpi_start_code info then None
      else
        let path = pi_path (lpi_base_info info) in
        Some \<lparr> mi_address = as_page_aligned (lpi_start_code info) (kb 4),
               mi_parent_process = pi_address (lpi_base_info info),
               mi_base = as_page_aligned (lpi_start_code info) (kb 4),
               mi_size = sat_sub (lpi_end_code info) (lpi_start_code info),
               mi_name = module_basename path, mi_path = path,
               mi_arch = pi_proc_arch (lpi_base_info info) \<rparr>)"

definition contains_code :: "addr \<Rightarrow> linux_module_entry \<Rightarrow> bool" where
  "contains_code code m = (me_base m \<le> code \<and> code < sat_add (me_base m) (me_size m))"

definition choose_primary :: "linux_process_info \<Rightarrow> linux_module_entry list \<Rightarrow> linux_module_entry option" where
  "choose_primary info modules =
     (case find (\<lambda>m. lpi_exe_file info \<noteq> NULL \<and> me_file m = lpi_exe_file info) modules of
        Some m \<Rightarrow> Some m
      | None \<Rightarrow>
          (case find (contains_code (lpi_start_code info)) modules of
             Some m \<Rightarrow> Some m
           | None \<Rightarrow> (case modules of m # _ \<Rightarrow> Some m | [] \<Rightarrow> None)))"

definition primary_module_info :: "'pt linux_process \<Rightarrow> module_info option \<times> 'pt linux_process" where
  "primary_module_info p =
     (case module_cache p of
        (Inr modules, p') \<Rightarrow>
          (case choose_primary (lp_proc_info p') modules of
             Some m \<Rightarrow> (Some (to_module_info (lp_proc_info p') m), p')
           | None \<Rightarrow> (module_fallback p', p'))
      | (Inl _, p') \<Rightarrow> (module_fallback p', p'))"

definition primary_module_address :: "'pt linux_process \<Rightarrow> addr result \<times> 'pt linux_process" where
  "primary_module_address p =
     (case primary_module_info p of (m, p') \<Rightarrow> (ok_or (OsLayer ModuleNotFound) (map_option mi_address m), p'))"

text \<open>\<open>ModuleAddressInfo\<close> is an address and an architecture.\<close>

definition module_address_list_callback ::
    "arch_ident option \<Rightarrow> (addr \<times> arch_ident, 's) callback \<Rightarrow> 's \<Rightarrow> 'pt linux_process \<Rightarrow>
     unit result \<times> 's \<times> 'pt linux_process" where
  "module_address_list_callback target_arch cb s p =
     (if target_arch \<noteq> None \<and> target_arch \<noteq> Some (proc_arch p) then (Inr (), s, p)
      else
        case module_cache p of
          (Inl e, p') \<Rightarrow> (Inl e, s, p')
        | (Inr modules, p') \<Rightarrow>
            (case feed cb s (map (\<lambda>m. (me_address m, proc_arch p)) modules) of
               (False, s') \<Rightarrow> (Inr (), s', p')
             | (True, s') \<Rightarrow>
                 if modules = [] then
                   (case module_fallback p' of
                      Some m \<Rightarrow> (Inr (), snd (cb s' (mi_address m, mi_arch m)), p')
                    | None \<Rightarrow> (Inr (), s', p'))
                 else (Inr (), s', p')))"

definition option_filter :: "('a \<Rightarrow> bool) \<Rightarrow> 'a option \<Rightarrow> 'a option" where
  "option_filter p x = (case x of Some v \<Rightarrow> if p v then Some v else None | None \<Rightarrow> None)"

definition module_by_address ::
    "addr \<Rightarrow> arch_ident \<Rightarrow> 'pt linux_process \<Rightarrow> module_info result \<times> 'pt linux_process" where
  "module_by_address a architecture p =
     (if architecture \<noteq> proc_arch p then (Inl (OsLayer ModuleNotFound), p)
      else
        case module_cache p of
          (Inl e, p') \<Rightarrow> (Inl e, p')
        | (Inr modules, p') \<Rightarrow>
            (case find (\<lambda>m. me_address m = a) modules of
               Some m \<Rightarrow> (Inr (to_module_info (lp_proc_info p') m), p')
             | None \<Rightarrow>
                 (ok_or (OsLayer ModuleNotFound) (option_filter (\<lambda>m. mi_address m = a) (module_fallback p')), p')))"

section \<open>Mapped memory\<close>

text \<open>\<open>virt_page_map_range\<close> of memflow walks the page table: the list of what it reports is the backend's.\<close>

definition mapped_mem_range ::
    "u64 \<Rightarrow> addr \<Rightarrow> addr \<Rightarrow> ('pt range, 's) callback \<Rightarrow> 's \<Rightarrow> 'pt linux_process \<Rightarrow> 's \<times> 'pt linux_process" where
  "mapped_mem_range gap start fin cb s p =
     (let page_walk = (\<lambda>p'. snd (feed cb s (be_page_map (lp_backend p') (lp_translator p') gap start fin))) in
      case vma_cache p of
        (Inr vmas, p') \<Rightarrow>
          if vmas \<noteq> [] then (emit_vma_ranges (be_page_ops (lp_backend p')) vmas gap start fin cb s, p')
          else (page_walk p', p')
      | (Inl _, p') \<Rightarrow> (page_walk p', p'))"

section \<open>Environment\<close>

record env_var_info =
  ev_name :: string
  ev_value :: string
  ev_address :: addr
  ev_arch :: arch_ident

definition truncate_environment :: "bytes \<Rightarrow> bytes" where
  "truncate_environment buf =
     (case position (\<lambda>w. w = [0, 0]) (windows 2 buf) of
        Some e \<Rightarrow> take (e + 1) buf
      | None \<Rightarrow> (case position (\<lambda>b. b = 0) buf of Some e \<Rightarrow> take e buf | None \<Rightarrow> buf))"

definition read_environment_data :: "'pt linux_process \<Rightarrow> addr \<Rightarrow> bytes result" where
  "read_environment_data p env_block =
     (let info = lp_proc_info p in
      if env_block = NULL then Inl (OsLayer EnvarNotFound)
      else if env_block = lpi_env_start info \<and> lpi_env_end info \<noteq> NULL
      then read_string_range (proc_view p) (lpi_env_start info) (lpi_env_end info) MAX_ENVIRONMENT_BYTES
      else
        rbind (data_part (rd_raw (proc_view p) env_block MAX_ENVIRONMENT_BYTES)) (\<lambda>buf.
        Inr (truncate_environment buf)))"

fun envar_loop ::
    "addr \<Rightarrow> arch_ident \<Rightarrow> (env_var_info, 's) callback \<Rightarrow> string list \<Rightarrow> usize \<Rightarrow> 's \<Rightarrow> 's" where
  "envar_loop env_block architecture cb [] off s = s"
| "envar_loop env_block architecture cb (item # items) off s =
     (let next_off = sat_add off (of_nat (length item) + 1) in
      case split_once (CHR ''='') item of
        Some (name, value) \<Rightarrow>
          (case cb s \<lparr> ev_name = name, ev_value = value, ev_address = env_block + off, ev_arch = architecture \<rparr> of
             (go, s') \<Rightarrow> if go then envar_loop env_block architecture cb items next_off s' else s')
      | None \<Rightarrow> envar_loop env_block architecture cb items next_off s)"

definition envar_list_from_address ::
    "addr \<Rightarrow> arch_ident \<Rightarrow> (env_var_info, 's) callback \<Rightarrow> 's \<Rightarrow> 'pt linux_process \<Rightarrow> unit result \<times> 's" where
  "envar_list_from_address env_block architecture cb s p =
     (if architecture \<noteq> proc_arch p then (Inl (OsLayer EnvarNotFound), s)
      else
        case read_environment_data p env_block of
          Inl e \<Rightarrow> (Inl e, s)
        | Inr data \<Rightarrow> (Inr (), envar_loop env_block architecture cb (nul_split_strings data) 0 s))"

definition environment_block_address :: "arch_ident \<Rightarrow> 'pt linux_process \<Rightarrow> addr result" where
  "environment_block_address architecture p =
     (if architecture \<noteq> proc_arch p \<or> lpi_env_start (lp_proc_info p) = NULL
      then Inl (OsLayer EnvarNotFound) else Inr (lpi_env_start (lp_proc_info p)))"

definition envar_list_callback ::
    "arch_ident option \<Rightarrow> (env_var_info, 's) callback \<Rightarrow> 's \<Rightarrow> 'pt linux_process \<Rightarrow> unit result \<times> 's" where
  "envar_list_callback target_arch cb s p =
     (if target_arch \<noteq> None \<and> target_arch \<noteq> Some (proc_arch p) then (Inr (), s)
      else if lpi_env_start (lp_proc_info p) = NULL then (Inr (), s)
      else case environment_block_address (proc_arch p) p of
          Inl e \<Rightarrow> (Inl e, s)
        | Inr env_block \<Rightarrow> envar_list_from_address env_block (proc_arch p) cb s p)"

section \<open>The caches agree with memory\<close>

text \<open>The part of a process its caches do not touch, and what the caches stand for.\<close>

definition bare :: "'pt linux_process \<Rightarrow> 'pt linux_process" where
  "bare p = p \<lparr> lp_cached_vmas := None, lp_cached_modules := None \<rparr>"

definition fresh_modules :: "'pt linux_process \<Rightarrow> linux_module_entry list result" where
  "fresh_modules p =
     rbind (collect_vmas p) (\<lambda>vmas. Inr (aggregate_module_seeds (module_seeds (proc_view p) vmas)))"

definition coherent :: "'pt linux_process \<Rightarrow> bool" where
  "coherent p \<longleftrightarrow>
     (case lp_cached_vmas p of None \<Rightarrow> True | Some v \<Rightarrow> collect_vmas p = Inr v) \<and>
     (case lp_cached_modules p of None \<Rightarrow> True | Some m \<Rightarrow> fresh_modules p = Inr m)"

lemma bare_eqD:
  assumes "bare p = bare q"
  shows "lp_backend p = lp_backend q" "lp_arch p = lp_arch q" "lp_translator p = lp_translator q"
    "lp_proc_info p = lp_proc_info q" "lp_profile p = lp_profile q"
  using assms unfolding bare_def by (cases p, cases q, simp)+

lemma bare_same:
  assumes "bare p = bare q"
  shows "collect_vmas p = collect_vmas q" "fresh_modules p = fresh_modules q" "proc_view p = proc_view q"
    "proc_arch p = proc_arch q" "module_fallback p = module_fallback q" "lp_proc_info p = lp_proc_info q"
  using bare_eqD [OF assms]
  by (simp_all add: fresh_modules_def collect_vmas_def proc_view_def root_path_def proc_arch_def module_fallback_def)

lemma bare_updates [simp]:
  "bare (p \<lparr> lp_cached_vmas := v \<rparr>) = bare p" "bare (p \<lparr> lp_cached_modules := m \<rparr>) = bare p"
  "bare (bare p) = bare p"
  by (simp_all add: bare_def)

lemma bare_reads [simp]:
  "collect_vmas (bare p) = collect_vmas p" "fresh_modules (bare p) = fresh_modules p"
  "proc_arch (bare p) = proc_arch p" "module_fallback (bare p) = module_fallback p"
  using bare_same [of "bare p" p] by simp_all

lemma cache_reads [simp]:
  "collect_vmas (p \<lparr> lp_cached_vmas := v \<rparr>) = collect_vmas p"
  "fresh_modules (p \<lparr> lp_cached_vmas := v \<rparr>) = fresh_modules p"
  "collect_vmas (p \<lparr> lp_cached_modules := m \<rparr>) = collect_vmas p"
  "fresh_modules (p \<lparr> lp_cached_modules := m \<rparr>) = fresh_modules p"
  by (rule bare_same, simp)+

interpretation vmas: lazy_field lp_cached_vmas "\<lambda>c p. p \<lparr> lp_cached_vmas := Some c \<rparr>" "\<lambda>p. (collect_vmas p, p)"
    coherent bare collect_vmas
  by unfold_locales (auto simp: coherent_def split: option.splits)

lemma vma_cache_value:
  "coherent p \<Longrightarrow> fst (vma_cache p) = collect_vmas p \<and> coherent (snd (vma_cache p)) \<and> bare (snd (vma_cache p)) = bare p"
  using vmas.lazily_value [of p] by (simp add: vma_cache_def)

lemma collect_modules_value:
  assumes "coherent p"
  shows "fst (collect_modules p) = fresh_modules p \<and> coherent (snd (collect_modules p)) \<and>
    bare (snd (collect_modules p)) = bare p"
proof -
  obtain r p' where v: "vma_cache p = (r, p')" by (cases "vma_cache p") auto
  have r: "r = collect_vmas p" "coherent p'" "bare p' = bare p"
    using vma_cache_value [OF assms] by (simp_all add: v)
  then have "proc_view p' = proc_view p" by (intro bare_same(3))
  then show ?thesis
    using r by (cases "collect_vmas p") (simp_all add: collect_modules_def v fresh_modules_def)
qed

interpretation modules: lazy_field lp_cached_modules "\<lambda>c p. p \<lparr> lp_cached_modules := Some c \<rparr>" collect_modules
    coherent bare fresh_modules
  by unfold_locales (simp add: coherent_def, simp add: collect_modules_value, auto simp: coherent_def split: option.splits)

lemma module_cache_value:
  "coherent p \<Longrightarrow> fst (module_cache p) = fresh_modules p \<and> coherent (snd (module_cache p)) \<and>
     bare (snd (module_cache p)) = bare p"
  using modules.lazily_value [of p] by (simp add: module_cache_def)

text \<open>The same with the result and the process named.\<close>

lemma module_cache_cases:
  assumes "coherent p"
  obtains p' where "module_cache p = (fresh_modules p, p')" "coherent p'" "bare p' = bare p" "coherent p"
  using module_cache_value [OF assms] assms by (metis prod.collapse)

lemma vma_cache_cases:
  assumes "coherent p"
  obtains p' where "vma_cache p = (collect_vmas p, p')" "coherent p'" "bare p' = bare p" "coherent p"
  using vma_cache_value [OF assms] assms by (metis prod.collapse)

section \<open>Runs of a process\<close>

text \<open>The caller's callbacks keep a state of their own, here a number; it does not reach the process.\<close>

inductive proc_step :: "'pt linux_process \<Rightarrow> 'pt linux_process \<Rightarrow> bool" where
  set_dtb: "proc_step p (set_dtb dtb1 p)"
| primary: "proc_step p (snd (primary_module_address p))"
| list: "proc_step p (snd (snd (module_address_list_callback target_arch (cb :: (addr \<times> arch_ident, nat) callback) s p)))"
| by_address: "proc_step p (snd (module_by_address a architecture p))"
| ranges: "proc_step p (snd (mapped_mem_range gap start fin (rcb :: ('pt range, nat) callback) rs p))"

lemma primary_module_info_state:
  "coherent p \<Longrightarrow> coherent (snd (primary_module_info p)) \<and> bare (snd (primary_module_info p)) = bare p"
  by (erule module_cache_cases) (auto simp: primary_module_info_def split: sum.splits option.splits)

lemma primary_module_address_state: "snd (primary_module_address p) = snd (primary_module_info p)"
  by (simp add: primary_module_address_def split: prod.splits)

lemma module_address_list_state:
  "coherent p \<Longrightarrow> coherent (snd (snd (module_address_list_callback ta cb s p))) \<and>
     bare (snd (snd (module_address_list_callback ta cb s p))) = bare p"
  by (erule module_cache_cases)
    (auto simp: module_address_list_callback_def split: sum.splits option.splits prod.splits bool.splits)

lemma module_by_address_state:
  "coherent p \<Longrightarrow> coherent (snd (module_by_address a ar p)) \<and> bare (snd (module_by_address a ar p)) = bare p"
  by (erule module_cache_cases) (auto simp: module_by_address_def split: sum.splits option.splits)

lemma mapped_mem_range_state:
  "coherent p \<Longrightarrow> coherent (snd (mapped_mem_range g st fi cb s p)) \<and> bare (snd (mapped_mem_range g st fi cb s p)) = bare p"
  by (erule vma_cache_cases) (auto simp: mapped_mem_range_def Let_def split: sum.splits)

lemma set_dtb_coherent: "coherent (set_dtb d p)"
  by (simp add: coherent_def set_dtb_def Let_def)

lemma proc_step_coherent: "proc_step p q \<Longrightarrow> coherent p \<Longrightarrow> coherent q"
proof (induction rule: proc_step.induct)
  case (set_dtb p dtb1)
  show ?case by (rule set_dtb_coherent)
qed (simp_all add: primary_module_address_state primary_module_info_state module_address_list_state
    module_by_address_state mapped_mem_range_state)

lemma new_process_coherent: "coherent (new_process b pr info)"
  by (simp add: coherent_def new_process_def)

lemma run_coherent: "proc_step\<^sup>*\<^sup>* (new_process b pr info) p \<Longrightarrow> coherent p"
  by (induction rule: rtranclp_induct) (auto intro: new_process_coherent proc_step_coherent)

text \<open>What a process without caches answers: the reference of the operations.\<close>

definition find_module :: "addr \<Rightarrow> arch_ident \<Rightarrow> 'pt linux_process \<Rightarrow> module_info result" where
  "find_module a architecture p =
     (if architecture \<noteq> proc_arch p then Inl (OsLayer ModuleNotFound)
      else
        rbind (fresh_modules p) (\<lambda>modules.
          case find (\<lambda>m. me_address m = a) modules of
            Some m \<Rightarrow> Inr (to_module_info (lp_proc_info p) m)
          | None \<Rightarrow> ok_or (OsLayer ModuleNotFound) (option_filter (\<lambda>m. mi_address m = a) (module_fallback p))))"

definition listed_modules :: "'pt linux_process \<Rightarrow> module_info list result" where
  "listed_modules p =
     rbind (fresh_modules p) (\<lambda>modules.
       Inr (if modules = [] then (case module_fallback p of Some m \<Rightarrow> [m] | None \<Rightarrow> [])
            else map (to_module_info (lp_proc_info p)) modules))"

lemma module_by_address_value:
  "coherent p \<Longrightarrow> fst (module_by_address a ar p) = find_module a ar p"
  by (erule module_cache_cases)
    (auto simp: module_by_address_def find_module_def dest: bare_same split: sum.splits option.splits)

lemma module_address_list_value:
  assumes "coherent p" "target_arch = None \<or> target_arch = Some (proc_arch p)"
  shows "fst (module_address_list_callback target_arch collect acc p) =
      rbind (listed_modules p) (\<lambda>ms. Inr ()) \<and>
    (listed_modules p = Inr ms \<longrightarrow>
       fst (snd (module_address_list_callback target_arch collect acc p)) =
         acc @ map (\<lambda>m. (mi_address m, mi_arch m)) ms)"
proof -
  obtain p' where m: "module_cache p = (fresh_modules p, p')" and b: "bare p' = bare p"
    using module_cache_cases [OF assms(1)] by metis
  note same = bare_same [OF b]
  have arch: "mi_arch (to_module_info (lp_proc_info p) e) = proc_arch p" for e
    by (simp add: to_module_info_def proc_arch_def)
  have addr: "mi_address (to_module_info i e) = me_address e" for e i by (simp add: to_module_info_def)
  show ?thesis
    using assms(2)
    by (cases "fresh_modules p"; cases "module_fallback p")
      (auto simp: module_address_list_callback_def listed_modules_def m feed_collect same arch addr collect_def
        module_fallback_def Let_def comp_def)
qed

text \<open>
  C7. Whatever was asked of a process and however often its page table was switched, its two caches
  agree with memory: looking a module up and listing the modules answer what a process without
  caches computes from the current page table.
\<close>

theorem process_answers_are_fresh:
  assumes "proc_step\<^sup>*\<^sup>* (new_process backend profile info) p"
  shows "fst (module_by_address a architecture p) = find_module a architecture p \<and>
    (listed_modules p = Inr ms \<longrightarrow>
       fst (snd (module_address_list_callback None collect [] p)) = map (\<lambda>m. (mi_address m, mi_arch m)) ms) \<and>
    (case lp_cached_vmas p of None \<Rightarrow> True | Some vmas \<Rightarrow> collect_vmas p = Inr vmas)"
  using module_by_address_value [OF run_coherent [OF assms]]
    module_address_list_value [OF run_coherent [OF assms], of None "[]" ms] run_coherent [OF assms]
  by (simp add: coherent_def)

end
