(* ===== verification/Process_Queries.thy ===== *)
theory Process_Queries
  imports Process
begin

text \<open>
  What a process answers: its environment, its primary module, and the sample processes on which the
  properties of \<open>Process\<close> and of this theory are evaluated.
\<close>

section \<open>The environment block\<close>

text \<open>The variables of a block whose strings follow each other, and where each one lies.\<close>

fun env_infos :: "arch_ident \<Rightarrow> addr \<Rightarrow> string list \<Rightarrow> env_var_info list" where
  "env_infos arch a [] = []"
| "env_infos arch a (item # items) =
     (case split_once (CHR ''='') item of
        Some (name, value) \<Rightarrow> [\<lparr> ev_name = name, ev_value = value, ev_address = a, ev_arch = arch \<rparr>]
      | None \<Rightarrow> []) @ env_infos arch (a + of_nat (length item) + 1) items"

lemma sat_add_of_nat:
  assumes "k + n < 18446744073709551616"
  shows "sat_add (of_nat k) (of_nat n) = (of_nat (k + n) :: u64)"
proof -
  have "unat (of_nat k :: u64) = k" "unat (of_nat n :: u64) = n" "unat (of_nat (k + n) :: u64) = k + n"
    using assms by (simp_all add: unat_of_nat take_bit_nat_eq_self del: of_nat_add)
  then show ?thesis using assms by (simp add: word_unat_eq_iff unat_sat_add del: of_nat_add)
qed

lemma envar_loop_feed:
  "off + length (concat (map (\<lambda>i. to_bytes i @ [0]) items)) < 18446744073709551616 \<Longrightarrow>
   envar_loop block arch cb items (of_nat off) s = snd (feed cb s (env_infos arch (block + of_nat off) items))"
proof (induction items arbitrary: off s)
  case (Cons item items)
  have "sat_add (of_nat off) (of_nat (Suc (length item))) = (of_nat (off + Suc (length item)) :: u64)"
    by (rule sat_add_of_nat) (use Cons.prems in simp)
  then have off: "sat_add (of_nat off) (of_nat (length item) + 1) = (of_nat (off + Suc (length item)) :: u64)"
    by (simp add: add.commute)
  have a: "block + of_nat off + of_nat (length item) + 1 = block + of_nat (off + Suc (length item))"
    by simp
  show ?case
    unfolding envar_loop.simps Let_def off env_infos.simps a
    using Cons.IH [of "off + Suc (length item)"] Cons.prems
    by (auto split: option.splits prod.splits)
qed simp

text \<open>A variable lies at its address: its text and the closing NUL are the bytes of the block there.\<close>

definition lies_at :: "addr \<Rightarrow> bytes \<Rightarrow> env_var_info \<Rightarrow> bool" where
  "lies_at block data e \<longleftrightarrow> starts_with (to_bytes (ev_name e @ CHR ''='' # ev_value e) @ [0])
     (drop (unat (ev_address e - block)) data)"

lemma env_infos_lie:
  assumes "length pre + length (concat (map (\<lambda>i. to_bytes i @ [0]) items)) < 18446744073709551616"
  shows "list_all (lies_at block (pre @ concat (map (\<lambda>i. to_bytes i @ [0]) items)))
    (env_infos arch (block + of_nat (length pre)) items)"
  using assms
proof (induction items arbitrary: pre)
  case (Cons item items)
  let ?rest = "concat (map (\<lambda>i. to_bytes i @ [0]) items)"
  have a: "block + of_nat (length pre) + of_nat (length item) + 1 = block + of_nat (length (pre @ to_bytes item @ [0]))"
    by simp
  have rest: "list_all (lies_at block (pre @ to_bytes item @ [0] @ ?rest))
      (env_infos arch (block + of_nat (length pre) + of_nat (length item) + 1) items)"
    unfolding a using Cons.IH [of "pre @ to_bytes item @ [0]"] Cons.prems by (simp del: of_nat_add)
  have "unat (of_nat (length pre) :: u64) = length pre"
    using Cons.prems by (simp add: unat_of_nat take_bit_nat_eq_self)
  then have first: "lies_at block (pre @ to_bytes item @ [0] @ ?rest)
      \<lparr> ev_name = n, ev_value = v, ev_address = block + of_nat (length pre), ev_arch = arch \<rparr>"
    if "split_once (CHR ''='') item = Some (n, v)" for n v
    using split_once_Some [OF that] by (simp add: lies_at_def starts_with_def to_bytes_def)
  show ?case using rest first by (auto split: option.splits)
qed simp

lemma env_infos_values:
  "map (\<lambda>e. (ev_name e, ev_value e)) (env_infos arch a items) = List.map_filter (split_once (CHR ''='')) items"
  by (induction items arbitrary: a) (auto simp: map_filter_def split: option.splits)

text \<open>
  C30. An environment block of UTF-8 strings, each ended by a NUL, is reported as the names and values of its
  strings that have an equals sign, in order and each at the address where its text lies, until the
  callback declines.
\<close>

theorem envar_list_reports_block:
  assumes "read_environment_data p block = Inr data" "architecture = proc_arch p"
    and "data = concat (map (\<lambda>i. to_bytes i @ [0]) items)" "length data \<le> MAX_ENVIRONMENT_BYTES"
    and "\<forall>i \<in> set items. i \<noteq> [] \<and> 0 \<notin> set (to_bytes i) \<and> utf8_valid (to_bytes i)"
  shows "\<exists>infos. (\<forall>cb s. envar_list_from_address block architecture cb s p = (Inr (), snd (feed cb s infos))) \<and>
    map (\<lambda>e. (ev_name e, ev_value e)) infos = List.map_filter (split_once (CHR ''='')) items \<and>
    list_all (lies_at block data) infos"
proof -
  let ?infos = "env_infos architecture block items"
  have small: "length (concat (map (\<lambda>i. to_bytes i @ [0]) items)) < 18446744073709551616"
    using assms(3,4) by (simp add: MAX_ENVIRONMENT_BYTES_def)
  have "envar_list_from_address block architecture cb s p = (Inr (), snd (feed cb s ?infos))" for cb :: "(env_var_info, 'b) callback" and s
    using envar_loop_feed [of 0 items block architecture cb s] small assms(1,2)
    by (simp add: envar_list_from_address_def assms(3) nul_split_strings_args [OF assms(5)])
  moreover have "list_all (lies_at block data) ?infos"
    using env_infos_lie [of "[]" items block architecture] small assms(3) by simp
  ultimately show ?thesis using env_infos_values by blast
qed

section \<open>The primary module\<close>

lemma aggregate_from_seeds: "m \<in> set (aggregate_module_seeds seeds) \<Longrightarrow> from_seeds (set seeds) m"
  using aggregate_aggregated [of seeds] by (auto simp: aggregate_module_seeds_def aggregated_def module_ok_def)

lemma aggregate_covers:
  "s \<in> set seeds \<Longrightarrow> sd_has_elf_header s \<Longrightarrow> sd_start s < sd_end s \<Longrightarrow>
   \<exists>m \<in> set (aggregate_module_seeds seeds). holds_seed m s"
  using aggregate_aggregated [of seeds]
  by (auto simp: aggregate_module_seeds_def aggregated_def placed_def left_out_def)

lemma module_seeds_set:
  "s \<in> set (module_seeds mem vmas) \<longleftrightarrow>
   (\<exists>v \<in> set vmas. s = seed_of mem v \<and> v_file v \<noteq> NULL \<and> v_start v < v_end v)"
  by (auto simp: module_seeds_def sat_sub_zero_iff not_le)

lemma find_Some_mem: "find p xs = Some x \<Longrightarrow> x \<in> set xs \<and> p x"
  by (auto simp: find_Some_iff)

text \<open>An area of the executable of a process that has an ELF header.\<close>

definition exe_header :: "'pt linux_process \<Rightarrow> linux_vma_info \<Rightarrow> bool" where
  "exe_header p v \<longleftrightarrow> v_file v = lpi_exe_file (lp_proc_info p) \<and> v_file v \<noteq> NULL \<and> v_start v < v_end v \<and>
     is_elf_image (proc_view p) (v_start v)"

text \<open>The lowest base of the modules with a property.\<close>

definition lowest_base :: "(linux_module_entry \<Rightarrow> bool) \<Rightarrow> linux_module_entry list \<Rightarrow> addr \<Rightarrow> bool" where
  "lowest_base P ms a \<longleftrightarrow> (\<exists>m \<in> set ms. P m \<and> me_base m = a) \<and> (\<forall>m \<in> set ms. P m \<longrightarrow> a \<le> me_base m)"

definition holds_code :: "addr \<Rightarrow> linux_module_entry \<Rightarrow> bool" where
  "holds_code code m \<longleftrightarrow> me_base m \<le> code \<and> code < module_end m"

text \<open>What is left without a module: the page of the code the memory descriptor names, or no answer.\<close>

definition code_page :: "linux_process_info \<Rightarrow> addr result" where
  "code_page info =
     (if lpi_start_code info \<noteq> NULL \<and> lpi_start_code info < lpi_end_code info
      then Inr (lpi_start_code info - lpi_start_code info mod 4096) else Inl (OsLayer ModuleNotFound))"

lemma find_sorted_least:
  "sorted (map f xs) \<Longrightarrow> find P xs = Some x \<Longrightarrow> x \<in> set xs \<and> P x \<and> (\<forall>y \<in> set xs. P y \<longrightarrow> f x \<le> f y)"
  by (induction xs) (auto split: if_splits)

lemma find_lowest:
  assumes "find P (aggregate_module_seeds seeds) = Some m"
  shows "lowest_base P (aggregate_module_seeds seeds) (me_address m) \<and> me_file m \<in> me_file ` set (filter P (aggregate_module_seeds seeds))"
proof -
  have "sorted (map me_base (aggregate_module_seeds seeds))" by (simp add: aggregate_module_seeds_def)
  from find_sorted_least [OF this assms] aggregate_from_seeds [of m seeds] show ?thesis
    by (auto simp: lowest_base_def from_seeds_def)
qed

lemma exe_module_iff:
  fixes p :: "'pt linux_process" and vmas :: "linux_vma_info list"
  defines "ms \<equiv> aggregate_module_seeds (module_seeds (proc_view p) vmas)" and "exe \<equiv> lpi_exe_file (lp_proc_info p)"
  shows "v \<in> set vmas \<Longrightarrow> exe_header p v \<Longrightarrow> \<exists>m \<in> set ms. exe \<noteq> NULL \<and> me_file m = exe \<and> me_base m \<le> v_start v"
    and "m \<in> set ms \<Longrightarrow> exe \<noteq> NULL \<Longrightarrow> me_file m = exe \<Longrightarrow> \<exists>v \<in> set vmas. exe_header p v \<and> v_start v = me_base m"
proof -
  show "\<exists>m \<in> set ms. exe \<noteq> NULL \<and> me_file m = exe \<and> me_base m \<le> v_start v" if v: "v \<in> set vmas" "exe_header p v"
  proof -
    have "seed_of (proc_view p) v \<in> set (module_seeds (proc_view p) vmas)"
      using v by (auto simp: module_seeds_set exe_header_def)
    from aggregate_covers [OF this] v(2) show ?thesis
      unfolding ms_def exe_def by (auto simp: seed_of_def holds_seed_def exe_header_def)
  qed
  show "\<exists>v \<in> set vmas. exe_header p v \<and> v_start v = me_base m" if m: "m \<in> set ms" "exe \<noteq> NULL" "me_file m = exe"
  proof -
    obtain s where s: "s \<in> set (module_seeds (proc_view p) vmas)" "sd_has_elf_header s" "sd_file s = exe"
      "sd_start s = me_base m"
      using aggregate_from_seeds [OF m(1) [unfolded ms_def]] m(3) by (auto simp: from_seeds_def)
    then obtain v where "v \<in> set vmas" "s = seed_of (proc_view p) v" "v_file v \<noteq> NULL" "v_start v < v_end v"
      by (auto simp: module_seeds_set)
    with s show ?thesis by (auto simp: exe_header_def seed_of_def exe_def intro!: bexI [of _ v])
  qed
qed

lemma module_fallback_page:
  "ok_or (OsLayer ModuleNotFound) (map_option mi_address (module_fallback p)) = code_page (lp_proc_info p)"
  by (auto simp: module_fallback_def code_page_def Let_def not_less as_page_aligned_def)

lemma primary_module_value:
  assumes "coherent p"
  shows "fst (primary_module_address p) =
    (case fresh_modules p of
       Inr ms \<Rightarrow> (case choose_primary (lp_proc_info p) ms of
           Some m \<Rightarrow> Inr (me_address m) | None \<Rightarrow> code_page (lp_proc_info p))
     | Inl _ \<Rightarrow> code_page (lp_proc_info p))"
proof -
  obtain p' where c: "module_cache p = (fresh_modules p, p')" and b: "bare p' = bare p"
    using module_cache_cases [OF assms] by metis
  note same = bare_same [OF b]
  show ?thesis
    using module_fallback_page [of p]
    by (auto simp: primary_module_address_def primary_module_info_def c same to_module_info_def
        split: sum.splits option.splits)
qed

text \<open>
  C39. What a process answers for its primary module, in this order: the lowest area of its executable that has an ELF
  header; the lowest module that holds its code; the lowest module; without a module, or when the areas cannot be
  collected, the page of the code that the memory descriptor names; and otherwise that there is none. The caches of the process
  do not show in the answer.
\<close>

theorem primary_module_exact:
  assumes "proc_step\<^sup>*\<^sup>* (new_process backend profile info) p"
  shows "case collect_vmas p of
    Inr vmas \<Rightarrow>
      (let ms = aggregate_module_seeds (module_seeds (proc_view p) vmas); code = lpi_start_code (lp_proc_info p) in
       if \<exists>v \<in> set vmas. exe_header p v then
         \<exists>v \<in> set vmas. exe_header p v \<and> fst (primary_module_address p) = Inr (v_start v) \<and>
           (\<forall>w \<in> set vmas. exe_header p w \<longrightarrow> v_start v \<le> v_start w)
       else if \<exists>m \<in> set ms. holds_code code m then
         \<exists>a. fst (primary_module_address p) = Inr a \<and> lowest_base (holds_code code) ms a
       else if ms \<noteq> [] then \<exists>a. fst (primary_module_address p) = Inr a \<and> lowest_base (\<lambda>_. True) ms a
       else fst (primary_module_address p) = code_page (lp_proc_info p))
  | Inl _ \<Rightarrow> fst (primary_module_address p) = code_page (lp_proc_info p)"
proof (cases "collect_vmas p")
  case (Inl e)
  then show ?thesis
    using primary_module_value [OF run_coherent [OF assms]] by (simp add: fresh_modules_def)
next
  case (Inr vmas)
  let ?ms = "aggregate_module_seeds (module_seeds (proc_view p) vmas)" and ?code = "lpi_start_code (lp_proc_info p)"
  let ?of_exe = "\<lambda>m. lpi_exe_file (lp_proc_info p) \<noteq> NULL \<and> me_file m = lpi_exe_file (lp_proc_info p)"
  have answer: "fst (primary_module_address p) = (case choose_primary (lp_proc_info p) ?ms of
      Some m \<Rightarrow> Inr (me_address m) | None \<Rightarrow> code_page (lp_proc_info p))"
    using primary_module_value [OF run_coherent [OF assms]] Inr by (simp add: fresh_modules_def)
  have code: "contains_code ?code = holds_code ?code"
    by (auto simp: contains_code_def holds_code_def module_end_def)
  note exe = exe_module_iff [where p = p and vmas = vmas]
  consider m where "find ?of_exe ?ms = Some m" | m where "find ?of_exe ?ms = None" "find (holds_code ?code) ?ms = Some m"
    | "find ?of_exe ?ms = None" "find (holds_code ?code) ?ms = None" by (cases "find ?of_exe ?ms"; cases "find (holds_code ?code) ?ms") auto
  then show ?thesis
  proof cases
    case (1 m)
    note low = find_lowest [OF 1]
    have a: "fst (primary_module_address p) = Inr (me_address m)" using answer 1 by (simp add: choose_primary_def)
    obtain n where n: "n \<in> set ?ms" "?of_exe n" "me_base n = me_address m" "\<forall>k \<in> set ?ms. ?of_exe k \<longrightarrow> me_address m \<le> me_base k"
      using low by (auto simp: lowest_base_def)
    then obtain v where v: "v \<in> set vmas" "exe_header p v" "v_start v = me_address m"
      using exe(2) [of n] by auto
    moreover have "v_start v \<le> v_start w" if "w \<in> set vmas" "exe_header p w" for w
      using exe(1) [OF that] n(4) v(3) by fastforce
    ultimately show ?thesis using Inr a by (auto simp: Let_def)
  next
    case (2 m)
    then have "\<not> (\<exists>v \<in> set vmas. exe_header p v)" using exe(1) by (fastforce simp: find_None_iff)
    moreover have "\<exists>m \<in> set ?ms. holds_code ?code m" using find_Some_mem [OF 2(2)] by blast
    moreover have "fst (primary_module_address p) = Inr (me_address m)" using answer 2 code by (simp add: choose_primary_def)
    ultimately show ?thesis using Inr find_lowest [OF 2(2)] by (auto simp: Let_def)
  next
    case 3
    then have "\<not> (\<exists>v \<in> set vmas. exe_header p v)" using exe(1) by (fastforce simp: find_None_iff)
    moreover have "\<not> (\<exists>m \<in> set ?ms. holds_code ?code m)" using 3(2) by (auto simp: find_None_iff)
    moreover have "fst (primary_module_address p) = (case ?ms of m # _ \<Rightarrow> Inr (me_address m) | [] \<Rightarrow> code_page (lp_proc_info p))"
      using answer 3 code by (auto simp: choose_primary_def split: list.splits)
    moreover have "find (\<lambda>_. True) ?ms = (case ?ms of m # _ \<Rightarrow> Some m | [] \<Rightarrow> None)" by (auto split: list.splits)
    ultimately show ?thesis
      using Inr find_lowest [of "\<lambda>_. True" "module_seeds (proc_view p) vmas"] by (auto simp: Let_def split: list.splits)
  qed
qed

section \<open>Sample processes\<close>

definition empty_machine :: physmem where
  "empty_machine = \<lparr> pm_max_address = 0, pm_real_size = 1, pm_ideal_batch_size = 1, pm_readonly = True,
     pm_view = empty_view, pm_virt = (\<lambda>_. empty_view),
     pm_virt_to_phys = (\<lambda>_ _. Inl (Connector 0)), pm_phys_to_virt = (\<lambda>_ _. None) \<rparr>"

text \<open>A machine whose process memory is behind the page-table root \<open>0x1000\<close>.\<close>

definition sample_backend :: "memview \<Rightarrow> nat backend" where
  "sample_backend view = \<lparr> be_phys = empty_machine, be_view = (\<lambda>_ dtb. if dtb = 0x1000 then view else empty_view),
     be_page_map = (\<lambda>_ _ _ _. []), be_page_ops = sample_page_ops \<rparr>"

definition sample_proc_info :: linux_process_info where
  "sample_proc_info =
     \<lparr> lpi_base_info = \<lparr> pi_address = 0x9000, pi_pid = 1, pi_state = Alive, pi_name = ''init'', pi_path = ''/sbin/init'',
         pi_command_line = ''init'', pi_sys_arch = linux_arch, pi_proc_arch = linux_arch, pi_dtb1 = 0x1000,
         pi_dtb2 = INVALID \<rparr>,
       lpi_task = 0x9000, lpi_mm = 0x1fc0, lpi_active_mm = 0x1fc0, lpi_fs = NULL, lpi_files = NULL, lpi_signal = NULL,
       lpi_exe_file = 0xa000, lpi_start_code = 0x400000, lpi_end_code = 0x401000, lpi_arg_start = NULL,
       lpi_arg_end = NULL, lpi_env_start = 0x7000, lpi_env_end = 0x700a \<rparr>"

definition sample_env :: bytes where
  "sample_env = [0x41, 0x3d, 0x31, 0, 0x42, 0x42, 0, 0x43, 0x3d, 0]"

definition sample_env_process :: "nat linux_process" where
  "sample_env_process =
     new_process (sample_backend (empty_view\<lparr>rd_raw := (\<lambda>_ _. Full sample_env)\<rparr>)) sample_profile sample_proc_info"

theorem envar_list_reports_block_witness:
  "\<exists>infos. envar_list_from_address 0x7000 linux_arch collect [] sample_env_process = (Inr (), infos) \<and>
     map (\<lambda>e. (ev_name e, ev_value e)) infos = [(''A'', ''1''), (''C'', [])]"
proof -
  let ?items = "[''A=1'', ''BB'', ''C='']"
  have read: "read_environment_data sample_env_process 0x7000 = Inr sample_env"
    by (simp add: read_environment_data_def sample_env_process_def new_process_def proc_view_def sample_backend_def
        sample_proc_info_def read_string_range_def checked_sub_def MAX_ENVIRONMENT_BYTES_def Let_def)
  have arch: "linux_arch = proc_arch sample_env_process"
    by (simp add: sample_env_process_def new_process_def proc_arch_def sample_proc_info_def)
  have b: "to_bytes ''A=1'' = [0x41, 0x3d, 0x31]" "to_bytes ''BB'' = [0x42, 0x42]" "to_bytes ''C='' = [0x43, 0x3d]"
    by (simp_all add: to_bytes_def)
  have v: "utf8_valid [0x41, 0x3d, 0x31]" "utf8_valid [0x42, 0x42]" "utf8_valid [0x43, 0x3d]"
    by (simp_all add: utf8_valid_ascii)
  have data: "sample_env = concat (map (\<lambda>i. to_bytes i @ [0]) ?items)" by (simp add: b sample_env_def)
  have "length sample_env \<le> MAX_ENVIRONMENT_BYTES" by (simp add: sample_env_def MAX_ENVIRONMENT_BYTES_def)
  moreover have "\<forall>i \<in> set ?items. i \<noteq> [] \<and> 0 \<notin> set (to_bytes i) \<and> utf8_valid (to_bytes i)"
    using b v by simp
  ultimately
  obtain infos where
    i: "\<And>cb s. envar_list_from_address 0x7000 linux_arch cb s sample_env_process =
          (Inr (), snd (feed cb (s :: env_var_info list) infos))"
      "map (\<lambda>e. (ev_name e, ev_value e)) infos = List.map_filter (split_once (CHR ''='')) ?items"
    using envar_list_reports_block [OF read arch data] by blast
  show ?thesis using i(2) by (simp add: i(1) feed_collect map_filter_def)
qed

text \<open>
  The offsets are counted over the strings that are left after empty ones were dropped, so after an
  empty string every variable is reported one byte too low.
\<close>

definition sample_gap_env :: bytes where
  "sample_gap_env = [0x41, 0x3d, 0x31, 0, 0, 0x42, 0x3d, 0x32, 0, 0]"

definition sample_gap_process :: "nat linux_process" where
  "sample_gap_process =
     new_process (sample_backend (empty_view\<lparr>rd_raw := (\<lambda>_ _. Full sample_gap_env)\<rparr>)) sample_profile sample_proc_info"

theorem envar_address_after_empty_string:
  "snd (envar_list_from_address 0x7000 linux_arch collect [] sample_gap_process) =
     [\<lparr> ev_name = ''A'', ev_value = ''1'', ev_address = 0x7000, ev_arch = linux_arch \<rparr>,
      \<lparr> ev_name = ''B'', ev_value = ''2'', ev_address = 0x7004, ev_arch = linux_arch \<rparr>] \<and>
   \<not> lies_at 0x7000 sample_gap_env \<lparr> ev_name = ''B'', ev_value = ''2'', ev_address = 0x7004, ev_arch = linux_arch \<rparr> \<and>
   lies_at 0x7000 sample_gap_env \<lparr> ev_name = ''B'', ev_value = ''2'', ev_address = 0x7005, ev_arch = linux_arch \<rparr>"
proof -
  have read: "read_environment_data sample_gap_process 0x7000 = Inr sample_gap_env"
    by (simp add: read_environment_data_def sample_gap_process_def new_process_def proc_view_def sample_backend_def
        sample_proc_info_def read_string_range_def checked_sub_def MAX_ENVIRONMENT_BYTES_def Let_def)
  have arch: "proc_arch sample_gap_process = linux_arch"
    by (simp add: sample_gap_process_def new_process_def proc_arch_def sample_proc_info_def)
  have b: "to_bytes ''A=1'' = [0x41, 0x3d, 0x31]" "to_bytes ''B=2'' = [0x42, 0x3d, 0x32]"
    by (simp_all add: to_bytes_def)
  have "utf8_valid (to_bytes ''A=1'')" "utf8_valid (to_bytes ''B=2'')" by (simp_all add: b utf8_valid_ascii)
  then have "from_utf8_lossy (to_bytes ''A=1'') = ''A=1''" "from_utf8_lossy (to_bytes ''B=2'') = ''B=2''"
    by (simp_all add: from_utf8_lossy_valid)
  then have "from_utf8_lossy [0x41, 0x3d, 0x31] = ''A=1''" "from_utf8_lossy [0x42, 0x3d, 0x32] = ''B=2''"
    unfolding b .
  then have strings: "nul_split_strings sample_gap_env = [''A=1'', ''B=2'']"
    by (simp add: nul_split_strings_def sample_gap_env_def)
  have "snd (envar_list_from_address 0x7000 linux_arch collect [] sample_gap_process) =
     [\<lparr> ev_name = ''A'', ev_value = ''1'', ev_address = 0x7000, ev_arch = linux_arch \<rparr>,
      \<lparr> ev_name = ''B'', ev_value = ''2'', ev_address = 0x7004, ev_arch = linux_arch \<rparr>]"
    by (simp add: envar_list_from_address_def arch read strings collect_def sat_add_def Let_def)
  moreover have "\<not> lies_at 0x7000 sample_gap_env \<lparr> ev_name = ''B'', ev_value = ''2'', ev_address = 0x7004, ev_arch = linux_arch \<rparr>"
    "lies_at 0x7000 sample_gap_env \<lparr> ev_name = ''B'', ev_value = ''2'', ev_address = 0x7005, ev_arch = linux_arch \<rparr>"
    by (simp_all add: lies_at_def sample_gap_env_def starts_with_def to_bytes_def)
  ultimately show ?thesis by blast
qed

theorem process_answers_are_fresh_witness:
  "let p = set_dtb 0x3000 (snd (module_by_address 0x400000 linux_arch sample_env_process)) in
   fst (module_by_address 0x400000 linux_arch p) = find_module 0x400000 linux_arch p"
proof -
  let ?q = "snd (module_by_address 0x400000 linux_arch sample_env_process)"
  have "proc_step\<^sup>*\<^sup>* sample_env_process (set_dtb 0x3000 ?q)"
    by (meson proc_step.by_address proc_step.set_dtb r_into_rtranclp rtranclp.rtrancl_into_rtrancl)
  then show ?thesis
    unfolding Let_def sample_env_process_def using process_answers_are_fresh by blast
qed

text \<open>A process whose only area, the root of its maple tree, is its executable with an ELF header.\<close>

definition sample_exe_view :: memview where
  "sample_exe_view = empty_view
     \<lparr> rd_u64 := (\<lambda>a. case map_of [(0x2008, 0x10000), (0x10000, 0x400000), (0x10008, 0x402000), (0x10020, 5)] a of
            Some v \<Rightarrow> Full v | None \<Rightarrow> Fail (Connector 2)),
       rd_addr := (\<lambda>a. if a = 0x100a0 then Full 0xa000 else Fail (Connector 2)),
       rd_raw := (\<lambda>a n. if a = 0x400000 \<and> n = 4 then Full ELF_MAGIC else Fail (Connector 2)) \<rparr>"

definition sample_exe_process :: "nat linux_process" where
  "sample_exe_process = new_process (sample_backend sample_exe_view) sample_profile sample_proc_info"

definition sample_exe_area :: linux_vma_info where
  "sample_exe_area = \<lparr> v_vma = 0x10000, v_start = 0x400000, v_end = 0x402000, v_flags = 5, v_file = 0xa000,
     v_path = [], v_name = [] \<rparr>"

lemma sample_exe_read:
  "read_vma_info sample_exe_view (pr_offsets sample_profile) None 0x10000 = Inr (Some sample_exe_area)"
  by (simp add: read_vma_info_def sample_exe_view_def sample_profile_def Let_def empty_view_def read_path_def
      sample_exe_area_def)

lemma sample_exe_vmas: "collect_vmas sample_exe_process = Inr [sample_exe_area]"
proof -
  have "walk_maple_entry (Suc MAX_MAPLE_DEPTH) sample_exe_view (pr_offsets sample_profile) None 0x10000 0 (- 1) [] =
      Inr [sample_exe_area]"
    by (simp add: push_vma_entry_def sample_exe_read MAX_VMA_ITER_def maple_type_def MAPLE_INTERNAL_NODE_def
        MAPLE_ROOT_NODE_def)
  moreover have "rd_u64 sample_exe_view (0x2000 + mt_ma_root (maple_tree (off_maple (pr_offsets sample_profile)))) = Full 0x10000"
    by (simp add: sample_exe_view_def sample_profile_def)
  ultimately have "collect_vmas_maple sample_exe_view (pr_offsets sample_profile) None 0x2000 = Inr [sample_exe_area]"
    by (simp add: collect_vmas_maple_def)
  moreover have "mm_mm_mt (off_mm (pr_offsets sample_profile)) = Some 0x40" by (simp add: sample_profile_def)
  ultimately show ?thesis
    by (simp add: collect_vmas_def collect_vmas_mm_def sample_exe_process_def new_process_def proc_view_def
        sample_backend_def sample_proc_info_def root_path_def non_null_def Let_def)
qed

theorem primary_module_exact_witness:
  "fst (primary_module_address sample_exe_process) = Inr 0x400000"
proof -
  have "proc_step\<^sup>*\<^sup>* sample_exe_process sample_exe_process" by simp
  moreover have "exe_header sample_exe_process sample_exe_area"
    by (simp add: exe_header_def is_elf_image_def proc_view_def sample_exe_process_def new_process_def sample_backend_def
        sample_proc_info_def sample_exe_view_def sample_exe_area_def)
  moreover have "v_start sample_exe_area = 0x400000" by (simp add: sample_exe_area_def)
  ultimately show ?thesis
    using primary_module_exact [of "sample_backend sample_exe_view" sample_profile sample_proc_info sample_exe_process]
    unfolding sample_exe_process_def [symmetric] by (simp add: sample_exe_vmas)
qed

section \<open>32-bit processes\<close>

text \<open>
  The view of a 32-bit process reads pointers of 32 bits with \<open>read_addr\<close>, also the pointers of the
  kernel's own structures: the file of an area comes back cut, so its path is not found.
\<close>

definition narrow_view :: "memview \<Rightarrow> memview" where
  "narrow_view mem = mem\<lparr> rd_addr := (\<lambda>a. case rd_addr64 mem a of Full v \<Rightarrow> Full (v AND 0xffffffff)
     | Partial v \<Rightarrow> Partial (v AND 0xffffffff) | Fail e \<Rightarrow> Fail e) \<rparr>"

theorem narrow_view_cuts_file:
  assumes "read_vma_info (narrow_view mem) offs root a = Inr (Some v)"
    and "rd_addr64 mem (a + vma_vm_file (off_vma offs)) = Full file"
  shows "v_file v = file AND 0xffffffff"
  using assms by (auto simp: read_vma_info_def rbind_Inr_iff Let_def narrow_view_def split: if_splits)

end
