(* ===== verification/Kernel_Os.thy ===== *)
theory Kernel_Os
  imports Discovery Process_Queries
begin

text \<open>
  \<open>memflow-linux/src/kernel.rs\<close>, last part: the running kernel object and its \<open>Os\<close> operations: the list of
  processes and their description, the kernel modules, and the kernel's own symbols. As for a process, an
  operation returns its result and the kernel after it; the raw memory traits only forward to the connector
  and the translator and have no model.
\<close>

definition MAX_PROCESS_ITER :: nat where "MAX_PROCESS_ITER = 262144"
definition MAX_KERNEL_MODULE_ITER :: nat where "MAX_KERNEL_MODULE_ITER = 16384"

section \<open>State\<close>

record os_info =
  os_base :: addr
  os_size :: u64
  os_arch :: arch_ident

record linux_kernel_info =
  lki_os_info :: os_info
  lki_dtb :: addr
  lki_phys_base :: addr
  lki_phys_text :: addr
  lki_virt_text :: addr
  lki_la57_on :: bool
  lki_slide :: u64
  lki_version :: string
  lki_banner :: string

record linux_kernel_module_entry =
  km_address :: addr
  km_base :: addr
  km_size :: u64
  km_name :: string
  km_path :: string

record 'pt linux_kernel =
  lk_backend :: "'pt backend"
  lk_info :: linux_kernel_info
  lk_profile :: linux_profile
  lk_scanner :: kernel_info
  lk_init_task :: addr
  lk_cached_modules :: "linux_kernel_module_entry list option"

definition approximate_kernel_size :: "addr \<Rightarrow> kallsyms_info \<Rightarrow> memview \<Rightarrow> u64" where
  "approximate_kernel_size kernel_base kallsyms mem =
     (let max_address = foldl (\<lambda>m (a, _). if kernel_base \<le> a \<and> m < a then a else m) kernel_base
                          (syms_iter kallsyms mem)
      in sat_add (sat_sub max_address kernel_base) (kb 4))"

definition new_kernel :: "'pt backend \<Rightarrow> linux_profile \<Rightarrow> kernel_info \<Rightarrow> u64 \<Rightarrow> 'pt linux_kernel" where
  "new_kernel backend profile scanner slide =
     (let banner = trim_trailing_nuls (to_bytes (pr_banner profile));
          mem = be_view backend linux_arch (ki_cr3 scanner);
          kernel_size = (case ki_kallsyms scanner of
                           Some kallsyms \<Rightarrow> approximate_kernel_size (ki_virt_text scanner) kallsyms mem
                         | None \<Rightarrow> 0)
      in \<lparr> lk_backend = backend,
           lk_info =
             \<lparr> lki_os_info = \<lparr> os_base = ki_virt_text scanner, os_size = kernel_size, os_arch = linux_arch \<rparr>,
               lki_dtb = ki_cr3 scanner, lki_phys_base = ki_phys_base scanner, lki_phys_text = ki_phys_text scanner,
               lki_virt_text = ki_virt_text scanner, lki_la57_on = ki_la57_on scanner, lki_slide = slide,
               lki_version = version_range_fmt (ki_version scanner), lki_banner = from_utf8_lossy banner \<rparr>,
           lk_profile = profile, lk_scanner = scanner,
           lk_init_task = rebase (sym_init_task (pr_symbols profile)) slide,
           lk_cached_modules = None \<rparr>)"

text \<open>The translator of the kernel is built once, from the page-table root of the scanner.\<close>

definition kernel_view :: "'pt linux_kernel \<Rightarrow> memview" where
  "kernel_view k = be_view (lk_backend k) linux_arch (ki_cr3 (lk_scanner k))"

definition process_reader :: "addr \<Rightarrow> 'pt linux_kernel \<Rightarrow> memview" where
  "process_reader dtb k = be_view (lk_backend k) linux_arch dtb"

definition kernel_offsets :: "'pt linux_kernel \<Rightarrow> linux_offsets" where
  "kernel_offsets k = pr_offsets (lk_profile k)"

definition kernel_base :: "'pt linux_kernel \<Rightarrow> addr" where
  "kernel_base k = os_base (lki_os_info (lk_info k))"

definition kernel_module_info :: "'pt linux_kernel \<Rightarrow> module_info" where
  "kernel_module_info k =
     (let os = lki_os_info (lk_info k) in
      \<lparr> mi_address = os_base os, mi_parent_process = INVALID, mi_base = os_base os, mi_size = os_size os,
        mi_name = ''vmlinux'', mi_path = pr_source (lk_profile k), mi_arch = os_arch os \<rparr>)"

section \<open>Kernel symbols\<close>

definition set_kallsyms :: "kallsyms_info \<Rightarrow> 'pt linux_kernel \<Rightarrow> 'pt linux_kernel" where
  "set_kallsyms c k = k\<lparr> lk_scanner := (lk_scanner k)\<lparr> ki_kallsyms := Some c \<rparr> \<rparr>"

definition ensure_kallsyms :: "decoder \<Rightarrow> 'pt linux_kernel \<Rightarrow> kallsyms_info result \<times> 'pt linux_kernel" where
  "ensure_kallsyms decode =
     lazily (\<lambda>k. ki_kallsyms (lk_scanner k)) set_kallsyms
       (\<lambda>k. (find_kallsyms decode (be_phys (lk_backend k)) (lki_dtb (lk_info k)) (lki_virt_text (lk_info k)), k))"

definition set_kernel_size :: "u64 \<Rightarrow> 'pt linux_kernel \<Rightarrow> 'pt linux_kernel" where
  "set_kernel_size n k =
     (let info = lk_info k in k\<lparr> lk_info := info\<lparr> lki_os_info := (lki_os_info info)\<lparr> os_size := n \<rparr> \<rparr> \<rparr>)"

definition ensure_kernel_size :: "decoder \<Rightarrow> 'pt linux_kernel \<Rightarrow> unit result \<times> 'pt linux_kernel" where
  "ensure_kernel_size decode k =
     (if os_size (lki_os_info (lk_info k)) = 0 then
        (case ensure_kallsyms decode k of
           (Inl e, k') \<Rightarrow> (Inl e, k')
         | (Inr kallsyms, k') \<Rightarrow>
             (Inr (), set_kernel_size (approximate_kernel_size (kernel_base k') kallsyms (kernel_view k')) k'))
      else (Inr (), k))"

section \<open>Processes\<close>

definition process_state_of :: "addr \<Rightarrow> 'pt linux_kernel \<Rightarrow> process_state" where
  "process_state_of task k =
     (let t = off_task (kernel_offsets k);
          exit_state = read_or 0 (rd_i32 (kernel_view k) (task + task_exit_state t));
          exit_code = read_or 0 (rd_i32 (kernel_view k) (task + task_exit_code t))
      in if exit_state \<noteq> 0 then Dead exit_code else Alive)"

definition process_arch_from_binfmt :: "addr \<Rightarrow> addr option \<Rightarrow> arch_ident" where
  "process_arch_from_binfmt binfmt compat_elf_format =
     (case non_null binfmt of
        None \<Rightarrow> linux_arch
      | Some b \<Rightarrow> if Some b = compat_elf_format then X86 32 False else linux_arch)"

definition process_arch :: "addr \<Rightarrow> 'pt linux_kernel \<Rightarrow> arch_ident" where
  "process_arch binfmt k =
     process_arch_from_binfmt binfmt
       (map_option (\<lambda>a. rebase a (lki_slide (lk_info k))) (sym_compat_elf_format (pr_symbols (lk_profile k))))"

definition task_dtb :: "addr \<Rightarrow> addr \<Rightarrow> 'pt linux_kernel \<Rightarrow> addr result" where
  "task_dtb mm active_mm k =
     (case (case non_null mm of Some m \<Rightarrow> Some m | None \<Rightarrow> non_null active_mm) of
        None \<Rightarrow> Inr (lki_dtb (lk_info k))
      | Some m \<Rightarrow>
          rbind (strict (rd_addr (kernel_view k) (m + mm_pgd (off_mm (kernel_offsets k))))) (\<lambda>pgd.
          rbind (pm_virt_to_phys (be_phys (lk_backend k)) (ki_cr3 (lk_scanner k)) pgd) (\<lambda>phys.
          Inr (as_page_aligned phys (kb 4)))))"

text \<open>What the code reads from the \<open>mm_struct\<close>, each field null when it cannot be read.\<close>

record mm_fields =
  mf_binfmt :: addr
  mf_exe_file :: addr
  mf_start_code :: addr
  mf_end_code :: addr
  mf_arg_start :: addr
  mf_arg_end :: addr
  mf_env_start :: addr
  mf_env_end :: addr

definition read_mm_fields :: "memview \<Rightarrow> mm_struct_offsets \<Rightarrow> addr \<Rightarrow> mm_fields" where
  "read_mm_fields mem ofs mm =
     (if mm = NULL then
        \<lparr> mf_binfmt = NULL, mf_exe_file = NULL, mf_start_code = NULL, mf_end_code = NULL, mf_arg_start = NULL,
          mf_arg_end = NULL, mf_env_start = NULL, mf_env_end = NULL \<rparr>
      else
        \<lparr> mf_binfmt = (case mm_binfmt ofs of Some b \<Rightarrow> read_or NULL (rd_addr mem (mm + b)) | None \<Rightarrow> NULL),
          mf_exe_file = read_or NULL (rd_addr mem (mm + mm_exe_file ofs)),
          mf_start_code = read_or NULL (rd_u64 mem (mm + mm_start_code ofs)),
          mf_end_code = read_or NULL (rd_u64 mem (mm + mm_end_code ofs)),
          mf_arg_start = read_or NULL (rd_u64 mem (mm + mm_arg_start ofs)),
          mf_arg_end = read_or NULL (rd_u64 mem (mm + mm_arg_end ofs)),
          mf_env_start = read_or NULL (rd_u64 mem (mm + mm_env_start ofs)),
          mf_env_end = read_or NULL (rd_u64 mem (mm + mm_env_end ofs)) \<rparr>)"

definition exe_path :: "memview \<Rightarrow> linux_offsets \<Rightarrow> addr \<Rightarrow> addr \<Rightarrow> string" where
  "exe_path mem offs fs exe_file =
     (if exe_file = NULL then []
      else
        let root = map_option (\<lambda>f. f + fss_root (off_fs offs)) (non_null fs)
        in unwrap_or [] (read_path mem (exe_file + file_f_path (off_file offs)) root offs))"

definition command_line_of :: "memview \<Rightarrow> addr \<Rightarrow> addr \<Rightarrow> string" where
  "command_line_of proc_mem arg_start arg_end =
     (if arg_start \<noteq> NULL \<and> arg_end \<noteq> NULL
      then unwrap_or [] (read_command_line proc_mem arg_start arg_end) else [])"

definition process_info_from_task :: "addr \<Rightarrow> 'pt linux_kernel \<Rightarrow> linux_process_info result" where
  "process_info_from_task task k =
     (let mem = kernel_view k; offs = kernel_offsets k; t = off_task offs in
      rbind (strict (rd_u32 mem (task + task_pid t))) (\<lambda>pid.
      rbind (strict (rd_u32 mem (task + task_tgid t))) (\<lambda>tgid.
      rbind (data_part (rd_utf8_lossy mem (task + task_comm t) (unat (task_comm_len t)))) (\<lambda>name.
      rbind (strict (rd_addr mem (task + task_mm t))) (\<lambda>mm.
      rbind (strict (rd_addr mem (task + task_active_mm t))) (\<lambda>active_mm.
      let fs = read_or NULL (rd_addr mem (task + task_fs t));
          files = read_or NULL (rd_addr mem (task + task_files t));
          signal = read_or NULL (rd_addr mem (task + task_signal t)) in
      rbind (task_dtb mm active_mm k) (\<lambda>dtb.
      let f = read_mm_fields mem (off_mm offs) mm;
          path = exe_path mem offs fs (mf_exe_file f);
          command_line = command_line_of (process_reader dtb k) (mf_arg_start f) (mf_arg_end f)
      in Inr
        \<lparr> lpi_base_info =
            \<lparr> pi_address = task, pi_pid = (if tgid \<noteq> 0 then tgid else pid), pi_state = process_state_of task k,
              pi_name = name, pi_path = (if path = [] then name else path), pi_command_line = command_line,
              pi_sys_arch = linux_arch, pi_proc_arch = process_arch (mf_binfmt f) k, pi_dtb1 = dtb,
              pi_dtb2 = INVALID \<rparr>,
          lpi_task = task, lpi_mm = mm, lpi_active_mm = active_mm, lpi_fs = fs, lpi_files = files,
          lpi_signal = signal, lpi_exe_file = mf_exe_file f, lpi_start_code = mf_start_code f,
          lpi_end_code = mf_end_code f, lpi_arg_start = mf_arg_start f, lpi_arg_end = mf_arg_end f,
          lpi_env_start = mf_env_start f, lpi_env_end = mf_env_end f \<rparr>)))))))"

definition process_info_by_address :: "addr \<Rightarrow> 'pt linux_kernel \<Rightarrow> process_info result" where
  "process_info_by_address a k = rbind (process_info_from_task a k) (\<lambda>i. Inr (lpi_base_info i))"

definition process_by_info :: "process_info \<Rightarrow> 'pt linux_kernel \<Rightarrow> 'pt linux_process result" where
  "process_by_info info k =
     rbind (process_info_from_task (pi_address info) k) (\<lambda>i. Inr (new_process (lk_backend k) (lk_profile k) i))"

fun task_walk ::
    "nat \<Rightarrow> memview \<Rightarrow> task_struct_offsets \<Rightarrow> addr \<Rightarrow> addr \<Rightarrow> (addr, 's) callback \<Rightarrow> 's \<Rightarrow> unit result \<times> 's" where
  "task_walk 0 mem t list_head entry cb s = (Inr (), s)"
| "task_walk (Suc n) mem t list_head entry cb s =
     (let task = entry - task_tasks t in
      case rbind (strict (rd_u32 mem (task + task_pid t))) (\<lambda>pid.
           rbind (strict (rd_u32 mem (task + task_tgid t))) (\<lambda>tgid.
           rbind (strict (rd_addr mem entry)) (\<lambda>successor. Inr (pid, tgid, successor)))) of
        Inl e \<Rightarrow> (Inl e, s)
      | Inr (pid, tgid, successor) \<Rightarrow>
          (case (if pid = tgid \<and> pid \<noteq> 0 then cb s task else (True, s)) of
             (go, s') \<Rightarrow>
               if \<not> go then (Inr (), s')
               else if successor = NULL \<or> successor = list_head \<or> successor = entry then (Inr (), s')
               else task_walk n mem t list_head successor cb s'))"

definition process_address_list_callback ::
    "(addr, 's) callback \<Rightarrow> 's \<Rightarrow> 'pt linux_kernel \<Rightarrow> unit result \<times> 's" where
  "process_address_list_callback cb s k =
     (let t = off_task (kernel_offsets k); list_head = lk_init_task k + task_tasks t
      in task_walk MAX_PROCESS_ITER (kernel_view k) t list_head list_head cb s)"

section \<open>Kernel modules\<close>

text \<open>
  The memory regions of one module: the lowest base and the highest end over the regions that are not
  empty. \<open>idx * struct_size\<close> is a \<open>usize\<close> product.
\<close>

fun module_span ::
    "memview \<Rightarrow> module_memory_offsets \<Rightarrow> addr \<Rightarrow> nat list \<Rightarrow> addr \<Rightarrow> u64 \<Rightarrow> addr \<times> u64" where
  "module_span mem o2 regions [] min_base max_end = (min_base, max_end)"
| "module_span mem o2 regions (idx # rest) min_base max_end =
     (let mem_entry = regions + of_nat idx * modmem_struct_size o2;
          base = read_or NULL (rd_addr mem (mem_entry + modmem_base o2));
          size = (ucast (read_or 0 (rd_u32 mem (mem_entry + modmem_size o2))) :: u64) in
      if base = NULL \<or> size = 0 then module_span mem o2 regions rest min_base max_end
      else
        let min_base' = (if min_base = NULL \<or> base < min_base then base else min_base);
            fin = sat_add base size;
            max_end' = (if max_end < fin then fin else max_end)
        in module_span mem o2 regions rest min_base' max_end')"

definition read_kernel_module ::
    "memview \<Rightarrow> module_offsets \<Rightarrow> module_memory_offsets \<Rightarrow> addr \<Rightarrow> linux_kernel_module_entry option" where
  "read_kernel_module mem o1 o2 modl =
     (let raw = unwrap_or [] (data_part (rd_utf8_lossy mem (modl + mod_name o1) (unat (mod_name_len o1))));
          span = module_span mem o2 (modl + mod_mem o1) [0 ..< unat (mod_mem_count o1)] NULL 0;
          min_base = fst span; max_end = snd span in
      if min_base \<noteq> NULL \<and> min_base < max_end then
        let name = trim_end_matches (CHR 0x00) raw in
        Some \<lparr> km_address = modl, km_base = min_base, km_size = sat_sub max_end min_base,
               km_name = (if name = [] then ''unknown'' else name),
               km_path = (if name = [] then ''/sys/module/unknown'' else ''/sys/module/'' @ name) \<rparr>
      else None)"

text \<open>
  The state of a module that cannot be read counts as unformed; \<open>unformed as u32\<close> keeps 32 bits. An
  unformed module is skipped without the test on its link.
\<close>

definition module_unformed :: "memview \<Rightarrow> module_offsets \<Rightarrow> module_state_values \<Rightarrow> addr \<Rightarrow> bool" where
  "module_unformed mem o1 st modl =
     ((ucast (read_or (ucast (ms_unformed st)) (rd_u32 mem (modl + mod_state o1))) :: u64) = ms_unformed st)"

fun kernel_module_walk ::
    "nat \<Rightarrow> memview \<Rightarrow> linux_profile \<Rightarrow> addr \<Rightarrow> addr \<Rightarrow> linux_kernel_module_entry list \<Rightarrow>
     linux_kernel_module_entry list" where
  "kernel_module_walk 0 mem profile modules_head entry out = out"
| "kernel_module_walk (Suc n) mem profile modules_head entry out =
     (let offs = pr_offsets profile; o1 = off_module offs in
      if entry = NULL then out
      else if entry = modules_head then out
      else
        let modl = entry - mod_list o1;
            successor = read_or NULL (rd_addr mem (entry + list_next (off_list offs))) in
        if module_unformed mem o1 (en_module_state (pr_enums profile)) modl
        then kernel_module_walk n mem profile modules_head successor out
        else
          let out' = (case read_kernel_module mem o1 (off_module_memory offs) modl of Some m \<Rightarrow> out @ [m] | None \<Rightarrow> out) in
          if successor = NULL \<or> successor = entry then out'
          else kernel_module_walk n mem profile modules_head successor out')"

definition collect_kernel_modules :: "'pt linux_kernel \<Rightarrow> linux_kernel_module_entry list result" where
  "collect_kernel_modules k =
     (case sym_modules (pr_symbols (lk_profile k)) of
        None \<Rightarrow> Inr []
      | Some h \<Rightarrow>
          let modules_head = rebase h (lki_slide (lk_info k));
              entry = read_or NULL (rd_addr (kernel_view k) (modules_head + list_next (off_list (kernel_offsets k))))
          in Inr (kernel_module_walk MAX_KERNEL_MODULE_ITER (kernel_view k) (lk_profile k) modules_head entry []))"

definition kernel_module_cache :: "'pt linux_kernel \<Rightarrow> linux_kernel_module_entry list result \<times> 'pt linux_kernel" where
  "kernel_module_cache =
     lazily lk_cached_modules (\<lambda>c k. k\<lparr> lk_cached_modules := Some c \<rparr>) (\<lambda>k. (collect_kernel_modules k, k))"

definition kernel_module_list_callback ::
    "(addr, 's) callback \<Rightarrow> 's \<Rightarrow> 'pt linux_kernel \<Rightarrow> unit result \<times> 's \<times> 'pt linux_kernel" where
  "kernel_module_list_callback cb s k =
     (case cb s (kernel_base k) of
        (False, s') \<Rightarrow> (Inr (), s', k)
      | (True, s') \<Rightarrow>
          (case kernel_module_cache k of
             (Inl e, k') \<Rightarrow> (Inl e, s', k')
           | (Inr modules, k') \<Rightarrow> (Inr (), snd (feed cb s' (map km_address modules)), k')))"

definition km_info :: "'pt linux_kernel \<Rightarrow> linux_kernel_module_entry \<Rightarrow> module_info" where
  "km_info k m =
     \<lparr> mi_address = km_address m, mi_parent_process = INVALID, mi_base = km_base m, mi_size = km_size m,
       mi_name = km_name m, mi_path = km_path m, mi_arch = os_arch (lki_os_info (lk_info k)) \<rparr>"

definition kernel_module_by_address :: "decoder \<Rightarrow> addr \<Rightarrow> 'pt linux_kernel \<Rightarrow> module_info result \<times> 'pt linux_kernel" where
  "kernel_module_by_address decode a k =
     (if a = kernel_base k then
        (case ensure_kernel_size decode k of
           (Inl e, k') \<Rightarrow> (Inl e, k')
         | (Inr _, k') \<Rightarrow> (Inr (kernel_module_info k'), k'))
      else
        (case kernel_module_cache k of
           (Inl e, k') \<Rightarrow> (Inl e, k')
         | (Inr modules, k') \<Rightarrow>
             (ok_or (OsLayer ModuleNotFound) (map_option (km_info k') (find (\<lambda>m. km_address m = a) modules)), k')))"

definition kernel_primary_module_address :: "'pt linux_kernel \<Rightarrow> addr result" where
  "kernel_primary_module_address k = Inr (kernel_base k)"

definition kernel_import_list_callback :: "module_info \<Rightarrow> 'pt linux_kernel \<Rightarrow> unit result" where
  "kernel_import_list_callback info k = Inl (OsLayer NotImplemented)"

text \<open>\<open>ExportInfo\<close> is a name and an offset.\<close>

definition kernel_export_list_callback ::
    "decoder \<Rightarrow> module_info \<Rightarrow> (string \<times> u64, 's) callback \<Rightarrow> 's \<Rightarrow> 'pt linux_kernel \<Rightarrow>
     unit result \<times> 's \<times> 'pt linux_kernel" where
  "kernel_export_list_callback decode info cb s k =
     (if mi_address info \<noteq> kernel_base k then
        (case kernel_module_cache k of
           (Inl e, k') \<Rightarrow> (Inl e, s, k')
         | (Inr modules, k') \<Rightarrow>
             if list_ex (\<lambda>m. km_address m = mi_address info) modules then (Inl (OsLayer NotImplemented), s, k')
             else (Inl (OsLayer ModuleNotFound), s, k'))
      else
        (case ensure_kallsyms decode k of
           (Inl e, k') \<Rightarrow> (Inl e, s, k')
         | (Inr kallsyms, k') \<Rightarrow>
             (Inr (), snd (feed cb s (map (\<lambda>(a, name). (name, sat_sub a (kernel_base k')))
                                        (syms_iter kallsyms (kernel_view k')))), k')))"

definition kernel_section_list_callback ::
    "module_info \<Rightarrow> 'pt linux_kernel \<Rightarrow> unit result \<times> 'pt linux_kernel" where
  "kernel_section_list_callback info k =
     (if mi_address info = kernel_base k then (Inl (OsLayer NotImplemented), k)
      else
        (case kernel_module_cache k of
           (Inl e, k') \<Rightarrow> (Inl e, k')
         | (Inr modules, k') \<Rightarrow>
             if list_ex (\<lambda>m. km_address m = mi_address info) modules then (Inl (OsLayer NotImplemented), k')
             else (Inl (OsLayer ModuleNotFound), k')))"

end
