(* ===== verification/Kernel_Props.thy ===== *)
theory Kernel_Props
  imports Kernel_Os
begin

text \<open>
  The properties of the running kernel: the size of its image, the lists of processes and modules, the
  description of a process, and the agreement of its lazily filled fields with memory.
\<close>

section \<open>The size of the image\<close>

lemma foldl_highest:
  fixes base :: addr
  assumes "base \<le> m"
  shows "m \<le> foldl (\<lambda>m (a, _). if base \<le> a \<and> m < a then a else m) m xs \<and>
    (\<forall>(a, n) \<in> set xs. a \<le> foldl (\<lambda>m (a, _). if base \<le> a \<and> m < a then a else m) m xs) \<and>
    (foldl (\<lambda>m (a, _). if base \<le> a \<and> m < a then a else m) m xs = m \<or>
     foldl (\<lambda>m (a, _). if base \<le> a \<and> m < a then a else m) m xs \<in> fst ` set xs)"
  using assms
proof (induction xs arbitrary: m)
  case (Cons x xs)
  obtain a n where x: "x = (a, n)" by (cases x) auto
  show ?case
  proof (cases "base \<le> a \<and> m < a")
    case True
    then show ?thesis using Cons.IH [of a] Cons.prems by (auto simp: x)
  next
    case False
    then have "a \<le> m" using Cons.prems by auto
    then show ?thesis using False Cons.IH [of m] Cons.prems by (auto simp: x)
  qed
qed simp

definition highest_symbol :: "addr \<Rightarrow> (addr \<times> string) list \<Rightarrow> addr" where
  "highest_symbol base syms = foldl (\<lambda>m (a, _). if base \<le> a \<and> m < a then a else m) base syms"

lemma approximate_kernel_size_eq:
  "approximate_kernel_size base ks mem = sat_add (sat_sub (highest_symbol base (syms_iter ks mem)) base) 4096"
  by (simp add: approximate_kernel_size_def highest_symbol_def)

lemma highest_symbol_spec:
  "base \<le> highest_symbol base syms" "(a, n) \<in> set syms \<Longrightarrow> a \<le> highest_symbol base syms"
  "highest_symbol base syms = base \<or> highest_symbol base syms \<in> fst ` set syms"
  using foldl_highest [of base base syms] by (auto simp: highest_symbol_def)

text \<open>
  The size given to the kernel image reaches a page past the highest symbol: every symbol at or above
  the base lies in the image, and the image ends a page after the base or after one of the symbols.
\<close>

theorem approximate_kernel_size_covers:
  assumes "(a, name) \<in> set (syms_iter ks mem)" "base \<le> a" "unat a < 2 ^ 64 - 4096"
    and "\<forall>(b, n) \<in> set (syms_iter ks mem). unat b < 2 ^ 64 - 4096"
  shows "unat a < unat base + unat (approximate_kernel_size base ks mem) \<and>
    (\<exists>top \<in> insert base (fst ` set (syms_iter ks mem)).
       unat base + unat (approximate_kernel_size base ks mem) = unat top + 4096)"
proof -
  let ?h = "highest_symbol base (syms_iter ks mem)"
  have h: "base \<le> ?h" "a \<le> ?h" "?h = base \<or> ?h \<in> fst ` set (syms_iter ks mem)"
    using highest_symbol_spec(1,3) [where base = base and syms = "syms_iter ks mem"] highest_symbol_spec(2) [OF assms(1)] by auto
  have base: "unat base \<le> unat a" using assms(2) by (simp add: word_le_nat_alt)
  have "unat ?h < 2 ^ 64 - 4096" using h(3) assms(3,4) base by fastforce
  then have "unat (approximate_kernel_size base ks mem) = unat ?h - unat base + 4096"
    by (simp add: approximate_kernel_size_eq unat_sat_add unat_sat_sub)
  moreover have "unat base \<le> unat ?h" "unat a \<le> unat ?h" using h(1,2) by (simp_all add: word_le_nat_alt)
  moreover have "?h \<in> insert base (fst ` set (syms_iter ks mem))" using h(3) by blast
  ultimately show ?thesis by (intro conjI bexI [of _ ?h]) simp_all
qed

section \<open>The list of processes\<close>

text \<open>
  \<open>task_list entry ts\<close>: from the list entry \<open>entry\<close> of a task, the links lead through the tasks \<open>ts\<close>, each with
  its process and group identifiers, back to the head or to nothing.
\<close>

inductive task_list ::
    "memview \<Rightarrow> task_struct_offsets \<Rightarrow> addr \<Rightarrow> addr \<Rightarrow> (addr \<times> u32 \<times> u32) list \<Rightarrow> bool"
  for mem t list_head where
  last: "task = entry - task_tasks t \<Longrightarrow> rd_u32 mem (task + task_pid t) = Full pid \<Longrightarrow>
    rd_u32 mem (task + task_tgid t) = Full tgid \<Longrightarrow> rd_addr mem entry = Full successor \<Longrightarrow>
    successor = NULL \<or> successor = list_head \<Longrightarrow> task_list mem t list_head entry [(task, pid, tgid)]"
| link: "task = entry - task_tasks t \<Longrightarrow> rd_u32 mem (task + task_pid t) = Full pid \<Longrightarrow>
    rd_u32 mem (task + task_tgid t) = Full tgid \<Longrightarrow> rd_addr mem entry = Full successor \<Longrightarrow>
    successor \<noteq> NULL \<Longrightarrow> successor \<noteq> list_head \<Longrightarrow> successor \<noteq> entry \<Longrightarrow>
    task_list mem t list_head successor ts \<Longrightarrow> task_list mem t list_head entry ((task, pid, tgid) # ts)"

definition group_leaders :: "(addr \<times> u32 \<times> u32) list \<Rightarrow> addr list" where
  "group_leaders ts = map fst (filter (\<lambda>(task, pid, tgid). pid = tgid \<and> pid \<noteq> 0) ts)"

lemma task_walk_list:
  "task_list mem t list_head entry ts \<Longrightarrow> length ts \<le> n \<Longrightarrow>
   task_walk n mem t list_head entry cb s = (Inr (), snd (feed cb s (group_leaders ts)))"
proof (induction arbitrary: n s rule: task_list.induct)
  case (last task entry pid tgid successor)
  then obtain m where "n = Suc m" by (cases n) auto
  then show ?case using last by (auto simp: group_leaders_def Let_def split: prod.splits)
next
  case (link task entry pid tgid successor ts)
  then obtain m where m: "n = Suc m" "length ts \<le> m" by (cases n) auto
  have IH: "task_walk m mem t list_head successor cb s' = (Inr (), snd (feed cb s' (group_leaders ts)))" for s'
    by (rule link.IH [OF m(2)])
  show ?case
    using link.hyps IH by (auto simp: m group_leaders_def Let_def split: prod.splits)
qed

text \<open>
  C6. On a task list of at most \<open>MAX_PROCESS_ITER\<close> tasks that the initial task heads, enumerating the
  processes succeeds and reports exactly the thread group leaders, the idle task left out, in the order of the
  list, until the callback declines.
\<close>

theorem process_list_reports_leaders:
  assumes "t = off_task (kernel_offsets k)" "list_head = lk_init_task k + task_tasks t"
    and "task_list (kernel_view k) t list_head list_head ts" "length ts \<le> MAX_PROCESS_ITER"
  shows "process_address_list_callback cb s k = (Inr (), snd (feed cb s (group_leaders ts)))"
  using task_walk_list [OF assms(3,4)] assms(1,2) by (simp add: process_address_list_callback_def Let_def)

section \<open>Kernel modules\<close>

text \<open>What a region adds, and the span of a list of regions.\<close>

definition region_of :: "memview \<Rightarrow> module_memory_offsets \<Rightarrow> addr \<Rightarrow> nat \<Rightarrow> addr \<times> u64" where
  "region_of mem o2 regions i =
     (let e = regions + of_nat i * modmem_struct_size o2 in
      (read_or NULL (rd_addr mem (e + modmem_base o2)), ucast (read_or 0 (rd_u32 mem (e + modmem_size o2)))))"

definition in_use :: "addr \<times> u64 \<Rightarrow> bool" where
  "in_use r \<longleftrightarrow> fst r \<noteq> NULL \<and> snd r \<noteq> 0"

lemma module_span_Cons:
  "module_span mem o2 regions (i # is) lo hi =
     (let r = region_of mem o2 regions i in
      if in_use r then
        module_span mem o2 regions is (if lo = NULL \<or> fst r < lo then fst r else lo)
          (if hi < sat_add (fst r) (snd r) then sat_add (fst r) (snd r) else hi)
      else module_span mem o2 regions is lo hi)"
  by (simp add: region_of_def in_use_def Let_def)

definition spans :: "addr \<Rightarrow> u64 \<Rightarrow> (addr \<times> u64) set \<Rightarrow> bool" where
  "spans lo hi R \<longleftrightarrow> (if R = {} then lo = NULL \<and> hi = 0
     else lo \<in> fst ` R \<and> hi \<in> (\<lambda>r. sat_add (fst r) (snd r)) ` R \<and>
       (\<forall>r \<in> R. lo \<le> fst r \<and> sat_add (fst r) (snd r) \<le> hi))"

lemma spans_insert:
  assumes "spans lo hi R" "in_use r" "\<forall>q \<in> R. in_use q"
  shows "spans (if lo = NULL \<or> fst r < lo then fst r else lo)
    (if hi < sat_add (fst r) (snd r) then sat_add (fst r) (snd r) else hi) (insert r R)"
proof (cases "R = {}")
  case True
  then have "lo = NULL" "hi = 0" using assms(1) by (simp_all add: spans_def)
  moreover have "0 < sat_add (fst r) (snd r)"
    using le_sat_add [of "fst r" "snd r"] assms(2) by (metis in_use_def word_gt_0 word_le_0_iff)
  ultimately show ?thesis using True by (simp add: spans_def)
next
  case False
  then have s: "lo \<in> fst ` R" "hi \<in> (\<lambda>r. sat_add (fst r) (snd r)) ` R"
    "\<forall>r \<in> R. lo \<le> fst r \<and> sat_add (fst r) (snd r) \<le> hi" using assms(1) by (simp_all add: spans_def)
  then have "lo \<noteq> NULL" using assms(3) by (auto simp: in_use_def)
  then show ?thesis using s by (auto simp: spans_def dest: order_trans less_imp_le)
qed

lemma module_span_spans:
  assumes "spans lo hi R" "\<forall>q \<in> R. in_use q" "module_span mem o2 regions is lo hi = (lo', hi')"
  shows "spans lo' hi' (R \<union> {r \<in> region_of mem o2 regions ` set is. in_use r})"
  using assms
proof (induction "is" arbitrary: lo hi R)
  case (Cons i "is")
  let ?r = "region_of mem o2 regions i"
  let ?I = "{r \<in> region_of mem o2 regions ` set is. in_use r}"
  show ?case
  proof (cases "in_use ?r")
    case True
    have "spans lo' hi' (insert ?r R \<union> ?I)"
      using Cons.prems True unfolding module_span_Cons Let_def
      by (intro Cons.IH [OF spans_insert]) auto
    moreover have "insert ?r R \<union> ?I = R \<union> {r \<in> region_of mem o2 regions ` set (i # is). in_use r}" using True by auto
    ultimately show ?thesis by simp
  next
    case False
    have "spans lo' hi' (R \<union> ?I)"
      using Cons.prems False unfolding module_span_Cons Let_def by (intro Cons.IH) auto
    moreover have "R \<union> ?I = R \<union> {r \<in> region_of mem o2 regions ` set (i # is). in_use r}" using False by auto
    ultimately show ?thesis by simp
  qed
qed simp


lemma read_kernel_module_Some:
  assumes "read_kernel_module mem o1 o2 modl = Some m"
  shows "km_address m = modl \<and> km_base m \<noteq> NULL \<and> km_size m \<noteq> 0 \<and> km_name m \<noteq> [] \<and>
    km_path m = ''/sys/module/'' @ km_name m \<and>
    spans (km_base m) (km_base m + km_size m)
      {r \<in> region_of mem o2 (modl + mod_mem o1) ` {..< unat (mod_mem_count o1)}. in_use r}"
proof -
  obtain lo hi where s: "module_span mem o2 (modl + mod_mem o1) [0 ..< unat (mod_mem_count o1)] NULL 0 = (lo, hi)"
    by (cases "module_span mem o2 (modl + mod_mem o1) [0 ..< unat (mod_mem_count o1)] NULL 0") auto
  have "spans NULL 0 {}" by (simp add: spans_def)
  from module_span_spans [OF this _ s] have sp: "spans lo hi
      {r \<in> region_of mem o2 (modl + mod_mem o1) ` {..< unat (mod_mem_count o1)}. in_use r}"
    by (simp add: atLeast0LessThan)
  have lt: "lo \<noteq> NULL" "lo < hi" and m: "km_address m = modl" "km_base m = lo" "km_size m = sat_sub hi lo"
    "km_name m \<noteq> []" "km_path m = ''/sys/module/'' @ km_name m"
    using assms by (auto simp: read_kernel_module_def s Let_def split: if_splits)
  have "sat_sub hi lo = hi - lo" using lt(2) by (simp add: sat_sub_def less_imp_le)
  then show ?thesis using lt m sp by simp
qed

definition genuine_module :: "memview \<Rightarrow> linux_profile \<Rightarrow> linux_kernel_module_entry \<Rightarrow> bool" where
  "genuine_module mem profile m \<longleftrightarrow>
     read_kernel_module mem (off_module (pr_offsets profile)) (off_module_memory (pr_offsets profile)) (km_address m) = Some m \<and>
     \<not> module_unformed mem (off_module (pr_offsets profile)) (en_module_state (pr_enums profile)) (km_address m)"

lemma kernel_module_walk_genuine:
  "list_all (genuine_module mem profile) out \<Longrightarrow>
   list_all (genuine_module mem profile) (kernel_module_walk n mem profile modules_head entry out)"
proof (induction n arbitrary: entry out)
  case (Suc n)
  let ?o = "pr_offsets profile"
  let ?m = "entry - mod_list (off_module ?o)"
  have new: "genuine_module mem profile m"
    if "\<not> module_unformed mem (off_module ?o) (en_module_state (pr_enums profile)) ?m"
      "read_kernel_module mem (off_module ?o) (off_module_memory ?o) ?m = Some m" for m
    using that read_kernel_module_Some [OF that(2)] by (simp add: genuine_module_def)
  show ?case
    using Suc new by (auto simp: Let_def split: option.splits)
qed simp

lemma collect_kernel_modules_genuine:
  "collect_kernel_modules k = Inr ms \<Longrightarrow> list_all (genuine_module (kernel_view k) (lk_profile k)) ms"
  by (auto simp: collect_kernel_modules_def Let_def kernel_module_walk_genuine split: option.splits)

text \<open>
  C28. In any memory, every kernel module that is listed is in a state other than unformed, has a name,
  and spans exactly its memory regions: its base is the lowest base of a region that is not empty, its
  end the highest end.
\<close>

theorem kernel_modules_span_regions:
  assumes "collect_kernel_modules k = Inr ms"
  shows "list_all (\<lambda>m.
    \<not> module_unformed (kernel_view k) (off_module (kernel_offsets k)) (en_module_state (pr_enums (lk_profile k))) (km_address m) \<and>
    km_base m \<noteq> NULL \<and> km_size m \<noteq> 0 \<and> km_name m \<noteq> [] \<and> km_path m = ''/sys/module/'' @ km_name m \<and>
    spans (km_base m) (km_base m + km_size m)
      {r \<in> region_of (kernel_view k) (off_module_memory (kernel_offsets k)) (km_address m + mod_mem (off_module (kernel_offsets k)))
         ` {..< unat (mod_mem_count (off_module (kernel_offsets k)))}. in_use r}) ms"
  using collect_kernel_modules_genuine [OF assms]
  by (auto simp: list_all_iff genuine_module_def kernel_offsets_def dest!: read_kernel_module_Some)

section \<open>The description of a process\<close>

text \<open>
  A task as memory holds it: every field lies at the offset the profile gives. The identifiers, the command name and the two
  memory descriptors must be there; another field counts as zero when it cannot be read.
\<close>

record task_image =
  ti_pid :: u32
  ti_tgid :: u32
  ti_comm :: string
  ti_mm :: addr
  ti_active_mm :: addr
  ti_fs :: addr
  ti_files :: addr
  ti_signal :: addr
  ti_exit_state :: u32
  ti_exit_code :: u32

definition held_or_zero :: "('a :: zero) partial \<Rightarrow> 'a \<Rightarrow> bool" where
  "held_or_zero r x \<longleftrightarrow> (case r of Full y \<Rightarrow> x = y | _ \<Rightarrow> x = 0)"

definition task_at :: "memview \<Rightarrow> task_struct_offsets \<Rightarrow> addr \<Rightarrow> task_image \<Rightarrow> bool" where
  "task_at mem t task i \<longleftrightarrow>
     rd_u32 mem (task + task_pid t) = Full (ti_pid i) \<and> rd_u32 mem (task + task_tgid t) = Full (ti_tgid i) \<and>
     rd_utf8_lossy mem (task + task_comm t) (unat (task_comm_len t)) \<in> {Full (ti_comm i), Partial (ti_comm i)} \<and>
     rd_addr mem (task + task_mm t) = Full (ti_mm i) \<and> rd_addr mem (task + task_active_mm t) = Full (ti_active_mm i) \<and>
     held_or_zero (rd_addr mem (task + task_fs t)) (ti_fs i) \<and>
     held_or_zero (rd_addr mem (task + task_files t)) (ti_files i) \<and>
     held_or_zero (rd_addr mem (task + task_signal t)) (ti_signal i) \<and>
     held_or_zero (rd_i32 mem (task + task_exit_state t)) (ti_exit_state i) \<and>
     held_or_zero (rd_i32 mem (task + task_exit_code t)) (ti_exit_code i)"

text \<open>Its memory descriptor. A kernel thread has none, and then every field is null.\<close>

definition mm_at :: "memview \<Rightarrow> mm_struct_offsets \<Rightarrow> addr \<Rightarrow> mm_fields \<Rightarrow> bool" where
  "mm_at mem o1 mm f \<longleftrightarrow>
     (if mm = NULL then
        mf_binfmt f = NULL \<and> mf_exe_file f = NULL \<and> mf_start_code f = NULL \<and> mf_end_code f = NULL \<and>
        mf_arg_start f = NULL \<and> mf_arg_end f = NULL \<and> mf_env_start f = NULL \<and> mf_env_end f = NULL
      else
        (case mm_binfmt o1 of None \<Rightarrow> mf_binfmt f = NULL | Some b \<Rightarrow> held_or_zero (rd_addr mem (mm + b)) (mf_binfmt f)) \<and>
        held_or_zero (rd_addr mem (mm + mm_exe_file o1)) (mf_exe_file f) \<and>
        held_or_zero (rd_u64 mem (mm + mm_start_code o1)) (mf_start_code f) \<and>
        held_or_zero (rd_u64 mem (mm + mm_end_code o1)) (mf_end_code f) \<and>
        held_or_zero (rd_u64 mem (mm + mm_arg_start o1)) (mf_arg_start f) \<and>
        held_or_zero (rd_u64 mem (mm + mm_arg_end o1)) (mf_arg_end f) \<and>
        held_or_zero (rd_u64 mem (mm + mm_env_start o1)) (mf_env_start f) \<and>
        held_or_zero (rd_u64 mem (mm + mm_env_end o1)) (mf_env_end f))"

text \<open>
  The page-table root: the page of the root that its memory descriptor names, its own before the one it borrowed, and that
  of the kernel when it has neither.
\<close>

definition page_root :: "'pt linux_kernel \<Rightarrow> task_image \<Rightarrow> addr \<Rightarrow> bool" where
  "page_root k t dtb \<longleftrightarrow>
     (let mm = (if ti_mm t = NULL then ti_active_mm t else ti_mm t) in
      if mm = NULL then dtb = lki_dtb (lk_info k)
      else \<exists>pgd phys. rd_addr (kernel_view k) (mm + mm_pgd (off_mm (kernel_offsets k))) = Full pgd \<and>
        pm_virt_to_phys (be_phys (lk_backend k)) (ki_cr3 (lk_scanner k)) pgd = Inr phys \<and> dtb = phys - phys mod 4096)"

text \<open>
  The path of the executable, from the root of the file system of the process, or the command name where there is none; the
  command line where both ends of the arguments are known; 32 bits exactly for the compatibility format of the kernel.
\<close>

definition path_is :: "'pt linux_kernel \<Rightarrow> task_image \<Rightarrow> mm_fields \<Rightarrow> string \<Rightarrow> bool" where
  "path_is k t f path \<longleftrightarrow>
     (let offs = kernel_offsets k; root = (if ti_fs t = NULL then None else Some (ti_fs t + fss_root (off_fs offs))) in
      if mf_exe_file f = NULL then path = ti_comm t
      else case read_path (kernel_view k) (mf_exe_file f + file_f_path (off_file offs)) root offs of
          Inr p \<Rightarrow> path = (if p = [] then ti_comm t else p)
        | Inl _ \<Rightarrow> path = ti_comm t)"

definition command_line_is :: "'pt linux_kernel \<Rightarrow> mm_fields \<Rightarrow> addr \<Rightarrow> string \<Rightarrow> bool" where
  "command_line_is k f dtb line \<longleftrightarrow>
     (if mf_arg_start f = NULL \<or> mf_arg_end f = NULL then line = []
      else case read_command_line (be_view (lk_backend k) linux_arch dtb) (mf_arg_start f) (mf_arg_end f) of
          Inr l \<Rightarrow> line = l
        | Inl _ \<Rightarrow> line = [])"

definition arch_is :: "'pt linux_kernel \<Rightarrow> mm_fields \<Rightarrow> arch_ident \<Rightarrow> bool" where
  "arch_is k f arch \<longleftrightarrow> arch =
     (if mf_binfmt f \<noteq> NULL \<and> Some (mf_binfmt f) =
           map_option (\<lambda>c. rebase c (lki_slide (lk_info k))) (sym_compat_elf_format (pr_symbols (lk_profile k)))
      then X86 32 False else linux_arch)"

definition process_described ::
    "'pt linux_kernel \<Rightarrow> addr \<Rightarrow> task_image \<Rightarrow> mm_fields \<Rightarrow> addr \<Rightarrow> linux_process_info \<Rightarrow> bool" where
  "process_described k task t f dtb i \<longleftrightarrow>
     (let b = lpi_base_info i in
      pi_address b = task \<and> pi_pid b = (if ti_tgid t = 0 then ti_pid t else ti_tgid t) \<and>
      pi_state b = (if ti_exit_state t = 0 then Alive else Dead (ti_exit_code t)) \<and>
      pi_name b = ti_comm t \<and> path_is k t f (pi_path b) \<and> command_line_is k f dtb (pi_command_line b) \<and>
      pi_sys_arch b = linux_arch \<and> arch_is k f (pi_proc_arch b) \<and> pi_dtb1 b = dtb \<and> pi_dtb2 b = INVALID \<and>
      lpi_task i = task \<and> lpi_mm i = ti_mm t \<and> lpi_active_mm i = ti_active_mm t \<and>
      lpi_fs i = ti_fs t \<and> lpi_files i = ti_files t \<and> lpi_signal i = ti_signal t \<and>
      lpi_exe_file i = mf_exe_file f \<and> lpi_start_code i = mf_start_code f \<and> lpi_end_code i = mf_end_code f \<and>
      lpi_arg_start i = mf_arg_start f \<and> lpi_arg_end i = mf_arg_end f \<and>
      lpi_env_start i = mf_env_start f \<and> lpi_env_end i = mf_env_end f)"

lemma held_read_or: "held_or_zero r (read_or 0 r)"
  by (cases r) (simp_all add: held_or_zero_def)

lemma mm_at_read: "mm_at mem o1 mm (read_mm_fields mem o1 mm)"
  by (simp add: mm_at_def read_mm_fields_def held_read_or split: option.splits)

lemma page_root_iff: "page_root k t dtb \<longleftrightarrow> task_dtb (ti_mm t) (ti_active_mm t) k = Inr dtb"
  by (auto simp: page_root_def task_dtb_def non_null_def Let_def rbind_Inr_iff as_page_aligned_def
      split: option.splits)

lemma path_is_read:
  "path_is k t f (if exe_path (kernel_view k) (kernel_offsets k) (ti_fs t) (mf_exe_file f) = [] then ti_comm t
     else exe_path (kernel_view k) (kernel_offsets k) (ti_fs t) (mf_exe_file f))"
  by (auto simp: path_is_def exe_path_def non_null_def Let_def split: sum.splits)

lemma command_line_is_read: "command_line_is k f dtb (command_line_of (process_reader dtb k) (mf_arg_start f) (mf_arg_end f))"
  by (auto simp: command_line_is_def command_line_of_def process_reader_def split: sum.splits)

lemma arch_is_read: "arch_is k f (process_arch (mf_binfmt f) k)"
  by (auto simp: arch_is_def process_arch_def process_arch_from_binfmt_def non_null_def split: option.splits)

lemma data_part_iff: "data_part r = Inr x \<longleftrightarrow> r \<in> {Full x, Partial x}"
  by (cases r) auto

lemma process_info_Inr:
  assumes "process_info_from_task task k = Inr i"
  shows "\<exists>t f dtb. task_at (kernel_view k) (off_task (kernel_offsets k)) task t \<and>
    mm_at (kernel_view k) (off_mm (kernel_offsets k)) (ti_mm t) f \<and> page_root k t dtb \<and> process_described k task t f dtb i"
proof -
  let ?mem = "kernel_view k" and ?t = "off_task (kernel_offsets k)"
  from assms obtain pid tgid name mm active_mm dtb where
    r: "strict (rd_u32 ?mem (task + task_pid ?t)) = Inr pid" "strict (rd_u32 ?mem (task + task_tgid ?t)) = Inr tgid"
      "data_part (rd_utf8_lossy ?mem (task + task_comm ?t) (unat (task_comm_len ?t))) = Inr name"
      "strict (rd_addr ?mem (task + task_mm ?t)) = Inr mm" "strict (rd_addr ?mem (task + task_active_mm ?t)) = Inr active_mm"
      "task_dtb mm active_mm k = Inr dtb"
    and i: "process_info_from_task task k = Inr i"
    by (auto simp: process_info_from_task_def Let_def rbind_Inr_iff)
  define t where "t = \<lparr> ti_pid = pid, ti_tgid = tgid, ti_comm = name, ti_mm = mm, ti_active_mm = active_mm,
    ti_fs = read_or 0 (rd_addr ?mem (task + task_fs ?t)), ti_files = read_or 0 (rd_addr ?mem (task + task_files ?t)),
    ti_signal = read_or 0 (rd_addr ?mem (task + task_signal ?t)),
    ti_exit_state = read_or 0 (rd_i32 ?mem (task + task_exit_state ?t)),
    ti_exit_code = read_or 0 (rd_i32 ?mem (task + task_exit_code ?t)) \<rparr>"
  define f where "f = read_mm_fields ?mem (off_mm (kernel_offsets k)) mm"
  have "task_at ?mem ?t task t"
    using r(1-5) by (simp add: task_at_def t_def held_read_or data_part_iff)
  moreover have "mm_at ?mem (off_mm (kernel_offsets k)) (ti_mm t) f"
    by (simp add: t_def f_def mm_at_read)
  moreover have "page_root k t dtb" using r(6) by (simp add: page_root_iff t_def)
  moreover have "process_described k task t f dtb i"
    using i path_is_read [of k t f] command_line_is_read [of k f dtb] arch_is_read [of k f]
    unfolding process_described_def Let_def process_info_from_task_def r rbind_simps
    by (auto simp: t_def f_def process_state_of_def Let_def)
  ultimately show ?thesis by blast
qed

lemma process_info_Inl:
  assumes "process_info_from_task task k = Inl e"
  shows "\<not> (\<exists>t dtb. task_at (kernel_view k) (off_task (kernel_offsets k)) task t \<and> page_root k t dtb)"
proof
  assume "\<exists>t dtb. task_at (kernel_view k) (off_task (kernel_offsets k)) task t \<and> page_root k t dtb"
  then obtain t dtb where t: "task_at (kernel_view k) (off_task (kernel_offsets k)) task t"
    and d: "task_dtb (ti_mm t) (ti_active_mm t) k = Inr dtb" by (auto simp: page_root_iff)
  from t have "data_part (rd_utf8_lossy (kernel_view k) (task + task_comm (off_task (kernel_offsets k)))
      (unat (task_comm_len (off_task (kernel_offsets k))))) = Inr (ti_comm t)"
    by (simp add: task_at_def data_part_iff)
  with t d assms show False by (simp add: task_at_def process_info_from_task_def Let_def)
qed

text \<open>
  C27. A task is described exactly when its identifiers, its command name, the pointers to its memory descriptors and its page-table root can be
  read. Then every field of the description is what the task and its memory descriptor hold in memory at the offsets of the
  profile: the identifier is the group's unless that is zero, the state says whether it has exited and with what code, the page-table
  root is cut to its page, the addresses of code, arguments and environment are those of the memory descriptor (null for a kernel
  thread), and path, command line and architecture follow from them. Any other task is refused.
\<close>

theorem process_info_exact:
  "case process_info_from_task task k of
     Inr i \<Rightarrow> \<exists>t f dtb. task_at (kernel_view k) (off_task (kernel_offsets k)) task t \<and>
       mm_at (kernel_view k) (off_mm (kernel_offsets k)) (ti_mm t) f \<and> page_root k t dtb \<and>
       process_described k task t f dtb i
   | Inl e \<Rightarrow> \<not> (\<exists>t dtb. task_at (kernel_view k) (off_task (kernel_offsets k)) task t \<and> page_root k t dtb)"
proof (cases "process_info_from_task task k")
  case (Inl e)
  then show ?thesis using process_info_Inl [OF Inl] by simp
next
  case (Inr i)
  then show ?thesis using process_info_Inr [OF Inr] by simp
qed

section \<open>The lazily filled fields agree with memory\<close>

definition kernel_symbols :: "decoder \<Rightarrow> 'pt linux_kernel \<Rightarrow> kallsyms_info result" where
  "kernel_symbols decode k =
     find_kallsyms decode (be_phys (lk_backend k)) (lki_dtb (lk_info k)) (lki_virt_text (lk_info k))"

text \<open>The part of the kernel no operation changes.\<close>

definition kernel_bare :: "'pt linux_kernel \<Rightarrow> 'pt linux_kernel" where
  "kernel_bare k = set_kernel_size 0
     (k\<lparr> lk_scanner := (lk_scanner k)\<lparr> ki_kallsyms := None \<rparr>, lk_cached_modules := None \<rparr>)"

definition kernel_coherent :: "decoder \<Rightarrow> 'pt linux_kernel \<Rightarrow> bool" where
  "kernel_coherent decode k \<longleftrightarrow>
     (case lk_cached_modules k of None \<Rightarrow> True | Some ms \<Rightarrow> collect_kernel_modules k = Inr ms) \<and>
     (case ki_kallsyms (lk_scanner k) of None \<Rightarrow> True | Some c \<Rightarrow> kernel_symbols decode k = Inr c) \<and>
     (os_size (lki_os_info (lk_info k)) = 0 \<or>
       (\<exists>c. kernel_symbols decode k = Inr c \<and>
          os_size (lki_os_info (lk_info k)) = approximate_kernel_size (kernel_base k) c (kernel_view k)))"

lemma kernel_bare_updates [simp]:
  "kernel_bare (k\<lparr> lk_cached_modules := m \<rparr>) = kernel_bare k"
  "kernel_bare (set_kallsyms c k) = kernel_bare k" "kernel_bare (set_kernel_size n k) = kernel_bare k"
  "kernel_bare (kernel_bare k) = kernel_bare k"
  by (simp_all add: kernel_bare_def set_kallsyms_def set_kernel_size_def Let_def)

lemma kernel_bare_eqD:
  assumes "kernel_bare k = kernel_bare j"
  shows "lk_backend k = lk_backend j" "lk_profile k = lk_profile j" "lk_init_task k = lk_init_task j"
    "ki_cr3 (lk_scanner k) = ki_cr3 (lk_scanner j)" "lki_dtb (lk_info k) = lki_dtb (lk_info j)"
    "lki_virt_text (lk_info k) = lki_virt_text (lk_info j)" "lki_slide (lk_info k) = lki_slide (lk_info j)"
    "os_base (lki_os_info (lk_info k)) = os_base (lki_os_info (lk_info j))"
    "os_arch (lki_os_info (lk_info k)) = os_arch (lki_os_info (lk_info j))"
proof -
  have f: "lk_backend k = lk_backend (kernel_bare k)" "lk_profile k = lk_profile (kernel_bare k)"
    "lk_init_task k = lk_init_task (kernel_bare k)"
    "ki_cr3 (lk_scanner k) = ki_cr3 (lk_scanner (kernel_bare k))"
    "lki_dtb (lk_info k) = lki_dtb (lk_info (kernel_bare k))"
    "lki_virt_text (lk_info k) = lki_virt_text (lk_info (kernel_bare k))"
    "lki_slide (lk_info k) = lki_slide (lk_info (kernel_bare k))"
    "os_base (lki_os_info (lk_info k)) = os_base (lki_os_info (lk_info (kernel_bare k)))"
    "os_arch (lki_os_info (lk_info k)) = os_arch (lki_os_info (lk_info (kernel_bare k)))" for k :: "'a linux_kernel"
    by (simp_all add: kernel_bare_def set_kernel_size_def Let_def)
  show "lk_backend k = lk_backend j" "lk_profile k = lk_profile j" "lk_init_task k = lk_init_task j"
    "ki_cr3 (lk_scanner k) = ki_cr3 (lk_scanner j)" "lki_dtb (lk_info k) = lki_dtb (lk_info j)"
    "lki_virt_text (lk_info k) = lki_virt_text (lk_info j)" "lki_slide (lk_info k) = lki_slide (lk_info j)"
    "os_base (lki_os_info (lk_info k)) = os_base (lki_os_info (lk_info j))"
    "os_arch (lki_os_info (lk_info k)) = os_arch (lki_os_info (lk_info j))"
    using f [of k] f [of j] assms by (simp_all only:)
qed

lemma kernel_bare_same:
  assumes "kernel_bare k = kernel_bare j"
  shows "collect_kernel_modules k = collect_kernel_modules j" "kernel_symbols decode k = kernel_symbols decode j"
    "kernel_view k = kernel_view j" "kernel_base k = kernel_base j" "km_info k = km_info j"
  using kernel_bare_eqD [OF assms]
  by (simp_all add: collect_kernel_modules_def kernel_symbols_def kernel_view_def kernel_base_def
      kernel_offsets_def km_info_def [abs_def] Let_def cong: option.case_cong)

lemma kernel_update_same [simp]:
  "collect_kernel_modules (k\<lparr> lk_cached_modules := m \<rparr>) = collect_kernel_modules k"
  "collect_kernel_modules (set_kallsyms c k) = collect_kernel_modules k"
  "collect_kernel_modules (set_kernel_size n k) = collect_kernel_modules k"
  "collect_kernel_modules (kernel_bare k) = collect_kernel_modules k"
  "kernel_symbols decode (k\<lparr> lk_cached_modules := m \<rparr>) = kernel_symbols decode k"
  "kernel_symbols decode (set_kallsyms c k) = kernel_symbols decode k"
  "kernel_symbols decode (set_kernel_size n k) = kernel_symbols decode k"
  "kernel_symbols decode (kernel_bare k) = kernel_symbols decode k"
  "kernel_view (k\<lparr> lk_cached_modules := m \<rparr>) = kernel_view k"
  "kernel_view (set_kallsyms c k) = kernel_view k" "kernel_view (set_kernel_size n k) = kernel_view k"
  "kernel_base (k\<lparr> lk_cached_modules := m \<rparr>) = kernel_base k"
  "kernel_base (set_kallsyms c k) = kernel_base k" "kernel_base (set_kernel_size n k) = kernel_base k"
  by (rule kernel_bare_same, simp)+

lemma kernel_fields [simp]:
  "lk_cached_modules (set_kallsyms c k) = lk_cached_modules k"
  "lk_cached_modules (set_kernel_size n k) = lk_cached_modules k"
  "ki_kallsyms (lk_scanner (set_kallsyms c k)) = Some c"
  "lk_scanner (set_kernel_size n k) = lk_scanner k" "lk_info (set_kallsyms c k) = lk_info k"
  "os_size (lki_os_info (lk_info (set_kernel_size n k))) = n"
  by (simp_all add: set_kallsyms_def set_kernel_size_def Let_def)

interpretation kernel_modules: lazy_field lk_cached_modules "\<lambda>c k. k\<lparr> lk_cached_modules := Some c \<rparr>"
    "\<lambda>k. (collect_kernel_modules k, k)" "kernel_coherent decode" kernel_bare collect_kernel_modules
  for decode
  by unfold_locales (auto simp: kernel_coherent_def split: option.splits)

interpretation kernel_syms: lazy_field "\<lambda>k. ki_kallsyms (lk_scanner k)" set_kallsyms
    "\<lambda>k. (kernel_symbols decode k, k)" "kernel_coherent decode" kernel_bare "kernel_symbols decode"
  for decode
  by unfold_locales (auto simp: kernel_coherent_def split: option.splits)

lemma kernel_module_cache_cases:
  assumes "kernel_coherent decode k"
  obtains k' where "kernel_module_cache k = (collect_kernel_modules k, k')" "kernel_coherent decode k'"
    "kernel_bare k' = kernel_bare k" "kernel_coherent decode k"
proof -
  obtain r k' where c: "kernel_module_cache k = (r, k')" by (cases "kernel_module_cache k")
  from kernel_modules.lazily_value [OF assms, folded kernel_module_cache_def] show thesis
    using assms by (intro that [of k']) (simp_all add: c)
qed

lemma ensure_kallsyms_lazily:
  "ensure_kallsyms decode =
     lazily (\<lambda>k. ki_kallsyms (lk_scanner k)) set_kallsyms (\<lambda>k. (kernel_symbols decode k, k))"
  by (simp add: ensure_kallsyms_def kernel_symbols_def)

lemma ensure_kallsyms_cases:
  assumes "kernel_coherent decode k"
  obtains k' where "ensure_kallsyms decode k = (kernel_symbols decode k, k')" "kernel_coherent decode k'"
    "kernel_bare k' = kernel_bare k" "kernel_coherent decode k"
proof -
  obtain r k' where c: "ensure_kallsyms decode k = (r, k')" by (cases "ensure_kallsyms decode k")
  from kernel_syms.lazily_value [OF assms, folded ensure_kallsyms_lazily] show thesis
    using assms by (intro that [of k']) (simp_all add: c)
qed

text \<open>The kernel image as memory has it now, and the reference of the lookup.\<close>

definition fresh_kernel_module :: "decoder \<Rightarrow> addr \<Rightarrow> 'pt linux_kernel \<Rightarrow> module_info result" where
  "fresh_kernel_module decode a k =
     (if a = kernel_base k then
        rbind (kernel_symbols decode k) (\<lambda>c.
          Inr ((kernel_module_info k)\<lparr> mi_size := approximate_kernel_size (kernel_base k) c (kernel_view k) \<rparr>))
      else
        rbind (collect_kernel_modules k) (\<lambda>modules.
          ok_or (OsLayer ModuleNotFound) (map_option (km_info k) (find (\<lambda>m. km_address m = a) modules))))"

lemma ensure_kernel_size_cases:
  assumes "kernel_coherent decode k"
  obtains k' where
    "ensure_kernel_size decode k = (rbind (kernel_symbols decode k) (\<lambda>_. Inr ()), k')"
    "kernel_coherent decode k'" "kernel_bare k' = kernel_bare k"
    "kernel_symbols decode k = Inr c \<Longrightarrow>
       os_size (lki_os_info (lk_info k')) = approximate_kernel_size (kernel_base k) c (kernel_view k)"
proof (cases "os_size (lki_os_info (lk_info k)) = 0")
  case False
  then show ?thesis
    using assms that [of k] by (auto simp: kernel_coherent_def ensure_kernel_size_def)
next
  case True
  obtain k1 where k1: "ensure_kallsyms decode k = (kernel_symbols decode k, k1)" "kernel_coherent decode k1"
    "kernel_bare k1 = kernel_bare k"
    using ensure_kallsyms_cases [OF assms] by metis
  note same = kernel_bare_same [OF k1(3)]
  show ?thesis
  proof (cases "kernel_symbols decode k")
    case (Inl e)
    then show ?thesis using that [of k1] True k1 by (simp add: ensure_kernel_size_def)
  next
    case (Inr d)
    let ?k' = "set_kernel_size (approximate_kernel_size (kernel_base k1) d (kernel_view k1)) k1"
    have "kernel_symbols decode k1 = Inr d" using same(2) [of decode] Inr by simp
    then have "kernel_coherent decode ?k'"
      using k1(2) by (auto simp: kernel_coherent_def split: option.splits)
    then show ?thesis using that [of ?k'] True k1 Inr same by (simp add: ensure_kernel_size_def)
  qed
qed

lemma kernel_module_by_address_value:
  assumes "kernel_coherent decode k"
  shows "fst (kernel_module_by_address decode a k) = fresh_kernel_module decode a k \<and>
    kernel_coherent decode (snd (kernel_module_by_address decode a k)) \<and>
    kernel_bare (snd (kernel_module_by_address decode a k)) = kernel_bare k"
proof (cases "a = kernel_base k")
  case True
  show ?thesis
  proof (cases "kernel_symbols decode k")
    case (Inl e)
    obtain k' where "ensure_kernel_size decode k = (rbind (kernel_symbols decode k) (\<lambda>_. Inr ()), k')"
      "kernel_coherent decode k'" "kernel_bare k' = kernel_bare k"
      using ensure_kernel_size_cases [OF assms] by metis
    then show ?thesis
      using True Inl by (simp add: kernel_module_by_address_def fresh_kernel_module_def)
  next
    case (Inr c)
    obtain k' where k': "ensure_kernel_size decode k = (Inr (), k')" "kernel_coherent decode k'"
      "kernel_bare k' = kernel_bare k"
      "os_size (lki_os_info (lk_info k')) = approximate_kernel_size (kernel_base k) c (kernel_view k)"
      using ensure_kernel_size_cases [OF assms] Inr by (metis rbind_simps(1))
    have "kernel_module_info k' = (kernel_module_info k)\<lparr> mi_size := os_size (lki_os_info (lk_info k')) \<rparr>"
      using kernel_bare_eqD [OF k'(3)] by (simp add: kernel_module_info_def Let_def)
    then show ?thesis using True Inr k' by (simp add: kernel_module_by_address_def fresh_kernel_module_def)
  qed
next
  case False
  obtain k' where k': "kernel_module_cache k = (collect_kernel_modules k, k')" "kernel_coherent decode k'"
    "kernel_bare k' = kernel_bare k"
    using kernel_module_cache_cases [OF assms] by metis
  show ?thesis
    using False k' kernel_bare_same(5) [OF k'(3)]
    by (cases "collect_kernel_modules k") (simp_all add: kernel_module_by_address_def fresh_kernel_module_def)
qed


inductive kernel_step :: "decoder \<Rightarrow> 'pt linux_kernel \<Rightarrow> 'pt linux_kernel \<Rightarrow> bool" for decode where
  list: "kernel_step decode k (snd (snd (kernel_module_list_callback (cb :: (addr, nat) callback) s k)))"
| by_address: "kernel_step decode k (snd (kernel_module_by_address decode a k))"
| exports: "kernel_step decode k (snd (snd (kernel_export_list_callback decode info (ecb :: (string \<times> u64, nat) callback) s k)))"
| sections: "kernel_step decode k (snd (kernel_section_list_callback info k))"

lemma kernel_module_list_state:
  assumes "kernel_coherent decode k"
  shows "kernel_coherent decode (snd (snd (kernel_module_list_callback cb s k))) \<and>
    kernel_bare (snd (snd (kernel_module_list_callback cb s k))) = kernel_bare k"
  using assms
  by (rule kernel_module_cache_cases)
    (auto simp: kernel_module_list_callback_def split: prod.splits sum.splits bool.splits)

lemma kernel_export_state:
  assumes "kernel_coherent decode k"
  shows "kernel_coherent decode (snd (snd (kernel_export_list_callback decode info cb s k))) \<and>
    kernel_bare (snd (snd (kernel_export_list_callback decode info cb s k))) = kernel_bare k"
  by (rule kernel_module_cache_cases [OF assms], rule ensure_kallsyms_cases [OF assms])
    (auto simp: kernel_export_list_callback_def split: sum.splits)

lemma kernel_section_state:
  assumes "kernel_coherent decode k"
  shows "kernel_coherent decode (snd (kernel_section_list_callback info k)) \<and>
    kernel_bare (snd (kernel_section_list_callback info k)) = kernel_bare k"
  by (rule kernel_module_cache_cases [OF assms])
    (auto simp: kernel_section_list_callback_def assms split: sum.splits)

lemma kernel_step_coherent:
  "kernel_step decode k j \<Longrightarrow> kernel_coherent decode k \<Longrightarrow> kernel_coherent decode j \<and> kernel_bare j = kernel_bare k"
  by (induction rule: kernel_step.induct)
    (simp_all add: kernel_module_list_state kernel_module_by_address_value kernel_export_state kernel_section_state)

lemma new_kernel_coherent:
  assumes "\<And>c. ki_kallsyms scanner = Some c \<Longrightarrow>
    find_kallsyms decode (be_phys backend) (ki_cr3 scanner) (ki_virt_text scanner) = Inr c"
  shows "kernel_coherent decode (new_kernel backend profile scanner slide)"
  using assms
  by (cases "ki_kallsyms scanner")
    (simp_all add: kernel_coherent_def new_kernel_def Let_def kernel_symbols_def kernel_base_def kernel_view_def)

lemma kernel_run:
  assumes "(kernel_step decode)\<^sup>*\<^sup>* k j" "kernel_coherent decode k"
  shows "kernel_coherent decode j \<and> kernel_bare j = kernel_bare k"
  using assms by (induction rule: rtranclp_induct) (auto dest: kernel_step_coherent)

definition listed_kernel_modules :: "'pt linux_kernel \<Rightarrow> addr list result" where
  "listed_kernel_modules k =
     rbind (collect_kernel_modules k) (\<lambda>ms. Inr (kernel_base k # map km_address ms))"

lemma kernel_module_list_value:
  assumes "kernel_coherent decode k"
  shows "listed_kernel_modules k = Inr as \<longrightarrow>
    fst (snd (kernel_module_list_callback collect [] k)) = as"
proof -
  obtain k' where "kernel_module_cache k = (collect_kernel_modules k, k')"
    using kernel_module_cache_cases [OF assms] by metis
  then show ?thesis
    by (cases "collect_kernel_modules k")
      (simp_all add: kernel_module_list_callback_def listed_kernel_modules_def feed_collect
        collect_def [of "[]"])
qed

lemma fresh_kernel_module_resolves:
  assumes "listed_kernel_modules k = Inr as" "a \<in> set as" "a \<noteq> kernel_base k"
  shows "\<exists>m. fresh_kernel_module decode a k = Inr m \<and> mi_address m = a"
proof -
  obtain ms where ms: "collect_kernel_modules k = Inr ms" "a \<in> km_address ` set ms"
    using assms by (auto simp: listed_kernel_modules_def rbind_Inr_iff)
  obtain m where m: "find (\<lambda>m. km_address m = a) ms = Some m"
    using ms(2) by (cases "find (\<lambda>m. km_address m = a) ms") (auto simp: find_None_iff)
  then show ?thesis using assms(3) ms(1) find_Some_mem [OF m]
    by (simp add: fresh_kernel_module_def km_info_def)
qed

text \<open>
  Whatever was asked of the kernel, looking a module up answers what the module list and the symbol table
  in memory give now, sizes included; and every address the kernel lists for a module resolves to a module at
  that address.
\<close>

theorem kernel_answers_are_fresh:
  assumes "\<And>c. ki_kallsyms scanner = Some c \<Longrightarrow>
      find_kallsyms decode (be_phys backend) (ki_cr3 scanner) (ki_virt_text scanner) = Inr c"
    and "(kernel_step decode)\<^sup>*\<^sup>* (new_kernel backend profile scanner slide) k"
  shows "fst (kernel_module_by_address decode a k) = fresh_kernel_module decode a k \<and>
    (listed_kernel_modules k = Inr as \<longrightarrow>
       fst (snd (kernel_module_list_callback collect [] k)) = as \<and>
       (a \<in> set as \<and> a \<noteq> kernel_base k \<longrightarrow>
          (\<exists>m. fst (kernel_module_by_address decode a k) = Inr m \<and> mi_address m = a)))"
proof -
  have c: "kernel_coherent decode k"
    using kernel_run [OF assms(2) new_kernel_coherent] assms(1) by blast
  show ?thesis
    using kernel_module_by_address_value [OF c, of a] kernel_module_list_value [OF c, of as]
      fresh_kernel_module_resolves [of k as a decode] by simp
qed

section \<open>A sample kernel\<close>

text \<open>
  One idle task and one kernel thread \<open>init\<close> in a ring, and one module \<open>ext4\<close> with one memory region in use.
\<close>

definition sample_kernel_view :: memview where
  "sample_kernel_view = empty_view
     \<lparr> rd_u32 := (\<lambda>a. case map_of
          [(0xffffffff820004a0, 0), (0xffffffff820004a4, 0), (0xffff8880000004a0, 1), (0xffff8880000004a4, 1),
           (0xffffffffc0000000, 0), (0xffffffffc0000108, 0x2000)] a of
            Some v \<Rightarrow> Full v | None \<Rightarrow> Fail (Connector 2)),
       rd_addr := (\<lambda>a. case map_of
          [(0xffffffff82000400, 0xffff888000000400), (0xffff888000000400, 0xffffffff82000400),
           (0xffff888000000450, NULL), (0xffff888000000458, NULL),
           (0xffffffff82800000, 0xffffffffc0000008), (0xffffffffc0000008, 0xffffffff82800000),
           (0xffffffffc0000100, 0xffffffffc0001000)] a of
            Some v \<Rightarrow> Full v | None \<Rightarrow> Fail (Connector 2)),
       rd_utf8_lossy := (\<lambda>a n. if a = 0xffffffffc0000018 then Full ''ext4'' else Full ''init'') \<rparr>"

definition sample_scanner :: kernel_info where
  "sample_scanner =
     \<lparr> ki_cr3 = 0x1000, ki_phys_base = 0x1000000, ki_la57_on = False, ki_virt_text = 0xffffffff81000000,
       ki_phys_text = 0x1000000, ki_kallsyms = None, ki_version = vr_major_only 6 \<rparr>"

definition sample_kernel :: "nat linux_kernel" where
  "sample_kernel = new_kernel (sample_backend sample_kernel_view) sample_profile sample_scanner 0"

lemma sample_kernel_parts:
  "kernel_view sample_kernel = sample_kernel_view" "kernel_offsets sample_kernel = pr_offsets sample_profile"
  "lk_init_task sample_kernel = 0xffffffff82000000" "lk_profile sample_kernel = sample_profile"
  "lki_slide (lk_info sample_kernel) = 0" "lki_dtb (lk_info sample_kernel) = 0x1000"
  "kernel_base sample_kernel = 0xffffffff81000000" "ki_kallsyms sample_scanner = None"
  by (simp_all add: sample_kernel_def new_kernel_def kernel_view_def sample_backend_def sample_scanner_def
      kernel_offsets_def kernel_base_def rebase_add sample_profile_def Let_def)

lemma sample_task_list:
  "task_list sample_kernel_view (off_task (pr_offsets sample_profile)) 0xffffffff82000400 0xffffffff82000400
     [(0xffffffff82000000, 0, 0), (0xffff888000000000, 1, 1)]"
proof -
  have l: "task_list sample_kernel_view (off_task (pr_offsets sample_profile)) 0xffffffff82000400 0xffff888000000400
     [(0xffff888000000000, 1, 1)]"
    by (rule task_list.last [where successor = "0xffffffff82000400"])
      (simp_all add: sample_kernel_view_def sample_profile_def)
  show ?thesis
    by (rule task_list.link [where successor = "0xffff888000000400", OF _ _ _ _ _ _ _ l])
      (simp_all add: sample_kernel_view_def sample_profile_def)
qed

theorem process_list_reports_leaders_witness:
  "process_address_list_callback collect [] sample_kernel = (Inr (), [0xffff888000000000])"
proof -
  let ?ts = "[(0xffffffff82000000, 0, 0), (0xffff888000000000, 1, 1)] :: (addr \<times> u32 \<times> u32) list"
  have "task_tasks (off_task (pr_offsets sample_profile)) = 0x400" by (simp add: sample_profile_def)
  then have h: "(0xffffffff82000400 :: addr) =
      lk_init_task sample_kernel + task_tasks (off_task (pr_offsets sample_profile))"
    by (simp add: sample_kernel_parts)
  have "length ?ts \<le> MAX_PROCESS_ITER" by (simp add: MAX_PROCESS_ITER_def)
  from process_list_reports_leaders [OF refl, of _ sample_kernel ?ts collect "[]", unfolded sample_kernel_parts(1,2),
      OF h sample_task_list this]
  show ?thesis by (simp add: group_leaders_def feed_collect [of "[]"] del: feed.simps)
qed

definition sample_module :: linux_kernel_module_entry where
  "sample_module = \<lparr> km_address = 0xffffffffc0000000, km_base = 0xffffffffc0001000, km_size = 0x2000,
     km_name = ''ext4'', km_path = ''/sys/module/ext4'' \<rparr>"

lemma sample_modules: "collect_kernel_modules sample_kernel = Inr [sample_module]"
proof -
  have o2: "modmem_base (off_module_memory (pr_offsets sample_profile)) = 0"
    "modmem_size (off_module_memory (pr_offsets sample_profile)) = 8"
    "modmem_struct_size (off_module_memory (pr_offsets sample_profile)) = 0x48"
    by (simp_all add: sample_profile_def)
  have rd: "rd_addr sample_kernel_view 0xffffffffc0000100 = Full 0xffffffffc0001000"
    "rd_u32 sample_kernel_view 0xffffffffc0000108 = Full 0x2000"
    "rd_addr sample_kernel_view 0xffffffffc0000148 = Fail (Connector 2)"
    "rd_addr sample_kernel_view 0xffffffffc0000190 = Fail (Connector 2)"
    "rd_addr sample_kernel_view 0xffffffffc00001d8 = Fail (Connector 2)"
    "rd_addr sample_kernel_view 0xffffffffc0000220 = Fail (Connector 2)"
    "rd_addr sample_kernel_view 0xffffffffc0000268 = Fail (Connector 2)"
    "rd_addr sample_kernel_view 0xffffffffc00002b0 = Fail (Connector 2)"
    by (simp_all add: sample_kernel_view_def)
  have r0: "region_of sample_kernel_view (off_module_memory (pr_offsets sample_profile)) 0xffffffffc0000100 0 = (0xffffffffc0001000, 0x2000)"
    by (simp add: region_of_def o2 rd Let_def)
  have r1: "\<not> in_use (region_of sample_kernel_view (off_module_memory (pr_offsets sample_profile)) 0xffffffffc0000100 i)"
    if "i \<in> {1, 2, 3, 4, 5, 6}" for i
    using that by (auto simp: region_of_def in_use_def o2 rd Let_def)
  have u: "[0 ..< 7] = [0, 1, 2, 3, 4, 5, 6]" by (simp add: upt_rec)
  have s: "module_span sample_kernel_view (off_module_memory (pr_offsets sample_profile)) 0xffffffffc0000100 [0 ..< 7] NULL 0 =
      (0xffffffffc0001000, 0xffffffffc0003000)"
    unfolding u module_span_Cons Let_def r0
    by (simp add: r1 in_use_def [of "(_, _)"] sat_add_def)
  have "read_kernel_module sample_kernel_view (off_module (pr_offsets sample_profile))
      (off_module_memory (pr_offsets sample_profile)) 0xffffffffc0000000 = Some sample_module"
    using s by (simp add: read_kernel_module_def sample_profile_def sample_kernel_view_def sample_module_def
        trim_end_matches_def sat_sub_def Let_def)
  then have m: "read_kernel_module sample_kernel_view (off_module (pr_offsets sample_profile))
      (off_module_memory (pr_offsets sample_profile)) 0xffffffffc0000000 = Some sample_module" .
  have f: "\<not> module_unformed sample_kernel_view (off_module (pr_offsets sample_profile))
      (en_module_state (pr_enums sample_profile)) 0xffffffffc0000000"
    by (simp add: module_unformed_def sample_kernel_view_def sample_profile_def)
  have o1: "mod_list (off_module (pr_offsets sample_profile)) = 8" "list_next (off_list (pr_offsets sample_profile)) = 0"
    "sym_modules (pr_symbols sample_profile) = Some 0xffffffff82800000"
    by (simp_all add: sample_profile_def)
  have l: "rd_addr sample_kernel_view 0xffffffff82800000 = Full 0xffffffffc0000008"
    "rd_addr sample_kernel_view 0xffffffffc0000008 = Full 0xffffffff82800000"
    by (simp_all add: sample_kernel_view_def)
  have w: "kernel_module_walk (Suc (Suc n)) sample_kernel_view sample_profile 0xffffffff82800000 0xffffffffc0000008 []
      = [sample_module]" for n
    by (simp add: Let_def o1 l f m)
  have "MAX_KERNEL_MODULE_ITER = Suc (Suc 16382)" by (simp add: MAX_KERNEL_MODULE_ITER_def)
  then show ?thesis
    using w [of 16382] by (simp add: collect_kernel_modules_def sample_kernel_parts o1 l rebase_add Let_def
        del: kernel_module_walk.simps)
qed

theorem kernel_modules_span_regions_witness:
  "spans 0xffffffffc0001000 0xffffffffc0003000
     {r \<in> region_of sample_kernel_view (off_module_memory (pr_offsets sample_profile)) 0xffffffffc0000100 ` {..< 7}. in_use r}"
proof -
  have "mod_mem (off_module (pr_offsets sample_profile)) = 0x100" "unat (mod_mem_count (off_module (pr_offsets sample_profile))) = 7"
    by (simp_all add: sample_profile_def)
  then show ?thesis
    using kernel_modules_span_regions [OF sample_modules] by (simp add: sample_kernel_parts sample_module_def)
qed

theorem kernel_answers_are_fresh_witness:
  "\<exists>m. fst (kernel_module_by_address (\<lambda>_ _. []) 0xffffffffc0000000
     (snd (snd (kernel_module_list_callback (\<lambda>n _. (True, Suc n)) 0 sample_kernel)))) = Inr m \<and> mi_address m = 0xffffffffc0000000"
proof -
  define j where "j = snd (snd (kernel_module_list_callback (\<lambda>n _. (True, Suc n)) 0 sample_kernel))"
  have run: "(kernel_step (\<lambda>_ _. []))\<^sup>*\<^sup>* sample_kernel j"
    unfolding j_def by (rule r_into_rtranclp) (rule kernel_step.list)
  have coh: "kernel_coherent (\<lambda>_ _. []) sample_kernel"
    unfolding sample_kernel_def by (rule new_kernel_coherent) (simp add: sample_kernel_parts)
  have b: "kernel_bare j = kernel_bare sample_kernel"
    unfolding j_def by (rule conjunct2 [OF kernel_module_list_state [OF coh]])
  have c: "collect_kernel_modules j = Inr [sample_module]" "kernel_base j = 0xffffffff81000000"
    by (rule trans [OF kernel_bare_same(1) [OF b] sample_modules])
      (rule trans [OF kernel_bare_same(4) [OF b] sample_kernel_parts(7)])
  let ?as = "[0xffffffff81000000, 0xffffffffc0000000] :: addr list"
  have l: "listed_kernel_modules j = Inr ?as"
    by (simp add: listed_kernel_modules_def c sample_module_def)
  have "0xffffffffc0000000 \<in> set ?as \<and> 0xffffffffc0000000 \<noteq> kernel_base j" by (simp add: c)
  moreover have "\<And>c. ki_kallsyms sample_scanner = Some c \<Longrightarrow>
      find_kallsyms (\<lambda>_ _. []) (be_phys (sample_backend sample_kernel_view)) (ki_cr3 sample_scanner) (ki_virt_text sample_scanner) = Inr c"
    by (simp add: sample_kernel_parts)
  note kernel_answers_are_fresh [OF this run [unfolded sample_kernel_def], of "0xffffffffc0000000" ?as]
  ultimately show ?thesis unfolding j_def [symmetric] using l by blast
qed

lemma sample_symbols: "syms_iter sample_kallsyms sample_table_view = [(0xffffffff81000010, ''start'')]"
proof -
  have "syms_iter sample_kallsyms sample_table_view =
     [(sat_add 0xffffffff81000000 0x10, skip_char ''Tst'' @ ''art'')]"
    using syms_from_table [of sample_table_view sample_kallsyms "\<lambda>b. if b = 1 then ''Tst'' else ''art''" "[]" "[(0x10, [1, 2])]"]
      sample_table_holds
    by (simp add: syms_iter_def iterator_new_def names_image_def sample_kallsyms_def)
  moreover have "sat_add (0xffffffff81000000 :: addr) 0x10 = 0xffffffff81000010" by code_simp
  moreover have "skip_char ''Tst'' = ''st''" by code_simp
  ultimately show ?thesis by simp
qed

theorem approximate_kernel_size_covers_witness:
  "unat (0xffffffff81000010 :: addr) <
     unat (0xffffffff81000000 :: addr) + unat (approximate_kernel_size 0xffffffff81000000 sample_kallsyms sample_table_view)"
  using approximate_kernel_size_covers [of "0xffffffff81000010" "''start''" sample_kallsyms sample_table_view "0xffffffff81000000"]
  by (simp add: sample_symbols)

end
