(* ===== verification/Hint_Cache.thy ===== *)
theory Hint_Cache
  imports Defs Physical
begin

text \<open>
  \<open>memflow-linux/src/cache.rs\<close>: the persistent cache of kernel hints. One file per fingerprint of the
  inspected memory holds the physical base of the kernel found there. The file system, the environment
  and the clock are the standard library's: the first two are explicit state, the clock an argument.
\<close>

section \<open>Policy\<close>

definition CACHE_VERSION :: u32 where "CACHE_VERSION = 1"
definition CACHE_FILE_PREFIX :: string where "CACHE_FILE_PREFIX = ''kernel-hint-v1-''"
definition CACHE_FILE_SUFFIX :: string where "CACHE_FILE_SUFFIX = ''.toml''"
definition FINGERPRINT_SAMPLE_SIZE :: u64 where "FINGERPRINT_SAMPLE_SIZE = 4096"

record cache_options =
  co_enabled :: bool
  co_dir :: "string option"

datatype cache_option_value = Disabled | Default | Dir string

definition parse_cache_option :: "string \<Rightarrow> cache_option_value" where
  "parse_cache_option value =
     (if value = [] \<or> eq_ignore_ascii_case value ''1'' \<or> eq_ignore_ascii_case value ''on''
         \<or> eq_ignore_ascii_case value ''true'' \<or> eq_ignore_ascii_case value ''default''
      then Default
      else if eq_ignore_ascii_case value ''0'' \<or> eq_ignore_ascii_case value ''off''
         \<or> eq_ignore_ascii_case value ''false'' \<or> eq_ignore_ascii_case value ''disabled''
      then Disabled
      else Dir value)"

text \<open>The environment maps a name to its raw value; \<open>env::var\<close> also fails when it is not UTF-8.\<close>

type_synonym environment = "string \<Rightarrow> string option"

definition env_var :: "environment \<Rightarrow> string \<Rightarrow> string option" where
  "env_var env name = (case env name of None \<Rightarrow> None | Some v \<Rightarrow> from_utf8 (to_bytes v))"

definition from_env :: "environment \<Rightarrow> cache_options" where
  "from_env env =
     (case env_var env ''MEMFLOW_LINUX_KERNEL_HINT_CACHE'' of
        Some value \<Rightarrow>
          (case parse_cache_option (trim value) of
             Disabled \<Rightarrow> \<lparr> co_enabled = False, co_dir = None \<rparr>
           | Default \<Rightarrow> \<lparr> co_enabled = True, co_dir = None \<rparr>
           | Dir dir \<Rightarrow> \<lparr> co_enabled = True, co_dir = Some dir \<rparr>)
      | None \<Rightarrow> \<lparr> co_enabled = True, co_dir = None \<rparr>)"

definition options_disabled :: cache_options where
  "options_disabled = \<lparr> co_enabled = False, co_dir = None \<rparr>"

definition with_dir :: "string \<Rightarrow> cache_options" where
  "with_dir path = \<lparr> co_enabled = True, co_dir = Some path \<rparr>"

text \<open>\<open>PathBuf::push\<close> on Unix: an absolute path replaces, a separator is added where it is missing.\<close>

definition path_join :: "string \<Rightarrow> string \<Rightarrow> string" where
  "path_join base p =
     (if p \<noteq> [] \<and> hd p = CHR ''/'' then p
      else if base = [] \<or> last base = CHR ''/'' then base @ p
      else base @ ''/'' @ p)"

text \<open>The branch compiled on Linux; \<open>env::temp_dir\<close> is \<open>TMPDIR\<close> or \<open>/tmp\<close>.\<close>

definition default_cache_dir :: "environment \<Rightarrow> string option" where
  "default_cache_dir env =
     (let base =
        (case env ''XDG_CACHE_HOME'' of
           Some d \<Rightarrow> d
         | None \<Rightarrow>
             (case env ''HOME'' of
                Some home \<Rightarrow> path_join home ''.cache''
              | None \<Rightarrow> (case env ''TMPDIR'' of Some t \<Rightarrow> t | None \<Rightarrow> ''/tmp'')))
      in Some (path_join (path_join base ''memflow'') ''linux''))"

definition resolve_dir :: "environment \<Rightarrow> cache_options \<Rightarrow> string option" where
  "resolve_dir env opts =
     (if \<not> co_enabled opts then None
      else case co_dir opts of Some d \<Rightarrow> Some d | None \<Rightarrow> default_cache_dir env)"

section \<open>The hasher\<close>

definition OFFSET_BASIS :: u64 where "OFFSET_BASIS = 0xcbf29ce484222325"
definition PRIME :: u64 where "PRIME = 0x100000001b3"

definition fnv_step :: "u64 \<Rightarrow> u8 \<Rightarrow> u64" where
  "fnv_step h byte = (h XOR ucast byte) * PRIME"

definition fnv_write :: "u64 \<Rightarrow> bytes \<Rightarrow> u64" where
  "fnv_write h bs = foldl fnv_step h bs"

definition fnv_write_u8 :: "u64 \<Rightarrow> u8 \<Rightarrow> u64" where
  "fnv_write_u8 h value = fnv_write h [value]"

definition to_le_bytes :: "u64 \<Rightarrow> bytes" where
  "to_le_bytes value = map (\<lambda>i. ucast (drop_bit (8 * i) value)) [0 ..< 8]"

definition fnv_write_u64 :: "u64 \<Rightarrow> u64 \<Rightarrow> u64" where
  "fnv_write_u64 h value = fnv_write h (to_le_bytes value)"

section \<open>Fingerprints\<close>

definition sample_at :: "u64 \<Rightarrow> u64 \<Rightarrow> u64" where
  "sample_at tot x = min (sat_sub x (kb 4)) (sat_sub tot (kb 4))"

definition fingerprint_sample_offsets :: "u64 \<Rightarrow> u64 list" where
  "fingerprint_sample_offsets tot =
     (let page = kb 4;
          offsets =
            [0] @
            (if page < tot then [page] else []) @
            (if page * 2 < tot then
               [sample_at tot (tot div 8), sample_at tot (tot div 4),
                sample_at tot (tot div 2), sample_at tot ((tot * 3) div 4),
                sample_at tot ((tot * 7) div 8), sat_sub tot page]
             else [])
      in remdups_adj (sort offsets))"

text \<open>One turn of the sampling loop: the offset, a byte for the outcome of the read, the page.\<close>

definition hash_sample :: "memview \<Rightarrow> u64 \<Rightarrow> u64 \<Rightarrow> u64 \<Rightarrow> u64" where
  "hash_sample view tot h offset =
     (let remaining = sat_sub tot offset;
          read_len = unat (min remaining FINGERPRINT_SAMPLE_SIZE)
      in if read_len = 0 then h
         else
           let h1 = fnv_write_u64 h offset
           in case data_part (rd_raw view offset read_len) of
                Inr buf \<Rightarrow> fnv_write (fnv_write_u8 h1 1) buf
              | Inl _ \<Rightarrow> fnv_write_u8 h1 0)"

definition hash_samples :: "memview \<Rightarrow> u64 \<Rightarrow> u64 \<Rightarrow> u64 list \<Rightarrow> u64" where
  "hash_samples view tot h offsets = foldl (hash_sample view tot) h offsets"

definition compute_memory_fingerprint :: "physmem \<Rightarrow> u64" where
  "compute_memory_fingerprint pm =
     (let tot = sat_add (pm_max_address pm) 1;
          h0 = OFFSET_BASIS;
          h1 = fnv_write_u64 h0 (pm_max_address pm);
          h2 = fnv_write_u64 h1 (pm_real_size pm);
          h3 = fnv_write_u64 h2 (ucast (pm_ideal_batch_size pm));
          h4 = fnv_write_u8 h3 (if pm_readonly pm then 1 else 0)
      in hash_samples (pm_view pm) tot h4 (fingerprint_sample_offsets tot))"

definition compute_defs_fingerprint :: "linux_profile \<Rightarrow> u64" where
  "compute_defs_fingerprint p =
     (let s = pr_symbols p
      in fnv_write_u64 (fnv_write_u64 (fnv_write_u64
           (fnv_write (fnv_write OFFSET_BASIS (to_bytes (pr_source p))) (to_bytes (pr_banner p)))
           (sym_text s)) (sym_init_task s)) (sym_linux_banner s))"

section \<open>Entries\<close>

record cache_entry =
  ce_version :: u32
  ce_memory_fingerprint :: u64
  ce_defs_fingerprint :: u64
  ce_kernel_hint :: addr
  ce_updated_unix_secs :: u64

definition format_cache_entry :: "cache_entry \<Rightarrow> string" where
  "format_cache_entry e =
     (let hex16 = (\<lambda>v. pad_left 16 (CHR ''0'') (radix_str 16 (unat v))) in
      ''version = '' @ radix_str 10 (unat (ce_version e)) @ [newline] @
      ''memory_fingerprint = \"0x'' @ hex16 (ce_memory_fingerprint e) @ ''\"'' @ [newline] @
      ''defs_fingerprint = \"0x'' @ hex16 (ce_defs_fingerprint e) @ ''\"'' @ [newline] @
      ''kernel_hint = \"0x'' @ radix_str 16 (unat (ce_kernel_hint e)) @ ''\"'' @ [newline] @
      ''updated_unix_secs = '' @ radix_str 10 (unat (ce_updated_unix_secs e)) @ [newline])"

definition cache_parse_hex_u64 :: "string \<Rightarrow> u64 option" where
  "cache_parse_hex_u64 value =
     (let trimmed = trim value;
          digits = trim_start_matches ''0X'' (trim_start_matches ''0x'' trimmed);
          radix = (if starts_with ''0x'' trimmed \<or> starts_with ''0X'' trimmed
                      \<or> (\<exists>c \<in> set digits. c \<in> set ''abcdefABCDEF'')
                   then 16 else 10)
      in map_option of_nat (from_str_radix (2 ^ 64) radix digits))"

record parsed_entry =
  pe_version :: "u32 option"
  pe_memory_fingerprint :: "u64 option"
  pe_defs_fingerprint :: "u64 option"
  pe_kernel_hint :: "addr option"
  pe_updated_unix_secs :: "u64 option"

definition set_cache_field :: "parsed_entry \<Rightarrow> string \<Rightarrow> string \<Rightarrow> parsed_entry" where
  "set_cache_field st key value =
     (if key = ''version'' then st\<lparr>pe_version := map_option of_nat (from_str_radix (2 ^ 32) 10 value)\<rparr>
      else if key = ''memory_fingerprint'' then st\<lparr>pe_memory_fingerprint := cache_parse_hex_u64 value\<rparr>
      else if key = ''defs_fingerprint'' then st\<lparr>pe_defs_fingerprint := cache_parse_hex_u64 value\<rparr>
      else if key = ''kernel_hint'' then st\<lparr>pe_kernel_hint := cache_parse_hex_u64 value\<rparr>
      else if key = ''updated_unix_secs'' then
        st\<lparr>pe_updated_unix_secs := map_option of_nat (from_str_radix (2 ^ 64) 10 value)\<rparr>
      else st)"

definition parse_cache_line :: "parsed_entry \<Rightarrow> string \<Rightarrow> parsed_entry" where
  "parse_cache_line st raw =
     (let line = trim raw in
      if line = [] \<or> starts_with ''#'' line then st
      else case split_once (CHR ''='') line of
        None \<Rightarrow> st
      | Some (k, v) \<Rightarrow> set_cache_field st (trim k) (trim_matches (CHR 0x22) (trim v)))"

definition empty_parsed :: parsed_entry where
  "empty_parsed = \<lparr> pe_version = None, pe_memory_fingerprint = None, pe_defs_fingerprint = None,
     pe_kernel_hint = None, pe_updated_unix_secs = None \<rparr>"

definition parse_cache_entry :: "string \<Rightarrow> cache_entry result" where
  "parse_cache_entry content =
     (let st = foldl parse_cache_line empty_parsed (lines content) in
      case (pe_version st, pe_memory_fingerprint st, pe_defs_fingerprint st, pe_kernel_hint st,
            pe_updated_unix_secs st) of
        (Some v, Some mf, Some df, Some kh, Some up) \<Rightarrow>
          Inr \<lparr> ce_version = v, ce_memory_fingerprint = mf, ce_defs_fingerprint = df,
                ce_kernel_hint = kh, ce_updated_unix_secs = up \<rparr>
      | _ \<Rightarrow> Inl (OsLayer Encoding))"

section \<open>The cache\<close>

text \<open>
  The file system as the code sees it: the contents of the files that exist, the paths whose read
  fails for another reason, the paths whose parent directory cannot be created and those that cannot
  be written.
\<close>

record host_fs =
  hf_files :: "string \<Rightarrow> string option"
  hf_unreadable :: "string \<Rightarrow> bool"
  hf_no_parent :: "string \<Rightarrow> bool"
  hf_unwritable :: "string \<Rightarrow> bool"

record hint_cache =
  hc_path :: string
  hc_memory_fingerprint :: u64

definition cache_prepare :: "environment \<Rightarrow> physmem \<Rightarrow> cache_options \<Rightarrow> hint_cache option" where
  "cache_prepare env pm opts =
     (case resolve_dir env opts of
        None \<Rightarrow> None
      | Some dir \<Rightarrow>
          let fingerprint = compute_memory_fingerprint pm;
              file = CACHE_FILE_PREFIX @ pad_left 16 (CHR ''0'') (radix_str 16 (unat fingerprint)) @ CACHE_FILE_SUFFIX
          in Some \<lparr> hc_path = path_join dir file, hc_memory_fingerprint = fingerprint \<rparr>)"

definition load_kernel_hint :: "host_fs \<Rightarrow> hint_cache \<Rightarrow> addr option result" where
  "load_kernel_hint fs c =
     (if hf_unreadable fs (hc_path c) then Inl (OsLayer UnableToReadFile)
      else case hf_files fs (hc_path c) of
        None \<Rightarrow> Inr None
      | Some raw \<Rightarrow>
          (case from_utf8 (to_bytes raw) of
             None \<Rightarrow> Inl (OsLayer UnableToReadFile)
           | Some content \<Rightarrow>
               rbind (parse_cache_entry content) (\<lambda>entry.
                 if ce_version entry \<noteq> CACHE_VERSION then Inr None
                 else if ce_memory_fingerprint entry \<noteq> hc_memory_fingerprint c then Inr None
                 else Inr (Some (ce_kernel_hint entry)))))"

definition cache_store ::
    "host_fs \<Rightarrow> hint_cache \<Rightarrow> linux_profile \<Rightarrow> addr \<Rightarrow> u64 \<Rightarrow> unit result \<times> host_fs" where
  "cache_store fs c profile kernel_hint now =
     (if hf_no_parent fs (hc_path c) then (Inl (OsLayer UnableToWriteFile), fs)
      else
        let entry = \<lparr> ce_version = CACHE_VERSION, ce_memory_fingerprint = hc_memory_fingerprint c,
              ce_defs_fingerprint = compute_defs_fingerprint profile, ce_kernel_hint = kernel_hint,
              ce_updated_unix_secs = now \<rparr>
        in if hf_unwritable fs (hc_path c) then (Inl (OsLayer UnableToWriteFile), fs)
           else (Inr (), fs\<lparr>hf_files := (hf_files fs)(hc_path c \<mapsto> format_cache_entry entry)\<rparr>))"

section \<open>Properties: the text of an entry\<close>

lemma digit_text_no_newline: "digit_text r s \<Longrightarrow> r \<le> 36 \<Longrightarrow> newline \<notin> set s"
  by (rule digit_text_notin) (simp_all add: newline_def)

lemma digit_text_no_quote: "digit_text r s \<Longrightarrow> r \<le> 36 \<Longrightarrow> CHR 0x22 \<notin> set s"
  by (rule digit_text_notin) simp_all

lemma digit_text_clean: "digit_text r s \<Longrightarrow> r \<le> 36 \<Longrightarrow> c = CHR 0x22 \<or> c = newline \<Longrightarrow> c \<notin> set s"
  using digit_text_no_newline digit_text_no_quote by blast

lemma strip_cr_plain: "plain_char (last l) \<Longrightarrow> strip_cr l = l"
  by (auto simp: strip_cr_def carriage_return_def plain_char_def)

text \<open>A key of the format and a value that survives trimming.\<close>

definition key_ok :: "string \<Rightarrow> bool" where
  "key_ok k \<longleftrightarrow> k \<noteq> [] \<and> plain_char (hd k) \<and> hd k \<noteq> CHR ''#'' \<and> CHR ''='' \<notin> set k
     \<and> newline \<notin> set k \<and> trim (k @ '' '') = k"

definition value_ok :: "string \<Rightarrow> bool" where
  "value_ok v \<longleftrightarrow> v \<noteq> [] \<and> plain_char (hd v) \<and> plain_char (last v) \<and> newline \<notin> set v"

lemma keys_ok:
  "key_ok ''version''" "key_ok ''memory_fingerprint''" "key_ok ''defs_fingerprint''"
  "key_ok ''kernel_hint''" "key_ok ''updated_unix_secs''"
  by code_simp+

lemma value_ok_digits: "digit_text r s \<Longrightarrow> r \<le> 36 \<Longrightarrow> value_ok s"
  by (auto simp: value_ok_def digit_text_def digit_text_last_plain digit_text_no_newline
      intro: digit_text_plain)

lemma value_ok_quoted: "newline \<notin> set s \<Longrightarrow> value_ok (CHR 0x22 # s @ [CHR 0x22])"
proof -
  assume "newline \<notin> set s"
  moreover have "newline \<noteq> CHR 0x22" by code_simp
  ultimately show ?thesis by (auto simp: value_ok_def plain_char_def)
qed

lemma parse_cache_line_field:
  assumes "key_ok k" "value_ok v"
  shows "parse_cache_line st (k @ '' = '' @ v) = set_cache_field st k (trim_matches (CHR 0x22) v)"
proof -
  let ?l = "k @ '' = '' @ v"
  have l: "trim ?l = ?l" by (rule trim_plain) (use assms in \<open>auto simp: key_ok_def value_ok_def\<close>)
  have hash: "\<not> starts_with ''#'' ?l" using assms by (cases k) (auto simp: key_ok_def starts_with_def)
  have "CHR ''='' \<notin> set (k @ '' '')" using assms by (simp add: key_ok_def)
  from split_once_append [OF this] have "split_once (CHR ''='') ?l = Some (k @ '' '', '' '' @ v)" by simp
  moreover have "trim ('' '' @ v) = v"
    using assms(2) trim_plain [of v] by (simp add: trim_def value_ok_def trim_start_space)
  moreover have "trim (k @ '' '') = k" using assms(1) by (simp add: key_ok_def)
  ultimately show ?thesis using l hash assms(1) by (simp add: parse_cache_line_def key_ok_def)
qed

lemma lines_field:
  assumes "key_ok k" "value_ok v"
  shows "lines (k @ '' = '' @ v @ newline # s) = (k @ '' = '' @ v) # lines s"
proof -
  have "newline \<notin> set '' = ''" by code_simp
  then have "newline \<notin> set (k @ '' = '' @ v)" using assms by (simp add: key_ok_def value_ok_def)
  moreover have "strip_cr (k @ '' = '' @ v) = k @ '' = '' @ v"
    by (rule strip_cr_plain) (use assms in \<open>simp add: value_ok_def\<close>)
  ultimately show ?thesis using lines_cons [of "k @ '' = '' @ v" s] by simp
qed

lemma trim_matches_none: "c \<notin> set s \<Longrightarrow> trim_matches c s = s"
proof -
  assume c: "c \<notin> set s"
  have "dropWhile (\<lambda>x. x = c) t = t" if "c \<notin> set t" for t using that by (cases t) auto
  with c have "dropWhile (\<lambda>x. x = c) s = s" "dropWhile (\<lambda>x. x = c) (rev s) = rev s" by simp_all
  then show ?thesis by (simp add: trim_matches_def)
qed

lemma trim_matches_quoted:
  assumes "c \<notin> set s" "s \<noteq> []"
  shows "trim_matches c (c # s @ [c]) = s"
proof -
  have "dropWhile (\<lambda>x. x = c) (c # s @ [c]) = s @ [c]" using assms by (cases s) auto
  moreover have "dropWhile (\<lambda>x. x = c) (rev (s @ [c])) = rev s"
    using assms by (cases s rule: rev_cases) auto
  ultimately show ?thesis by (simp add: trim_matches_def)
qed

lemma digit_char_not_x: "d < 16 \<Longrightarrow> digit_char d \<noteq> CHR ''x'' \<and> digit_char d \<noteq> CHR ''X''"
proof -
  assume d: "d < 16"
  have "(of_char (CHR ''x'') :: nat) = 120" "(of_char (CHR ''X'') :: nat) = 88" by simp_all
  moreover have "(of_char (digit_char d) :: nat) = (if d < 10 then 48 + d else 87 + d)"
    using d by (simp add: of_char_digit_char)
  ultimately have "(of_char (digit_char d) :: nat) \<noteq> of_char (CHR ''x'')"
      "(of_char (digit_char d) :: nat) \<noteq> of_char (CHR ''X'')" using d by (simp_all split: if_splits)
  then show ?thesis by metis
qed

lemma cache_parse_hex_literal:
  assumes "digit_text 16 s" "digits_val 16 (2 ^ 64) 0 s = Some (unat v)"
  shows "cache_parse_hex_u64 (''0x'' @ s) = Some v"
proof -
  have no_x: "CHR ''x'' \<notin> set s" "CHR ''X'' \<notin> set s"
    using digit_char_not_x assms(1) by (metis digit_text_def less_trans)+
  have "\<not> starts_with ''0x'' s" "\<not> starts_with ''0X'' s"
    using no_x by (cases s; cases "tl s"; auto simp: starts_with_def)+
  then have "trim_start_matches ''0X'' (trim_start_matches ''0x'' (''0x'' @ s)) = s"
    by (simp add: trim_start_matches_append trim_start_matches_none del: append.simps)
  moreover have "starts_with ''0x'' (''0x'' @ s)" by (simp add: starts_with_def)
  ultimately show ?thesis
    using assms from_str_radix_digit_text [OF assms(1), of "2 ^ 64"]
    by (simp add: cache_parse_hex_u64_def trim_hex_literal Let_def del: append.simps)
qed

lemma cache_parse_hex_padded:
  "cache_parse_hex_u64 (''0x'' @ pad_left w (CHR ''0'') (radix_str 16 (unat v))) = Some v"
proof (rule cache_parse_hex_literal)
  let ?d = "pad_left w (CHR ''0'') (radix_str 16 (unat v))"
  show d: "digit_text 16 ?d" by (simp add: pad_left_digits radix_str_digits)
  have "from_str_radix (2 ^ 64) 16 ?d = Some (unat v)"
    by (rule parse_padded) (use unat_u64_less [of v] in simp_all)
  then show "digits_val 16 (2 ^ 64) 0 ?d = Some (unat v)"
    using from_str_radix_digit_text [OF d] by simp
qed

lemma cache_parse_hex_plain:
  "cache_parse_hex_u64 (''0x'' @ radix_str 16 (unat v)) = Some v"
  using cache_parse_hex_padded [of 0 v] by (simp add: pad_left_def)

lemma hex_literal_clean:
  assumes "digit_text 16 s" "c = CHR 0x22 \<or> c = newline"
  shows "c \<notin> set (''0x'' @ s)"
proof -
  have "newline \<notin> set ''0x''" by code_simp
  then have "c \<notin> set ''0x''" using assms(2) by auto
  then show ?thesis using digit_text_clean [OF assms(1) _ assms(2)] by simp
qed

lemma quoted_hex:
  assumes "digit_text 16 s"
  shows "value_ok (CHR 0x22 # (''0x'' @ s) @ [CHR 0x22])"
    and "trim_matches (CHR 0x22) (CHR 0x22 # (''0x'' @ s) @ [CHR 0x22]) = ''0x'' @ s"
  by (rule value_ok_quoted, rule hex_literal_clean [OF assms], simp,
      rule trim_matches_quoted, rule hex_literal_clean [OF assms], simp_all)

lemma parse_format_cache_entry: "parse_cache_entry (format_cache_entry e) = Inr e"
proof -
  define hex where "hex v = ''0x'' @ pad_left 16 (CHR ''0'') (radix_str 16 (unat (v :: u64)))" for v
  define q where "q s = CHR 0x22 # s @ [CHR 0x22]" for s
  define dec where "dec n = radix_str 10 n" for n
  have hexd: "digit_text 16 (pad_left w (CHR ''0'') (radix_str 16 n))" for w n
    by (simp add: pad_left_digits radix_str_digits)
  have khd: "digit_text 16 (radix_str 16 n)" for n by (simp add: radix_str_digits)
  let ?kh = "''0x'' @ radix_str 16 (unat (ce_kernel_hint e))"
  have written: "format_cache_entry e =
      ''version'' @ '' = '' @ dec (unat (ce_version e)) @ newline #
      ''memory_fingerprint'' @ '' = '' @ q (hex (ce_memory_fingerprint e)) @ newline #
      ''defs_fingerprint'' @ '' = '' @ q (hex (ce_defs_fingerprint e)) @ newline #
      ''kernel_hint'' @ '' = '' @ q ?kh @ newline #
      ''updated_unix_secs'' @ '' = '' @ dec (unat (ce_updated_unix_secs e)) @ newline # []"
    by (simp add: format_cache_entry_def Let_def hex_def q_def dec_def)
  have dv: "value_ok (dec n)" "trim_matches (CHR 0x22) (dec n) = dec n" for n
    unfolding dec_def using radix_str_digits [of 10 n]
    by (simp_all add: value_ok_digits trim_matches_none digit_text_no_quote)
  have hv: "value_ok (q (hex v))" "trim_matches (CHR 0x22) (q (hex v)) = hex v" for v
    unfolding q_def hex_def by (rule quoted_hex [OF hexd])+
  have kv: "value_ok (q ?kh)" "trim_matches (CHR 0x22) (q ?kh) = ?kh"
    unfolding q_def by (rule quoted_hex [OF khd])+
  have "lines (format_cache_entry e) =
    [''version'' @ '' = '' @ dec (unat (ce_version e)),
     ''memory_fingerprint'' @ '' = '' @ q (hex (ce_memory_fingerprint e)),
     ''defs_fingerprint'' @ '' = '' @ q (hex (ce_defs_fingerprint e)),
     ''kernel_hint'' @ '' = '' @ q ?kh,
     ''updated_unix_secs'' @ '' = '' @ dec (unat (ce_updated_unix_secs e))]"
    unfolding written by (simp only: lines_field keys_ok dv hv kv lines_Nil)
  then have "foldl parse_cache_line empty_parsed (lines (format_cache_entry e)) =
    set_cache_field (set_cache_field (set_cache_field (set_cache_field (set_cache_field empty_parsed
      ''version'' (dec (unat (ce_version e))))
      ''memory_fingerprint'' (hex (ce_memory_fingerprint e)))
      ''defs_fingerprint'' (hex (ce_defs_fingerprint e)))
      ''kernel_hint'' ?kh)
      ''updated_unix_secs'' (dec (unat (ce_updated_unix_secs e)))"
    by (simp only: foldl.simps parse_cache_line_field keys_ok dv hv kv)
  moreover have "from_str_radix (2 ^ 32) 10 (dec (unat (w :: u32))) = Some (unat w)" for w
    unfolding dec_def by (rule parse_radix_str) (use unat_u32_less [of w] in simp_all)
  moreover have "from_str_radix (2 ^ 64) 10 (dec (unat (w :: u64))) = Some (unat w)" for w
    unfolding dec_def by (rule parse_radix_str) (use unat_u64_less [of w] in simp_all)
  moreover have "cache_parse_hex_u64 (hex v) = Some v" for v
    unfolding hex_def by (rule cache_parse_hex_padded)
  ultimately show ?thesis
    by (simp add: parse_cache_entry_def set_cache_field_def empty_parsed_def cache_parse_hex_plain
        del: append.simps)
qed

text \<open>
  C26. A cache entry written to disk reads back as the same entry, whatever its version,
  fingerprints, hint and time are.
\<close>

theorem cache_entry_roundtrip: "parse_cache_entry (format_cache_entry e) = Inr e"
  by (rule parse_format_cache_entry)

section \<open>Properties: load after store\<close>

lemma digit_text_ascii: "digit_text r s \<Longrightarrow> r \<le> 36 \<Longrightarrow> c \<in> set s \<Longrightarrow> (of_char c :: nat) < 128"
  using digit_text_plain [of r s c] by (simp add: plain_char_def)

lemma from_utf8_ascii:
  assumes "\<forall>c \<in> set s. (of_char c :: nat) < 128"
  shows "from_utf8 (to_bytes s) = Some s"
proof -
  have "(of_nat (of_char c) :: u8) < 0x80" if "c \<in> set s" for c
  proof -
    have "(of_char c :: nat) < 128" using assms that by simp
    then have "take_bit 8 (of_char c :: nat) = of_char c" by (simp add: take_bit_nat_eq_self_iff)
    with \<open>of_char c < 128\<close> show ?thesis by (simp add: word_less_nat_alt unsigned_of_nat)
  qed
  then have "utf8_valid (to_bytes s)"
    by (intro utf8_valid_ascii) (auto simp: to_bytes_def)
  then show ?thesis by (simp add: from_utf8_def)
qed

lemma format_cache_entry_ascii: "from_utf8 (to_bytes (format_cache_entry e)) = Some (format_cache_entry e)"
proof (rule from_utf8_ascii)
  have d: "\<forall>c \<in> set (radix_str 10 n). (of_char c :: nat) < 128"
      "\<forall>c \<in> set (radix_str 16 n). (of_char c :: nat) < 128"
      "\<forall>c \<in> set (pad_left w (CHR ''0'') (radix_str 16 n)). (of_char c :: nat) < 128" for n w
    using digit_text_ascii [OF radix_str_digits [of 10 n]] digit_text_ascii [OF radix_str_digits [of 16 n]]
      digit_text_ascii [OF pad_left_digits [OF _ radix_str_digits [of 16 n]]] by auto
  show "\<forall>c \<in> set (format_cache_entry e). (of_char c :: nat) < 128"
    using d by (auto simp: format_cache_entry_def Let_def newline_def)
qed

text \<open>
  C25. A hint stored through a cache handle is the hint the same handle loads; a handle of another
  memory that shares the path ignores the entry; no other file changes.
\<close>

theorem load_after_store:
  assumes "cache_store fs c profile hint now = (Inr (), fs')" "\<not> hf_unreadable fs (hc_path c)"
  shows "load_kernel_hint fs' c = Inr (Some hint) \<and>
    (hc_memory_fingerprint c' \<noteq> hc_memory_fingerprint c \<longrightarrow> hc_path c' = hc_path c \<longrightarrow>
       load_kernel_hint fs' c' = Inr None) \<and>
    (p \<noteq> hc_path c \<longrightarrow> hf_files fs' p = hf_files fs p)"
proof -
  obtain e where e: "ce_version e = CACHE_VERSION" "ce_memory_fingerprint e = hc_memory_fingerprint c"
      "ce_kernel_hint e = hint"
    and fs': "fs' = fs\<lparr>hf_files := (hf_files fs)(hc_path c \<mapsto> format_cache_entry e)\<rparr>"
    using assms(1) by (intro that [of "\<lparr> ce_version = CACHE_VERSION, ce_memory_fingerprint = hc_memory_fingerprint c,
      ce_defs_fingerprint = compute_defs_fingerprint profile, ce_kernel_hint = hint, ce_updated_unix_secs = now \<rparr>"])
      (auto simp: cache_store_def Let_def split: if_splits)
  show ?thesis using assms(2) e
    by (auto simp: fs' load_kernel_hint_def format_cache_entry_ascii parse_format_cache_entry)
qed

definition sample_fs :: host_fs where
  "sample_fs = \<lparr> hf_files = (\<lambda>_. None), hf_unreadable = (\<lambda>_. False), hf_no_parent = (\<lambda>_. False),
     hf_unwritable = (\<lambda>_. False) \<rparr>"

theorem load_after_store_witness:
  "\<exists>fs'. cache_store sample_fs \<lparr>hc_path = ''/c/h'', hc_memory_fingerprint = 7\<rparr> sample_profile 0x1000000 5
      = (Inr (), fs') \<and>
    load_kernel_hint fs' \<lparr>hc_path = ''/c/h'', hc_memory_fingerprint = 7\<rparr> = Inr (Some 0x1000000)"
proof -
  obtain fs' where s: "cache_store sample_fs \<lparr>hc_path = ''/c/h'', hc_memory_fingerprint = 7\<rparr>
      sample_profile 0x1000000 5 = (Inr (), fs')"
    by (simp add: cache_store_def sample_fs_def Let_def)
  have "\<not> hf_unreadable sample_fs (hc_path \<lparr>hc_path = ''/c/h'', hc_memory_fingerprint = 7\<rparr>)"
    by (simp add: sample_fs_def)
  from load_after_store [OF s this] s show ?thesis by blast
qed

section \<open>Properties: fingerprints\<close>

text \<open>
  What makes a running hash tell inputs apart: a step loses nothing of the state and nothing of the byte.
\<close>

locale byte_hasher =
  fixes step :: "'h \<Rightarrow> u8 \<Rightarrow> 'h"
  assumes step_state: "step h b = step h' b \<Longrightarrow> h = h'"
    and step_byte: "step h b = step h b' \<Longrightarrow> b = b'"
begin

lemma write_state: "foldl step h bs = foldl step h' bs \<Longrightarrow> h = h'"
proof (induction bs arbitrary: h h')
  case (Cons b bs)
  then show ?case using step_state [of h b h'] by simp
qed simp

lemma write_single_byte: "foldl step h (xs @ b # ys) = foldl step h (xs @ b' # ys) \<Longrightarrow> b = b'"
proof -
  assume "foldl step h (xs @ b # ys) = foldl step h (xs @ b' # ys)"
  then have "foldl step (step (foldl step h xs) b) ys = foldl step (step (foldl step h xs) b') ys" by simp
  then have "step (foldl step h xs) b = step (foldl step h xs) b'" by (rule write_state)
  then show ?thesis by (rule step_byte)
qed

end

lemma times_prime_inj: "(a :: u64) * PRIME = b * PRIME \<Longrightarrow> a = b"
proof -
  assume "a * PRIME = b * PRIME"
  then have "a * PRIME * 0xce965057aff6957b = b * PRIME * 0xce965057aff6957b" by simp
  moreover have "PRIME * 0xce965057aff6957b = 1" by (simp add: PRIME_def)
  ultimately show ?thesis by (simp add: mult.assoc)
qed

lemma xor_cancel: "a XOR b = a XOR (c :: u64) \<Longrightarrow> b = c"
  by (metis bit.xor_left_self)

interpretation fnv: byte_hasher fnv_step
proof
  fix h h' :: u64 and b b' :: u8
  show "fnv_step h b = fnv_step h' b \<Longrightarrow> h = h'"
    unfolding fnv_step_def by (metis times_prime_inj xor_cancel xor.commute)
  assume "fnv_step h b = fnv_step h b'"
  then have "ucast b = (ucast b' :: u64)" unfolding fnv_step_def by (metis times_prime_inj xor_cancel)
  then have "unat (ucast b :: u64) = unat (ucast b' :: u64)" by simp
  then show "b = b'" by (simp add: word_unat_eq_iff)
qed

lemma foldl_state_inj:
  assumes "\<And>x h h'. f h x = f h' x \<Longrightarrow> h = h'"
  shows "foldl f h xs = foldl f h' xs \<Longrightarrow> h = h'"
  by (induction xs arbitrary: h h') (auto dest: assms)

lemma hash_sample_state: "hash_sample view tot h off = hash_sample view tot h' off \<Longrightarrow> h = h'"
  by (auto simp: hash_sample_def Let_def fnv_write_def fnv_write_u64_def fnv_write_u8_def
      dest!: fnv.write_state fnv.step_state split: if_splits sum.splits)

lemma hash_sample_single_byte:
  assumes "n = unat (min (sat_sub tot off) FINGERPRINT_SAMPLE_SIZE)" "n \<noteq> 0"
    and "data_part (rd_raw v off n) = Inr (xs @ b # ys)"
    and "data_part (rd_raw v' off n) = Inr (xs @ b' # ys)"
    and "hash_sample v tot h off = hash_sample v' tot h off"
  shows "b = b'"
  using assms by (auto simp: hash_sample_def Let_def fnv_write_def dest: fnv.write_state fnv.step_byte)

text \<open>
  C38. The fingerprint tells memories apart: when two memories of the same shape answer all
  samples but one alike, and that one differs in a single byte, their fingerprints differ, so neither
  loads the other's cached hint.
\<close>

theorem memory_fingerprint_single_byte:
  assumes "fingerprint_sample_offsets (sat_add (pm_max_address pm) 1) = before @ off # after"
    and "n = unat (min (sat_sub (sat_add (pm_max_address pm) 1) off) FINGERPRINT_SAMPLE_SIZE)" "n \<noteq> 0"
    and "data_part (rd_raw (pm_view pm) off n) = Inr (xs @ b # ys)"
    and "data_part (rd_raw view' off n) = Inr (xs @ b' # ys)"
    and "\<forall>o' \<in> set before \<union> set after. \<forall>k. data_part (rd_raw view' o' k) = data_part (rd_raw (pm_view pm) o' k)"
    and "b \<noteq> b'"
  shows "compute_memory_fingerprint (pm\<lparr>pm_view := view'\<rparr>) \<noteq> compute_memory_fingerprint pm"
proof
  let ?t = "sat_add (pm_max_address pm) 1"
  have same: "hash_sample view' ?t h o' = hash_sample (pm_view pm) ?t h o'"
    if "o' \<in> set before \<union> set after" for h o'
    using assms(6) that by (simp add: hash_sample_def Let_def)
  have fold_same: "foldl (hash_sample view' ?t) h os = foldl (hash_sample (pm_view pm) ?t) h os"
    if "set os \<subseteq> set before \<union> set after" for h os
    using that by (induction os arbitrary: h) (auto simp: same)
  assume "compute_memory_fingerprint (pm\<lparr>pm_view := view'\<rparr>) = compute_memory_fingerprint pm"
  then obtain h where
    "foldl (hash_sample (pm_view pm) ?t) (hash_sample view' ?t (foldl (hash_sample (pm_view pm) ?t) h before) off) after =
     foldl (hash_sample (pm_view pm) ?t) (hash_sample (pm_view pm) ?t (foldl (hash_sample (pm_view pm) ?t) h before) off) after"
    by (simp add: compute_memory_fingerprint_def Let_def assms(1) hash_samples_def fold_same)
  then have "hash_sample view' ?t (foldl (hash_sample (pm_view pm) ?t) h before) off =
     hash_sample (pm_view pm) ?t (foldl (hash_sample (pm_view pm) ?t) h before) off"
    using foldl_state_inj [of "hash_sample (pm_view pm) ?t"] hash_sample_state by metis
  from hash_sample_single_byte [OF assms(2,3,5,4) this] assms(7) show False by simp
qed

definition one_byte_machine :: "u8 \<Rightarrow> physmem" where
  "one_byte_machine b = \<lparr> pm_max_address = 0, pm_real_size = 1, pm_ideal_batch_size = 1, pm_readonly = True,
     pm_view = empty_view\<lparr>rd_raw := (\<lambda>_ _. Full [b])\<rparr>, pm_virt = (\<lambda>_. empty_view),
     pm_virt_to_phys = (\<lambda>_ _. Inl (Connector 0)), pm_phys_to_virt = (\<lambda>_ _. None) \<rparr>"

theorem memory_fingerprint_single_byte_witness:
  "compute_memory_fingerprint (one_byte_machine 2) \<noteq> compute_memory_fingerprint (one_byte_machine 1)"
proof -
  have "one_byte_machine 2 = (one_byte_machine 1)\<lparr>pm_view := pm_view (one_byte_machine 2)\<rparr>"
    by (simp add: one_byte_machine_def)
  moreover have "sat_add (0 :: u64) 1 = 1" by code_simp
  moreover have "fingerprint_sample_offsets 1 = [0]"
    by (simp add: fingerprint_sample_offsets_def Let_def)
  moreover have "sat_sub (1 :: u64) 0 = 1" by code_simp
  ultimately show ?thesis
    using memory_fingerprint_single_byte [of "one_byte_machine 1" "[]" 0 "[]" 1 "[]" 1 "[]" "pm_view (one_byte_machine 2)" 2]
    by (simp add: one_byte_machine_def FINGERPRINT_SAMPLE_SIZE_def min_def word_le_nat_alt)
qed

lemma sorted_remdups_adj_strict: "sorted xs \<Longrightarrow> sorted_wrt (<) (remdups_adj (xs :: u64 list))"
proof (induction xs rule: remdups_adj.induct)
  case (3 x y xs)
  have "x < z" if "x \<noteq> y" "z \<in> set (y # xs)" for z
    using 3(3) that by (auto intro: le_neq_trans order_less_le_trans)
  with 3 show ?case by (auto simp: simp del: set_simps)
qed simp_all

lemma sample_at_in: "2 * 4096 < tot \<Longrightarrow> unat (sample_at tot x) + 4096 \<le> unat (tot :: u64)"
proof -
  assume "2 * 4096 < tot"
  then have t: "8192 < unat tot" by (simp add: word_less_nat_alt)
  have "unat (sample_at tot x) = min (unat x - 4096) (unat tot - 4096)"
    by (simp add: sample_at_def min_def word_le_nat_alt rust_simps)
  with t show ?thesis by linarith
qed

lemma offsets_length:
  "length ([a] @ (if c then [b] else []) @ (if d then [e1, e2, e3, e4, e5, e6] else [])) \<le> 8"
  by simp

lemma set_sample_offsets:
  "set (fingerprint_sample_offsets tot) =
    {0} \<union> (if kb 4 < tot then {kb 4} else {}) \<union>
    (if kb 4 * 2 < tot then {sample_at tot (tot div 8), sample_at tot (tot div 4),
       sample_at tot (tot div 2), sample_at tot ((tot * 3) div 4), sample_at tot ((tot * 7) div 8),
       sat_sub tot (kb 4)} else {})"
  unfolding fingerprint_sample_offsets_def Let_def
  by (simp only: remdups_adj_set set_sort set_append if_distrib [of set] list.set Un_assoc)

lemma sample_offset_cases:
  assumes "off \<in> set (fingerprint_sample_offsets tot)"
  shows "off = 0 \<or> off = kb 4 \<and> kb 4 < tot
    \<or> kb 4 * 2 < tot \<and> (off = sat_sub tot (kb 4) \<or> (\<exists>x. off = sample_at tot x))"
  using assms unfolding set_sample_offsets by (auto simp only: split: if_splits)

lemma sample_offset_page:
  assumes "off \<in> set (fingerprint_sample_offsets tot)" "2 * 4096 < tot"
  shows "unat off + 4096 \<le> unat tot"
proof -
  have t: "8192 < unat tot" using assms(2) by (simp add: word_less_nat_alt)
  from sample_offset_cases [OF assms(1)] consider "off = 0" | "off = kb 4"
    | "off = sat_sub tot (kb 4)" | x where "off = sample_at tot x" by blast
  then show ?thesis
  proof cases
    case 3
    then have "unat off = unat tot - 4096" by (simp add: rust_simps)
    with t show ?thesis by linarith
  qed (use t sample_at_in [OF assms(2)] in simp_all)
qed

lemma sample_offset_less:
  assumes "off \<in> set (fingerprint_sample_offsets tot)" "0 < tot"
  shows "off < tot"
proof (cases "2 * 4096 < tot")
  case True
  from sample_offset_page [OF assms(1) True] show ?thesis by (simp add: word_less_nat_alt)
next
  case False
  with sample_offset_cases [OF assms(1)] have "off = 0 \<or> off = kb 4 \<and> kb 4 < tot" by simp
  with assms(2) show ?thesis by blast
qed

text \<open>
  The sample offsets are strictly increasing, at most eight, start at 0 and lie inside
  memory; when memory is larger than two pages, the whole sampled page does.
\<close>

theorem fingerprint_samples_in_memory:
  "sorted_wrt (<) (fingerprint_sample_offsets tot) \<and> length (fingerprint_sample_offsets tot) \<le> 8 \<and>
   0 \<in> set (fingerprint_sample_offsets tot) \<and>
   (0 < tot \<longrightarrow> (\<forall>off \<in> set (fingerprint_sample_offsets tot). off < tot)) \<and>
   (2 * 4096 < tot \<longrightarrow> (\<forall>off \<in> set (fingerprint_sample_offsets tot). unat off + 4096 \<le> unat tot))"
proof (intro conjI impI)
  show "sorted_wrt (<) (fingerprint_sample_offsets tot)"
    unfolding fingerprint_sample_offsets_def Let_def by (intro sorted_remdups_adj_strict sorted_sort)
  show "length (fingerprint_sample_offsets tot) \<le> 8"
    unfolding fingerprint_sample_offsets_def Let_def by (rule order_trans [OF remdups_adj_length]) (simp only: length_sort offsets_length)
  show "0 \<in> set (fingerprint_sample_offsets tot)" unfolding set_sample_offsets by blast
qed (use sample_offset_page sample_offset_less in blast)+

theorem fingerprint_samples_in_memory_witness:
  "list_all (\<lambda>off. unat off + 4096 \<le> unat (0x10000 :: u64)) (fingerprint_sample_offsets 0x10000)"
proof -
  have "(2 * 4096 :: u64) < 0x10000" by simp
  with fingerprint_samples_in_memory [of "0x10000"] show ?thesis unfolding list_all_iff by blast
qed

end
