(* ===== verification/Bootstrap.thy ===== *)
theory Bootstrap
  imports Kernel_Props Hint_Cache "HOL-Library.List_Lexorder"
begin

text \<open>
  \<open>memflow-linux/src/kernel.rs\<close>, first part, and \<open>memflow-linux/src/plugins.rs\<close>: choosing the defs file, building
  the kernel object, and the plugin entry point that fills the builder from its arguments. The directories and
  files of the host are explicit, as are its environment and its hint cache. The page and translation caches a
  builder installs are memflow's: they enter as the backend of the kernel that is built.
\<close>

section \<open>Paths\<close>

text \<open>
  \<open>std::path\<close> on Unix: paths compare by their components. Empty parts and dots are no components,
  except a dot that opens a relative path.
\<close>

datatype path_component = RootDir | CurDir | ParentDir | Normal string

fun component_key :: "path_component \<Rightarrow> nat \<times> nat list" where
  "component_key RootDir = (0, [])"
| "component_key CurDir = (1, [])"
| "component_key ParentDir = (2, [])"
| "component_key (Normal s) = (3, map of_char s)"

lemma component_key_inj: "component_key a = component_key b \<longleftrightarrow> a = b"
  by (cases a; cases b) (auto simp: inj_map_eq_map inj_def)

instantiation path_component :: linorder
begin

definition less_eq_path_component :: "path_component \<Rightarrow> path_component \<Rightarrow> bool" where
  "a \<le> b \<longleftrightarrow> component_key a \<le> component_key b"

definition less_path_component :: "path_component \<Rightarrow> path_component \<Rightarrow> bool" where
  "a < b \<longleftrightarrow> component_key a < component_key b"

instance
  by standard (auto simp: less_eq_path_component_def less_path_component_def order_less_le component_key_inj)

end

definition part_component :: "string \<Rightarrow> path_component" where
  "part_component p = (if p = ''..'' then ParentDir else Normal p)"

definition real_part :: "string \<Rightarrow> bool" where
  "real_part p \<longleftrightarrow> p \<noteq> [] \<and> p \<noteq> ''.''"

definition is_absolute :: "string \<Rightarrow> bool" where
  "is_absolute s \<longleftrightarrow> s \<noteq> [] \<and> hd s = CHR ''/''"

definition slash_parts :: "string \<Rightarrow> string list" where
  "slash_parts s = split_on (\<lambda>c. c = CHR ''/'') s"

definition path_components :: "string \<Rightarrow> path_component list" where
  "path_components s =
     (if is_absolute s then [RootDir] else if hd (slash_parts s) = ''.'' then [CurDir] else []) @
     map part_component (filter real_part (slash_parts s))"

definition file_name :: "string \<Rightarrow> string option" where
  "file_name s =
     (case rev (path_components s) of Normal p # _ \<Rightarrow> Some p | _ \<Rightarrow> None)"

definition file_name_str :: "string \<Rightarrow> string option" where
  "file_name_str s = (case file_name s of None \<Rightarrow> None | Some p \<Rightarrow> from_utf8 (to_bytes p))"

definition trim_parts :: "string list \<Rightarrow> string list" where
  "trim_parts ps = rev (dropWhile (\<lambda>p. \<not> real_part p) (rev ps))"

text \<open>A relative path may keep the dot it opens with.\<close>

definition trim_relative :: "string list \<Rightarrow> string list" where
  "trim_relative ps = (if ps \<noteq> [] \<and> hd ps = ''.'' then ''.'' # trim_parts (tl ps) else trim_parts ps)"

definition path_parent :: "string \<Rightarrow> string option" where
  "path_parent s =
     (if is_absolute s then
        (let body = trim_parts (tl (slash_parts s)) in
         if body = [] then None else Some (''/'' @ join ''/'' (trim_parts (butlast body))))
      else
        (let body = trim_relative (slash_parts s) in
         if body = [] then None else Some (join ''/'' (trim_relative (butlast body)))))"

text \<open>\<open>Path::extension\<close>: what follows the last dot, when something precedes it.\<close>

definition extension :: "string \<Rightarrow> string option" where
  "extension s =
     (case file_name s of
        None \<Rightarrow> None
      | Some name \<Rightarrow>
          let after = rev (takeWhile (\<lambda>c. c \<noteq> CHR ''.'') (rev name)) in
          if length after = length name \<or> length after + 1 = length name then None else Some after)"

section \<open>Choosing the defs file\<close>

text \<open>\<open>read_dir\<close> gives the names of the entries it can read, or fails; \<open>fs::read\<close> the bytes of a file.\<close>

record host_paths =
  hp_is_file :: "string \<Rightarrow> bool"
  hp_read_dir :: "string \<Rightarrow> string list option"
  hp_read :: "string \<Rightarrow> bytes option"

definition looks_like_profile_path :: "string \<Rightarrow> bool" where
  "looks_like_profile_path path =
     (case file_name_str path of
        None \<Rightarrow> False
      | Some name \<Rightarrow>
          name = ''vmlinux.toml'' \<or> name = ''linux.toml''
          \<or> starts_with ''vmlinux-'' name \<and> ends_with ''.toml'' name
          \<or> starts_with ''linux-defs'' name \<and> ends_with ''.toml'' name)"

definition is_hidden_profile :: "string \<Rightarrow> bool" where
  "is_hidden_profile path =
     (case file_name_str path of None \<Rightarrow> False | Some name \<Rightarrow> starts_with ''.'' name)"

definition read_profile_candidates :: "host_paths \<Rightarrow> string \<Rightarrow> string list result" where
  "read_profile_candidates hp dir =
     rbind (ok_or (OsLayer UnableToReadDir) (hp_read_dir hp dir)) (\<lambda>names.
     Inr (sort_key path_components
       (filter (\<lambda>p. hp_is_file hp p \<and> looks_like_profile_path p \<and> \<not> is_hidden_profile p)
         (map (path_join dir) names))))"

definition dedup_paths :: "string list \<Rightarrow> string list" where
  "dedup_paths paths = dedup_by_key path_components (sort_key path_components paths)"

definition resolve_profile_candidates ::
    "environment \<Rightarrow> host_paths \<Rightarrow> string option \<Rightarrow> string option \<Rightarrow> string list result" where
  "resolve_profile_candidates env hp explicit_profile image_path_hint =
     (case explicit_profile of
        Some profile \<Rightarrow> Inr [profile]
      | None \<Rightarrow>
          let from_env = (case env_var env ''MEMFLOW_LINUX_PROFILE'' of
                            Some p \<Rightarrow> if hp_is_file hp p then [p] else [] | None \<Rightarrow> []) in
          rbind (case image_path_hint of
                   None \<Rightarrow> Inr from_env
                 | Some img \<Rightarrow>
                     let own = (if looks_like_profile_path img \<and> hp_is_file hp img then [img] else []) in
                     (case path_parent img of
                        None \<Rightarrow> Inr (from_env @ own)
                      | Some parent \<Rightarrow>
                          rbind (read_profile_candidates hp parent) (\<lambda>adjacent. Inr (from_env @ own @ adjacent))))
            (\<lambda>candidates.
            let candidates = dedup_paths candidates in
            if candidates = [] then Inl (OsLayer Configuration) else Inr candidates))"

section \<open>The builder\<close>

definition parse_boolish_flag :: "string \<Rightarrow> bool option" where
  "parse_boolish_flag raw =
     (let v = trim raw in
      if v = [] then None
      else if eq_ignore_ascii_case v ''1'' \<or> eq_ignore_ascii_case v ''on'' \<or> eq_ignore_ascii_case v ''true''
        \<or> eq_ignore_ascii_case v ''yes'' \<or> eq_ignore_ascii_case v ''enable'' \<or> eq_ignore_ascii_case v ''enabled''
      then Some True
      else if eq_ignore_ascii_case v ''0'' \<or> eq_ignore_ascii_case v ''off'' \<or> eq_ignore_ascii_case v ''false''
        \<or> eq_ignore_ascii_case v ''no'' \<or> eq_ignore_ascii_case v ''disable'' \<or> eq_ignore_ascii_case v ''disabled''
      then Some False
      else None)"

definition default_generic_fallback :: "environment \<Rightarrow> bool" where
  "default_generic_fallback env =
     (case env_var env ''MEMFLOW_LINUX_GENERIC_FALLBACK'' of
        Some v \<Rightarrow> (case parse_boolish_flag v of Some b \<Rightarrow> b | None \<Rightarrow> True)
      | None \<Rightarrow> True)"

record kernel_builder =
  lb_profile_path :: "string option"
  lb_image_path_hint :: "string option"
  lb_kernel_hint :: "addr option"
  lb_kernel_hint_cache :: cache_options
  lb_skip_banner_check :: bool
  lb_generic_fallback :: bool

definition new_builder :: "environment \<Rightarrow> kernel_builder" where
  "new_builder env =
     \<lparr> lb_profile_path = None, lb_image_path_hint = None, lb_kernel_hint = None,
       lb_kernel_hint_cache = from_env env, lb_skip_banner_check = False,
       lb_generic_fallback = default_generic_fallback env \<rparr>"

text \<open>The methods that configure a builder.\<close>

definition builder_profile :: "string \<Rightarrow> kernel_builder \<Rightarrow> kernel_builder" where
  "builder_profile path b = b\<lparr> lb_profile_path := Some path \<rparr>"

definition builder_image_hint :: "string \<Rightarrow> kernel_builder \<Rightarrow> kernel_builder" where
  "builder_image_hint path b = b\<lparr> lb_image_path_hint := Some path \<rparr>"

definition builder_kernel_hint :: "addr \<Rightarrow> kernel_builder \<Rightarrow> kernel_builder" where
  "builder_kernel_hint hint b = b\<lparr> lb_kernel_hint := Some hint \<rparr>"

definition disable_kernel_hint_cache :: "kernel_builder \<Rightarrow> kernel_builder" where
  "disable_kernel_hint_cache b = b\<lparr> lb_kernel_hint_cache := options_disabled \<rparr>"

definition kernel_hint_cache_dir :: "string \<Rightarrow> kernel_builder \<Rightarrow> kernel_builder" where
  "kernel_hint_cache_dir path b = b\<lparr> lb_kernel_hint_cache := with_dir path \<rparr>"

definition skip_banner_check :: "kernel_builder \<Rightarrow> kernel_builder" where
  "skip_banner_check b = b\<lparr> lb_skip_banner_check := True \<rparr>"

definition disable_generic_fallback :: "kernel_builder \<Rightarrow> kernel_builder" where
  "disable_generic_fallback b = b\<lparr> lb_generic_fallback := False \<rparr>"

definition enable_generic_fallback :: "kernel_builder \<Rightarrow> kernel_builder" where
  "enable_generic_fallback b = b\<lparr> lb_generic_fallback := True \<rparr>"

definition validate_profile_banner ::
    "linux_profile \<Rightarrow> u64 \<Rightarrow> kernel_info \<Rightarrow> physmem \<Rightarrow> unit result" where
  "validate_profile_banner profile slide scanner pm =
     (let expected_bytes = trim_trailing_nuls (to_bytes (pr_banner profile)) in
      if expected_bytes = [] then Inr ()
      else
        let expected = from_utf8_lossy expected_bytes;
            banner_address = rebase (sym_linux_banner (pr_symbols profile)) slide in
        rbind (data_part (rd_utf8_lossy (pm_virt pm (ki_cr3 scanner)) banner_address (length expected + 1))) (\<lambda>actual.
        if actual = expected then Inr () else Inl (OsLayer Configuration)))"

type_synonym selection = "linux_profile \<times> kernel_info \<times> u64"

text \<open>
  One turn of the loop over the candidates: an error is remembered and the next candidate tried; a panic of
  the discovery ends the program.
\<close>

definition try_profile ::
    "toolkit \<Rightarrow> (string \<Rightarrow> linux_defs option) \<Rightarrow> host_paths \<Rightarrow> physmem \<Rightarrow> kernel_builder \<Rightarrow> addr option \<Rightarrow> string \<Rightarrow>
     selection result" where
  "try_profile tk toml hp pm b cached path =
     rbind (linux_profile_load toml (hp_read hp) path) (\<lambda>profile.
     rbind (discover_kernel tk pm profile (map_option (\<lambda>h. as_page_aligned h (mb 2)) (lb_kernel_hint b))
              (map_option (\<lambda>h. as_page_aligned h (mb 2)) cached) (lb_generic_fallback b)) (\<lambda>scanner.
     if ki_la57_on scanner then Inl (OsLayer NotSupported)
     else
       rbind (compute_slide profile (ki_virt_text scanner)) (\<lambda>slide.
       rbind (if lb_skip_banner_check b then Inr () else validate_profile_banner profile slide scanner pm) (\<lambda>_.
       Inr (profile, scanner, slide)))))"

fun select_profile ::
    "(string \<Rightarrow> selection result) \<Rightarrow> string list \<Rightarrow> error option \<Rightarrow> selection result" where
  "select_profile attempt [] last_err =
     Inl (case last_err of Some e \<Rightarrow> e | None \<Rightarrow> OsLayer Configuration)"
| "select_profile attempt (path # paths) last_err =
     (case attempt path of
        Inr r \<Rightarrow> Inr r
      | Inl e \<Rightarrow> if e = Panic then Inl Panic else select_profile attempt paths (Some e))"

definition cached_hint :: "host_fs \<Rightarrow> hint_cache option \<Rightarrow> addr option" where
  "cached_hint fs cache =
     (case cache of
        None \<Rightarrow> None
      | Some c \<Rightarrow> (case load_kernel_hint fs c of Inr hint \<Rightarrow> hint | Inl _ \<Rightarrow> None))"

definition build_kernel ::
    "toolkit \<Rightarrow> (string \<Rightarrow> linux_defs option) \<Rightarrow> environment \<Rightarrow> host_paths \<Rightarrow> u64 \<Rightarrow> 'pt backend \<Rightarrow>
     kernel_builder \<Rightarrow> physmem \<Rightarrow> host_fs \<Rightarrow> 'pt linux_kernel result \<times> host_fs" where
  "build_kernel tk toml env hp now backend b pm fs =
     (let cache = cache_prepare env pm (lb_kernel_hint_cache b);
          cached = cached_hint fs cache in
      case rbind (resolve_profile_candidates env hp (lb_profile_path b) (lb_image_path_hint b)) (\<lambda>paths.
           select_profile (try_profile tk toml hp pm b cached) paths None) of
        Inl e \<Rightarrow> (Inl e, fs)
      | Inr (profile, scanner, slide) \<Rightarrow>
          let fs' = (case cache of Some c \<Rightarrow> snd (cache_store fs c profile (ki_phys_text scanner) now) | None \<Rightarrow> fs)
          in (Inr (new_kernel backend profile scanner slide), fs'))"

section \<open>The plugin\<close>

record os_args =
  oa_target :: "string option"
  oa_extra :: "string \<Rightarrow> string option"

definition plugin_looks_like_profile_path :: "string \<Rightarrow> bool" where
  "plugin_looks_like_profile_path path =
     ((case extension path of None \<Rightarrow> None | Some e \<Rightarrow> from_utf8 (to_bytes e)) = Some ''toml'')"

definition plugin_generic_fallback :: "string \<Rightarrow> bool option" where
  "plugin_generic_fallback v =
     (if eq_ignore_ascii_case v ''1'' \<or> eq_ignore_ascii_case v ''on'' \<or> eq_ignore_ascii_case v ''true''
        \<or> eq_ignore_ascii_case v ''enable'' \<or> eq_ignore_ascii_case v ''enabled''
      then Some True
      else if eq_ignore_ascii_case v ''0'' \<or> eq_ignore_ascii_case v ''off'' \<or> eq_ignore_ascii_case v ''false''
        \<or> eq_ignore_ascii_case v ''disable'' \<or> eq_ignore_ascii_case v ''disabled''
      then Some False
      else None)"

definition plugin_kernel_hint :: "string \<Rightarrow> addr option" where
  "plugin_kernel_hint value =
     map_option of_nat (from_str_radix (2 ^ 64) 16 (trim_start_matches ''0X'' (trim_start_matches ''0x'' value)))"

definition plugin_cache :: "string \<Rightarrow> kernel_builder \<Rightarrow> kernel_builder" where
  "plugin_cache v b =
     (if eq_ignore_ascii_case v ''0'' \<or> eq_ignore_ascii_case v ''off'' \<or> eq_ignore_ascii_case v ''false''
        \<or> eq_ignore_ascii_case v ''disabled''
      then disable_kernel_hint_cache b
      else if v \<noteq> [] \<and> \<not> eq_ignore_ascii_case v ''1'' \<and> \<not> eq_ignore_ascii_case v ''on''
        \<and> \<not> eq_ignore_ascii_case v ''true'' \<and> \<not> eq_ignore_ascii_case v ''default''
      then kernel_hint_cache_dir v b
      else b)"

definition plugin_builder :: "environment \<Rightarrow> os_args \<Rightarrow> kernel_builder" where
  "plugin_builder env args =
     (let extra = oa_extra args;
          skip = (case extra ''banner_check'' of Some v \<Rightarrow> eq_ignore_ascii_case v ''skip'' | None \<Rightarrow> False);
          generic_fallback = (case extra ''generic_fallback'' of Some v \<Rightarrow> plugin_generic_fallback v | None \<Rightarrow> None);
          b = new_builder env;
          b = (case extra ''profile'' of
                 Some profile \<Rightarrow> builder_profile profile b
               | None \<Rightarrow>
                   (case oa_target args of
                      Some target \<Rightarrow>
                        if plugin_looks_like_profile_path target then builder_profile target b
                        else builder_image_hint target b
                    | None \<Rightarrow> b));
          b = (case (case extra ''kernel_hint'' of Some v \<Rightarrow> plugin_kernel_hint v | None \<Rightarrow> None) of
                 Some h \<Rightarrow> builder_kernel_hint h b | None \<Rightarrow> b);
          b = (case extra ''kernel_hint_cache'' of Some v \<Rightarrow> plugin_cache v b | None \<Rightarrow> b);
          b = (if skip then skip_banner_check b else b)
      in case generic_fallback of
           Some g \<Rightarrow> if g then enable_generic_fallback b else disable_generic_fallback b
         | None \<Rightarrow> b)"

text \<open>\<open>create_instance\<close> only wraps the kernel for the plugin interface.\<close>

definition create_os ::
    "toolkit \<Rightarrow> (string \<Rightarrow> linux_defs option) \<Rightarrow> environment \<Rightarrow> host_paths \<Rightarrow> u64 \<Rightarrow> (physmem \<Rightarrow> 'pt backend) \<Rightarrow>
     os_args \<Rightarrow> physmem option \<Rightarrow> host_fs \<Rightarrow> 'pt linux_kernel result \<times> host_fs" where
  "create_os tk toml env hp now caches args mem fs =
     (case mem of
        None \<Rightarrow> (Inl (OsLayer Configuration), fs)
      | Some pm \<Rightarrow> build_kernel tk toml env hp now (caches pm) (plugin_builder env args) pm fs)"


section \<open>Properties\<close>

lemma dedup_by_key_image: "f ` set (dedup_by_key f xs) = f ` set xs"
  by (induction f xs rule: dedup_by_key.induct) auto

lemma dedup_paths_set: "set (dedup_paths ps) \<subseteq> set ps"
  using dedup_by_key_set [of path_components "sort_key path_components ps"] by (simp add: dedup_paths_def)

lemma dedup_paths_image: "path_components ` set (dedup_paths ps) = path_components ` set ps"
  by (simp add: dedup_paths_def dedup_by_key_image)

lemma dedup_paths_strict:
  "sorted_wrt (\<lambda>x y. path_components x < path_components y) (dedup_paths ps)"
  by (simp add: dedup_paths_def dedup_by_key_strict)

lemma read_profile_candidates_Inr:
  "read_profile_candidates hp dir = Inr ps \<Longrightarrow>
     \<exists>names. hp_read_dir hp dir = Some names \<and>
       set ps = {p \<in> path_join dir ` set names. hp_is_file hp p \<and> looks_like_profile_path p \<and> \<not> is_hidden_profile p}"
  by (auto simp: read_profile_candidates_def result_simps)

text \<open>What bootstrap may be offered when no defs file is named: the file of the environment and the files beside the image.\<close>

definition env_profiles :: "environment \<Rightarrow> host_paths \<Rightarrow> string set" where
  "env_profiles env hp = {p. env_var env ''MEMFLOW_LINUX_PROFILE'' = Some p \<and> hp_is_file hp p}"

definition adjacent_profiles :: "host_paths \<Rightarrow> string option \<Rightarrow> string set" where
  "adjacent_profiles hp image_path_hint =
     {p. hp_is_file hp p \<and> looks_like_profile_path p \<and>
         (image_path_hint = Some p \<or>
          (\<exists>img parent names. image_path_hint = Some img \<and> path_parent img = Some parent \<and>
             hp_read_dir hp parent = Some names \<and> p \<in> path_join parent ` set names \<and> \<not> is_hidden_profile p))}"

lemma resolve_profile_candidates_from:
  assumes "resolve_profile_candidates env hp None img = Inr paths"
  shows "\<exists>ps. paths = dedup_paths ps \<and> set ps = env_profiles env hp \<union> adjacent_profiles hp img"
  using assms
  by (auto simp: resolve_profile_candidates_def env_profiles_def adjacent_profiles_def Let_def result_simps
      split: option.splits if_splits dest!: read_profile_candidates_Inr)

lemma sorted_hd_least:
  assumes "sorted_wrt (\<lambda>x y. f x < (f y :: 'b :: linorder)) xs" "xs \<noteq> []" "f ` set xs = insert k A"
  shows "f (hd xs) = k \<longleftrightarrow> (\<forall>a \<in> A. k \<le> a)"
proof -
  have least: "f (hd xs) \<le> y" if "y \<in> f ` set xs" for y
    using assms(1,2) that by (cases xs) (auto simp: le_less)
  have mem: "f (hd xs) \<in> f ` set xs" using assms(2) by simp
  show ?thesis
  proof
    assume "f (hd xs) = k"
    then show "\<forall>a \<in> A. k \<le> a" using least assms(3) by auto
  next
    assume "\<forall>a \<in> A. k \<le> a"
    then have "k \<le> f (hd xs)" using mem assms(3) by auto
    moreover have "f (hd xs) \<le> k" using least assms(3) by auto
    ultimately show "f (hd xs) = k" by simp
  qed
qed

text \<open>
  C40. The defs files bootstrap tries: a file named explicitly is the only one; otherwise they are exactly the file of the environment
  and the profile-like files beside the image, each path once, in the order of paths, and never none. This is not what is
  documented: the README looks beside the image only when the environment names no file, and the comment of the
  function gives the file of the environment priority. The code tries the file of the environment first
  exactly when no file beside the image has a smaller path.
\<close>

theorem resolve_profile_candidates_exact:
  assumes "resolve_profile_candidates env hp explicit_profile img = Inr paths"
  shows "paths \<noteq> [] \<and>
    (explicit_profile \<noteq> None \<longrightarrow> explicit_profile = Some (hd paths) \<and> length paths = 1) \<and>
    (explicit_profile = None \<longrightarrow>
       set paths \<subseteq> env_profiles env hp \<union> adjacent_profiles hp img \<and>
       path_components ` set paths = path_components ` (env_profiles env hp \<union> adjacent_profiles hp img) \<and>
       sorted_wrt (\<lambda>x y. path_components x < path_components y) paths \<and>
       (\<forall>e \<in> env_profiles env hp. path_components (hd paths) = path_components e \<longleftrightarrow>
          (\<forall>a \<in> adjacent_profiles hp img. path_components e \<le> path_components a)))"
proof (cases explicit_profile)
  case None
  from assms have ne: "paths \<noteq> []"
    by (auto simp: resolve_profile_candidates_def None Let_def result_simps split: if_splits)
  obtain ps where ps: "paths = dedup_paths ps" "set ps = env_profiles env hp \<union> adjacent_profiles hp img"
    using resolve_profile_candidates_from [OF assms [unfolded None]] by blast
  have img: "path_components ` set paths = path_components ` (env_profiles env hp \<union> adjacent_profiles hp img)"
    by (simp only: ps dedup_paths_image)
  have first: "path_components (hd paths) = path_components e \<longleftrightarrow>
      (\<forall>a \<in> adjacent_profiles hp img. path_components e \<le> path_components a)" if e: "e \<in> env_profiles env hp" for e
  proof -
    have "env_profiles env hp = {e}" using e by (auto simp: env_profiles_def)
    then have "path_components ` set paths = insert (path_components e) (path_components ` adjacent_profiles hp img)"
      using img by auto
    from sorted_hd_least [OF _ ne this] show ?thesis by (simp add: ps(1) dedup_paths_strict)
  qed
  show ?thesis
    using ne img first dedup_paths_set [of ps] dedup_paths_strict [of ps] None by (simp add: ps)
qed (use assms in \<open>auto simp: resolve_profile_candidates_def\<close>)

lemma select_profile_Inr:
  "select_profile attempt paths last_err = Inr r \<Longrightarrow>
     \<exists>earlier path later. paths = earlier @ path # later \<and> attempt path = Inr r \<and>
       (\<forall>p \<in> set earlier. \<exists>e. attempt p = Inl e)"
proof (induction attempt paths last_err rule: select_profile.induct)
  case (2 attempt path paths last_err)
  show ?case
  proof (cases "attempt path")
    case (Inl e)
    with 2(2) have "e \<noteq> Panic" "select_profile attempt paths (Some e) = Inr r" by (auto split: if_splits)
    from 2(1) [OF Inl this] obtain earlier p later where
      "paths = earlier @ p # later" "attempt p = Inr r" "\<forall>q \<in> set earlier. \<exists>e. attempt q = Inl e"
      by blast
    with Inl show ?thesis by (intro exI [of _ "path # earlier"]) auto
  next
    case (Inr r')
    with 2(2) show ?thesis by (intro exI [of _ "[] :: string list"] exI [of _ path] exI [of _ paths]) simp
  qed
qed simp

text \<open>The banner that the kernel holds at the place the profile gives.\<close>

definition banner_agrees :: "linux_profile \<Rightarrow> u64 \<Rightarrow> kernel_info \<Rightarrow> physmem \<Rightarrow> bool" where
  "banner_agrees profile slide scanner pm \<longleftrightarrow>
     (let expected = trim_trailing_nuls (to_bytes (pr_banner profile)) in
      expected = [] \<or>
      data_part (rd_utf8_lossy (pm_virt pm (ki_cr3 scanner)) (sym_linux_banner (pr_symbols profile) + slide)
        (length (from_utf8_lossy expected) + 1)) = Inr (from_utf8_lossy expected))"

lemma validate_profile_banner_Inr:
  "validate_profile_banner profile slide scanner pm = Inr () \<longleftrightarrow> banner_agrees profile slide scanner pm"
  by (auto simp: validate_profile_banner_def banner_agrees_def Let_def rebase_add result_simps)

lemma try_profile_Inr:
  assumes "try_profile tk toml hp pm b cached path = Inr (profile, scanner, slide)"
  shows "linux_profile_load toml (hp_read hp) path = Inr profile \<and>
    discover_kernel tk pm profile (map_option (\<lambda>h. as_page_aligned h (mb 2)) (lb_kernel_hint b))
      (map_option (\<lambda>h. as_page_aligned h (mb 2)) cached) (lb_generic_fallback b) = Inr scanner \<and>
    \<not> ki_la57_on scanner \<and>
    ki_virt_text scanner = sym_text (pr_symbols profile) + slide \<and>
    (lb_skip_banner_check b \<or> banner_agrees profile slide scanner pm)"
  using assms
  by (auto simp: try_profile_def result_simps compute_slide_Inr_iff validate_profile_banner_Inr
      split: if_splits)


text \<open>
  C1. A kernel that bootstrap builds rests on one defs file: the first of the candidates that
  passes every test. The file loads, discovery finds a kernel with it that does not use five-level paging,
  the kernel text lies at the base of the kernel, the slide carries the profile onto the running kernel, and the
  banner in memory is the banner of the file unless the check was waived. On the host only the hint file of this
  memory may have changed.
\<close>

theorem build_kernel_sound:
  assumes "build_kernel tk toml env hp now backend b pm fs = (Inr k, fs')"
  shows "\<exists>earlier path later.
    resolve_profile_candidates env hp (lb_profile_path b) (lb_image_path_hint b) = Inr (earlier @ path # later) \<and>
    (\<forall>p \<in> set earlier. \<exists>e. try_profile tk toml hp pm b (cached_hint fs (cache_prepare env pm (lb_kernel_hint_cache b))) p = Inl e) \<and>
    linux_profile_load toml (hp_read hp) path = Inr (lk_profile k) \<and>
    discover_kernel tk pm (lk_profile k) (map_option (\<lambda>h. as_page_aligned h (mb 2)) (lb_kernel_hint b))
      (map_option (\<lambda>h. as_page_aligned h (mb 2)) (cached_hint fs (cache_prepare env pm (lb_kernel_hint_cache b))))
      (lb_generic_fallback b) = Inr (lk_scanner k) \<and>
    \<not> lki_la57_on (lk_info k) \<and>
    os_base (lki_os_info (lk_info k)) = ki_virt_text (lk_scanner k) \<and>
    ki_virt_text (lk_scanner k) = sym_text (pr_symbols (lk_profile k)) + lki_slide (lk_info k) \<and>
    lk_init_task k = sym_init_task (pr_symbols (lk_profile k)) + lki_slide (lk_info k) \<and>
    (lb_skip_banner_check b \<or> banner_agrees (lk_profile k) (lki_slide (lk_info k)) (lk_scanner k) pm) \<and>
    lk_backend k = backend \<and> lk_cached_modules k = None \<and>
    (\<forall>fp. hf_files fs' fp \<noteq> hf_files fs fp \<longrightarrow>
       (\<exists>c. cache_prepare env pm (lb_kernel_hint_cache b) = Some c \<and> fp = hc_path c))"
proof -
  let ?c = "cache_prepare env pm (lb_kernel_hint_cache b)"
  let ?attempt = "try_profile tk toml hp pm b (cached_hint fs ?c)"
  obtain paths profile scanner slide where
    paths: "resolve_profile_candidates env hp (lb_profile_path b) (lb_image_path_hint b) = Inr paths"
    and sel: "select_profile ?attempt paths None = Inr (profile, scanner, slide)"
    and k: "k = new_kernel backend profile scanner slide"
    and fs': "fs' = (case ?c of Some c \<Rightarrow> snd (cache_store fs c profile (ki_phys_text scanner) now) | None \<Rightarrow> fs)"
    using assms by (auto simp: build_kernel_def Let_def result_simps split: sum.splits)
  from select_profile_Inr [OF sel] obtain earlier path later where
    sp: "paths = earlier @ path # later" "?attempt path = Inr (profile, scanner, slide)"
      "\<forall>p \<in> set earlier. \<exists>e. ?attempt p = Inl e"
    by blast
  have kf: "lk_profile k = profile" "lk_scanner k = scanner" "lki_la57_on (lk_info k) = ki_la57_on scanner"
      "os_base (lki_os_info (lk_info k)) = ki_virt_text scanner" "lki_slide (lk_info k) = slide"
      "lk_init_task k = sym_init_task (pr_symbols profile) + slide" "lk_backend k = backend" "lk_cached_modules k = None"
    by (simp_all add: k new_kernel_def Let_def rebase_add)
  have files: "hf_files fs' fp = hf_files fs fp \<or> (\<exists>c. ?c = Some c \<and> fp = hc_path c)" for fp
    by (auto simp: fs' cache_store_def Let_def split: option.splits)
  show ?thesis
    using paths sp(3) try_profile_Inr [OF sp(2)] files unfolding kf sp(1)
    by (intro exI [of _ earlier] exI [of _ path] exI [of _ later]) auto
qed

section \<open>A sample host\<close>

definition sample_defs :: linux_defs where
  "sample_defs =
     (let s = pr_symbols sample_profile in
      \<lparr> defs_format = 1, defs_metadata = \<lparr> md_banner = pr_banner sample_profile \<rparr>,
        defs_symbols =
          \<lparr> ds_text = sym_text s, ds_init_task = sym_init_task s, ds_init_top_pgt = sym_init_top_pgt s,
            ds_level4_kernel_pgt = sym_level4_kernel_pgt s, ds_linux_banner = sym_linux_banner s,
            ds_modules = sym_modules s, ds_elf_format = sym_elf_format s,
            ds_compat_elf_format = sym_compat_elf_format s \<rparr>,
        defs_enums = pr_enums sample_profile, defs_offsets = pr_offsets sample_profile \<rparr>)"

definition sample_host :: host_paths where
  "sample_host =
     \<lparr> hp_is_file = (\<lambda>p. p \<in> {''/z/p.toml'', ''/a/vmlinux.toml'', ''/defs/sample.toml''}),
       hp_read_dir = (\<lambda>d. if d = ''/a'' then Some [''vmlinux.toml'', ''notes.txt''] else None),
       hp_read = (\<lambda>p. if p = ''/defs/sample.toml'' then Some [] else None) \<rparr>"

definition sample_environment :: environment where
  "sample_environment = (\<lambda>n. if n = ''MEMFLOW_LINUX_PROFILE'' then Some ''/z/p.toml'' else None)"

lemma file_name_str_ascii:
  "file_name s = Some n \<Longrightarrow> \<forall>b \<in> set (to_bytes n). b < 0x80 \<Longrightarrow> file_name_str s = Some n"
  by (simp add: file_name_str_def from_utf8_def utf8_valid_ascii)

lemma sample_components:
  "path_components ''/z/p.toml'' = [RootDir, Normal ''z'', Normal ''p.toml'']"
  "path_components ''/a/vmlinux.toml'' = [RootDir, Normal ''a'', Normal ''vmlinux.toml'']"
  "path_components ''/a/vmlinux'' = [RootDir, Normal ''a'', Normal ''vmlinux'']"
  "path_components ''/a/notes.txt'' = [RootDir, Normal ''a'', Normal ''notes.txt'']"
  by (simp_all add: path_components_def is_absolute_def slash_parts_def real_part_def part_component_def)

lemma sample_names:
  "file_name_str ''/a/vmlinux.toml'' = Some ''vmlinux.toml''"
  "file_name_str ''/a/vmlinux'' = Some ''vmlinux''"
  "file_name_str ''/a/notes.txt'' = Some ''notes.txt''"
  by (rule file_name_str_ascii; simp add: file_name_def sample_components to_bytes_def)+

lemma sample_adjacent:
  "read_profile_candidates sample_host ''/a'' = Inr [''/a/vmlinux.toml'']"
  by (simp add: read_profile_candidates_def sample_host_def path_join_def looks_like_profile_path_def
      is_hidden_profile_def sample_names starts_with_def)

lemma sample_defs_profile: "from_defs ''/defs/sample.toml'' sample_defs = sample_profile"
  by (simp add: from_defs_def sample_defs_def Let_def sample_profile_def)

text \<open>
  The documented priority puts the file of the environment before the files beside the image. Both are
  sorted together, so a file beside the image can come first.
\<close>

theorem adjacent_profile_before_environment:
  "resolve_profile_candidates sample_environment sample_host None (Some ''/a/vmlinux'') =
     Inr [''/a/vmlinux.toml'', ''/z/p.toml'']"
proof -
  have "path_parent ''/a/vmlinux'' = Some ''/a''"
    by (simp add: path_parent_def is_absolute_def slash_parts_def trim_parts_def real_part_def Let_def)
  moreover have "utf8_valid (to_bytes ''/z/p.toml'')" by (simp add: utf8_valid_ascii to_bytes_def)
  then have "env_var sample_environment ''MEMFLOW_LINUX_PROFILE'' = Some ''/z/p.toml''"
    by (simp add: env_var_def sample_environment_def from_utf8_def)
  moreover have "path_components ''/a/vmlinux.toml'' < path_components ''/z/p.toml''"
    by (simp add: sample_components less_path_component_def less_eq_path_component_def)
  then have "dedup_paths [''/z/p.toml'', ''/a/vmlinux.toml''] = [''/a/vmlinux.toml'', ''/z/p.toml'']"
    by (simp add: dedup_paths_def sample_components)
  ultimately show ?thesis
    by (simp add: resolve_profile_candidates_def sample_adjacent looks_like_profile_path_def sample_names Let_def)
      (simp add: sample_host_def)
qed

theorem resolve_profile_candidates_exact_witness:
  "\<exists>paths. resolve_profile_candidates sample_environment sample_host None (Some ''/a/vmlinux'') = Inr paths \<and>
     paths = [''/a/vmlinux.toml'', ''/z/p.toml''] \<and> sorted_wrt (\<lambda>x y. path_components x < path_components y) paths"
  using resolve_profile_candidates_exact [OF adjacent_profile_before_environment] adjacent_profile_before_environment
  by blast

definition sample_builder :: kernel_builder where
  "sample_builder =
     \<lparr> lb_profile_path = Some ''/defs/sample.toml'', lb_image_path_hint = None, lb_kernel_hint = Some 0x1000000,
       lb_kernel_hint_cache = options_disabled, lb_skip_banner_check = False, lb_generic_fallback = False \<rparr>"


lemma sample_banner_agrees:
  assumes "ki_virt_text scanner = 0xffffffff81000000"
  shows "banner_agrees sample_profile 0 scanner sample_running"
proof -
  let ?b = "to_bytes (pr_banner sample_profile)"
  have b: "trim_trailing_nuls ?b = ?b" and v: "utf8_valid ?b"
    by (simp_all add: trim_trailing_nuls_def sample_profile_def to_bytes_def utf8_valid_ascii)
  have "from_utf8_lossy ?b = pr_banner sample_profile"
    using v by (simp only: from_utf8_lossy_valid to_chars_to_bytes)
  then show ?thesis
    by (simp add: banner_agrees_def b sample_running_def)
qed

theorem build_kernel_sound_witness:
  "\<exists>k fs'. build_kernel
      \<lparr> tk_decode = sample_decoder, tk_search = naive_search, tk_set_mem_map = (\<lambda>_ _ pm. pm) \<rparr>
      (\<lambda>_. Some sample_defs) (\<lambda>_. None) sample_host 0 (sample_backend empty_view) sample_builder sample_running sample_fs
      = (Inr k, fs') \<and>
    lk_profile k = sample_profile \<and> os_base (lki_os_info (lk_info k)) = 0xffffffff81000000"
proof -
  let ?tk = "\<lparr> tk_decode = sample_decoder, tk_search = naive_search, tk_set_mem_map = (\<lambda>_ _ pm. pm) \<rparr>"
  let ?ki = "defs_kernel_info sample_profile 0x2400000 0xffffffff81000000 0x1000000"
  let ?k = "new_kernel (sample_backend empty_view) sample_profile ?ki 0"
  have load: "linux_profile_load (\<lambda>_. Some sample_defs) (hp_read sample_host) ''/defs/sample.toml'' = Inr sample_profile"
    by (simp add: linux_profile_load_def linux_defs_load_def from_toml_str_def from_utf8_def sample_host_def
        LINUX_DEFS_FORMAT_VERSION_def utf8_valid_ascii sample_defs_profile) (simp add: sample_defs_def Let_def)
  have aligned: "as_page_aligned (0x1000000 :: addr) 2097152 = 0x1000000"
    by (simp add: as_page_aligned_def)
  have disc: "discover_kernel ?tk sample_running sample_profile (Some 0x1000000) None False = Inr ?ki"
    by (simp add: discover_kernel_def Let_def try_hint_def or_else_def sample_discovered)
  have slide: "compute_slide sample_profile 0xffffffff81000000 = Inr 0"
    by (simp add: compute_slide_def sample_profile_def)
  have ki: "ki_virt_text ?ki = 0xffffffff81000000" "\<not> ki_la57_on ?ki" by (simp_all add: defs_kernel_info_def)
  have banner: "validate_profile_banner sample_profile 0 ?ki sample_running = Inr ()"
    using sample_banner_agrees [OF ki(1)] by (simp add: validate_profile_banner_Inr)
  have "try_profile ?tk (\<lambda>_. Some sample_defs) sample_host sample_running sample_builder None ''/defs/sample.toml''
      = Inr (sample_profile, ?ki, 0)"
    using disc by (simp add: try_profile_def load sample_builder_def aligned ki slide banner)
  then have built: "build_kernel ?tk (\<lambda>_. Some sample_defs) (\<lambda>_. None) sample_host 0 (sample_backend empty_view)
      sample_builder sample_running sample_fs = (Inr ?k, sample_fs)"
    by (simp add: build_kernel_def Let_def cache_prepare_def resolve_dir_def cached_hint_def sample_builder_def
        options_disabled_def resolve_profile_candidates_def)
  from build_kernel_sound [OF built] have "lk_profile ?k = sample_profile"
    by (auto simp: sample_builder_def resolve_profile_candidates_def load Cons_eq_append_conv)
  with build_kernel_sound [OF built] built ki(1) show ?thesis
    by (intro exI [of _ ?k] exI [of _ sample_fs]) (auto simp: new_kernel_def Let_def)
qed


text \<open>The flag of the plugin argument knows fewer words than the flag of the environment.\<close>

theorem plugin_flag_ignores_no:
  "parse_boolish_flag ''no'' = Some False" "plugin_generic_fallback ''no'' = None"
  by code_simp+

end
