(* ===== verification/Raw_Profile.thy ===== *)
theory Raw_Profile
  imports Discovery
begin

text \<open>
  \<open>memflow-linux-defs/src/defs.rs\<close>: the profile extracted from a kernel image, and its normalization into a defs
  document. The document itself is that of the runtime (Defs): the generator declares the same structures.
\<close>

section \<open>The raw profile\<close>

text \<open>
  A hash map that is only looked up is a partial function. The fields of a composite are also enumerated, in an
  order the hash map does not fix: they are a list, and the theorems hold for every order.
\<close>

record raw_symbol =
  rs_address :: u64
  rs_constant_data :: "bytes option"

datatype raw_type_ref =
    Base string
  | Struct string
  | Union string
  | Pointer raw_type_ref
  | Array usize raw_type_ref
  | Enum string
  | Bitfield raw_type_ref
  | Function
  | Void
  | Unknown

record raw_field =
  rf_offset :: usize
  rf_anonymous :: bool
  rf_ty :: raw_type_ref

record raw_user_type =
  ut_size :: usize
  ut_fields :: "(string \<times> raw_field) list"

record raw_enum =
  re_constants :: "string \<Rightarrow> 64 word option"

record raw_profile =
  rp_symbols :: "string \<Rightarrow> raw_symbol option option"
  rp_user_types :: "string \<Rightarrow> raw_user_type option"
  rp_enums :: "string \<Rightarrow> raw_enum option"

fun named_user_type :: "raw_type_ref \<Rightarrow> string option" where
  "named_user_type (Struct name) = Some name"
| "named_user_type (Union name) = Some name"
| "named_user_type (Pointer subtype) = named_user_type subtype"
| "named_user_type (Array _ subtype) = named_user_type subtype"
| "named_user_type (Bitfield ty) = named_user_type ty"
| "named_user_type _ = None"

fun array_len :: "raw_type_ref \<Rightarrow> usize option" where
  "array_len (Array n _) = Some n"
| "array_len _ = None"

record resolved_field =
  rv_offset :: usize
  rv_ty :: raw_type_ref

section \<open>Queries\<close>

definition symbol_of :: "raw_profile \<Rightarrow> string \<Rightarrow> raw_symbol option" where
  "symbol_of raw name = (case rp_symbols raw name of None \<Rightarrow> None | Some s \<Rightarrow> s)"

definition symbol_address :: "raw_profile \<Rightarrow> string \<Rightarrow> u64 option" where
  "symbol_address raw name = map_option rs_address (symbol_of raw name)"

definition required_symbol :: "raw_profile \<Rightarrow> string \<Rightarrow> raw_symbol result" where
  "required_symbol raw name = ok_or (OsLayer Offset) (symbol_of raw name)"

definition required_symbol_address :: "raw_profile \<Rightarrow> string \<Rightarrow> u64 result" where
  "required_symbol_address raw name = rbind (required_symbol raw name) (\<lambda>s. Inr (rs_address s))"

definition required_enum_constant :: "raw_profile \<Rightarrow> string \<Rightarrow> string \<Rightarrow> 64 word result" where
  "required_enum_constant raw enum_name constant_name =
     ok_or (OsLayer Offset)
       (case rp_enums raw enum_name of None \<Rightarrow> None | Some e \<Rightarrow> re_constants e constant_name)"

definition optional_user_type :: "raw_profile \<Rightarrow> string \<Rightarrow> raw_user_type option" where
  "optional_user_type raw name = rp_user_types raw name"

text \<open>The loop over the anonymous fields stops at the first that resolves.\<close>

fun first_some :: "('a \<Rightarrow> 'b option) \<Rightarrow> 'a list \<Rightarrow> 'b option" where
  "first_some f [] = None"
| "first_some f (x # xs) = (case f x of Some y \<Rightarrow> Some y | None \<Rightarrow> first_some f xs)"

lemma first_some_cong [fundef_cong]:
  "xs = ys \<Longrightarrow> (\<And>x. x \<in> set ys \<Longrightarrow> f x = g x) \<Longrightarrow> first_some f xs = first_some g ys"
  by (induction ys arbitrary: xs) (auto split: option.splits)

lemma first_some_None: "first_some f xs = None \<longleftrightarrow> (\<forall>x \<in> set xs. f x = None)"
  by (induction xs) (auto split: option.splits)

lemma first_some_Some: "first_some f xs = Some y \<Longrightarrow> \<exists>x \<in> set xs. f x = Some y"
  by (induction xs) (auto split: option.splits)

definition anonymous_fields :: "raw_user_type \<Rightarrow> raw_field list" where
  "anonymous_fields ut = filter rf_anonymous (map snd (ut_fields ut))"

function resolve_field_inner ::
    "raw_profile \<Rightarrow> string \<Rightarrow> string \<Rightarrow> usize \<Rightarrow> nat \<Rightarrow> resolved_field option" where
  "resolve_field_inner raw type_name field_name base_offset depth =
     (if 32 < depth then None
      else case rp_user_types raw type_name of
        None \<Rightarrow> None
      | Some user_type \<Rightarrow>
          (case map_of (ut_fields user_type) field_name of
             Some f \<Rightarrow> Some \<lparr> rv_offset = base_offset + rf_offset f, rv_ty = rf_ty f \<rparr>
           | None \<Rightarrow>
               first_some (\<lambda>f.
                 case named_user_type (rf_ty f) of
                   None \<Rightarrow> None
                 | Some nested_name \<Rightarrow>
                     resolve_field_inner raw nested_name field_name (base_offset + rf_offset f) (Suc depth))
                 (anonymous_fields user_type)))"
  by pat_completeness auto

termination by (relation "measure (\<lambda>(_, _, _, _, depth). 33 - depth)") auto

declare resolve_field_inner.simps [simp del]

definition resolve_field :: "raw_profile \<Rightarrow> string \<Rightarrow> string \<Rightarrow> resolved_field result" where
  "resolve_field raw type_name field_name =
     ok_or (OsLayer Offset) (resolve_field_inner raw type_name field_name 0 0)"

definition optional_resolve_field :: "raw_profile \<Rightarrow> string \<Rightarrow> string \<Rightarrow> resolved_field option" where
  "optional_resolve_field raw type_name field_name = resolve_field_inner raw type_name field_name 0 0"

definition optional_field_offset :: "raw_profile \<Rightarrow> string \<Rightarrow> string \<Rightarrow> usize option" where
  "optional_field_offset raw type_name field_name =
     map_option rv_offset (resolve_field_inner raw type_name field_name 0 0)"

definition zero_maple_offsets :: maple_offsets where
  "zero_maple_offsets =
     \<lparr> maple_tree = \<lparr> mt_ma_root = 0 \<rparr>,
       maple_range64 = \<lparr> mr_pivot = 0, mr_pivot_count = 0, mr_slot = 0, mr_slot_count = 0, mr_meta_end = 0 \<rparr>,
       maple_arange64 = \<lparr> ma_pivot = 0, ma_pivot_count = 0, ma_slot = 0, ma_slot_count = 0, ma_meta_end = 0 \<rparr> \<rparr>"

section \<open>From the raw profile to the document\<close>

text \<open>
  One definition per structure of the document. Every failure is the same error, so the order in which
  the fields are resolved does not show.
\<close>

definition field_offset :: "raw_profile \<Rightarrow> string \<Rightarrow> string \<Rightarrow> usize result" where
  "field_offset raw type_name field_name = rbind (resolve_field raw type_name field_name) (\<lambda>f. Inr (rv_offset f))"

text \<open>A field that must be an array: its offset and its length.\<close>

definition array_field :: "raw_profile \<Rightarrow> string \<Rightarrow> string \<Rightarrow> (usize \<times> usize) result" where
  "array_field raw type_name field_name =
     rbind (resolve_field raw type_name field_name) (\<lambda>f.
     rbind (ok_or (OsLayer Offset) (array_len (rv_ty f))) (\<lambda>n. Inr (rv_offset f, n)))"

definition raw_maple_offsets :: "raw_profile \<Rightarrow> maple_offsets result" where
  "raw_maple_offsets raw =
     rbind (array_field raw ''maple_range_64'' ''pivot'') (\<lambda>(range_pivot, range_pivot_count).
     rbind (array_field raw ''maple_range_64'' ''slot'') (\<lambda>(range_slot, range_slot_count).
     rbind (array_field raw ''maple_arange_64'' ''pivot'') (\<lambda>(arange_pivot, arange_pivot_count).
     rbind (array_field raw ''maple_arange_64'' ''slot'') (\<lambda>(arange_slot, arange_slot_count).
     rbind (field_offset raw ''maple_range_64'' ''meta'') (\<lambda>range_meta.
     rbind (field_offset raw ''maple_arange_64'' ''meta'') (\<lambda>arange_meta.
     rbind (field_offset raw ''maple_metadata'' ''end'') (\<lambda>meta_end.
     rbind (field_offset raw ''maple_tree'' ''ma_root'') (\<lambda>ma_root.
     Inr \<lparr> maple_tree = \<lparr> mt_ma_root = ma_root \<rparr>,
           maple_range64 = \<lparr> mr_pivot = range_pivot, mr_pivot_count = range_pivot_count, mr_slot = range_slot,
             mr_slot_count = range_slot_count, mr_meta_end = range_meta + meta_end \<rparr>,
           maple_arange64 = \<lparr> ma_pivot = arange_pivot, ma_pivot_count = arange_pivot_count, ma_slot = arange_slot,
             ma_slot_count = arange_slot_count, ma_meta_end = arange_meta + meta_end \<rparr> \<rparr>))))))))"

definition raw_task_offsets :: "raw_profile \<Rightarrow> task_struct_offsets result" where
  "raw_task_offsets raw =
     rbind (array_field raw ''task_struct'' ''comm'') (\<lambda>(comm, comm_len).
     rbind (ok_or (OsLayer Offset)
              (case optional_resolve_field raw ''task_struct'' ''__state'' of
                 Some f \<Rightarrow> Some f | None \<Rightarrow> optional_resolve_field raw ''task_struct'' ''state'')) (\<lambda>state.
     rbind (field_offset raw ''task_struct'' ''tasks'') (\<lambda>tasks.
     rbind (field_offset raw ''task_struct'' ''pid'') (\<lambda>pid.
     rbind (field_offset raw ''task_struct'' ''tgid'') (\<lambda>tgid.
     rbind (field_offset raw ''task_struct'' ''mm'') (\<lambda>mm.
     rbind (field_offset raw ''task_struct'' ''active_mm'') (\<lambda>active_mm.
     rbind (field_offset raw ''task_struct'' ''exit_state'') (\<lambda>exit_state.
     rbind (field_offset raw ''task_struct'' ''exit_code'') (\<lambda>exit_code.
     rbind (field_offset raw ''task_struct'' ''real_parent'') (\<lambda>real_parent.
     rbind (field_offset raw ''task_struct'' ''parent'') (\<lambda>parent.
     rbind (field_offset raw ''task_struct'' ''group_leader'') (\<lambda>group_leader.
     rbind (field_offset raw ''task_struct'' ''fs'') (\<lambda>fs.
     rbind (field_offset raw ''task_struct'' ''files'') (\<lambda>files.
     rbind (field_offset raw ''task_struct'' ''signal'') (\<lambda>signal.
     Inr \<lparr> task_tasks = tasks, task_pid = pid, task_tgid = tgid, task_comm = comm, task_comm_len = comm_len,
           task_state = rv_offset state, task_mm = mm, task_active_mm = active_mm, task_exit_state = exit_state,
           task_exit_code = exit_code, task_real_parent = real_parent, task_parent = parent,
           task_group_leader = group_leader, task_fs = fs, task_files = files, task_signal = signal \<rparr>)))))))))))))))"

definition raw_mm_offsets :: "raw_profile \<Rightarrow> mm_struct_offsets result" where
  "raw_mm_offsets raw =
     rbind (field_offset raw ''mm_struct'' ''pgd'') (\<lambda>pgd.
     rbind (field_offset raw ''mm_struct'' ''exe_file'') (\<lambda>exe_file.
     rbind (field_offset raw ''mm_struct'' ''start_code'') (\<lambda>start_code.
     rbind (field_offset raw ''mm_struct'' ''end_code'') (\<lambda>end_code.
     rbind (field_offset raw ''mm_struct'' ''arg_start'') (\<lambda>arg_start.
     rbind (field_offset raw ''mm_struct'' ''arg_end'') (\<lambda>arg_end.
     rbind (field_offset raw ''mm_struct'' ''env_start'') (\<lambda>env_start.
     rbind (field_offset raw ''mm_struct'' ''env_end'') (\<lambda>env_end.
     Inr \<lparr> mm_mmap = optional_field_offset raw ''mm_struct'' ''mmap'',
           mm_mm_mt = optional_field_offset raw ''mm_struct'' ''mm_mt'', mm_pgd = pgd,
           mm_binfmt = optional_field_offset raw ''mm_struct'' ''binfmt'', mm_exe_file = exe_file,
           mm_start_code = start_code, mm_end_code = end_code, mm_arg_start = arg_start, mm_arg_end = arg_end,
           mm_env_start = env_start, mm_env_end = env_end \<rparr>))))))))"

definition raw_vma_offsets :: "raw_profile \<Rightarrow> vm_area_struct_offsets result" where
  "raw_vma_offsets raw =
     rbind (field_offset raw ''vm_area_struct'' ''vm_start'') (\<lambda>vm_start.
     rbind (field_offset raw ''vm_area_struct'' ''vm_end'') (\<lambda>vm_end.
     rbind (field_offset raw ''vm_area_struct'' ''vm_flags'') (\<lambda>vm_flags.
     rbind (field_offset raw ''vm_area_struct'' ''vm_file'') (\<lambda>vm_file.
     Inr \<lparr> vma_vm_start = vm_start, vma_vm_end = vm_end, vma_vm_flags = vm_flags, vma_vm_file = vm_file,
           vma_vm_next = optional_field_offset raw ''vm_area_struct'' ''vm_next'' \<rparr>))))"

definition raw_module_offsets :: "raw_profile \<Rightarrow> module_offsets result" where
  "raw_module_offsets raw =
     (let mem = optional_resolve_field raw ''module'' ''mem'' in
     rbind (array_field raw ''module'' ''name'') (\<lambda>(name, name_len).
     rbind (field_offset raw ''module'' ''list'') (\<lambda>list.
     rbind (field_offset raw ''module'' ''state'') (\<lambda>state.
     Inr \<lparr> mod_list = list, mod_name = name, mod_name_len = name_len, mod_state = state,
           mod_mem = (case mem of Some f \<Rightarrow> rv_offset f | None \<Rightarrow> 0),
           mod_mem_count = (case mem of
                              Some f \<Rightarrow> (case array_len (rv_ty f) of Some n \<Rightarrow> n | None \<Rightarrow> 0)
                            | None \<Rightarrow> 0) \<rparr>))))"

definition raw_module_memory_offsets :: "raw_profile \<Rightarrow> module_memory_offsets" where
  "raw_module_memory_offsets raw =
     \<lparr> modmem_base = (case optional_resolve_field raw ''module_memory'' ''base'' of Some f \<Rightarrow> rv_offset f | None \<Rightarrow> 0),
       modmem_size = (case optional_resolve_field raw ''module_memory'' ''size'' of Some f \<Rightarrow> rv_offset f | None \<Rightarrow> 0),
       modmem_struct_size = (case optional_user_type raw ''module_memory'' of Some ty \<Rightarrow> ut_size ty | None \<Rightarrow> 0) \<rparr>"

text \<open>Two fields of one structure.\<close>

definition field_pair :: "raw_profile \<Rightarrow> string \<Rightarrow> string \<Rightarrow> string \<Rightarrow> (usize \<times> usize) result" where
  "field_pair raw type_name f g =
     rbind (field_offset raw type_name f) (\<lambda>a. rbind (field_offset raw type_name g) (\<lambda>b. Inr (a, b)))"

definition raw_offsets :: "raw_profile \<Rightarrow> linux_offsets result" where
  "raw_offsets raw =
     rbind (if optional_field_offset raw ''mm_struct'' ''mm_mt'' \<noteq> None then raw_maple_offsets raw
            else Inr zero_maple_offsets) (\<lambda>maple.
     rbind (raw_task_offsets raw) (\<lambda>task.
     rbind (raw_mm_offsets raw) (\<lambda>mm.
     rbind (raw_vma_offsets raw) (\<lambda>vma.
     rbind (field_pair raw ''list_head'' ''next'' ''prev'') (\<lambda>(lnext, lprev).
     rbind (raw_module_offsets raw) (\<lambda>module.
     rbind (field_pair raw ''fs_struct'' ''root'' ''pwd'') (\<lambda>(root, pwd).
     rbind (field_offset raw ''file'' ''f_path'') (\<lambda>f_path.
     rbind (field_pair raw ''path'' ''mnt'' ''dentry'') (\<lambda>(mnt, dentry).
     rbind (field_pair raw ''mount'' ''mnt_parent'' ''mnt_mountpoint'') (\<lambda>(mnt_parent, mnt_mountpoint).
     rbind (field_offset raw ''mount'' ''mnt'') (\<lambda>mount_mnt.
     rbind (field_offset raw ''vfsmount'' ''mnt_root'') (\<lambda>mnt_root.
     rbind (field_pair raw ''dentry'' ''d_parent'' ''d_name'') (\<lambda>(d_parent, d_name).
     rbind (field_offset raw ''qstr'' ''name'') (\<lambda>qstr.
     Inr \<lparr> off_task = task, off_mm = mm, off_vma = vma, off_maple = maple,
           off_list = \<lparr> list_next = lnext, list_prev = lprev \<rparr>, off_module = module,
           off_module_memory = raw_module_memory_offsets raw, off_fs = \<lparr> fss_root = root, fss_pwd = pwd \<rparr>,
           off_file = \<lparr> file_f_path = f_path \<rparr>, off_path = \<lparr> path_mnt = mnt, path_dentry = dentry \<rparr>,
           off_mount = \<lparr> mount_mnt_parent = mnt_parent, mount_mnt_mountpoint = mnt_mountpoint,
             mount_mnt = mount_mnt \<rparr>,
           off_vfsmount = \<lparr> vfsmount_mnt_root = mnt_root \<rparr>,
           off_dentry = \<lparr> dentry_d_parent = d_parent, dentry_d_name = d_name \<rparr>,
           off_qstr = \<lparr> qstr_name = qstr \<rparr> \<rparr>))))))))))))))"

definition raw_module_states :: "raw_profile \<Rightarrow> module_state_values result" where
  "raw_module_states raw =
     rbind (required_enum_constant raw ''module_state'' ''MODULE_STATE_LIVE'') (\<lambda>live.
     rbind (required_enum_constant raw ''module_state'' ''MODULE_STATE_COMING'') (\<lambda>coming.
     rbind (required_enum_constant raw ''module_state'' ''MODULE_STATE_GOING'') (\<lambda>going.
     rbind (required_enum_constant raw ''module_state'' ''MODULE_STATE_UNFORMED'') (\<lambda>unformed.
     Inr \<lparr> ms_live = live, ms_coming = coming, ms_going = going, ms_unformed = unformed \<rparr>))))"

definition from_raw :: "raw_profile \<Rightarrow> bytes \<Rightarrow> linux_defs result" where
  "from_raw raw fallback_banner =
     rbind (required_symbol_address raw ''_text'') (\<lambda>text.
     rbind (required_symbol_address raw ''init_task'') (\<lambda>init_task.
     rbind (required_symbol raw ''linux_banner'') (\<lambda>linux_banner.
     rbind (raw_offsets raw) (\<lambda>offsets.
     rbind (raw_module_states raw) (\<lambda>module_state.
     let banner = (case rs_constant_data linux_banner of Some b \<Rightarrow> b | None \<Rightarrow> fallback_banner) in
     Inr \<lparr> defs_format = LINUX_DEFS_FORMAT_VERSION,
           defs_metadata = \<lparr> md_banner = from_utf8_lossy (trim_trailing_nuls banner) \<rparr>,
           defs_symbols =
             \<lparr> ds_text = text, ds_init_task = init_task, ds_init_top_pgt = symbol_address raw ''init_top_pgt'',
               ds_level4_kernel_pgt = symbol_address raw ''level4_kernel_pgt'',
               ds_linux_banner = rs_address linux_banner, ds_modules = symbol_address raw ''modules'',
               ds_elf_format = symbol_address raw ''elf_format'',
               ds_compat_elf_format = symbol_address raw ''compat_elf_format'' \<rparr>,
           defs_enums = \<lparr> en_module_state = module_state \<rparr>,
           defs_offsets = offsets \<rparr>)))))"


section \<open>Properties\<close>

text \<open>
  A field lies in a composite under its name, or in a composite embedded without a name. A named field
  hides what is embedded. The number counts the levels of embedding.
\<close>

inductive field_at :: "raw_profile \<Rightarrow> string \<Rightarrow> string \<Rightarrow> usize \<Rightarrow> raw_type_ref \<Rightarrow> nat \<Rightarrow> bool"
  for raw :: raw_profile and field_name :: string where
  direct: "rp_user_types raw type_name = Some ut \<Longrightarrow> map_of (ut_fields ut) field_name = Some f \<Longrightarrow>
     field_at raw field_name type_name (rf_offset f) (rf_ty f) 0"
| embedded: "rp_user_types raw type_name = Some ut \<Longrightarrow> map_of (ut_fields ut) field_name = None \<Longrightarrow>
     f \<in> set (anonymous_fields ut) \<Longrightarrow> named_user_type (rf_ty f) = Some inner \<Longrightarrow>
     field_at raw field_name inner off t n \<Longrightarrow>
     field_at raw field_name type_name (rf_offset f + off) t (Suc n)"

lemma resolve_field_inner_sound:
  "resolve_field_inner raw type_name field_name base depth = Some r \<Longrightarrow>
     \<exists>off n. field_at raw field_name type_name off (rv_ty r) n \<and> depth + n \<le> 32 \<and> rv_offset r = base + off"
proof (induction raw type_name field_name base depth rule: resolve_field_inner.induct)
  case (1 raw type_name field_name base depth)
  from 1(2) obtain ut where d: "depth \<le> 32" and ut: "rp_user_types raw type_name = Some ut"
    by (subst (asm) resolve_field_inner.simps) (auto split: if_splits option.splits)
  show ?case
  proof (cases "map_of (ut_fields ut) field_name")
    case (Some f)
    with 1(2) d ut have "r = \<lparr> rv_offset = base + rf_offset f, rv_ty = rf_ty f \<rparr>"
      by (subst (asm) resolve_field_inner.simps) simp
    with direct [OF ut Some] d show ?thesis by fastforce
  next
    case None
    from 1(2) d ut None obtain f inner where f: "f \<in> set (anonymous_fields ut)" "named_user_type (rf_ty f) = Some inner"
      and r: "resolve_field_inner raw inner field_name (base + rf_offset f) (Suc depth) = Some r"
      by (subst (asm) resolve_field_inner.simps) (auto dest!: first_some_Some split: option.splits)
    from 1(1) [OF _ ut None f r] d obtain off n where "field_at raw field_name inner off (rv_ty r) n"
        "Suc depth + n \<le> 32" "rv_offset r = base + rf_offset f + off"
      by auto
    with embedded [OF ut None f] show ?thesis
      by (intro exI [of _ "rf_offset f + off"] exI [of _ "Suc n"]) (simp add: add.assoc)
  qed
qed

lemma resolve_field_inner_complete:
  "field_at raw field_name type_name off t n \<Longrightarrow> depth + n \<le> 32 \<Longrightarrow>
     resolve_field_inner raw type_name field_name base depth \<noteq> None"
proof (induction arbitrary: base depth rule: field_at.induct)
  case (direct type_name ut f)
  then show ?case by (subst resolve_field_inner.simps) simp
next
  case (embedded type_name ut f inner off t n)
  then have "resolve_field_inner raw inner field_name (base + rf_offset f) (Suc depth) \<noteq> None" by simp
  with embedded show ?case
    by (subst resolve_field_inner.simps) (auto simp: first_some_None intro!: bexI [of _ f])
qed

text \<open>
  C16. The resolution of a field is exact, whatever the order in which the fields of a composite are
  enumerated: the offset is the sum along a chain of embedded composites that ends in the field, with
  the type of that field, and the resolution fails, with an offset error, only where no such chain of at most 32
  levels exists. It terminates also on cyclic types.
\<close>

theorem resolve_field_exact:
  "case resolve_field raw type_name field_name of
     Inr r \<Rightarrow> (\<exists>n. n \<le> 32 \<and> field_at raw field_name type_name (rv_offset r) (rv_ty r) n)
   | Inl e \<Rightarrow> e = OsLayer Offset \<and> \<not> (\<exists>off t n. n \<le> 32 \<and> field_at raw field_name type_name off t n)"
proof (cases "resolve_field_inner raw type_name field_name 0 0")
  case None
  then show ?thesis
    using resolve_field_inner_complete [of raw field_name type_name _ _ _ 0 0] by (auto simp: resolve_field_def)
next
  case (Some r)
  then show ?thesis
    using resolve_field_inner_sound [OF Some] by (auto simp: resolve_field_def)
qed

text \<open>
  What the runtime needs from the kernel image, as a table: which field of which structure each offset of the document is.
\<close>

definition needed_fields :: "((string \<times> string) \<times> (linux_offsets \<Rightarrow> usize)) list" where
  "needed_fields =
     [((''task_struct'', ''tasks''), task_tasks \<circ> off_task), ((''task_struct'', ''pid''), task_pid \<circ> off_task),
      ((''task_struct'', ''tgid''), task_tgid \<circ> off_task), ((''task_struct'', ''mm''), task_mm \<circ> off_task),
      ((''task_struct'', ''active_mm''), task_active_mm \<circ> off_task),
      ((''task_struct'', ''exit_state''), task_exit_state \<circ> off_task),
      ((''task_struct'', ''exit_code''), task_exit_code \<circ> off_task),
      ((''task_struct'', ''real_parent''), task_real_parent \<circ> off_task),
      ((''task_struct'', ''parent''), task_parent \<circ> off_task),
      ((''task_struct'', ''group_leader''), task_group_leader \<circ> off_task),
      ((''task_struct'', ''fs''), task_fs \<circ> off_task), ((''task_struct'', ''files''), task_files \<circ> off_task),
      ((''task_struct'', ''signal''), task_signal \<circ> off_task),
      ((''mm_struct'', ''pgd''), mm_pgd \<circ> off_mm), ((''mm_struct'', ''exe_file''), mm_exe_file \<circ> off_mm),
      ((''mm_struct'', ''start_code''), mm_start_code \<circ> off_mm), ((''mm_struct'', ''end_code''), mm_end_code \<circ> off_mm),
      ((''mm_struct'', ''arg_start''), mm_arg_start \<circ> off_mm), ((''mm_struct'', ''arg_end''), mm_arg_end \<circ> off_mm),
      ((''mm_struct'', ''env_start''), mm_env_start \<circ> off_mm), ((''mm_struct'', ''env_end''), mm_env_end \<circ> off_mm),
      ((''vm_area_struct'', ''vm_start''), vma_vm_start \<circ> off_vma), ((''vm_area_struct'', ''vm_end''), vma_vm_end \<circ> off_vma),
      ((''vm_area_struct'', ''vm_flags''), vma_vm_flags \<circ> off_vma),
      ((''vm_area_struct'', ''vm_file''), vma_vm_file \<circ> off_vma),
      ((''list_head'', ''next''), list_next \<circ> off_list), ((''list_head'', ''prev''), list_prev \<circ> off_list),
      ((''module'', ''list''), mod_list \<circ> off_module), ((''module'', ''state''), mod_state \<circ> off_module),
      ((''fs_struct'', ''root''), fss_root \<circ> off_fs), ((''fs_struct'', ''pwd''), fss_pwd \<circ> off_fs),
      ((''file'', ''f_path''), file_f_path \<circ> off_file),
      ((''path'', ''mnt''), path_mnt \<circ> off_path), ((''path'', ''dentry''), path_dentry \<circ> off_path),
      ((''mount'', ''mnt_parent''), mount_mnt_parent \<circ> off_mount),
      ((''mount'', ''mnt_mountpoint''), mount_mnt_mountpoint \<circ> off_mount), ((''mount'', ''mnt''), mount_mnt \<circ> off_mount),
      ((''vfsmount'', ''mnt_root''), vfsmount_mnt_root \<circ> off_vfsmount),
      ((''dentry'', ''d_parent''), dentry_d_parent \<circ> off_dentry), ((''dentry'', ''d_name''), dentry_d_name \<circ> off_dentry),
      ((''qstr'', ''name''), qstr_name \<circ> off_qstr)]"

definition needed_arrays :: "((string \<times> string) \<times> (linux_offsets \<Rightarrow> usize \<times> usize)) list" where
  "needed_arrays =
     [((''task_struct'', ''comm''), \<lambda>x. (task_comm (off_task x), task_comm_len (off_task x))),
      ((''module'', ''name''), \<lambda>x. (mod_name (off_module x), mod_name_len (off_module x)))]"

definition maple_fields :: "((string \<times> string) \<times> (maple_offsets \<Rightarrow> usize)) list" where
  "maple_fields = [((''maple_tree'', ''ma_root''), mt_ma_root \<circ> maple_tree)]"

definition maple_arrays :: "((string \<times> string) \<times> (maple_offsets \<Rightarrow> usize \<times> usize)) list" where
  "maple_arrays =
     [((''maple_range_64'', ''pivot''), \<lambda>m. (mr_pivot (maple_range64 m), mr_pivot_count (maple_range64 m))),
      ((''maple_range_64'', ''slot''), \<lambda>m. (mr_slot (maple_range64 m), mr_slot_count (maple_range64 m))),
      ((''maple_arange_64'', ''pivot''), \<lambda>m. (ma_pivot (maple_arange64 m), ma_pivot_count (maple_arange64 m))),
      ((''maple_arange_64'', ''slot''), \<lambda>m. (ma_slot (maple_arange64 m), ma_slot_count (maple_arange64 m)))]"

definition maple_metas :: "((string \<times> string) \<times> (maple_offsets \<Rightarrow> usize)) list" where
  "maple_metas =
     [((''maple_range_64'', ''meta''), mr_meta_end \<circ> maple_range64),
      ((''maple_arange_64'', ''meta''), ma_meta_end \<circ> maple_arange64)]"

definition needed_symbols :: "(string \<times> (linux_defs_symbols \<Rightarrow> u64)) list" where
  "needed_symbols = [(''_text'', ds_text), (''init_task'', ds_init_task), (''linux_banner'', ds_linux_banner)]"

definition wanted_symbols :: "(string \<times> (linux_defs_symbols \<Rightarrow> u64 option)) list" where
  "wanted_symbols =
     [(''init_top_pgt'', ds_init_top_pgt), (''level4_kernel_pgt'', ds_level4_kernel_pgt), (''modules'', ds_modules),
      (''elf_format'', ds_elf_format), (''compat_elf_format'', ds_compat_elf_format)]"

definition needed_states :: "(string \<times> (module_state_values \<Rightarrow> u64)) list" where
  "needed_states =
     [(''MODULE_STATE_LIVE'', ms_live), (''MODULE_STATE_COMING'', ms_coming), (''MODULE_STATE_GOING'', ms_going),
      (''MODULE_STATE_UNFORMED'', ms_unformed)]"

text \<open>Where one module keeps its memory regions, as the document has it: zero where the image has no such field.\<close>

definition wanted_regions :: "((string \<times> string) \<times> (linux_offsets \<Rightarrow> usize)) list" where
  "wanted_regions =
     [((''module'', ''mem''), mod_mem \<circ> off_module),
      ((''module_memory'', ''base''), modmem_base \<circ> off_module_memory),
      ((''module_memory'', ''size''), modmem_size \<circ> off_module_memory)]"

text \<open>The offsets of fields that some kernels do not have.\<close>

definition wanted_fields :: "((string \<times> string) \<times> (linux_offsets \<Rightarrow> usize option)) list" where
  "wanted_fields =
     [((''mm_struct'', ''mmap''), mm_mmap \<circ> off_mm), ((''mm_struct'', ''mm_mt''), mm_mm_mt \<circ> off_mm),
      ((''mm_struct'', ''binfmt''), mm_binfmt \<circ> off_mm), ((''vm_area_struct'', ''vm_next''), vma_vm_next \<circ> off_vma)]"

definition has_field :: "raw_profile \<Rightarrow> string \<times> string \<Rightarrow> bool" where
  "has_field raw = (\<lambda>(t, f). \<exists>x. field_offset raw t f = Inr x)"

definition has_array :: "raw_profile \<Rightarrow> string \<times> string \<Rightarrow> bool" where
  "has_array raw = (\<lambda>(t, f). \<exists>x. array_field raw t f = Inr x)"

text \<open>The image has everything the runtime needs.\<close>

definition image_complete :: "raw_profile \<Rightarrow> bool" where
  "image_complete raw \<longleftrightarrow>
     (\<forall>s \<in> fst ` set needed_symbols. symbol_of raw s \<noteq> None) \<and>
     (\<forall>p \<in> fst ` set needed_fields. has_field raw p) \<and>
     (\<forall>p \<in> fst ` set needed_arrays. has_array raw p) \<and>
     (has_field raw (''task_struct'', ''__state'') \<or> has_field raw (''task_struct'', ''state'')) \<and>
     (\<forall>c \<in> fst ` set needed_states. \<exists>v. required_enum_constant raw ''module_state'' c = Inr v) \<and>
     (has_field raw (''mm_struct'', ''mm_mt'') \<longrightarrow>
        (\<forall>p \<in> fst ` set maple_fields \<union> fst ` set maple_metas \<union> {(''maple_metadata'', ''end'')}. has_field raw p) \<and>
        (\<forall>p \<in> fst ` set maple_arrays. has_array raw p))"

named_theorems raw_tables

lemmas [raw_tables] = needed_fields_def needed_arrays_def maple_fields_def maple_arrays_def maple_metas_def
  needed_symbols_def wanted_symbols_def needed_states_def wanted_regions_def wanted_fields_def

lemma ok_rbind: "(\<exists>y. rbind m f = Inr y) \<longleftrightarrow> (\<exists>x. m = Inr x \<and> (\<exists>y. f x = Inr y))"
  by (auto simp: result_simps)

lemma only_offset_errors:
  "field_offset raw t f = Inl e \<Longrightarrow> e = OsLayer Offset" "array_field raw t f = Inl e \<Longrightarrow> e = OsLayer Offset"
  by (auto simp: field_offset_def array_field_def resolve_field_def result_simps)

lemma optional_resolve_field_iff:
  "optional_resolve_field raw t f \<noteq> None \<longleftrightarrow> has_field raw (t, f)"
  by (auto simp: has_field_def field_offset_def resolve_field_def optional_resolve_field_def result_simps)

lemma optional_field_offset_iff:
  "optional_field_offset raw t f = Some x \<longleftrightarrow> field_offset raw t f = Inr x"
  by (auto simp: field_offset_def resolve_field_def optional_field_offset_def result_simps)

lemma optional_field_cases:
  "optional_field_offset raw t f = map_option rv_offset (optional_resolve_field raw t f)"
  "array_field raw t f = (case optional_resolve_field raw t f of None \<Rightarrow> Inl (OsLayer Offset)
     | Some r \<Rightarrow> (case array_len (rv_ty r) of None \<Rightarrow> Inl (OsLayer Offset) | Some n \<Rightarrow> Inr (rv_offset r, n)))"
  by (auto simp: optional_field_offset_def optional_resolve_field_def array_field_def resolve_field_def result_simps
      split: option.splits)

text \<open>
  The maple tables of the document: the root, the offset and the length of each array, and the index of the last
  slot, in the metadata at the end of a node.
\<close>

definition maple_described :: "raw_profile \<Rightarrow> maple_offsets \<Rightarrow> bool" where
  "maple_described raw m \<longleftrightarrow>
     (\<forall>((t, f), get) \<in> set maple_fields. field_offset raw t f = Inr (get m)) \<and>
     (\<forall>((t, f), get) \<in> set maple_arrays. array_field raw t f = Inr (get m)) \<and>
     (\<forall>((t, f), get) \<in> set maple_metas. \<exists>off fin. field_offset raw t f = Inr off \<and>
        field_offset raw ''maple_metadata'' ''end'' = Inr fin \<and> get m = off + fin)"

lemma raw_maple_offsets_Inr: "raw_maple_offsets raw = Inr m \<Longrightarrow> maple_described raw m"
  by (auto simp: maple_described_def raw_maple_offsets_def raw_tables result_simps)

lemma raw_maple_offsets_ok:
  "(\<exists>m. raw_maple_offsets raw = Inr m) \<longleftrightarrow>
     (\<forall>p \<in> fst ` set maple_fields \<union> fst ` set maple_metas \<union> {(''maple_metadata'', ''end'')}. has_field raw p) \<and>
     (\<forall>p \<in> fst ` set maple_arrays. has_array raw p)"
  by (simp add: raw_maple_offsets_def raw_tables ok_rbind has_field_def has_array_def split_def) blast


lemma raw_task_offsets_Inr:
  assumes "raw_task_offsets raw = Inr t"
  shows "array_field raw ''task_struct'' ''comm'' = Inr (task_comm t, task_comm_len t) \<and>
    map_option rv_offset (case optional_resolve_field raw ''task_struct'' ''__state'' of
       Some f \<Rightarrow> Some f | None \<Rightarrow> optional_resolve_field raw ''task_struct'' ''state'') = Some (task_state t) \<and>
    (\<forall>(f, get) \<in> set [(''tasks'', task_tasks), (''pid'', task_pid), (''tgid'', task_tgid), (''mm'', task_mm),
       (''active_mm'', task_active_mm), (''exit_state'', task_exit_state), (''exit_code'', task_exit_code),
       (''real_parent'', task_real_parent), (''parent'', task_parent), (''group_leader'', task_group_leader),
       (''fs'', task_fs), (''files'', task_files), (''signal'', task_signal)].
       field_offset raw ''task_struct'' f = Inr (get t))"
  using assms by (auto simp: raw_task_offsets_def result_simps)

lemma raw_mm_offsets_Inr:
  assumes "raw_mm_offsets raw = Inr m"
  shows "mm_mmap m = optional_field_offset raw ''mm_struct'' ''mmap'' \<and>
    mm_mm_mt m = optional_field_offset raw ''mm_struct'' ''mm_mt'' \<and>
    mm_binfmt m = optional_field_offset raw ''mm_struct'' ''binfmt'' \<and>
    (\<forall>(f, get) \<in> set [(''pgd'', mm_pgd), (''exe_file'', mm_exe_file), (''start_code'', mm_start_code),
       (''end_code'', mm_end_code), (''arg_start'', mm_arg_start), (''arg_end'', mm_arg_end),
       (''env_start'', mm_env_start), (''env_end'', mm_env_end)]. field_offset raw ''mm_struct'' f = Inr (get m))"
  using assms by (auto simp: raw_mm_offsets_def result_simps)

lemma raw_vma_offsets_Inr:
  assumes "raw_vma_offsets raw = Inr v"
  shows "vma_vm_next v = optional_field_offset raw ''vm_area_struct'' ''vm_next'' \<and>
    (\<forall>(f, get) \<in> set [(''vm_start'', vma_vm_start), (''vm_end'', vma_vm_end), (''vm_flags'', vma_vm_flags),
       (''vm_file'', vma_vm_file)]. field_offset raw ''vm_area_struct'' f = Inr (get v))"
  using assms by (auto simp: raw_vma_offsets_def result_simps)

lemma raw_module_offsets_Inr:
  assumes "raw_module_offsets raw = Inr m"
  shows "array_field raw ''module'' ''name'' = Inr (mod_name m, mod_name_len m) \<and>
    field_offset raw ''module'' ''list'' = Inr (mod_list m) \<and> field_offset raw ''module'' ''state'' = Inr (mod_state m) \<and>
    mod_mem m = (case optional_field_offset raw ''module'' ''mem'' of Some off \<Rightarrow> off | None \<Rightarrow> 0) \<and>
    mod_mem_count m = (case array_field raw ''module'' ''mem'' of Inr (_, n) \<Rightarrow> n | Inl _ \<Rightarrow> 0)"
  using assms
  by (auto simp: raw_module_offsets_def Let_def rbind_Inr_iff optional_field_cases split: option.splits)

lemma field_pair_Inr:
  "field_pair raw t f g = Inr (x, y) \<longleftrightarrow> field_offset raw t f = Inr x \<and> field_offset raw t g = Inr y"
  by (auto simp: field_pair_def result_simps)

lemma raw_offsets_Inr:
  assumes "raw_offsets raw = Inr offs"
  shows "raw_task_offsets raw = Inr (off_task offs)" "raw_mm_offsets raw = Inr (off_mm offs)"
    "raw_vma_offsets raw = Inr (off_vma offs)" "raw_module_offsets raw = Inr (off_module offs)"
    "(if optional_field_offset raw ''mm_struct'' ''mm_mt'' \<noteq> None then raw_maple_offsets raw
      else Inr zero_maple_offsets) = Inr (off_maple offs)"
    "off_module_memory offs = raw_module_memory_offsets raw"
    "\<forall>(p, get) \<in> set (filter (\<lambda>(p, _). fst p \<notin> {''task_struct'', ''mm_struct'', ''vm_area_struct'', ''module''}) needed_fields).
       field_offset raw (fst p) (snd p) = Inr (get offs)"
  using assms unfolding raw_offsets_def
  by (auto simp: rbind_Inr_iff field_pair_Inr needed_fields_def)

lemma raw_offsets_fields:
  assumes "raw_offsets raw = Inr offs"
  shows "\<forall>((t, f), get) \<in> set needed_fields. field_offset raw t f = Inr (get offs)"
  using raw_task_offsets_Inr [OF raw_offsets_Inr(1) [OF assms]] raw_mm_offsets_Inr [OF raw_offsets_Inr(2) [OF assms]]
    raw_vma_offsets_Inr [OF raw_offsets_Inr(3) [OF assms]] raw_module_offsets_Inr [OF raw_offsets_Inr(4) [OF assms]]
    raw_offsets_Inr(7) [OF assms]
  by (simp add: needed_fields_def)

lemma raw_offsets_arrays:
  assumes "raw_offsets raw = Inr offs"
  shows "\<forall>((t, f), get) \<in> set needed_arrays. array_field raw t f = Inr (get offs)"
  using raw_task_offsets_Inr [OF raw_offsets_Inr(1) [OF assms]] raw_module_offsets_Inr [OF raw_offsets_Inr(4) [OF assms]]
  by (simp add: needed_arrays_def)

lemma raw_offsets_wanted:
  assumes "raw_offsets raw = Inr offs"
  shows "\<forall>((t, f), get) \<in> set wanted_fields. get offs = optional_field_offset raw t f"
    and "\<forall>((t, f), get) \<in> set wanted_regions.
      get offs = (case optional_field_offset raw t f of Some off \<Rightarrow> off | None \<Rightarrow> 0)"
    and "mod_mem_count (off_module offs) = (case array_field raw ''module'' ''mem'' of Inr (_, n) \<Rightarrow> n | Inl _ \<Rightarrow> 0)"
    and "modmem_struct_size (off_module_memory offs) =
      (case rp_user_types raw ''module_memory'' of Some ty \<Rightarrow> ut_size ty | None \<Rightarrow> 0)"
  using raw_mm_offsets_Inr [OF raw_offsets_Inr(2) [OF assms]] raw_vma_offsets_Inr [OF raw_offsets_Inr(3) [OF assms]]
    raw_module_offsets_Inr [OF raw_offsets_Inr(4) [OF assms]]
  by (simp_all add: wanted_fields_def wanted_regions_def raw_offsets_Inr(6) [OF assms] raw_module_memory_offsets_def
      optional_user_type_def optional_resolve_field_def optional_field_offset_def split: option.splits)

lemma raw_offsets_state:
  assumes "raw_offsets raw = Inr offs"
  shows "field_offset raw ''task_struct'' (if has_field raw (''task_struct'', ''__state'') then ''__state'' else ''state'')
    = Inr (task_state (off_task offs))"
  using raw_task_offsets_Inr [OF raw_offsets_Inr(1) [OF assms]] optional_resolve_field_iff [of raw "''task_struct''" "''__state''"]
  by (auto simp: field_offset_def resolve_field_def optional_resolve_field_def split: option.splits)

lemma raw_offsets_ok:
  "(\<exists>offs. raw_offsets raw = Inr offs) \<longleftrightarrow>
     (\<forall>p \<in> fst ` set needed_fields. has_field raw p) \<and> (\<forall>p \<in> fst ` set needed_arrays. has_array raw p) \<and>
     (has_field raw (''task_struct'', ''__state'') \<or> has_field raw (''task_struct'', ''state'')) \<and>
     (has_field raw (''mm_struct'', ''mm_mt'') \<longrightarrow> (\<exists>m. raw_maple_offsets raw = Inr m))"
proof -
  have opt: "(\<exists>f. (case optional_resolve_field raw t f1 of
        Some f \<Rightarrow> Some f | None \<Rightarrow> optional_resolve_field raw t f2) = Some f)
      \<longleftrightarrow> has_field raw (t, f1) \<or> has_field raw (t, f2)" for t f1 f2
    by (auto simp: optional_resolve_field_iff [symmetric] split: option.splits)
  have mt: "(\<exists>y. optional_field_offset raw t f = Some y) \<longleftrightarrow> has_field raw (t, f)" for t f
    by (auto simp: optional_field_offset_iff has_field_def)
  have maple: "(\<exists>x. (if has_field raw p then raw_maple_offsets raw else Inr zero_maple_offsets) = Inr x) \<longleftrightarrow>
      (has_field raw p \<longrightarrow> (\<exists>m. raw_maple_offsets raw = Inr m))" for p
    by auto
  have task: "(\<exists>t. raw_task_offsets raw = Inr t) \<longleftrightarrow>
      has_array raw (''task_struct'', ''comm'') \<and>
      (has_field raw (''task_struct'', ''__state'') \<or> has_field raw (''task_struct'', ''state'')) \<and>
      (\<forall>f \<in> {''tasks'', ''pid'', ''tgid'', ''mm'', ''active_mm'', ''exit_state'', ''exit_code'', ''real_parent'',
          ''parent'', ''group_leader'', ''fs'', ''files'', ''signal''}. has_field raw (''task_struct'', f))"
    unfolding raw_task_offsets_def
    by (simp add: ok_rbind split_def ok_or_Inr_iff opt has_field_def has_array_def)
  have mm: "(\<exists>t. raw_mm_offsets raw = Inr t) \<longleftrightarrow>
      (\<forall>f \<in> {''pgd'', ''exe_file'', ''start_code'', ''end_code'', ''arg_start'', ''arg_end'', ''env_start'',
         ''env_end''}. has_field raw (''mm_struct'', f))"
    unfolding raw_mm_offsets_def by (simp add: ok_rbind has_field_def)
  have vma: "(\<exists>t. raw_vma_offsets raw = Inr t) \<longleftrightarrow>
      (\<forall>f \<in> {''vm_start'', ''vm_end'', ''vm_flags'', ''vm_file''}. has_field raw (''vm_area_struct'', f))"
    unfolding raw_vma_offsets_def by (simp add: ok_rbind has_field_def)
  have module: "(\<exists>t. raw_module_offsets raw = Inr t) \<longleftrightarrow>
      has_array raw (''module'', ''name'') \<and> has_field raw (''module'', ''list'') \<and> has_field raw (''module'', ''state'')"
    unfolding raw_module_offsets_def by (simp add: ok_rbind split_def Let_def has_field_def has_array_def)
  have pair: "(\<exists>a b. field_pair raw t f g = Inr (a, b)) \<longleftrightarrow> has_field raw (t, f) \<and> has_field raw (t, g)" for t f g
    by (auto simp: field_pair_Inr has_field_def)
  have field: "(\<exists>x. field_offset raw t f = Inr x) \<longleftrightarrow> has_field raw (t, f)" for t f
    by (simp add: has_field_def)
  show ?thesis
    unfolding raw_offsets_def
    by (simp add: ok_rbind split_def mt maple task mm vma module pair field needed_fields_def needed_arrays_def
        split del: if_split) blast
qed


lemma raw_module_states_Inr:
  "raw_module_states raw = Inr st \<longleftrightarrow>
     (\<forall>(c, get) \<in> set needed_states. required_enum_constant raw ''module_state'' c = Inr (get st))"
  by (auto simp: raw_module_states_def needed_states_def result_simps)

lemma required_symbol_Inr: "required_symbol raw s = Inr y \<longleftrightarrow> symbol_of raw s = Some y"
  by (simp add: required_symbol_def result_simps)

text \<open>Every error on the way is an offset error.\<close>

definition offset_errors :: "'a result \<Rightarrow> bool" where
  "offset_errors m \<longleftrightarrow> (\<forall>e. m = Inl e \<longrightarrow> e = OsLayer Offset)"

lemma offset_errors_intros:
  "offset_errors (Inr x)" "offset_errors (ok_or (OsLayer Offset) y)"
  "offset_errors m \<Longrightarrow> (\<And>x. offset_errors (f x)) \<Longrightarrow> offset_errors (rbind m f)"
  by (auto simp: offset_errors_def result_simps)

lemma offset_errors_fields:
  "offset_errors (field_offset raw t f)" "offset_errors (array_field raw t f)" "offset_errors (field_pair raw t f g)"
  "offset_errors (required_symbol raw s)" "offset_errors (required_symbol_address raw s)"
  "offset_errors (required_enum_constant raw e c)"
  by (auto simp: field_offset_def array_field_def field_pair_def resolve_field_def required_symbol_def
      required_symbol_address_def required_enum_constant_def intro!: offset_errors_intros)

lemma offset_errors_structures:
  "offset_errors (raw_maple_offsets raw)" "offset_errors (raw_task_offsets raw)" "offset_errors (raw_mm_offsets raw)"
  "offset_errors (raw_vma_offsets raw)" "offset_errors (raw_module_offsets raw)" "offset_errors (raw_module_states raw)"
  unfolding raw_maple_offsets_def raw_task_offsets_def raw_mm_offsets_def raw_vma_offsets_def raw_module_offsets_def
    raw_module_states_def Let_def split_def
  by (intro offset_errors_intros offset_errors_fields)+

lemma offset_errors_raw_offsets: "offset_errors (raw_offsets raw)"
  unfolding raw_offsets_def split_def
  by (intro offset_errors_intros offset_errors_fields offset_errors_structures)
    (auto intro: offset_errors_intros offset_errors_structures)

lemma from_raw_offset_error: "from_raw raw banner = Inl e \<Longrightarrow> e = OsLayer Offset"
proof -
  have "offset_errors (from_raw raw banner)"
    unfolding from_raw_def Let_def
    by (intro offset_errors_intros offset_errors_fields offset_errors_structures offset_errors_raw_offsets)
  then show "from_raw raw banner = Inl e \<Longrightarrow> e = OsLayer Offset" by (simp add: offset_errors_def)
qed

text \<open>
  What a document says about an image: the symbols, the offset of each field, the length of each array, the maple tables
  where the memory descriptor has a maple tree and zeros where it has none, and the states of a module.
\<close>

definition describes :: "raw_profile \<Rightarrow> linux_defs \<Rightarrow> bool" where
  "describes raw defs \<longleftrightarrow>
     (let offs = defs_offsets defs in
     (\<forall>(s, get) \<in> set needed_symbols. symbol_address raw s = Some (get (defs_symbols defs))) \<and>
     (\<forall>(s, get) \<in> set wanted_symbols. symbol_address raw s = get (defs_symbols defs)) \<and>
     (\<forall>((t, f), get) \<in> set needed_fields. field_offset raw t f = Inr (get offs)) \<and>
     (\<forall>((t, f), get) \<in> set needed_arrays. array_field raw t f = Inr (get offs)) \<and>
     field_offset raw ''task_struct'' (if has_field raw (''task_struct'', ''__state'') then ''__state'' else ''state'')
       = Inr (task_state (off_task offs)) \<and>
     (\<forall>((t, f), get) \<in> set wanted_fields. get offs = optional_field_offset raw t f) \<and>
     (\<forall>((t, f), get) \<in> set wanted_regions.
        get offs = (case optional_field_offset raw t f of Some off \<Rightarrow> off | None \<Rightarrow> 0)) \<and>
     mod_mem_count (off_module offs) = (case array_field raw ''module'' ''mem'' of Inr (_, n) \<Rightarrow> n | Inl _ \<Rightarrow> 0) \<and>
     modmem_struct_size (off_module_memory offs) =
       (case rp_user_types raw ''module_memory'' of Some ty \<Rightarrow> ut_size ty | None \<Rightarrow> 0) \<and>
     (if has_field raw (''mm_struct'', ''mm_mt'') then maple_described raw (off_maple offs)
      else off_maple offs = zero_maple_offsets) \<and>
     (\<forall>(c, get) \<in> set needed_states.
        required_enum_constant raw ''module_state'' c = Inr (get (en_module_state (defs_enums defs)))))"

text \<open>The banner of the document is the text of the image without the zero bytes that pad it.\<close>

definition banner_described :: "raw_profile \<Rightarrow> bytes \<Rightarrow> string \<Rightarrow> bool" where
  "banner_described raw fallback banner \<longleftrightarrow>
     (\<exists>s text k. symbol_of raw ''linux_banner'' = Some s \<and>
        (case rs_constant_data s of Some data \<Rightarrow> data | None \<Rightarrow> fallback) = text @ replicate k 0 \<and>
        (text = [] \<or> last text \<noteq> 0) \<and> banner = from_utf8_lossy text)"

lemma trim_trailing_nuls_split:
  "\<exists>k. data = trim_trailing_nuls data @ replicate k 0" "trim_trailing_nuls data = [] \<or> last (trim_trailing_nuls data) \<noteq> 0"
proof -
  have "takeWhile (\<lambda>b. b = 0) (rev data) = replicate (length (takeWhile (\<lambda>b. b = 0) (rev data))) 0"
    by (rule replicate_eqI) (auto dest: set_takeWhileD)
  then have "rev data = replicate (length (takeWhile (\<lambda>b. b = 0) (rev data))) 0 @ dropWhile (\<lambda>b. b = 0) (rev data)"
    by (metis takeWhile_dropWhile_id)
  then have "data = trim_trailing_nuls data @ replicate (length (takeWhile (\<lambda>b. b = 0) (rev data))) 0"
    unfolding trim_trailing_nuls_def by (metis rev_append rev_replicate rev_rev_ident)
  then show "\<exists>k. data = trim_trailing_nuls data @ replicate k 0" ..
  show "trim_trailing_nuls data = [] \<or> last (trim_trailing_nuls data) \<noteq> 0"
    using hd_dropWhile [of "\<lambda>b. b = 0" "rev data"] by (auto simp: trim_trailing_nuls_def last_rev)
qed

lemma from_raw_parts:
  assumes "from_raw raw banner = Inr defs"
  obtains ls where "symbol_of raw ''linux_banner'' = Some ls" "md_banner (defs_metadata defs) =
      from_utf8_lossy (trim_trailing_nuls (case rs_constant_data ls of Some data \<Rightarrow> data | None \<Rightarrow> banner))"
  using assms unfolding from_raw_def Let_def by (auto simp: rbind_Inr_iff required_symbol_Inr)

lemma from_raw_Inr:
  assumes "from_raw raw banner = Inr defs"
  shows "describes raw defs" "defs_format defs = LINUX_DEFS_FORMAT_VERSION"
    "banner_described raw banner (md_banner (defs_metadata defs))"
proof -
  from assms obtain offs where offs: "raw_offsets raw = Inr offs" "defs_offsets defs = offs"
      "raw_module_states raw = Inr (en_module_state (defs_enums defs))"
    and syms: "\<forall>(s, get) \<in> set needed_symbols. symbol_address raw s = Some (get (defs_symbols defs))"
      "\<forall>(s, get) \<in> set wanted_symbols. symbol_address raw s = get (defs_symbols defs)"
    and fmt: "defs_format defs = LINUX_DEFS_FORMAT_VERSION"
    unfolding from_raw_def Let_def
    by (auto simp: rbind_Inr_iff required_symbol_Inr required_symbol_address_def symbol_address_def
        needed_symbols_def wanted_symbols_def)
  have "if has_field raw (''mm_struct'', ''mm_mt'') then maple_described raw (off_maple offs)
      else off_maple offs = zero_maple_offsets"
    using raw_offsets_Inr(5) [OF offs(1)] raw_maple_offsets_Inr [of raw "off_maple offs"]
    by (auto simp: optional_field_offset_iff has_field_def split: if_splits)
  then show "describes raw defs"
    unfolding describes_def Let_def offs(2)
    using syms raw_offsets_fields [OF offs(1)] raw_offsets_arrays [OF offs(1)] raw_offsets_state [OF offs(1)]
      raw_offsets_wanted [OF offs(1)] offs(3) [unfolded raw_module_states_Inr]
    by - ((rule conjI, assumption)+, assumption)
  show "defs_format defs = LINUX_DEFS_FORMAT_VERSION" by (rule fmt)
  show "banner_described raw banner (md_banner (defs_metadata defs))"
    using from_raw_parts [OF assms] trim_trailing_nuls_split unfolding banner_described_def by metis
qed

lemma from_raw_ok: "(\<exists>defs. from_raw raw banner = Inr defs) \<longleftrightarrow> image_complete raw"
proof -
  have sym: "(\<exists>x. required_symbol raw s = Inr x) \<longleftrightarrow> (\<exists>y. symbol_of raw s = Some y)"
      "(\<exists>x. required_symbol_address raw s = Inr x) \<longleftrightarrow> (\<exists>y. symbol_of raw s = Some y)" for s
    by (auto simp: required_symbol_Inr required_symbol_address_def result_simps)
  have states: "(\<exists>st. raw_module_states raw = Inr st) \<longleftrightarrow>
      (\<forall>c \<in> fst ` set needed_states. \<exists>v. required_enum_constant raw ''module_state'' c = Inr v)"
    by (simp add: raw_module_states_def needed_states_def ok_rbind)
  have "(\<exists>defs. from_raw raw banner = Inr defs) \<longleftrightarrow>
      (\<forall>s \<in> fst ` set needed_symbols. symbol_of raw s \<noteq> None) \<and> (\<exists>offs. raw_offsets raw = Inr offs) \<and>
      (\<exists>st. raw_module_states raw = Inr st)"
    unfolding from_raw_def Let_def needed_symbols_def ok_rbind by (simp add: sym)
  then show ?thesis
    by (simp only: image_complete_def raw_offsets_ok raw_maple_offsets_ok states conj_ac)
qed

text \<open>
  C12. Generation succeeds exactly on the images that have everything the runtime needs, the maple tree only where the
  memory descriptor has one, and then every entry of the document is the value the image gives it: the symbols, the offset
  of each field and the length of each array by the tables above, the maple tables (zero without a maple tree), where a
  module keeps its memory regions (zero where the kernel has no such field), the states of a module, and the banner, without
  the zero bytes at its end. Otherwise it fails, and then always with the offset error. The document is of the version the
  runtime loads.
\<close>

theorem from_raw_exact:
  "case from_raw raw banner of
     Inr defs \<Rightarrow> image_complete raw \<and> describes raw defs \<and>
       banner_described raw banner (md_banner (defs_metadata defs)) \<and> defs_format defs = LINUX_DEFS_FORMAT_VERSION
   | Inl e \<Rightarrow> \<not> image_complete raw \<and> e = OsLayer Offset"
  using from_raw_Inr [of raw banner] from_raw_ok [of raw banner] from_raw_offset_error [of raw banner]
  by (cases "from_raw raw banner") auto

end
