(* ===== verification/Elf_File.thy ===== *)
theory Elf_File
  imports Rust_Num
begin

text \<open>
  \<open>memflow-linux-defs/src/vmlinux.rs\<close>, first part: the little-endian readers and the reader of a 64-bit ELF file
  with its sections and symbols. A file is its bytes; the descriptions in the errors are left out.
\<close>

section \<open>Readers\<close>

fun le_nat :: "bytes \<Rightarrow> nat" where
  "le_nat [] = 0"
| "le_nat (b # bs) = unat b + 256 * le_nat bs"

text \<open>\<open>data.get(offset..offset.saturating_add(len))\<close>\<close>

definition slice :: "bytes \<Rightarrow> usize \<Rightarrow> usize \<Rightarrow> bytes result" where
  "slice data offset len =
     (let fin = sat_add offset len in
      if unat fin \<le> length data then Inr (take (unat fin - unat offset) (drop (unat offset) data))
      else Inl (OsLayer Encoding))"

definition read_u16 :: "bytes \<Rightarrow> usize \<Rightarrow> u16 result" where
  "read_u16 data offset = rbind (slice data offset 2) (\<lambda>bs. Inr (of_nat (le_nat bs)))"

definition read_u32 :: "bytes \<Rightarrow> usize \<Rightarrow> u32 result" where
  "read_u32 data offset = rbind (slice data offset 4) (\<lambda>bs. Inr (of_nat (le_nat bs)))"

text \<open>An \<open>i32\<close> is held as its bits.\<close>

definition read_i32 :: "bytes \<Rightarrow> usize \<Rightarrow> u32 result" where
  "read_i32 data offset = read_u32 data offset"

definition read_u64 :: "bytes \<Rightarrow> usize \<Rightarrow> u64 result" where
  "read_u64 data offset = rbind (slice data offset 8) (\<lambda>bs. Inr (of_nat (le_nat bs)))"

text \<open>The bytes up to the first zero, or to the end.\<close>

definition until_nul :: "bytes \<Rightarrow> bytes" where
  "until_nul bs = (case position (\<lambda>b. b = 0) bs of Some n \<Rightarrow> take n bs | None \<Rightarrow> bs)"

definition read_cstring :: "bytes \<Rightarrow> usize \<Rightarrow> string result" where
  "read_cstring data offset =
     (if unat offset \<le> length data then Inr (from_utf8_lossy (until_nul (drop (unat offset) data)))
      else Inl (OsLayer Encoding))"

text \<open>A loop that collects results and stops at the first error.\<close>

fun collect_results :: "('a \<Rightarrow> 'b result) \<Rightarrow> 'a list \<Rightarrow> 'b list result" where
  "collect_results f [] = Inr []"
| "collect_results f (x # xs) =
     rbind (f x) (\<lambda>y. rbind (collect_results f xs) (\<lambda>ys. Inr (y # ys)))"

section \<open>The file\<close>

record elf_section =
  es_name :: string
  es_addr :: u64
  es_offset :: usize
  es_size :: usize
  es_link :: u32
  es_entsize :: usize

record elf_symbol =
  sy_value :: u64
  sy_size :: u64
  sy_shndx :: u16

record raw_elf_section =
  res_name_off :: u32
  res_addr :: u64
  res_offset :: usize
  res_size :: usize
  res_link :: u32
  res_entsize :: usize

record elf_file =
  ef_data :: bytes
  ef_sections :: "elf_section list"
  ef_symbols :: "string \<Rightarrow> elf_symbol option"

text \<open>The table starts are \<open>usize\<close> values and wrap; the offsets of the symbols are inside the table, so they are natural numbers.\<close>

definition raw_section :: "bytes \<Rightarrow> usize \<Rightarrow> raw_elf_section result" where
  "raw_section data base =
     rbind (read_u32 data base) (\<lambda>name_off.
     rbind (read_u64 data (base + 0x10)) (\<lambda>address.
     rbind (read_u64 data (base + 0x18)) (\<lambda>offset.
     rbind (read_u64 data (base + 0x20)) (\<lambda>sz.
     rbind (read_u32 data (base + 0x28)) (\<lambda>link.
     rbind (read_u64 data (base + 0x38)) (\<lambda>entsize.
     Inr \<lparr> res_name_off = name_off, res_addr = address, res_offset = offset, res_size = sz, res_link = link,
           res_entsize = entsize \<rparr>))))))"

definition named_section :: "bytes \<Rightarrow> raw_elf_section \<Rightarrow> elf_section result" where
  "named_section shstr s =
     rbind (read_cstring shstr (ucast (res_name_off s))) (\<lambda>name.
     Inr \<lparr> es_name = name, es_addr = res_addr s, es_offset = res_offset s, es_size = res_size s,
           es_link = res_link s, es_entsize = res_entsize s \<rparr>)"

text \<open>\<open>(0..len).step_by(entsize)\<close>\<close>

definition steps :: "nat \<Rightarrow> nat \<Rightarrow> nat list" where
  "steps len step = map (\<lambda>i. i * step) [0 ..< (len + step - 1) div step]"

fun symbol_entries ::
    "bytes \<Rightarrow> bytes \<Rightarrow> nat list \<Rightarrow> (string \<Rightarrow> elf_symbol option) \<Rightarrow> (string \<Rightarrow> elf_symbol option) result" where
  "symbol_entries strtab sym_data [] symbols = Inr symbols"
| "symbol_entries strtab sym_data (off # offs) symbols =
     (if length sym_data < off + 24 then Inr symbols
      else
        rbind (read_u32 sym_data (of_nat off)) (\<lambda>name_off.
        if name_off = 0 then symbol_entries strtab sym_data offs symbols
        else
          rbind (read_u16 sym_data (of_nat (off + 6))) (\<lambda>shndx.
          rbind (read_u64 sym_data (of_nat (off + 8))) (\<lambda>val.
          rbind (read_u64 sym_data (of_nat (off + 16))) (\<lambda>sz.
          rbind (read_cstring strtab (ucast name_off)) (\<lambda>name.
          symbol_entries strtab sym_data offs
            (if name = [] \<or> shndx = 0 \<or> val = 0 then symbols
             else if symbols name = None
               then symbols(name \<mapsto> \<lparr> sy_value = val, sy_size = sz, sy_shndx = shndx \<rparr>)
             else symbols)))))))"

definition nth_opt :: "'a list \<Rightarrow> nat \<Rightarrow> 'a option" where
  "nth_opt xs n = (if n < length xs then Some (xs ! n) else None)"

definition load_symbols :: "elf_file \<Rightarrow> elf_file result" where
  "load_symbols f =
     rbind (ok_or (OsLayer Offset) (position (\<lambda>s. es_name s = ''.symtab'') (ef_sections f))) (\<lambda>symtab_index.
     rbind (ok_or (OsLayer Offset) (nth_opt (ef_sections f) symtab_index)) (\<lambda>symtab.
     if es_entsize symtab < 24 then Inl (OsLayer Encoding)
     else
       rbind (ok_or (OsLayer Offset) (nth_opt (ef_sections f) (unat (es_link symtab)))) (\<lambda>strtab.
       rbind (slice (ef_data f) (es_offset strtab) (es_size strtab)) (\<lambda>strtab_data.
       rbind (slice (ef_data f) (es_offset symtab) (es_size symtab)) (\<lambda>sym_data.
       rbind (symbol_entries strtab_data sym_data (steps (length sym_data) (unat (es_entsize symtab))) (ef_symbols f))
         (\<lambda>symbols. Inr (f\<lparr> ef_symbols := symbols \<rparr>)))))))"

definition elf_magic :: "bytes \<Rightarrow> bool" where
  "elf_magic data \<longleftrightarrow> take 4 data = [0x7f, 0x45, 0x4c, 0x46]"

definition elf_parse :: "bytes \<Rightarrow> elf_file result" where
  "elf_parse data =
     (if \<not> elf_magic data then Inl (OsLayer Encoding)
      else if nth_opt data 4 \<noteq> Some 2 \<or> nth_opt data 5 \<noteq> Some 1 then Inl (OsLayer NotSupported)
      else
        rbind (read_u64 data 0x28) (\<lambda>section_offset.
        rbind (read_u16 data 0x3a) (\<lambda>section_entry_size.
        rbind (read_u16 data 0x3c) (\<lambda>section_count.
        rbind (read_u16 data 0x3e) (\<lambda>shstr_index.
        if section_entry_size < 64 then Inl (OsLayer Encoding)
        else if section_count \<le> shstr_index then Inl (OsLayer Encoding)
        else
          rbind (collect_results (\<lambda>idx. raw_section data (section_offset + of_nat idx * ucast section_entry_size))
                   [0 ..< unat section_count]) (\<lambda>raw_sections.
          rbind (ok_or (OsLayer Encoding) (nth_opt raw_sections (unat shstr_index))) (\<lambda>s.
          rbind (slice data (res_offset s) (res_size s)) (\<lambda>shstr.
          rbind (collect_results (named_section shstr) raw_sections) (\<lambda>sections.
          load_symbols \<lparr> ef_data = data, ef_sections = sections, ef_symbols = Map.empty \<rparr>)))))))))"

definition section_data_optional :: "elf_file \<Rightarrow> string \<Rightarrow> bytes option result" where
  "section_data_optional f name =
     (case find (\<lambda>s. es_name s = name) (ef_sections f) of
        None \<Rightarrow> Inr None
      | Some s \<Rightarrow> rbind (slice (ef_data f) (es_offset s) (es_size s)) (\<lambda>bs. Inr (Some bs)))"

definition elf_symbol_named :: "elf_file \<Rightarrow> string \<Rightarrow> elf_symbol option" where
  "elf_symbol_named f name = ef_symbols f name"

definition read_symbol_cstring :: "elf_file \<Rightarrow> string \<Rightarrow> bytes result" where
  "read_symbol_cstring f name =
     rbind (ok_or (OsLayer Offset) (elf_symbol_named f name)) (\<lambda>symbol.
     rbind (ok_or (OsLayer Offset) (nth_opt (ef_sections f) (unat (sy_shndx symbol)))) (\<lambda>s.
     rbind (ok_or (OsLayer Offset) (checked_sub (sy_value symbol) (es_addr s))) (\<lambda>offset_in_section.
     let start = es_offset s + offset_in_section;
         max_len = (if sy_size symbol \<noteq> 0 then sy_size symbol else sat_sub (es_size s) offset_in_section) in
     rbind (slice (ef_data f) start max_len) (\<lambda>bs. Inr (until_nul bs)))))"

section \<open>Encodings\<close>

fun le_bytes :: "nat \<Rightarrow> 'a::len word \<Rightarrow> bytes" where
  "le_bytes 0 w = []"
| "le_bytes (Suc n) w = ucast w # le_bytes n (drop_bit 8 w)"

lemma length_le_bytes [simp]: "length (le_bytes n w) = n"
  by (induction n arbitrary: w) simp_all

lemma le_nat_le_bytes: "le_nat (le_bytes n w) = unat w mod 256 ^ n"
proof (induction n arbitrary: w)
  case (Suc n)
  have "unat (ucast w :: u8) = unat w mod 256"
    by (simp add: unsigned_ucast_eq take_bit_eq_mod)
  moreover have "unat (drop_bit 8 w) = unat w div 256"
    by (simp add: unsigned_drop_bit_eq take_bit_nat_eq_self drop_bit_eq_div [of 8 "unat w"])
  ultimately show ?case by (simp add: Suc mod_mult2_eq)
qed simp

lemma unat_of_nat_usize: "n < 2 ^ 64 \<Longrightarrow> unat (of_nat n :: u64) = n"
  by (simp add: unsigned_of_nat take_bit_nat_eq_self)

text \<open>A slice inside a file does what it says.\<close>

lemma slice_append:
  assumes "unat offset = length xs" "length ys = unat len" "length xs + length ys < 2 ^ 64"
  shows "slice (xs @ ys @ zs) offset len = Inr ys"
proof -
  have "unat (sat_add offset len) = length xs + length ys"
    using assms by (simp add: unat_sat_add min_def)
  then show ?thesis using assms by (simp add: slice_def Let_def)
qed


lemma of_nat_le [simp]:
  "of_nat (le_nat (le_bytes 2 w)) = (w :: u16)" "of_nat (le_nat (le_bytes 4 v)) = (v :: u32)"
  "of_nat (le_nat (le_bytes 8 u)) = (u :: u64)"
  using unsigned_less [of w, where ?'a = nat] unsigned_less [of v, where ?'a = nat]
    unsigned_less [of u, where ?'a = nat]
  by (simp_all add: le_nat_le_bytes)

text \<open>A read at a place where a value was written gives the value.\<close>

lemma read_append:
  assumes "unat offset = length xs" "length (xs @ ys) + 8 < 2 ^ 64"
  shows "read_u16 (xs @ le_bytes 2 w @ ys) offset = Inr w"
    "read_u32 (xs @ le_bytes 4 v @ ys) offset = Inr v"
    "read_u64 (xs @ le_bytes 8 u @ ys) offset = Inr u"
  using assms by (simp_all add: read_u16_def read_u32_def read_u64_def slice_append)

section \<open>Properties: the symbol table\<close>

record symtab_entry =
  st_name_off :: u32
  st_info :: u8
  st_other :: u8
  st_shndx :: u16
  st_value :: u64
  st_size :: u64
  st_pad :: bytes

definition entry_bytes :: "symtab_entry \<Rightarrow> bytes" where
  "entry_bytes e =
     le_bytes 4 (st_name_off e) @ [st_info e, st_other e] @ le_bytes 2 (st_shndx e) @ le_bytes 8 (st_value e) @
     le_bytes 8 (st_size e) @ st_pad e"

definition entry_name :: "bytes \<Rightarrow> symtab_entry \<Rightarrow> string" where
  "entry_name strs e = from_utf8_lossy (until_nul (drop (unat (st_name_off e)) strs))"

definition usable :: "bytes \<Rightarrow> symtab_entry \<Rightarrow> bool" where
  "usable strs e \<longleftrightarrow> st_name_off e \<noteq> 0 \<and> entry_name strs e \<noteq> [] \<and> st_shndx e \<noteq> 0 \<and> st_value e \<noteq> 0"

definition symbol_table :: "bytes \<Rightarrow> symtab_entry list \<Rightarrow> string \<Rightarrow> elf_symbol option" where
  "symbol_table strs es =
     map_of (map (\<lambda>e. (entry_name strs e, \<lparr> sy_value = st_value e, sy_size = st_size e, sy_shndx = st_shndx e \<rparr>))
       (filter (usable strs) es))"

lemma read_entry:
  assumes "unat offset = length xs" "length (xs @ entry_bytes e @ ys) < 2 ^ 63"
  shows "read_u32 (xs @ entry_bytes e @ ys) offset = Inr (st_name_off e)"
    "read_u16 (xs @ entry_bytes e @ ys) (offset + 6) = Inr (st_shndx e)"
    "read_u64 (xs @ entry_bytes e @ ys) (offset + 8) = Inr (st_value e)"
    "read_u64 (xs @ entry_bytes e @ ys) (offset + 16) = Inr (st_size e)"
proof -
  have n: "unat (offset + 6) = length xs + 6" "unat (offset + 8) = length xs + 8" "unat (offset + 16) = length xs + 16"
    using assms by (simp_all add: unat_word_ariths entry_bytes_def)
  show "read_u32 (xs @ entry_bytes e @ ys) offset = Inr (st_name_off e)"
    using read_append(2) [of offset xs] assms by (simp add: entry_bytes_def)
  show "read_u16 (xs @ entry_bytes e @ ys) (offset + 6) = Inr (st_shndx e)"
    using read_append(1) [of "offset + 6" "xs @ le_bytes 4 (st_name_off e) @ [st_info e, st_other e]"] n assms
    by (simp add: entry_bytes_def)
  show "read_u64 (xs @ entry_bytes e @ ys) (offset + 8) = Inr (st_value e)"
    using read_append(3) [of "offset + 8"
        "xs @ le_bytes 4 (st_name_off e) @ [st_info e, st_other e] @ le_bytes 2 (st_shndx e)"] n assms
    by (simp add: entry_bytes_def)
  show "read_u64 (xs @ entry_bytes e @ ys) (offset + 16) = Inr (st_size e)"
    using read_append(3) [of "offset + 16"
        "xs @ le_bytes 4 (st_name_off e) @ [st_info e, st_other e] @ le_bytes 2 (st_shndx e) @ le_bytes 8 (st_value e)"]
      n assms
    by (simp add: entry_bytes_def)
qed

lemma symbol_table_Cons:
  "symbol_table strs (e # es) =
     (if usable strs e
      then (symbol_table strs es)(entry_name strs e \<mapsto>
        \<lparr> sy_value = st_value e, sy_size = st_size e, sy_shndx = st_shndx e \<rparr>)
      else symbol_table strs es)"
  by (simp add: symbol_table_def)

lemma symbol_entries_table:
  assumes "\<forall>e \<in> set es. length (st_pad e) = step - 24 \<and> unat (st_name_off e) \<le> length strs" "24 \<le> step"
    "length (xs @ concat (map entry_bytes es)) < 2 ^ 63" "length xs = k * step"
  shows "symbol_entries strs (xs @ concat (map entry_bytes es)) (map (\<lambda>i. i * step) [k ..< k + length es]) syms =
    Inr (symbol_table strs es ++ syms)"
  using assms
proof (induction es arbitrary: xs k syms)
  case Nil
  then show ?case by (simp add: symbol_table_def)
next
  case (Cons e es)
  let ?data = "xs @ entry_bytes e @ concat (map entry_bytes es)"
  let ?off = "of_nat (k * step) :: usize"
  have len: "length (entry_bytes e) = step" using Cons.prems by (simp add: entry_bytes_def)
  have off: "unat ?off = length xs" using Cons.prems by (simp add: unat_of_nat_usize del: of_nat_mult)
  have reads: "read_u32 ?data ?off = Inr (st_name_off e)" "read_u16 ?data (?off + 6) = Inr (st_shndx e)"
      "read_u64 ?data (?off + 8) = Inr (st_value e)" "read_u64 ?data (?off + 16) = Inr (st_size e)"
    using read_entry [OF off] Cons.prems(3) by simp_all
  have name: "read_cstring strs (ucast (st_name_off e)) = Inr (entry_name strs e)"
    using Cons.prems(1) by (simp add: read_cstring_def entry_name_def)
  define offs where "offs = map (\<lambda>i. i * step) [Suc k ..< Suc k + length es]"
  have IH: "symbol_entries strs ?data offs syms = Inr (symbol_table strs es ++ syms)" for syms
    using Cons.IH [of "xs @ entry_bytes e" "Suc k" syms] Cons.prems len by (simp add: offs_def)
  have range: "map (\<lambda>i. i * step) [k ..< k + length (e # es)] = k * step # offs"
    unfolding offs_def by (subst upt_conv_Cons) simp_all
  have fits: "\<not> length ?data < k * step + 24" using Cons.prems len by simp
  have "symbol_entries strs ?data (k * step # offs) syms = Inr (symbol_table strs (e # es) ++ syms)"
    using fits
    by (auto simp: reads [simplified] name IH usable_def symbol_table_Cons map_add_def fun_eq_iff split: option.splits)
  then show ?case unfolding range by simp
qed


lemma steps_exact: "0 < step \<Longrightarrow> steps (n * step) step = map (\<lambda>i. i * step) [0 ..< n]"
proof -
  assume "0 < step"
  then have "n * step + step - 1 = (step - 1) + n * step" by simp
  then have "(n * step + step - 1) div step = n"
    using \<open>0 < step\<close> by (simp only: div_mult_self1) simp
  then show ?thesis by (simp add: steps_def)
qed

lemma length_entries:
  "\<forall>e \<in> set es. length (st_pad e) = step - 24 \<Longrightarrow> 24 \<le> step \<Longrightarrow>
     length (concat (map entry_bytes es)) = length es * step"
  by (induction es) (simp_all add: entry_bytes_def)

lemma length_slice: "slice data offset len = Inr bs \<Longrightarrow> length bs \<le> length data"
  by (auto simp: slice_def Let_def split: if_splits)

text \<open>
  A symbol table read back: of the entries as they lie in the file, the map of symbols has for each name
  the first that is named, defined in a section and not at address zero, with its value, size and section; whatever
  the size of an entry beyond the 24 bytes in use.
\<close>

theorem load_symbols_table:
  assumes "position (\<lambda>s. es_name s = ''.symtab'') (ef_sections f) = Some i" "symtab = ef_sections f ! i"
    "24 \<le> es_entsize symtab" "unat (es_link symtab) < length (ef_sections f)"
    "strtab = ef_sections f ! unat (es_link symtab)"
    "slice (ef_data f) (es_offset strtab) (es_size strtab) = Inr strs"
    "slice (ef_data f) (es_offset symtab) (es_size symtab) = Inr (concat (map entry_bytes es))"
    "\<forall>e \<in> set es. length (st_pad e) = unat (es_entsize symtab) - 24 \<and> unat (st_name_off e) \<le> length strs"
    "length (ef_data f) < 2 ^ 63"
  shows "load_symbols f = Inr (f\<lparr> ef_symbols := symbol_table strs es ++ ef_symbols f \<rparr>)"
proof -
  let ?step = "unat (es_entsize symtab)"
  have step: "24 \<le> ?step" using assms(3) by (simp add: word_le_nat_alt)
  have len: "length (concat (map entry_bytes es)) = length es * ?step"
    using assms(8) step by (simp add: length_entries)
  have small: "length (concat (map entry_bytes es)) < 2 ^ 63" using length_slice [OF assms(7)] assms(9) by simp
  have "symbol_entries strs ([] @ concat (map entry_bytes es)) (map (\<lambda>i. i * ?step) [0 ..< 0 + length es]) (ef_symbols f)
      = Inr (symbol_table strs es ++ ef_symbols f)"
    by (rule symbol_entries_table) (use assms(8) step small in simp_all)
  then have "symbol_entries strs (concat (map entry_bytes es)) (steps (length (concat (map entry_bytes es))) ?step)
      (ef_symbols f) = Inr (symbol_table strs es ++ ef_symbols f)"
    using step by (simp only: len append_Nil add_0) (simp add: steps_exact)
  moreover have "\<not> es_entsize symtab < 24" using assms(3) by simp
  moreover have "nth_opt (ef_sections f) i = Some symtab" "nth_opt (ef_sections f) (unat (es_link symtab)) = Some strtab"
    using assms(1,2,4,5) by (simp_all add: nth_opt_def position_less)
  ultimately show ?thesis by (simp add: load_symbols_def assms(1,6,7))
qed

definition sample_entries :: "symtab_entry list" where
  "sample_entries =
     [\<lparr> st_name_off = 0, st_info = 0, st_other = 0, st_shndx = 0, st_value = 0, st_size = 0, st_pad = [] \<rparr>,
      \<lparr> st_name_off = 1, st_info = 0, st_other = 0, st_shndx = 1, st_value = 0x1000, st_size = 8, st_pad = [] \<rparr>]"

definition sample_elf :: elf_file where
  "sample_elf =
     \<lparr> ef_data = [0, 0x61, 0] @ concat (map entry_bytes sample_entries),
       ef_sections =
         [\<lparr> es_name = ''.strtab'', es_addr = 0, es_offset = 0, es_size = 3, es_link = 0, es_entsize = 0 \<rparr>,
          \<lparr> es_name = ''.symtab'', es_addr = 0, es_offset = 3, es_size = 48, es_link = 0, es_entsize = 24 \<rparr>],
       ef_symbols = Map.empty \<rparr>"

theorem load_symbols_table_witness:
  "\<exists>f. load_symbols sample_elf = Inr f \<and>
     ef_symbols f ''a'' = Some \<lparr> sy_value = 0x1000, sy_size = 8, sy_shndx = 1 \<rparr>"
proof -
  let ?es = "concat (map entry_bytes sample_entries)"
  have len: "length ?es = 48" by (simp add: sample_entries_def entry_bytes_def)
  have "slice ([] @ [0, 0x61, 0] @ ?es) 0 3 = Inr [0, 0x61, 0]" "slice ([0, 0x61, 0] @ ?es @ []) 3 48 = Inr ?es"
    by (rule slice_append; simp add: len)+
  then have "load_symbols sample_elf =
      Inr (sample_elf\<lparr> ef_symbols := symbol_table [0, 0x61, 0] sample_entries ++ ef_symbols sample_elf \<rparr>)"
    by (intro load_symbols_table [where i = 1 and symtab = "ef_sections sample_elf ! 1"
          and strtab = "ef_sections sample_elf ! 0"])
      (simp_all add: sample_elf_def sample_entries_def entry_bytes_def)
  moreover have "entry_name [0, 0x61, 0] (sample_entries ! 1) = ''a''"
  proof -
    have "utf8_valid (to_bytes ''a'')" by (simp add: utf8_valid_ascii to_bytes_def)
    then have "from_utf8_lossy (to_bytes ''a'') = ''a''" by (simp only: from_utf8_lossy_valid to_chars_to_bytes)
    then show ?thesis by (simp add: entry_name_def sample_entries_def until_nul_def to_bytes_def)
  qed
  then have "symbol_table [0, 0x61, 0] sample_entries ''a'' = Some \<lparr> sy_value = 0x1000, sy_size = 8, sy_shndx = 1 \<rparr>"
    by (simp add: sample_entries_def symbol_table_Cons usable_def)
  ultimately show ?thesis by (simp add: sample_elf_def)
qed

end
