(* ===== verification/Elf_Image.thy ===== *)
theory Elf_Image
  imports Elf_File
begin

text \<open>
  ELF images written out, and what \<open>ElfFile::parse\<close> of \<open>memflow-linux-defs/src/vmlinux.rs\<close> reads from them: the section
  table, the names of the sections and the symbols.
\<close>

section \<open>An image\<close>

text \<open>
  A section header is the fields that are read, with the 12 bytes of its type and flags and the 12 of its info and
  alignment. An image is the ELF header, some contents, the section headers, and more contents.
\<close>

type_synonym section_header = "bytes \<times> raw_elf_section \<times> bytes"

definition section_bytes :: "section_header \<Rightarrow> bytes" where
  "section_bytes = (\<lambda>(flags, s, info).
     le_bytes 4 (res_name_off s) @ flags @ le_bytes 8 (res_addr s) @ le_bytes 8 (res_offset s) @ le_bytes 8 (res_size s) @
     le_bytes 4 (res_link s) @ info @ le_bytes 8 (res_entsize s))"

definition section_header_ok :: "section_header \<Rightarrow> bool" where
  "section_header_ok = (\<lambda>(flags, s, info). length flags = 12 \<and> length info = 12)"

definition elf_head :: "bytes \<Rightarrow> bytes \<Rightarrow> u64 \<Rightarrow> u16 \<Rightarrow> u16 \<Rightarrow> bytes" where
  "elf_head ident mid table n shstr =
     [0x7f, 0x45, 0x4c, 0x46, 2, 1] @ ident @ le_bytes 8 table @ mid @ le_bytes 2 (64 :: u16) @ le_bytes 2 n @ le_bytes 2 shstr"

definition elf_image :: "bytes \<Rightarrow> bytes \<Rightarrow> nat \<Rightarrow> bytes \<Rightarrow> section_header list \<Rightarrow> bytes \<Rightarrow> bytes" where
  "elf_image ident mid shstr front headers back =
     elf_head ident mid (of_nat (64 + length front)) (of_nat (length headers)) (of_nat shstr) @
     front @ concat (map section_bytes headers) @ back"

text \<open>The section of a header, its name read from the string table of the section names.\<close>

definition section_of :: "bytes \<Rightarrow> raw_elf_section \<Rightarrow> elf_section" where
  "section_of names s =
     \<lparr> es_name = from_utf8_lossy (until_nul (drop (unat (res_name_off s)) names)), es_addr = res_addr s,
       es_offset = res_offset s, es_size = res_size s, es_link = res_link s, es_entsize = res_entsize s \<rparr>"

section \<open>Reading it back\<close>

lemma length_section_bytes: "section_header_ok h \<Longrightarrow> length (section_bytes h) = 64"
  by (auto simp: section_bytes_def section_header_ok_def split: prod.splits)

lemma length_section_table:
  "\<forall>h \<in> set headers. section_header_ok h \<Longrightarrow> length (concat (map section_bytes headers)) = 64 * length headers"
  by (induction headers) (simp_all add: length_section_bytes)

lemma raw_section_read:
  assumes "section_header_ok h" "unat base = length xs" "length (xs @ section_bytes h @ ys) + 8 < 2 ^ 63"
  shows "raw_section (xs @ section_bytes h @ ys) base = Inr (fst (snd h))"
proof -
  obtain flags s info where h: "h = (flags, s, info)" by (cases h)
  have l: "length flags = 12" "length info = 12" using assms(1) h by (simp_all add: section_header_ok_def)
  let ?d = "xs @ section_bytes h @ ys"
  have len: "length xs + length ys + 72 < 2 ^ 63" using assms(3) length_section_bytes [OF assms(1)] by simp
  have n: "unat (base + 0x10) = length xs + 16" "unat (base + 0x18) = length xs + 24" "unat (base + 0x20) = length xs + 32"
      "unat (base + 0x28) = length xs + 40" "unat (base + 0x38) = length xs + 56"
    using assms(2) len by (simp_all add: unat_word_ariths)
  note d = h section_bytes_def
  have "read_u32 ?d base = Inr (res_name_off s)"
    using read_append(2) [of base xs] assms(2) len l by (simp add: d)
  moreover have "read_u64 ?d (base + 0x10) = Inr (res_addr s)"
    using read_append(3) [of "base + 0x10" "xs @ le_bytes 4 (res_name_off s) @ flags"] n len l by (simp add: d)
  moreover have "read_u64 ?d (base + 0x18) = Inr (res_offset s)"
    using read_append(3) [of "base + 0x18" "xs @ le_bytes 4 (res_name_off s) @ flags @ le_bytes 8 (res_addr s)"] n len l
    by (simp add: d)
  moreover have "read_u64 ?d (base + 0x20) = Inr (res_size s)"
    using read_append(3) [of "base + 0x20"
        "xs @ le_bytes 4 (res_name_off s) @ flags @ le_bytes 8 (res_addr s) @ le_bytes 8 (res_offset s)"] n len l
    by (simp add: d)
  moreover have "read_u32 ?d (base + 0x28) = Inr (res_link s)"
    using read_append(2) [of "base + 0x28" "xs @ le_bytes 4 (res_name_off s) @ flags @ le_bytes 8 (res_addr s) @
        le_bytes 8 (res_offset s) @ le_bytes 8 (res_size s)"] n len l
    by (simp add: d)
  moreover have "read_u64 ?d (base + 0x38) = Inr (res_entsize s)"
    using read_append(3) [of "base + 0x38" "xs @ le_bytes 4 (res_name_off s) @ flags @ le_bytes 8 (res_addr s) @
        le_bytes 8 (res_offset s) @ le_bytes 8 (res_size s) @ le_bytes 4 (res_link s) @ info"] n len l
    by (simp add: d)
  ultimately show ?thesis by (simp add: raw_section_def h)
qed

lemma collect_results_all2: "list_all2 (\<lambda>x y. f x = Inr y) xs ys \<Longrightarrow> collect_results f xs = Inr ys"
  by (induction xs ys rule: list_all2_induct) simp_all

lemma section_table_read:
  assumes "\<forall>h \<in> set headers. section_header_ok h" "unat base = length xs"
    "length (xs @ concat (map section_bytes headers) @ ys) + 8 < 2 ^ 63"
  shows "collect_results (\<lambda>idx. raw_section (xs @ concat (map section_bytes headers) @ ys) (base + of_nat idx * ucast (64 :: u16)))
      [0 ..< length headers] = Inr (map (fst \<circ> snd) headers)"
proof (rule collect_results_all2, simp only: list_all2_conv_all_nth, intro conjI allI impI)
  fix i assume "i < length [0 ..< length headers]"
  then have i: "i < length headers" by simp
  let ?xs = "xs @ concat (map section_bytes (take i headers))" and ?ys = "concat (map section_bytes (drop (Suc i) headers)) @ ys"
  have split: "concat (map section_bytes headers) =
      concat (map section_bytes (take i headers)) @ section_bytes (headers ! i) @ concat (map section_bytes (drop (Suc i) headers))"
    by (subst id_take_nth_drop [OF i]) (simp only: map_append concat_append list.map concat.simps)
  have "\<forall>h \<in> set (take i headers). section_header_ok h" using assms(1) by (auto dest: in_set_takeD)
  then have xs: "length ?xs = length xs + 64 * i" using length_section_table [of "take i headers"] i by simp
  have len: "length xs + 64 * length headers + 8 < 2 ^ 63"
    using assms(3) length_section_table [OF assms(1)] by simp
  have base: "unat (base + of_nat i * ucast (64 :: u16)) = length xs + 64 * i"
  proof -
    have "unat (of_nat i :: u64) = i" using i len by (intro unat_of_nat_usize) simp
    then show ?thesis using assms(2) i len by (simp add: unat_word_ariths)
  qed
  have "section_header_ok (headers ! i)" using assms(1) i by simp
  moreover have "length (?xs @ section_bytes (headers ! i) @ ?ys) + 8 < 2 ^ 63" using assms(3) by (simp add: split)
  ultimately have "raw_section (?xs @ section_bytes (headers ! i) @ ?ys) (base + of_nat i * ucast (64 :: u16)) =
      Inr (fst (snd (headers ! i)))"
    using base xs by (intro raw_section_read) simp_all
  then show "raw_section (xs @ concat (map section_bytes headers) @ ys) (base + of_nat ([0 ..< length headers] ! i) * ucast (64 :: u16)) =
      Inr (map (fst \<circ> snd) headers ! i)"
    unfolding split using i by simp
qed simp

lemma named_sections_read:
  assumes "\<forall>s \<in> set ss. unat (res_name_off s) \<le> length names"
  shows "collect_results (named_section names) ss = Inr (map (section_of names) ss)"
  by (rule collect_results_all2)
    (use assms in \<open>simp add: list_all2_map2 list.rel_refl_strong list_all2_same named_section_def read_cstring_def section_of_def\<close>)

lemma elf_head_read:
  assumes "length ident = 34" "length mid = 10" "length rest < 2 ^ 63" "data = elf_head ident mid table n shstr @ rest"
  shows "elf_magic data" "nth_opt data 4 = Some 2" "nth_opt data 5 = Some 1" "read_u64 data 0x28 = Inr table"
    "read_u16 data 0x3a = Inr 64" "read_u16 data 0x3c = Inr n" "read_u16 data 0x3e = Inr shstr"
    "length (elf_head ident mid table n shstr) = 64"
proof -
  let ?pre = "[0x7f, 0x45, 0x4c, 0x46, 2, 1] @ ident :: bytes"
  note d = assms(4) elf_head_def
  show "elf_magic data" by (simp add: d elf_magic_def)
  show "nth_opt data 4 = Some 2" "nth_opt data 5 = Some 1" by (simp_all add: d nth_opt_def)
  show "read_u64 data 0x28 = Inr table" using read_append(3) [of "0x28" ?pre] assms(1-3) by (simp add: d)
  show "read_u16 data 0x3a = Inr 64"
    using read_append(1) [of "0x3a" "?pre @ le_bytes 8 table @ mid" _ 64] assms(1-3) by (simp add: d)
  show "read_u16 data 0x3c = Inr n"
    using read_append(1) [of "0x3c" "?pre @ le_bytes 8 table @ mid @ le_bytes 2 (64 :: u16)"] assms(1-3) by (simp add: d)
  show "read_u16 data 0x3e = Inr shstr"
    using read_append(1) [of "0x3e" "?pre @ le_bytes 8 table @ mid @ le_bytes 2 (64 :: u16) @ le_bytes 2 n"] assms(1-3)
    by (simp add: d)
  show "length (elf_head ident mid table n shstr) = 64" using assms(1,2) by (simp add: elf_head_def)
qed

lemma elf_image_read:
  assumes "length ident = 34" "length mid = 10" "\<forall>h \<in> set headers. section_header_ok h" "length headers < 2 ^ 16"
    "shstr < length headers" "data = elf_image ident mid shstr front headers back" "length data < 2 ^ 62"
    "ss = map (section_of names) (map (fst \<circ> snd) headers)" "s = fst (snd (headers ! shstr))"
    "slice data (res_offset s) (res_size s) = Inr names"
    "\<forall>h \<in> set headers. unat (res_name_off (fst (snd h))) \<le> length names"
  shows "elf_parse data = load_symbols \<lparr> ef_data = data, ef_sections = ss, ef_symbols = Map.empty \<rparr>"
proof -
  let ?table = "of_nat (64 + length front) :: u64" and ?n = "of_nat (length headers) :: u16"
  let ?rest = "front @ concat (map section_bytes headers) @ back" and ?head = "elf_head ident mid ?table ?n (of_nat shstr)"
  have data: "data = ?head @ ?rest" using assms(6) by (simp add: elf_image_def)
  have rest: "length ?rest < 2 ^ 63" using assms(7) by (simp add: data)
  note head = elf_head_read [OF assms(1,2) rest data]
  have n: "unat ?n = length headers" "unat (of_nat shstr :: u16) = shstr"
    using assms(4,5) by (simp_all add: unsigned_of_nat take_bit_nat_eq_self)
  have "unat ?table = length (?head @ front)"
    using assms(7) head(8) by (simp add: data unat_of_nat_usize del: of_nat_add)
  from section_table_read [OF assms(3) this, of "back"]
  have "collect_results (\<lambda>idx. raw_section data (?table + of_nat idx * ucast (64 :: u16))) [0 ..< length headers] =
      Inr (map (fst \<circ> snd) headers)" using assms(7) by (simp add: data)
  moreover have "collect_results (named_section names) (map (fst \<circ> snd) headers) = Inr ss"
    unfolding assms(8) by (rule named_sections_read) (use assms(11) in auto)
  moreover have "nth_opt (map (fst \<circ> snd) headers) shstr = Some s" using assms(5,9) by (simp add: nth_opt_def)
  moreover have "\<not> ?n \<le> of_nat shstr" using assms(5) n by (simp add: word_le_nat_alt)
  ultimately show ?thesis
    using assms(10) by (simp add: elf_parse_def head n)
qed

text \<open>
  An image with what it holds: the names of its sections, its symbol table with the strings and the entries. In a
  well-formed one they lie where the section headers say.
\<close>

record elf_parts =
  ep_ident :: bytes
  ep_mid :: bytes
  ep_front :: bytes
  ep_headers :: "section_header list"
  ep_back :: bytes
  ep_shstr :: nat
  ep_names :: bytes
  ep_symtab :: nat
  ep_strings :: bytes
  ep_entries :: "symtab_entry list"

definition elf_bytes :: "elf_parts \<Rightarrow> bytes" where
  "elf_bytes p = elf_image (ep_ident p) (ep_mid p) (ep_shstr p) (ep_front p) (ep_headers p) (ep_back p)"

definition elf_sections :: "elf_parts \<Rightarrow> elf_section list" where
  "elf_sections p = map (section_of (ep_names p)) (map (fst \<circ> snd) (ep_headers p))"

definition elf_header_ok :: "elf_parts \<Rightarrow> bool" where
  "elf_header_ok p \<longleftrightarrow>
     (let s = fst (snd (ep_headers p ! ep_shstr p)) in
      length (ep_ident p) = 34 \<and> length (ep_mid p) = 10 \<and> list_all section_header_ok (ep_headers p) \<and>
      length (ep_headers p) < 2 ^ 16 \<and> ep_shstr p < length (ep_headers p) \<and> length (elf_bytes p) < 2 ^ 62 \<and>
      slice (elf_bytes p) (res_offset s) (res_size s) = Inr (ep_names p) \<and>
      list_all (\<lambda>h. unat (res_name_off (fst (snd h))) \<le> length (ep_names p)) (ep_headers p))"

definition elf_symtab_ok :: "elf_parts \<Rightarrow> bool" where
  "elf_symtab_ok p \<longleftrightarrow>
     (let symtab = elf_sections p ! ep_symtab p; strtab = elf_sections p ! unat (es_link symtab) in
      position (\<lambda>s. es_name s = ''.symtab'') (elf_sections p) = Some (ep_symtab p) \<and>
      24 \<le> es_entsize symtab \<and> unat (es_link symtab) < length (elf_sections p) \<and>
      slice (elf_bytes p) (es_offset strtab) (es_size strtab) = Inr (ep_strings p) \<and>
      slice (elf_bytes p) (es_offset symtab) (es_size symtab) = Inr (concat (map entry_bytes (ep_entries p))) \<and>
      list_all (\<lambda>e. length (st_pad e) = unat (es_entsize symtab) - 24 \<and> unat (st_name_off e) \<le> length (ep_strings p))
        (ep_entries p))"

lemma elf_image_parsed:
  assumes "elf_header_ok p" "elf_symtab_ok p"
  shows "elf_parse (elf_bytes p) =
    Inr \<lparr> ef_data = elf_bytes p, ef_sections = elf_sections p, ef_symbols = symbol_table (ep_strings p) (ep_entries p) \<rparr>"
proof -
  let ?f = "\<lparr> ef_data = elf_bytes p, ef_sections = elf_sections p, ef_symbols = Map.empty \<rparr>"
  note h = assms(1) [unfolded elf_header_ok_def Let_def list_all_iff] and s = assms(2) [unfolded elf_symtab_ok_def Let_def list_all_iff]
  have "elf_parse (elf_bytes p) = load_symbols ?f"
    by (rule elf_image_read [OF _ _ _ _ _ elf_bytes_def _ elf_sections_def refl]) (use h in blast)+
  moreover have "load_symbols ?f =
      Inr (?f\<lparr> ef_symbols := symbol_table (ep_strings p) (ep_entries p) ++ ef_symbols ?f \<rparr>)"
    by (rule load_symbols_table [OF _ refl _ _ refl, where i = "ep_symtab p"]) (use h s in simp_all)
  ultimately show ?thesis by simp
qed

text \<open>
  C20. An ELF image read back. The image is the ELF header, the section headers at any place, whatever the bytes the
  loader does not read, and the contents. Its sections have their fields and, from the string table the header names, their
  names; of the entries of \<open>.symtab\<close> the symbols have for each name the first that is named, defined in a section and
  not at address zero, with its value, size and section, whatever the size of an entry beyond the 24 bytes in use.
\<close>

theorem elf_image_parses:
  assumes "elf_header_ok p" "elf_symtab_ok p"
  shows "elf_parse (elf_bytes p) =
    Inr \<lparr> ef_data = elf_bytes p, ef_sections = elf_sections p, ef_symbols = symbol_table (ep_strings p) (ep_entries p) \<rparr>"
  using assms by (rule elf_image_parsed)

section \<open>A sample image\<close>

text \<open>A kernel image with a banner and three symbols, and no types.\<close>

definition image_strings :: bytes where
  "image_strings =
     0 # concat (map (\<lambda>s. to_bytes s @ [0]) [''.rodata'', ''.symtab'', ''.strtab'', ''_text'', ''init_task'', ''linux_banner''])"

definition image_entries :: "symtab_entry list" where
  "image_entries =
     map (\<lambda>(name, shndx, val). \<lparr> st_name_off = name, st_info = 0, st_other = 0, st_shndx = shndx, st_value = val, st_size = 0, st_pad = [] \<rparr>)
       [(0, 0, 0), (25, 1, 0xffffffff81000000), (31, 1, 0xffffffff82800000), (41, 1, 0xffffffff82000000)]"

definition image_headers :: "section_header list" where
  "image_headers =
     map (\<lambda>s. (replicate 12 0, s, replicate 12 0))
       [\<lparr> res_name_off = 0, res_addr = 0, res_offset = 0, res_size = 0, res_link = 0, res_entsize = 0 \<rparr>,
        \<lparr> res_name_off = 1, res_addr = 0xffffffff82000000, res_offset = 470, res_size = 18, res_link = 0, res_entsize = 0 \<rparr>,
        \<lparr> res_name_off = 9, res_addr = 0, res_offset = 374, res_size = 96, res_link = 3, res_entsize = 24 \<rparr>,
        \<lparr> res_name_off = 17, res_addr = 0, res_offset = 320, res_size = 54, res_link = 0, res_entsize = 0 \<rparr>]"

definition sample_parts :: elf_parts where
  "sample_parts =
     \<lparr> ep_ident = replicate 34 0, ep_mid = replicate 10 0, ep_front = [], ep_headers = image_headers,
       ep_back = image_strings @ concat (map entry_bytes image_entries) @ to_bytes ''Linux version 6.1'' @ [0],
       ep_shstr = 3, ep_names = image_strings, ep_symtab = 2, ep_strings = image_strings, ep_entries = image_entries \<rparr>"

definition sample_image :: bytes where
  "sample_image = elf_bytes sample_parts"

definition image_sections :: "elf_section list" where
  "image_sections = elf_sections sample_parts"

lemma ascii_text:
  assumes "bs = to_bytes s" "list_all (\<lambda>b. b < 0x80) (to_bytes s)"
  shows "from_utf8_lossy bs = s"
  using assms from_utf8_lossy_valid [OF utf8_valid_ascii, of "to_bytes s"] by (simp add: list_all_iff to_chars_to_bytes)

lemma image_names:
  "from_utf8_lossy (until_nul (drop 0 image_strings)) = []"
  "from_utf8_lossy (until_nul (drop 1 image_strings)) = ''.rodata''"
  "from_utf8_lossy (until_nul (drop 9 image_strings)) = ''.symtab''"
  "from_utf8_lossy (until_nul (drop 17 image_strings)) = ''.strtab''"
  "from_utf8_lossy (until_nul (drop 25 image_strings)) = ''_text''"
  "from_utf8_lossy (until_nul (drop 31 image_strings)) = ''init_task''"
  "from_utf8_lossy (until_nul (drop 41 image_strings)) = ''linux_banner''"
  by (rule ascii_text; code_simp)+

lemma image_lengths: "length image_strings = 54" "length (concat (map entry_bytes image_entries)) = 96"
    "length (to_bytes s) = length s" "length (concat (map section_bytes image_headers)) = 256"
  by (code_simp, code_simp, simp add: to_bytes_def, code_simp)

lemma image_sections_eq:
  "image_sections =
     [\<lparr> es_name = [], es_addr = 0, es_offset = 0, es_size = 0, es_link = 0, es_entsize = 0 \<rparr>,
      \<lparr> es_name = ''.rodata'', es_addr = 0xffffffff82000000, es_offset = 470, es_size = 18, es_link = 0, es_entsize = 0 \<rparr>,
      \<lparr> es_name = ''.symtab'', es_addr = 0, es_offset = 374, es_size = 96, es_link = 3, es_entsize = 24 \<rparr>,
      \<lparr> es_name = ''.strtab'', es_addr = 0, es_offset = 320, es_size = 54, es_link = 0, es_entsize = 0 \<rparr>]"
  by (simp add: image_sections_def sample_parts_def elf_sections_def image_headers_def section_of_def image_names [simplified])

lemma image_slices:
  "slice sample_image 320 54 = Inr image_strings"
  "slice sample_image 374 96 = Inr (concat (map entry_bytes image_entries))"
  "slice sample_image 470 18 = Inr (to_bytes ''Linux version 6.1'' @ [0])"
proof -
  let ?head = "elf_head (replicate 34 0) (replicate 10 0) 64 4 3" and ?table = "concat (map section_bytes image_headers)"
    and ?syms = "concat (map entry_bytes image_entries)"
  have d: "sample_image = ?head @ ?table @ image_strings @ ?syms @ to_bytes ''Linux version 6.1'' @ [0]"
    by (simp add: sample_image_def elf_bytes_def sample_parts_def elf_image_def) (simp add: image_headers_def)
  have h: "length ?head = 64" by (simp add: elf_head_def)
  show "slice sample_image 320 54 = Inr image_strings"
    using slice_append [of 320 "?head @ ?table" image_strings 54] by (simp add: d h image_lengths)
  show "slice sample_image 374 96 = Inr ?syms"
    using slice_append [of 374 "?head @ ?table @ image_strings" ?syms 96] by (simp add: d h image_lengths)
  show "slice sample_image 470 18 = Inr (to_bytes ''Linux version 6.1'' @ [0])"
    using slice_append [of 470 "?head @ ?table @ image_strings @ ?syms" "to_bytes ''Linux version 6.1'' @ [0]" 18 "[]"]
    by (simp add: d h image_lengths)
qed

lemma sample_image_length: "length sample_image = 488"
  by (simp add: sample_image_def elf_bytes_def sample_parts_def elf_image_def elf_head_def image_lengths)

lemma image_symbol_table:
  "symbol_table image_strings image_entries =
    [''linux_banner'' \<mapsto> \<lparr> sy_value = 0xffffffff82000000, sy_size = 0, sy_shndx = 1 \<rparr>,
     ''init_task'' \<mapsto> \<lparr> sy_value = 0xffffffff82800000, sy_size = 0, sy_shndx = 1 \<rparr>,
     ''_text'' \<mapsto> \<lparr> sy_value = 0xffffffff81000000, sy_size = 0, sy_shndx = 1 \<rparr>]"
  by (simp add: image_entries_def symbol_table_Cons usable_def entry_name_def image_names [simplified])
    (simp add: symbol_table_def)

lemma sample_parts_ok: "elf_header_ok sample_parts" "elf_symtab_ok sample_parts"
proof -
  have "list_all section_header_ok image_headers" by code_simp
  moreover have "length (elf_bytes sample_parts) = 488" using sample_image_length by (simp add: sample_image_def)
  ultimately show "elf_header_ok sample_parts"
    using image_slices(1)
    by (simp add: elf_header_ok_def Let_def sample_image_def) (simp add: sample_parts_def image_headers_def image_lengths)
  show "elf_symtab_ok sample_parts"
    using image_slices(1,2) image_sections_eq
    by (simp add: elf_symtab_ok_def Let_def sample_image_def image_sections_def)
      (simp add: sample_parts_def image_lengths image_entries_def)
qed

lemma sample_image_read:
  "elf_parse sample_image =
     Inr \<lparr> ef_data = sample_image, ef_sections = image_sections, ef_symbols = symbol_table image_strings image_entries \<rparr>"
  using elf_image_parsed [OF sample_parts_ok] by (simp add: sample_image_def image_sections_def) (simp add: sample_parts_def)

theorem elf_image_parses_witness:
  "\<exists>f. elf_parse sample_image = Inr f \<and> map es_name (ef_sections f) = [[], ''.rodata'', ''.symtab'', ''.strtab''] \<and>
     ef_symbols f ''init_task'' = Some \<lparr> sy_value = 0xffffffff82800000, sy_size = 0, sy_shndx = 1 \<rparr>"
  using elf_image_parses [OF sample_parts_ok] image_sections_eq image_symbol_table
  by (simp add: sample_image_def image_sections_def) (simp add: sample_parts_def)

end
