(* ===== verification/Resolver_State.thy ===== *)
theory Resolver_State
  imports Raw_Profile "HOL-Library.AList"
begin

text \<open>
  \<open>memflow-linux-defs/src/vmlinux.rs\<close>: the state that the BTF and the DWARF resolver have in common, their names and
  tables, and the sequencing of their steps. Their recursion ends only when the types do not refer to themselves except
  through composites, so it carries fuel, and no answer is the value None: here are the laws of fuel, that an answer
  stays with more of it, and of the runs that answer, and of those that never fail.
\<close>

section \<open>The state of a resolver\<close>

text \<open>The tables by name, the names given so far, and the set of names in use. The DWARF resolver has the same state with other keys.\<close>

record 'k resolver =
  rs_user_types :: "string \<Rightarrow> raw_user_type option"
  rs_enums :: "string \<Rightarrow> raw_enum option"
  rs_names :: "'k \<Rightarrow> string option"
  rs_used :: "string set"

definition new_resolver :: "'k resolver" where
  "new_resolver = \<lparr> rs_user_types = Map.empty, rs_enums = Map.empty, rs_names = Map.empty, rs_used = {} \<rparr>"

type_synonym ('a, 's) run = "('a result \<times> 's) option"

text \<open>Sequencing: no answer stays no answer, an error stops.\<close>

definition bind_run :: "('a, 's) run \<Rightarrow> ('a \<Rightarrow> 's \<Rightarrow> ('b, 's) run) \<Rightarrow> ('b, 's) run" where
  "bind_run m k =
     (case m of
        None \<Rightarrow> None
      | Some (r, st) \<Rightarrow> (case r of Inl e \<Rightarrow> Some (Inl e, st) | Inr x \<Rightarrow> k x st))"

definition map_run :: "('a \<Rightarrow> 'b) \<Rightarrow> ('a, 's) run \<Rightarrow> ('b, 's) run" where
  "map_run g m = bind_run m (\<lambda>x st. Some (Inr (g x), st))"

definition give_name :: "'k \<Rightarrow> string \<Rightarrow> string \<Rightarrow> 'k resolver \<Rightarrow> string \<times> 'k resolver" where
  "give_name k candidate suffix st =
     (let name = (if candidate \<in> rs_used st then candidate @ ''_'' @ suffix else candidate)
      in (name, st\<lparr> rs_used := insert name (rs_used st), rs_names := (rs_names st)(k \<mapsto> name) \<rparr>))"

definition seed_type :: "string \<Rightarrow> usize \<Rightarrow> 'k resolver \<Rightarrow> 'k resolver" where
  "seed_type name sz st = st\<lparr> rs_user_types := (rs_user_types st)(name \<mapsto> \<lparr> ut_size = sz, ut_fields = [] \<rparr>) \<rparr>"

definition finish_type :: "string \<Rightarrow> (string \<times> raw_field) list \<Rightarrow> 'k resolver \<Rightarrow> 'k resolver" where
  "finish_type name flds st =
     st\<lparr> rs_user_types := (rs_user_types st)(name := map_option (ut_fields_update (\<lambda>_. flds)) (rs_user_types st name)) \<rparr>"

definition REQUIRED_TYPES :: "string list" where
  "REQUIRED_TYPES =
     [''task_struct'', ''mm_struct'', ''vm_area_struct'', ''list_head'', ''module'', ''fs_struct'', ''file'', ''path'',
      ''mount'', ''vfsmount'', ''dentry'', ''qstr'']"

definition OPTIONAL_MAPLE_TYPES :: "string list" where
  "OPTIONAL_MAPLE_TYPES = [''maple_tree'', ''maple_range_64'', ''maple_arange_64'', ''maple_metadata'']"

section \<open>Sequencing\<close>

lemma bind_run_simps [simp]:
  "bind_run None k = None" "bind_run (Some (Inl e, st)) k = Some (Inl e, st)" "bind_run (Some (Inr x, st)) k = k x st"
  by (simp_all add: bind_run_def)

lemma bind_run_Inr: "bind_run m k = Some (Inr y, st') \<longleftrightarrow> (\<exists>x st. m = Some (Inr x, st) \<and> k x st = Some (Inr y, st'))"
  by (auto simp: bind_run_def split: option.splits sum.splits)

lemma map_run_Inr: "map_run g m = Some (Inr y, st) \<longleftrightarrow> (\<exists>x. m = Some (Inr x, st) \<and> y = g x)"
  by (auto simp: map_run_def bind_run_Inr)

section \<open>Tables grow\<close>

text \<open>The tables only grow.\<close>

definition grows :: "'k resolver \<Rightarrow> 'k resolver \<Rightarrow> bool" where
  "grows st st' \<longleftrightarrow>
     rs_user_types st \<subseteq>\<^sub>m rs_user_types st' \<and> rs_enums st \<subseteq>\<^sub>m rs_enums st' \<and> rs_names st \<subseteq>\<^sub>m rs_names st'"

lemma grows_refl: "grows st st"
  by (simp add: grows_def)

lemma grows_trans: "grows a b \<Longrightarrow> grows b c \<Longrightarrow> grows a c"
  by (auto simp: grows_def intro: map_le_trans)

lemma map_le_Some: "m \<subseteq>\<^sub>m m' \<Longrightarrow> m x = Some y \<Longrightarrow> m' x = Some y"
  by (metis domI map_le_def)

lemma growsD:
  assumes "grows st st'"
  shows "rs_user_types st x = Some ut \<Longrightarrow> rs_user_types st' x = Some ut"
    and "rs_enums st x = Some e \<Longrightarrow> rs_enums st' x = Some e"
    and "rs_names st tid = Some name \<Longrightarrow> rs_names st' tid = Some name"
  using assms by (auto simp: grows_def intro: map_le_Some)

lemma growsI:
  assumes "\<And>x ut. rs_user_types st x = Some ut \<Longrightarrow> rs_user_types st' x = Some ut"
    and "\<And>x e. rs_enums st x = Some e \<Longrightarrow> rs_enums st' x = Some e"
    and "\<And>tid name. rs_names st tid = Some name \<Longrightarrow> rs_names st' tid = Some name"
  shows "grows st st'"
  using assms by (auto simp: grows_def map_le_def dom_def)

lemma seed_type_simps [simp]:
  "rs_user_types (seed_type name sz st) = (rs_user_types st)(name \<mapsto> \<lparr> ut_size = sz, ut_fields = [] \<rparr>)"
  "rs_enums (seed_type name sz st) = rs_enums st" "rs_names (seed_type name sz st) = rs_names st"
  by (simp_all add: seed_type_def)

lemma finish_type_simps [simp]:
  "rs_user_types (finish_type name flds st) =
     (rs_user_types st)(name := map_option (ut_fields_update (\<lambda>_. flds)) (rs_user_types st name))"
  "rs_enums (finish_type name flds st) = rs_enums st" "rs_names (finish_type name flds st) = rs_names st"
  by (simp_all add: finish_type_def)

lemma walked_type_grows:
  assumes "rs_user_types st name = None" "grows (seed_type name sz st) st2"
  shows "grows st (finish_type name flds st2)"
    "rs_user_types (finish_type name flds st2) name = Some \<lparr> ut_size = sz, ut_fields = flds \<rparr>"
proof -
  have s: "rs_user_types st2 name = Some \<lparr> ut_size = sz, ut_fields = [] \<rparr>"
    by (rule growsD(1) [OF assms(2)]) simp
  then show "rs_user_types (finish_type name flds st2) name = Some \<lparr> ut_size = sz, ut_fields = flds \<rparr>" by simp
  have "rs_user_types (finish_type name flds st2) x = Some ut" if "rs_user_types st x = Some ut" for x ut
  proof -
    from that assms(1) have "x \<noteq> name" by auto
    moreover from this have "rs_user_types st2 x = Some ut" by (intro growsD(1) [OF assms(2)]) (simp add: that)
    ultimately show ?thesis by simp
  qed
  then show "grows st (finish_type name flds st2)"
    using growsD(2,3) [OF assms(2)] by (intro growsI) simp_all
qed

definition update_all :: "(string \<times> raw_field) list \<Rightarrow> (string \<times> raw_field) list \<Rightarrow> (string \<times> raw_field) list" where
  "update_all new flds = fold (\<lambda>fl. AList.update (fst fl) (snd fl)) new flds"

lemma map_of_update_all: "map_of (update_all new flds) = map_of flds ++ map_of (rev new)"
  unfolding update_all_def
proof (induction new arbitrary: flds)
  case (Cons fl new)
  have "map_of (fold (\<lambda>fl. AList.update (fst fl) (snd fl)) new (AList.update (fst fl) (snd fl) flds)) =
      (map_of flds)(fst fl \<mapsto> snd fl) ++ map_of (rev new)"
    unfolding Cons.IH by (simp only: update_conv')
  then show ?case by (auto simp: map_add_def fun_eq_iff split: option.splits)
qed simp

section \<open>Tables that describe their types\<close>

text \<open>
  The invariant of a resolver. Its tables describe the types, except the structures whose members are being walked; every
  composite or enum that has a name is in its table, except one that was just named; and the names are their types'.
\<close>

definition tables_describe ::
    "(('k \<Rightarrow> string option) \<Rightarrow> string \<Rightarrow> raw_user_type \<Rightarrow> bool) \<Rightarrow> (('k \<Rightarrow> string option) \<Rightarrow> string \<Rightarrow> raw_enum \<Rightarrow> bool) \<Rightarrow>
     ('k \<Rightarrow> bool) \<Rightarrow> ('k \<Rightarrow> bool) \<Rightarrow> ('k \<Rightarrow> string \<Rightarrow> bool) \<Rightarrow> string set \<Rightarrow> 'k set \<Rightarrow> 'k resolver \<Rightarrow> bool" where
  "tables_describe layout enum composite enumerated given open_names fresh st \<longleftrightarrow>
     (\<forall>x ut. rs_user_types st x = Some ut \<longrightarrow> x \<in> open_names \<or> layout (rs_names st) x ut) \<and>
     (\<forall>x e. rs_enums st x = Some e \<longrightarrow> enum (rs_names st) x e) \<and>
     (\<forall>k x. rs_names st k = Some x \<longrightarrow> k \<notin> fresh \<longrightarrow>
        (composite k \<longrightarrow> rs_user_types st x \<noteq> None) \<and> (enumerated k \<longrightarrow> rs_enums st x \<noteq> None)) \<and>
     (\<forall>k x. rs_names st k = Some x \<longrightarrow> given k x)"

text \<open>What naming a type does: nothing, or a new name for it.\<close>

definition named_step :: "'k resolver \<Rightarrow> 'k \<Rightarrow> string \<Rightarrow> 'k resolver \<Rightarrow> bool" where
  "named_step st k name st' \<longleftrightarrow>
     rs_user_types st' = rs_user_types st \<and> rs_enums st' = rs_enums st \<and>
     (rs_names st k = Some name \<and> rs_names st' = rs_names st \<or>
      rs_names st k = None \<and> rs_names st' = (rs_names st)(k \<mapsto> name))"

lemma named_step_grows: "named_step st k name st' \<Longrightarrow> grows st st'"
  by (auto simp: named_step_def intro!: growsI)

lemma named_step_name: "named_step st k name st' \<Longrightarrow> rs_names st' k = Some name"
  by (auto simp: named_step_def)

locale table_laws =
  fixes layout :: "('k \<Rightarrow> string option) \<Rightarrow> string \<Rightarrow> raw_user_type \<Rightarrow> bool"
    and enum :: "('k \<Rightarrow> string option) \<Rightarrow> string \<Rightarrow> raw_enum \<Rightarrow> bool"
    and composite enumerated :: "'k \<Rightarrow> bool"
    and given :: "'k \<Rightarrow> string \<Rightarrow> bool"
  assumes layout_mono: "layout names x ut \<Longrightarrow> names \<subseteq>\<^sub>m names' \<Longrightarrow> layout names' x ut"
    and enum_mono: "enum names x e \<Longrightarrow> names \<subseteq>\<^sub>m names' \<Longrightarrow> enum names' x e"
begin

abbreviation "tables_ok \<equiv> tables_describe layout enum composite enumerated given"

lemma describesD:
  assumes "tables_ok open_names fresh st"
  shows "rs_user_types st x = Some ut \<Longrightarrow> x \<in> open_names \<or> layout (rs_names st) x ut"
    and "rs_enums st x = Some e \<Longrightarrow> enum (rs_names st) x e"
    and "rs_names st k = Some x \<Longrightarrow> k \<notin> fresh \<Longrightarrow> composite k \<Longrightarrow> \<exists>ut. rs_user_types st x = Some ut"
    and "rs_names st k = Some x \<Longrightarrow> k \<notin> fresh \<Longrightarrow> enumerated k \<Longrightarrow> \<exists>e. rs_enums st x = Some e"
    and "rs_names st k = Some x \<Longrightarrow> given k x"
  using assms unfolding tables_describe_def by blast+

lemma describesI:
  assumes "\<And>x ut. rs_user_types st x = Some ut \<Longrightarrow> x \<in> open_names \<or> layout (rs_names st) x ut"
    and "\<And>x e. rs_enums st x = Some e \<Longrightarrow> enum (rs_names st) x e"
    and "\<And>k x. rs_names st k = Some x \<Longrightarrow> k \<notin> fresh \<Longrightarrow> composite k \<Longrightarrow> \<exists>ut. rs_user_types st x = Some ut"
    and "\<And>k x. rs_names st k = Some x \<Longrightarrow> k \<notin> fresh \<Longrightarrow> enumerated k \<Longrightarrow> \<exists>e. rs_enums st x = Some e"
    and "\<And>k x. rs_names st k = Some x \<Longrightarrow> given k x"
  shows "tables_ok open_names fresh st"
  using assms unfolding tables_describe_def by blast

lemma describes_new: "tables_ok {} {} new_resolver"
  by (rule describesI) (simp_all add: new_resolver_def)

lemma describes_named:
  assumes "named_step st k name st'" "tables_ok open_names {} st" "given k name"
  shows "tables_ok open_names {k} st'"
proof (rule describesI)
  note n = assms(1) [unfolded named_step_def]
  have le: "rs_names st \<subseteq>\<^sub>m rs_names st'" using named_step_grows [OF assms(1)] by (simp add: grows_def)
  have old: "rs_names st j = Some x" if "rs_names st' j = Some x" "j \<notin> {k}" for j x using that n by auto
  show "x \<in> open_names \<or> layout (rs_names st') x ut" if "rs_user_types st' x = Some ut" for x ut
    using describesD(1) [OF assms(2), of x ut] that layout_mono [OF _ le, of x ut] n by auto
  show "enum (rs_names st') x e" if "rs_enums st' x = Some e" for x e
    using describesD(2) [OF assms(2), of x e] that enum_mono [OF _ le, of x e] n by auto
  show "\<exists>ut. rs_user_types st' x = Some ut" if "rs_names st' j = Some x" "j \<notin> {k}" "composite j" for j x
    using describesD(3) [OF assms(2) old [OF that(1,2)] _ that(3)] n by simp
  show "\<exists>e. rs_enums st' x = Some e" if "rs_names st' j = Some x" "j \<notin> {k}" "enumerated j" for j x
    using describesD(4) [OF assms(2) old [OF that(1,2)] _ that(3)] n by simp
  show "given j x" if "rs_names st' j = Some x" for j x
  proof (cases "j = k")
    case True
    then show ?thesis using that named_step_name [OF assms(1)] assms(3) by simp
  next
    case False
    then show ?thesis using old [OF that] describesD(5) [OF assms(2)] by simp
  qed
qed

lemma describes_close:
  assumes "tables_ok open_names {k} st" "rs_names st k = Some name"
    "composite k \<Longrightarrow> rs_user_types st name \<noteq> None" "enumerated k \<Longrightarrow> rs_enums st name \<noteq> None"
  shows "tables_ok open_names {} st"
proof (rule describesI)
  show "\<exists>ut. rs_user_types st x = Some ut" if "rs_names st j = Some x" "j \<notin> {}" "composite j" for j x
    using describesD(3) [OF assms(1), of j x] that assms(2,3) by (cases "j = k") auto
  show "\<exists>e. rs_enums st x = Some e" if "rs_names st j = Some x" "j \<notin> {}" "enumerated j" for j x
    using describesD(4) [OF assms(1), of j x] that assms(2,4) by (cases "j = k") auto
qed (use describesD(1,2,5) [OF assms(1)] in simp_all)

lemma describes_seed:
  assumes "tables_ok open_names {k} st" "rs_names st k = Some name" "\<not> enumerated k"
  shows "tables_ok (insert name open_names) {} (seed_type name sz st)"
proof (rule describesI)
  show "\<exists>ut. rs_user_types (seed_type name sz st) x = Some ut"
    if "rs_names (seed_type name sz st) j = Some x" "j \<notin> {}" "composite j" for j x
    using describesD(3) [OF assms(1), of j x] that assms(2) by (cases "j = k") auto
  show "\<exists>e. rs_enums (seed_type name sz st) x = Some e"
    if "rs_names (seed_type name sz st) j = Some x" "j \<notin> {}" "enumerated j" for j x
    using describesD(4) [OF assms(1), of j x] that assms(3) by (cases "j = k") auto
qed (use describesD(1,2,5) [OF assms(1)] in \<open>auto split: if_splits\<close>)

lemma describes_finish:
  assumes "tables_ok (insert name open_names) {} st" "rs_user_types st name = Some ut"
    "layout (rs_names st) name (ut\<lparr> ut_fields := flds \<rparr>)"
  shows "tables_ok open_names {} (finish_type name flds st)"
proof (rule describesI)
  show "x \<in> open_names \<or> layout (rs_names (finish_type name flds st)) x ut'"
    if "rs_user_types (finish_type name flds st) x = Some ut'" for x ut'
    using that assms(2,3) describesD(1) [OF assms(1), of x] by (auto split: if_splits)
  show "\<exists>ut. rs_user_types (finish_type name flds st) x = Some ut"
    if "rs_names (finish_type name flds st) j = Some x" "j \<notin> {}" "composite j" for j x
    using describesD(3) [OF assms(1), of j x] that by auto
qed (use describesD(2,4,5) [OF assms(1)] in simp_all)

lemma describes_enum:
  assumes "tables_ok open_names {k} st" "rs_names st k = Some name" "\<not> composite k" "enum (rs_names st) name e"
  shows "tables_ok open_names {} (st\<lparr> rs_enums := (rs_enums st)(name \<mapsto> e) \<rparr>)"
proof (rule describesI)
  let ?st = "st\<lparr> rs_enums := (rs_enums st)(name \<mapsto> e) \<rparr>"
  show "enum (rs_names ?st) x e'" if "rs_enums ?st x = Some e'" for x e'
    using that describesD(2) [OF assms(1), of x] assms(4) by (auto split: if_splits)
  show "\<exists>ut. rs_user_types ?st x = Some ut" if "rs_names ?st j = Some x" "j \<notin> {}" "composite j" for j x
    using describesD(3) [OF assms(1), of j x] that assms(3) by (cases "j = k") auto
  show "\<exists>e. rs_enums ?st x = Some e" if "rs_names ?st j = Some x" "j \<notin> {}" "enumerated j" for j x
    using describesD(4) [OF assms(1), of j x] that assms(2) by (cases "j = k") auto
qed (use describesD(1,5) [OF assms(1)] in simp_all)

end

section \<open>Fuel\<close>

text \<open>An answer is the same with more fuel.\<close>

definition run_le :: "('a, 's) run \<Rightarrow> ('a, 's) run \<Rightarrow> bool" where
  "run_le a b \<longleftrightarrow> a = None \<or> b = a"

lemma run_le_refl [simp, intro]: "run_le a a"
  by (simp add: run_le_def)

lemma run_le_None [simp]: "run_le None b"
  by (simp add: run_le_def)

lemma bind_run_le:
  assumes "run_le a a'" "\<And>x st. run_le (k x st) (k' x st)"
  shows "run_le (bind_run a k) (bind_run a' k')"
  using assms by (cases a) (auto simp: run_le_def bind_run_def split: option.splits sum.splits prod.splits)

lemma map_run_le: "run_le a a' \<Longrightarrow> run_le (map_run g a) (map_run g a')"
  by (simp add: map_run_def bind_run_le)

definition fuelled :: "(nat \<Rightarrow> ('a, 's) run) \<Rightarrow> bool" where
  "fuelled g \<longleftrightarrow> (\<forall>n. run_le (g n) (g (Suc n)))"

lemma fuelled_le:
  assumes "fuelled g" "n \<le> m"
  shows "run_le (g n) (g m)"
  using assms(2)
proof (induction rule: dec_induct)
  case (step k)
  moreover have "run_le (g k) (g (Suc k))" using assms(1) by (simp add: fuelled_def)
  ultimately show ?case by (auto simp: run_le_def)
qed simp

lemma fuelled_ge:
  assumes "fuelled g" "g n = Some r" "n \<le> m"
  shows "g m = Some r"
  using fuelled_le [OF assms(1,3)] assms(2) by (simp add: run_le_def)

lemma fuelled_bind: "fuelled g \<Longrightarrow> (\<And>x st. fuelled (\<lambda>n. k n x st)) \<Longrightarrow> fuelled (\<lambda>n. bind_run (g n) (k n))"
  by (simp add: fuelled_def bind_run_le)

lemma fuelled_map: "fuelled g \<Longrightarrow> fuelled (\<lambda>n. map_run h (g n))"
  by (simp add: fuelled_def map_run_le)

lemma fuelled_const: "fuelled (\<lambda>n. a)"
  by (simp add: fuelled_def)

definition answers :: "(nat \<Rightarrow> ('a, 's) run) \<Rightarrow> bool" where
  "answers g \<longleftrightarrow> (\<exists>n. g n \<noteq> None)"

lemma answersI: "g n = Some r \<Longrightarrow> answers g"
  unfolding answers_def by (intro exI [of _ n]) simp

lemma answers_bind:
  assumes "fuelled g" "\<And>x st. fuelled (\<lambda>n. k n x st)" "answers g"
    "\<And>n x st. g n = Some (Inr x, st) \<Longrightarrow> answers (\<lambda>n. k n x st)"
  shows "answers (\<lambda>n. bind_run (g n) (k n))"
proof -
  from assms(3) obtain n r st where g: "g n = Some (r, st)" by (auto simp: answers_def)
  show ?thesis
  proof (cases r)
    case (Inl e)
    with g show ?thesis by (intro answersI [of _ n]) simp
  next
    case (Inr x)
    with assms(4) g obtain m r' where k: "k m x st = Some r'" by (fastforce simp: answers_def)
    have "g (max n m) = Some (Inr x, st)" using fuelled_ge [OF assms(1) g, of "max n m"] Inr by simp
    moreover have "k (max n m) x st = Some r'" using fuelled_ge [OF assms(2) k, of "max n m"] by simp
    ultimately show ?thesis by (intro answersI [of _ "max n m"]) simp
  qed
qed

lemma answers_map: "fuelled g \<Longrightarrow> answers g \<Longrightarrow> answers (\<lambda>n. map_run h (g n))"
  unfolding map_run_def by (rule answers_bind) (auto intro: fuelled_const answersI)

lemma answers_const: "answers (\<lambda>n. Some r)"
  by (rule answersI [of _ 0]) simp

lemma answers_Suc: "answers (\<lambda>n. g (Suc n)) \<Longrightarrow> answers g"
  by (auto simp: answers_def)

section \<open>Runs that do not fail\<close>

definition good :: "('a, 's) run \<Rightarrow> bool" where
  "good m \<longleftrightarrow> (\<forall>e st. m \<noteq> Some (Inl e, st))"

lemma good_simps [simp]: "good None" "good (Some (Inr x, st))"
  by (simp_all add: good_def)

lemma good_bind: "good m \<Longrightarrow> (\<And>x st. m = Some (Inr x, st) \<Longrightarrow> good (k x st)) \<Longrightarrow> good (bind_run m k)"
  by (auto simp: good_def bind_run_def split: option.split sum.split prod.split)

lemma good_map: "good m \<Longrightarrow> good (map_run g m)"
  unfolding map_run_def by (rule good_bind) (simp_all add: good_def)

section \<open>Settled keys\<close>

text \<open>
  A key is settled when its type is in the table. There are finitely many keys, none is unsettled again, and a walk
  settles one: a measure of what is left.
\<close>

definition settled :: "'k resolver \<Rightarrow> 'k \<Rightarrow> bool" where
  "settled st tid \<longleftrightarrow> (case rs_names st tid of None \<Rightarrow> False | Some name \<Rightarrow> rs_user_types st name \<noteq> None)"

definition unsettled :: "'k resolver \<Rightarrow> 'k set" where
  "unsettled st = {tid. \<not> settled st tid}"

lemma settled_mono: "settled st tid \<Longrightarrow> grows st st' \<Longrightarrow> settled st' tid"
  by (auto simp: settled_def growsD(1,3) split: option.splits)

lemma unsettled_subset: "grows st st' \<Longrightarrow> unsettled st' \<subseteq> unsettled st"
  by (auto simp: unsettled_def dest: settled_mono)

lemma unsettled_mono: "grows (st :: 'k::finite resolver) st' \<Longrightarrow> card (unsettled st') \<le> card (unsettled st)"
proof (rule card_mono)
  show "finite (unsettled st)" by simp
  assume "grows st st'"
  then show "unsettled st' \<subseteq> unsettled st" by (rule unsettled_subset)
qed

lemma unsettled_less:
  assumes "grows (st :: 'k::finite resolver) st'" "rs_user_types st name = None" "rs_names st tid = Some name" "rs_user_types st' name \<noteq> None"
  shows "card (unsettled st') < card (unsettled st)"
proof (rule psubset_card_mono)
  show "finite (unsettled st)" by simp
  have "tid \<in> unsettled st" using assms(2,3) by (simp add: unsettled_def settled_def)
  moreover have "tid \<notin> unsettled st'" using growsD(3) [OF assms(1,3)] assms(4) by (simp add: unsettled_def settled_def)
  moreover have "unsettled st' \<subseteq> unsettled st" using assms(1) by (rule unsettled_subset)
  ultimately show "unsettled st' \<subset> unsettled st" by blast
qed

end
