(* ===== verification/Btf_File.thy ===== *)
theory Btf_File
  imports Elf_File
begin

text \<open>
  \<open>memflow-linux-defs/src/vmlinux.rs\<close>: the \<open>.BTF\<close> section of a kernel image, its types and the index of its named types.
\<close>

section \<open>Types\<close>

datatype btf_kind =
    Btf_Int | Btf_Ptr | Btf_Array | Btf_Struct | Btf_Union | Btf_Enum | Btf_Fwd | Btf_Typedef | Btf_Volatile
  | Btf_Const | Btf_Restrict | Btf_Func | Btf_FuncProto | Btf_Var | Btf_DataSec | Btf_Float | Btf_DeclTag
  | Btf_TypeTag | Btf_Enum64 | Btf_Unknown u32

definition btf_kind_from_raw :: "u32 \<Rightarrow> btf_kind" where
  "btf_kind_from_raw v =
     (if v = 1 then Btf_Int else if v = 2 then Btf_Ptr else if v = 3 then Btf_Array
      else if v = 4 then Btf_Struct else if v = 5 then Btf_Union else if v = 6 then Btf_Enum
      else if v = 7 then Btf_Fwd else if v = 8 then Btf_Typedef else if v = 9 then Btf_Volatile
      else if v = 10 then Btf_Const else if v = 11 then Btf_Restrict else if v = 12 then Btf_Func
      else if v = 13 then Btf_FuncProto else if v = 14 then Btf_Var else if v = 15 then Btf_DataSec
      else if v = 16 then Btf_Float else if v = 17 then Btf_DeclTag else if v = 18 then Btf_TypeTag
      else if v = 19 then Btf_Enum64 else Btf_Unknown v)"

fun btf_kind_str :: "btf_kind \<Rightarrow> string" where
  "btf_kind_str Btf_Int = ''int''"
| "btf_kind_str Btf_Ptr = ''ptr''"
| "btf_kind_str Btf_Array = ''array''"
| "btf_kind_str Btf_Struct = ''struct''"
| "btf_kind_str Btf_Union = ''union''"
| "btf_kind_str Btf_Enum = ''enum''"
| "btf_kind_str Btf_Fwd = ''fwd''"
| "btf_kind_str Btf_Typedef = ''typedef''"
| "btf_kind_str Btf_Volatile = ''volatile''"
| "btf_kind_str Btf_Const = ''const''"
| "btf_kind_str Btf_Restrict = ''restrict''"
| "btf_kind_str Btf_Func = ''func''"
| "btf_kind_str Btf_FuncProto = ''func_proto''"
| "btf_kind_str Btf_Var = ''var''"
| "btf_kind_str Btf_DataSec = ''datasec''"
| "btf_kind_str Btf_Float = ''float''"
| "btf_kind_str Btf_DeclTag = ''decl_tag''"
| "btf_kind_str Btf_TypeTag = ''type_tag''"
| "btf_kind_str Btf_Enum64 = ''enum64''"
| "btf_kind_str (Btf_Unknown _) = ''unknown''"

record btf_member =
  bm_name :: string
  bm_type_id :: u32
  bm_bit_offset :: u32
  bm_bitfield_size :: "u8 option"

text \<open>The values of an enum are \<open>i64\<close>, held as their bits.\<close>

datatype btf_type_data =
    No_Data
  | Int_Data
  | Array_Data u32 u32 u32
  | Composite "btf_member list"
  | Enum_Data "(string \<times> u64) list"

record btf_type =
  bt_kind :: btf_kind
  bt_name :: string
  bt_size_or_type :: u32
  bt_data :: btf_type_data

type_synonym btf_names = "btf_kind \<times> string \<Rightarrow> u32 option"

record btf_file =
  bf_types :: "btf_type list"
  bf_named :: btf_names

section \<open>Parsing\<close>

definition btf_string :: "bytes \<Rightarrow> u32 \<Rightarrow> string result" where
  "btf_string strs name_off = (if name_off = 0 then Inr [] else read_cstring strs (ucast name_off))"

text \<open>
  Offsets into the type data are natural numbers: they grow by at most a few hundred kilobytes per record
  from a section whose size is a \<open>u32\<close>, far from the end of a \<open>usize\<close>.
\<close>

definition btf_member_at :: "bytes \<Rightarrow> bytes \<Rightarrow> bool \<Rightarrow> nat \<Rightarrow> btf_member result" where
  "btf_member_at tys strs kflag base =
     rbind (read_u32 tys (of_nat base)) (\<lambda>name_off.
     rbind (read_u32 tys (of_nat (base + 4))) (\<lambda>type_id.
     rbind (read_u32 tys (of_nat (base + 8))) (\<lambda>raw_offset.
     let (bit_offset, bitfield_size) =
           (if kflag then (raw_offset AND 0x00ffffff, Some (ucast (drop_bit 24 raw_offset) :: u8))
            else (raw_offset, None)) in
     rbind (btf_string strs name_off) (\<lambda>name.
     Inr \<lparr> bm_name = name, bm_type_id = type_id, bm_bit_offset = bit_offset, bm_bitfield_size = bitfield_size \<rparr>))))"

definition btf_enum_at :: "bytes \<Rightarrow> bytes \<Rightarrow> nat \<Rightarrow> (string \<times> u64) result" where
  "btf_enum_at tys strs base =
     rbind (read_u32 tys (of_nat base)) (\<lambda>name_off.
     rbind (read_i32 tys (of_nat (base + 4))) (\<lambda>val.
     rbind (read_cstring strs (ucast name_off)) (\<lambda>name. Inr (name, scast val))))"

definition btf_enum64_at :: "bytes \<Rightarrow> bytes \<Rightarrow> nat \<Rightarrow> (string \<times> u64) result" where
  "btf_enum64_at tys strs base =
     rbind (read_u32 tys (of_nat base)) (\<lambda>name_off.
     rbind (read_u32 tys (of_nat (base + 4))) (\<lambda>lo.
     rbind (read_u32 tys (of_nat (base + 8))) (\<lambda>hi.
     rbind (read_cstring strs (ucast name_off)) (\<lambda>name.
     Inr (name, push_bit 32 (ucast hi) OR ucast lo)))))"

definition btf_data_at :: "bytes \<Rightarrow> bytes \<Rightarrow> btf_kind \<Rightarrow> nat \<Rightarrow> bool \<Rightarrow> nat \<Rightarrow> (btf_type_data \<times> nat) result" where
  "btf_data_at tys strs kind vlen kflag off =
     (case kind of
        Btf_Int \<Rightarrow> rbind (read_u32 tys (of_nat off)) (\<lambda>_. Inr (Int_Data, off + 4))
      | Btf_Array \<Rightarrow>
          rbind (read_u32 tys (of_nat off)) (\<lambda>elem_type.
          rbind (read_u32 tys (of_nat (off + 4))) (\<lambda>index_type.
          rbind (read_u32 tys (of_nat (off + 8))) (\<lambda>nelems.
          Inr (Array_Data elem_type index_type nelems, off + 12))))
      | Btf_Struct \<Rightarrow>
          rbind (collect_results (\<lambda>i. btf_member_at tys strs kflag (off + i * 12)) [0 ..< vlen]) (\<lambda>ms.
          Inr (Composite ms, off + vlen * 12))
      | Btf_Union \<Rightarrow>
          rbind (collect_results (\<lambda>i. btf_member_at tys strs kflag (off + i * 12)) [0 ..< vlen]) (\<lambda>ms.
          Inr (Composite ms, off + vlen * 12))
      | Btf_Enum \<Rightarrow>
          rbind (collect_results (\<lambda>i. btf_enum_at tys strs (off + i * 8)) [0 ..< vlen]) (\<lambda>vs.
          Inr (Enum_Data vs, off + vlen * 8))
      | Btf_Enum64 \<Rightarrow>
          rbind (collect_results (\<lambda>i. btf_enum64_at tys strs (off + i * 12)) [0 ..< vlen]) (\<lambda>vs.
          Inr (Enum_Data vs, off + vlen * 12))
      | Btf_FuncProto \<Rightarrow> Inr (No_Data, off + vlen * 8)
      | Btf_Var \<Rightarrow> Inr (No_Data, off + 4)
      | Btf_DataSec \<Rightarrow> Inr (No_Data, off + vlen * 12)
      | Btf_DeclTag \<Rightarrow> Inr (No_Data, off + 4)
      | _ \<Rightarrow> Inr (No_Data, off))"

definition btf_type_at :: "bytes \<Rightarrow> bytes \<Rightarrow> nat \<Rightarrow> (btf_type \<times> nat) result" where
  "btf_type_at tys strs base =
     rbind (read_u32 tys (of_nat base)) (\<lambda>name_off.
     rbind (read_u32 tys (of_nat (base + 4))) (\<lambda>info.
     rbind (read_u32 tys (of_nat (base + 8))) (\<lambda>size_or_type.
     let kind = btf_kind_from_raw (drop_bit 24 info AND 0x1f);
         vlen = unat (info AND 0xffff);
         kflag = drop_bit 31 info \<noteq> 0 in
     rbind (btf_string strs name_off) (\<lambda>name.
     rbind (btf_data_at tys strs kind vlen kflag (base + 12)) (\<lambda>(dat, off).
     Inr (\<lparr> bt_kind = kind, bt_name = name, bt_size_or_type = size_or_type, bt_data = dat \<rparr>, off))))))"

definition btf_indexed :: "btf_kind \<Rightarrow> bool" where
  "btf_indexed kind \<longleftrightarrow> kind \<in> {Btf_Struct, Btf_Union, Btf_Enum, Btf_Enum64}"

definition btf_index :: "btf_type \<Rightarrow> u32 \<Rightarrow> btf_names \<Rightarrow> btf_names" where
  "btf_index ty tid named =
     (if btf_indexed (bt_kind ty) \<and> bt_name ty \<noteq> [] \<and> named (bt_kind ty, bt_name ty) = None
      then named((bt_kind ty, bt_name ty) \<mapsto> tid) else named)"

lemma btf_data_at_le: "btf_data_at tys strs kind vlen kflag off = Inr (dat, off') \<Longrightarrow> off \<le> off'"
  by (auto simp: btf_data_at_def result_simps split: btf_kind.splits)

lemma btf_type_at_less: "btf_type_at tys strs base = Inr (ty, off) \<Longrightarrow> base < off"
  by (auto simp: btf_type_at_def Let_def result_simps dest: btf_data_at_le)

lemma rbind_cong [fundef_cong]:
  "m = m' \<Longrightarrow> (\<And>x. m' = Inr x \<Longrightarrow> f x = g x) \<Longrightarrow> rbind m f = rbind m' g"
  by (cases m') simp_all

function btf_types_from ::
    "bytes \<Rightarrow> bytes \<Rightarrow> nat \<Rightarrow> btf_type list \<Rightarrow> btf_names \<Rightarrow> btf_file result" where
  "btf_types_from tys strs offset types named =
     (if length tys \<le> offset then Inr \<lparr> bf_types = types, bf_named = named \<rparr>
      else
        rbind (btf_type_at tys strs offset) (\<lambda>r.
        btf_types_from tys strs (snd r) (types @ [fst r])
          (btf_index (fst r) (of_nat (length types + 1)) named)))"
  by pat_completeness auto

termination
  by (relation "measure (\<lambda>(tys, _, offset, _). length tys - offset)")
    (auto dest!: btf_type_at_less [of _ _ _ "fst r" "snd r" for r, simplified])

declare btf_types_from.simps [simp del]

definition btf_parse :: "bytes \<Rightarrow> btf_file result" where
  "btf_parse data =
     (if length data < 24 then Inl (OsLayer Encoding)
      else
        rbind (read_u16 data 0) (\<lambda>magic.
        if magic \<noteq> 0xeb9f then Inl (OsLayer Encoding)
        else if data ! 2 \<noteq> 1 then Inl (OsLayer NotSupported)
        else
          rbind (read_u32 data 4) (\<lambda>header_len.
          rbind (read_u32 data 8) (\<lambda>type_off.
          rbind (read_u32 data 12) (\<lambda>type_len.
          rbind (read_u32 data 16) (\<lambda>str_off.
          rbind (read_u32 data 20) (\<lambda>str_len.
          rbind (slice data (ucast header_len + ucast type_off) (ucast type_len)) (\<lambda>type_data.
          rbind (slice data (ucast header_len + ucast str_off) (ucast str_len)) (\<lambda>str_data.
          btf_types_from type_data str_data 0 [] Map.empty)))))))))"

definition btf_find_named :: "btf_file \<Rightarrow> btf_kind \<Rightarrow> string \<Rightarrow> u32 result" where
  "btf_find_named f kind name = ok_or (OsLayer Offset) (bf_named f (kind, name))"

definition btf_maybe_named :: "btf_file \<Rightarrow> btf_kind \<Rightarrow> string \<Rightarrow> u32 option" where
  "btf_maybe_named f kind name = bf_named f (kind, name)"

definition type_by_id :: "btf_file \<Rightarrow> u32 \<Rightarrow> btf_type result" where
  "type_by_id f type_id =
     (if type_id = 0 then Inl (OsLayer Offset)
      else ok_or (OsLayer Offset) (nth_opt (bf_types f) (unat (type_id - 1))))"


section \<open>The section as the kernel build writes it\<close>

datatype btf_payload =
    Raw_Payload bytes
  | Int_Payload u32
  | Array_Payload u32 u32 u32
  | Member_Payload "(u32 \<times> u32 \<times> u32) list"
  | Enum_Payload "(u32 \<times> u32) list"
  | Enum64_Payload "(u32 \<times> u32 \<times> u32) list"

record btf_record =
  br_name_off :: u32
  br_info :: u32
  br_size_or_type :: u32
  br_payload :: btf_payload

definition triple_bytes :: "u32 \<times> u32 \<times> u32 \<Rightarrow> bytes" where
  "triple_bytes = (\<lambda>(a, b, c). le_bytes 4 a @ le_bytes 4 b @ le_bytes 4 c)"

definition pair_bytes :: "u32 \<times> u32 \<Rightarrow> bytes" where
  "pair_bytes = (\<lambda>(a, b). le_bytes 4 a @ le_bytes 4 b)"

fun payload_bytes :: "btf_payload \<Rightarrow> bytes" where
  "payload_bytes (Raw_Payload bs) = bs"
| "payload_bytes (Int_Payload v) = le_bytes 4 v"
| "payload_bytes (Array_Payload a b c) = triple_bytes (a, b, c)"
| "payload_bytes (Member_Payload ms) = concat (map triple_bytes ms)"
| "payload_bytes (Enum_Payload vs) = concat (map pair_bytes vs)"
| "payload_bytes (Enum64_Payload vs) = concat (map triple_bytes vs)"

definition record_bytes :: "btf_record \<Rightarrow> bytes" where
  "record_bytes r =
     triple_bytes (br_name_off r, br_info r, br_size_or_type r) @ payload_bytes (br_payload r)"

definition record_kind :: "btf_record \<Rightarrow> btf_kind" where
  "record_kind r = btf_kind_from_raw (drop_bit 24 (br_info r) AND 0x1f)"

definition record_vlen :: "btf_record \<Rightarrow> nat" where
  "record_vlen r = unat (br_info r AND 0xffff)"

definition record_kflag :: "btf_record \<Rightarrow> bool" where
  "record_kflag r \<longleftrightarrow> drop_bit 31 (br_info r) \<noteq> 0"

text \<open>Which payload a kind has: what the format says, record by record.\<close>

definition payload_fits :: "btf_kind \<Rightarrow> nat \<Rightarrow> btf_payload \<Rightarrow> bool" where
  "payload_fits kind vlen p =
     (case p of
        Int_Payload _ \<Rightarrow> kind = Btf_Int
      | Array_Payload _ _ _ \<Rightarrow> kind = Btf_Array
      | Member_Payload ms \<Rightarrow> (kind = Btf_Struct \<or> kind = Btf_Union) \<and> length ms = vlen
      | Enum_Payload vs \<Rightarrow> kind = Btf_Enum \<and> length vs = vlen
      | Enum64_Payload vs \<Rightarrow> kind = Btf_Enum64 \<and> length vs = vlen
      | Raw_Payload bs \<Rightarrow>
          kind \<notin> {Btf_Int, Btf_Array, Btf_Struct, Btf_Union, Btf_Enum, Btf_Enum64} \<and>
          length bs = (if kind = Btf_FuncProto then vlen * 8 else if kind = Btf_DataSec then vlen * 12
                       else if kind = Btf_Var \<or> kind = Btf_DeclTag then 4 else 0))"

definition str_at :: "bytes \<Rightarrow> u32 \<Rightarrow> string" where
  "str_at strs off = from_utf8_lossy (until_nul (drop (unat off) strs))"

definition name_at :: "bytes \<Rightarrow> u32 \<Rightarrow> string" where
  "name_at strs off = (if off = 0 then [] else str_at strs off)"

definition member_meaning :: "bytes \<Rightarrow> bool \<Rightarrow> u32 \<times> u32 \<times> u32 \<Rightarrow> btf_member" where
  "member_meaning strs kflag = (\<lambda>(name_off, type_id, raw).
     \<lparr> bm_name = name_at strs name_off, bm_type_id = type_id,
       bm_bit_offset = (if kflag then raw AND 0x00ffffff else raw),
       bm_bitfield_size = (if kflag then Some (ucast (drop_bit 24 raw)) else None) \<rparr>)"

fun payload_meaning :: "bytes \<Rightarrow> bool \<Rightarrow> btf_payload \<Rightarrow> btf_type_data" where
  "payload_meaning strs kflag (Raw_Payload _) = No_Data"
| "payload_meaning strs kflag (Int_Payload _) = Int_Data"
| "payload_meaning strs kflag (Array_Payload a b c) = Array_Data a b c"
| "payload_meaning strs kflag (Member_Payload ms) = Composite (map (member_meaning strs kflag) ms)"
| "payload_meaning strs kflag (Enum_Payload vs) = Enum_Data (map (\<lambda>(n, v). (str_at strs n, scast v)) vs)"
| "payload_meaning strs kflag (Enum64_Payload vs) =
     Enum_Data (map (\<lambda>(n, lo, hi). (str_at strs n, push_bit 32 (ucast hi) OR ucast lo)) vs)"

fun payload_names :: "btf_payload \<Rightarrow> u32 list" where
  "payload_names (Member_Payload ms) = map fst ms"
| "payload_names (Enum_Payload vs) = map fst vs"
| "payload_names (Enum64_Payload vs) = map fst vs"
| "payload_names _ = []"

definition record_ok :: "bytes \<Rightarrow> btf_record \<Rightarrow> bool" where
  "record_ok strs r \<longleftrightarrow>
     payload_fits (record_kind r) (record_vlen r) (br_payload r) \<and>
     (\<forall>n \<in> set (br_name_off r # payload_names (br_payload r)). unat n \<le> length strs)"

definition record_meaning :: "bytes \<Rightarrow> btf_record \<Rightarrow> btf_type" where
  "record_meaning strs r =
     \<lparr> bt_kind = record_kind r, bt_name = name_at strs (br_name_off r), bt_size_or_type = br_size_or_type r,
       bt_data = payload_meaning strs (record_kflag r) (br_payload r) \<rparr>"

text \<open>The index: the number of the first type of a kind with a name.\<close>

definition index_of :: "btf_type list \<Rightarrow> btf_names" where
  "index_of types = (\<lambda>(kind, name).
     if btf_indexed kind \<and> name \<noteq> []
     then map_option (\<lambda>i. of_nat (i + 1)) (position (\<lambda>t. bt_kind t = kind \<and> bt_name t = name) types)
     else None)"

definition btf_image :: "btf_record list \<Rightarrow> bytes \<Rightarrow> bytes" where
  "btf_image rs strs =
     (let types = concat (map record_bytes rs) in
      le_bytes 2 (0xeb9f :: u16) @ [1, 0] @ le_bytes 4 (24 :: u32) @ le_bytes 4 (0 :: u32) @
      le_bytes 4 (of_nat (length types) :: u32) @ le_bytes 4 (of_nat (length types) :: u32) @
      le_bytes 4 (of_nat (length strs) :: u32) @ types @ strs)"

section \<open>Properties\<close>

lemma read_at_drop:
  assumes "drop p data = le_bytes 4 v @ ys" "length data < 2 ^ 63"
  shows "read_u32 data (of_nat p) = Inr (v :: u32)"
proof -
  have "p < length data" using arg_cong [OF assms(1), of length] by simp
  then have "unat (of_nat p :: usize) = length (take p data)" using assms(2) by (simp add: unat_of_nat_usize)
  moreover have data: "data = take p data @ le_bytes 4 v @ ys" using assms(1) by (metis append_take_drop_id)
  have "length data = length (take p data @ ys) + 4" by (subst data) simp
  then have "length (take p data @ ys) + 8 < 2 ^ 64" using assms(2) by simp
  ultimately show ?thesis using read_append(2) [of "of_nat p" "take p data" ys v] data by simp
qed

lemma read_triple:
  assumes "drop p data = triple_bytes (a, b, c) @ ys" "length data < 2 ^ 63"
  shows "read_u32 data (of_nat p) = Inr a" "read_u32 data (of_nat (p + 4)) = Inr b"
    "read_u32 data (of_nat (p + 8)) = Inr c"
proof -
  have d: "drop p data = le_bytes 4 a @ le_bytes 4 b @ le_bytes 4 c @ ys" using assms(1) by (simp add: triple_bytes_def)
  have "drop (p + 4) data = drop 4 (drop p data)" "drop (p + 8) data = drop 8 (drop p data)"
    by (simp_all add: add.commute)
  then have "drop (p + 4) data = le_bytes 4 b @ le_bytes 4 c @ ys" "drop (p + 8) data = le_bytes 4 c @ ys"
    by (simp_all add: d)
  with d show "read_u32 data (of_nat p) = Inr a" "read_u32 data (of_nat (p + 4)) = Inr b"
      "read_u32 data (of_nat (p + 8)) = Inr c"
    using read_at_drop assms(2) by blast+
qed

lemma read_pair:
  assumes "drop p data = pair_bytes (a, b) @ ys" "length data < 2 ^ 63"
  shows "read_u32 data (of_nat p) = Inr a" "read_u32 data (of_nat (p + 4)) = Inr b"
proof -
  have d: "drop p data = le_bytes 4 a @ le_bytes 4 b @ ys" using assms(1) by (simp add: pair_bytes_def)
  have "drop (p + 4) data = drop 4 (drop p data)" by (simp add: add.commute)
  then have "drop (p + 4) data = le_bytes 4 b @ ys" by (simp add: d)
  with d show "read_u32 data (of_nat p) = Inr a" "read_u32 data (of_nat (p + 4)) = Inr b"
    using read_at_drop assms(2) by blast+
qed

lemma drop_concat_fixed:
  "\<forall>x \<in> set xs. length (f x) = w \<Longrightarrow> i < length xs \<Longrightarrow>
     drop (i * w) (concat (map f xs) @ zs) = f (xs ! i) @ concat (map f (drop (Suc i) xs)) @ zs"
proof (induction xs arbitrary: i)
  case (Cons x xs)
  then show ?case by (cases i) simp_all
qed simp

lemma length_blocks [simp]: "length (triple_bytes t) = 12" "length (pair_bytes q) = 8"
  by (cases t; simp add: triple_bytes_def) (cases q; simp add: pair_bytes_def)

lemma length_concat_fixed: "\<forall>x \<in> set xs. length (f x) = w \<Longrightarrow> length (concat (map f xs)) = length xs * w"
  by (induction xs) simp_all

lemma collect_results_map:
  "length xs = n \<Longrightarrow> (\<And>i. i < n \<Longrightarrow> f i = Inr (g (xs ! i))) \<Longrightarrow>
     collect_results f [0 ..< n] = Inr (map g xs)"
proof -
  have "(\<forall>i \<in> set is. f i = Inr (h i)) \<Longrightarrow> collect_results f is = Inr (map h is)" for "is" h
    by (induction "is") simp_all
  from this [of "[0 ..< n]" "\<lambda>i. g (xs ! i)"]
  show "length xs = n \<Longrightarrow> (\<And>i. i < n \<Longrightarrow> f i = Inr (g (xs ! i))) \<Longrightarrow> ?thesis"
    using map_nth [of xs] by (auto simp: list_eq_iff_nth_eq)
qed


lemma btf_string_ok: "unat n \<le> length strs \<Longrightarrow> btf_string strs n = Inr (name_at strs n)"
  by (simp add: btf_string_def name_at_def str_at_def read_cstring_def)

lemma read_str_ok: "unat n \<le> length strs \<Longrightarrow> read_cstring strs (ucast (n :: u32)) = Inr (str_at strs n)"
  by (simp add: str_at_def read_cstring_def)

text \<open>A block of records of one width, as it lies at an offset.\<close>

lemma drop_block:
  assumes "drop p data = concat (map f xs) @ ys" "\<forall>x \<in> set xs. length (f x) = w" "i < length xs"
  shows "\<exists>zs. drop (p + i * w) data = f (xs ! i) @ zs"
proof -
  have "drop (p + i * w) data = drop (i * w) (drop p data)" by (simp add: add.commute)
  then show ?thesis using drop_concat_fixed [OF assms(2,3)] by (simp add: assms(1))
qed

lemma btf_members_read:
  assumes "drop p tys = concat (map triple_bytes ms) @ ys" "length tys < 2 ^ 63"
    "\<forall>n \<in> set (map fst ms). unat n \<le> length strs"
  shows "collect_results (\<lambda>i. btf_member_at tys strs kflag (p + i * 12)) [0 ..< length ms] =
    Inr (map (member_meaning strs kflag) ms)"
proof (rule collect_results_map [OF refl])
  fix i assume i: "i < length ms"
  obtain a b c where m: "ms ! i = (a, b, c)" by (cases "ms ! i")
  with assms(3) i have "unat a \<le> length strs" by (metis fst_conv in_set_conv_nth length_map nth_map)
  moreover obtain zs where "drop (p + i * 12) tys = triple_bytes (a, b, c) @ zs"
    using drop_block [OF assms(1) _ i, of 12] m by auto
  ultimately show "btf_member_at tys strs kflag (p + i * 12) = Inr (member_meaning strs kflag (ms ! i))"
    using read_triple [OF _ assms(2)]
    by (simp add: btf_member_at_def m member_meaning_def btf_string_ok Let_def del: of_nat_add of_nat_mult)
qed

lemma btf_enums_read:
  assumes "drop p tys = concat (map pair_bytes vs) @ ys" "length tys < 2 ^ 63"
    "\<forall>n \<in> set (map fst vs). unat n \<le> length strs"
  shows "collect_results (\<lambda>i. btf_enum_at tys strs (p + i * 8)) [0 ..< length vs] =
    Inr (map (\<lambda>(n, v). (str_at strs n, scast v)) vs)"
proof (rule collect_results_map [OF refl])
  fix i assume i: "i < length vs"
  obtain a b where v: "vs ! i = (a, b)" by (cases "vs ! i")
  with assms(3) i have "unat a \<le> length strs" by (metis fst_conv in_set_conv_nth length_map nth_map)
  moreover obtain zs where "drop (p + i * 8) tys = pair_bytes (a, b) @ zs"
    using drop_block [OF assms(1) _ i, of 8] v by auto
  ultimately show "btf_enum_at tys strs (p + i * 8) = Inr (case vs ! i of (n, v) \<Rightarrow> (str_at strs n, scast v))"
    using read_pair [OF _ assms(2)]
    by (simp add: btf_enum_at_def read_i32_def v read_str_ok del: of_nat_add of_nat_mult)
qed

lemma btf_enums64_read:
  assumes "drop p tys = concat (map triple_bytes vs) @ ys" "length tys < 2 ^ 63"
    "\<forall>n \<in> set (map fst vs). unat n \<le> length strs"
  shows "collect_results (\<lambda>i. btf_enum64_at tys strs (p + i * 12)) [0 ..< length vs] =
    Inr (map (\<lambda>(n, lo, hi). (str_at strs n, push_bit 32 (ucast hi) OR ucast lo)) vs)"
proof (rule collect_results_map [OF refl])
  fix i assume i: "i < length vs"
  obtain a b c where v: "vs ! i = (a, b, c)" by (cases "vs ! i")
  with assms(3) i have "unat a \<le> length strs" by (metis fst_conv in_set_conv_nth length_map nth_map)
  moreover obtain zs where "drop (p + i * 12) tys = triple_bytes (a, b, c) @ zs"
    using drop_block [OF assms(1) _ i, of 12] v by auto
  ultimately show "btf_enum64_at tys strs (p + i * 12) =
      Inr (case vs ! i of (n, lo, hi) \<Rightarrow> (str_at strs n, push_bit 32 (ucast hi) OR ucast lo))"
    using read_triple [OF _ assms(2)]
    by (simp add: btf_enum64_at_def v read_str_ok del: of_nat_add of_nat_mult)
qed

lemma btf_data_read:
  assumes "drop p tys = payload_bytes pl @ ys" "length tys < 2 ^ 63" "payload_fits kind vlen pl"
    "\<forall>n \<in> set (payload_names pl). unat n \<le> length strs"
  shows "btf_data_at tys strs kind vlen kflag p = Inr (payload_meaning strs kflag pl, p + length (payload_bytes pl))"
proof (cases pl)
  case (Raw_Payload bs)
  with assms(3) show ?thesis by (cases kind) (auto simp: payload_fits_def btf_data_at_def)
next
  case (Int_Payload v)
  with assms show ?thesis using read_at_drop [of p tys v ys] by (simp add: payload_fits_def btf_data_at_def)
next
  case (Array_Payload a b c)
  with assms show ?thesis using read_triple [of p tys a b c ys]
    by (simp add: payload_fits_def btf_data_at_def del: of_nat_add)
next
  case (Member_Payload ms)
  with assms have "collect_results (\<lambda>i. btf_member_at tys strs kflag (p + i * 12)) [0 ..< length ms] =
    Inr (map (member_meaning strs kflag) ms)" by (intro btf_members_read) simp_all
  with Member_Payload assms(3) show ?thesis
    by (auto simp: payload_fits_def btf_data_at_def length_concat_fixed [where w = 12])
next
  case (Enum_Payload vs)
  with assms have "collect_results (\<lambda>i. btf_enum_at tys strs (p + i * 8)) [0 ..< length vs] =
    Inr (map (\<lambda>(n, v). (str_at strs n, scast v)) vs)" by (intro btf_enums_read) simp_all
  with Enum_Payload assms(3) show ?thesis
    by (auto simp: payload_fits_def btf_data_at_def length_concat_fixed [where w = 8])
next
  case (Enum64_Payload vs)
  with assms have "collect_results (\<lambda>i. btf_enum64_at tys strs (p + i * 12)) [0 ..< length vs] =
    Inr (map (\<lambda>(n, lo, hi). (str_at strs n, push_bit 32 (ucast hi) OR ucast lo)) vs)"
    by (intro btf_enums64_read) simp_all
  with Enum64_Payload assms(3) show ?thesis
    by (auto simp: payload_fits_def btf_data_at_def length_concat_fixed [where w = 12])
qed

lemma btf_type_read:
  assumes "drop p tys = record_bytes r @ ys" "length tys < 2 ^ 63" "record_ok strs r"
  shows "btf_type_at tys strs p = Inr (record_meaning strs r, p + length (record_bytes r))"
proof -
  let ?t = "(br_name_off r, br_info r, br_size_or_type r)"
  have d: "drop p tys = triple_bytes ?t @ payload_bytes (br_payload r) @ ys"
    using assms(1) by (simp add: record_bytes_def)
  have "drop (p + 12) tys = drop 12 (drop p tys)" by (simp add: add.commute)
  then have "drop (p + 12) tys = payload_bytes (br_payload r) @ ys" by (simp add: d)
  then have "btf_data_at tys strs (record_kind r) (record_vlen r) (record_kflag r) (p + 12) =
      Inr (payload_meaning strs (record_kflag r) (br_payload r), p + 12 + length (payload_bytes (br_payload r)))"
    using assms by (intro btf_data_read) (simp_all add: record_ok_def)
  moreover have "btf_string strs (br_name_off r) = Inr (name_at strs (br_name_off r))"
    using assms(3) by (simp add: record_ok_def btf_string_ok)
  ultimately show ?thesis
    using read_triple [OF d assms(2)]
    by (simp add: btf_type_at_def Let_def record_meaning_def record_kind_def record_vlen_def record_kflag_def
        record_bytes_def del: of_nat_add)
qed

lemma position_snoc:
  "position P (xs @ [x]) =
     (case position P xs of Some i \<Rightarrow> Some i | None \<Rightarrow> if P x then Some (length xs) else None)"
  by (induction xs) (auto split: option.splits)

lemma index_of_snoc:
  "btf_index ty (of_nat (length types + 1)) (index_of types) = index_of (types @ [ty])"
  by (auto simp: btf_index_def index_of_def position_snoc fun_eq_iff split: option.splits)

lemma btf_types_from_records:
  assumes "drop p tys = concat (map record_bytes rs)" "length tys < 2 ^ 63" "\<forall>r \<in> set rs. record_ok strs r"
  shows "btf_types_from tys strs p types (index_of types) =
    Inr \<lparr> bf_types = types @ map (record_meaning strs) rs, bf_named = index_of (types @ map (record_meaning strs) rs) \<rparr>"
  using assms(1,3)
proof (induction rs arbitrary: p types)
  case Nil
  then show ?case by (subst btf_types_from.simps) simp
next
  case (Cons r rs)
  then have d: "drop p tys = record_bytes r @ concat (map record_bytes rs)" and ok: "record_ok strs r" by simp_all
  have pos: "0 < length (record_bytes r)" by (simp add: record_bytes_def)
  with arg_cong [OF d, of length] have "0 < length tys - p" unfolding length_drop length_append by linarith
  then have "p < length tys" by simp
  moreover have "drop (p + length (record_bytes r)) tys = drop (length (record_bytes r)) (drop p tys)"
    by (simp add: add.commute)
  then have "drop (p + length (record_bytes r)) tys = concat (map record_bytes rs)" by (simp add: d)
  ultimately show ?case
    using Cons.IH [of "p + length (record_bytes r)" "types @ [record_meaning strs r]"] Cons.prems(2)
      btf_type_read [OF d assms(2) ok] index_of_snoc [of "record_meaning strs r" types]
    by (subst btf_types_from.simps) simp
qed


lemma unat_ucast_of_nat: "n < 2 ^ 32 \<Longrightarrow> unat (ucast (of_nat n :: u32) :: u64) = n"
  by (simp add: unsigned_of_nat take_bit_nat_eq_self)

lemma btf_image_read:
  assumes "\<forall>r \<in> set rs. record_ok strs r" "length (concat (map record_bytes rs)) < 2 ^ 32" "length strs < 2 ^ 32"
  shows "btf_parse (btf_image rs strs) =
    Inr \<lparr> bf_types = map (record_meaning strs) rs, bf_named = index_of (map (record_meaning strs) rs) \<rparr>"
proof -
  define types where "types = concat (map record_bytes rs)"
  let ?n = "of_nat (length types) :: u32" and ?m = "of_nat (length strs) :: u32"
  define hd1 where "hd1 = le_bytes 2 (0xeb9f :: u16) @ [1 :: u8, 0]"
  define hd2 where "hd2 = le_bytes 4 (24 :: u32) @ le_bytes 4 (0 :: u32) @ le_bytes 4 ?n @ le_bytes 4 ?n @ le_bytes 4 ?m"
  let ?data = "hd1 @ hd2 @ types @ strs"
  have img: "btf_image rs strs = ?data"
    by (simp add: btf_image_def Let_def types_def hd1_def hd2_def)
  have hds: "length hd1 = 4" "length hd2 = 20" by (simp_all add: hd1_def hd2_def)
  have small: "length ?data < 2 ^ 63" using assms(2,3) by (simp add: types_def hds)
  have magic: "read_u16 ?data 0 = Inr 0xeb9f"
    using read_append(1) [of 0 "[]" "[1, 0] @ hd2 @ types @ strs" "0xeb9f :: u16"] small hds
    by (simp add: hd1_def)
  have version: "?data ! 2 = 1" by (simp add: nth_append hds) (simp add: hd1_def nth_append)
  have "drop 4 ?data = le_bytes 4 (24 :: u32) @ drop 8 ?data" "drop 8 ?data = le_bytes 4 (0 :: u32) @ drop 12 ?data"
      "drop 12 ?data = le_bytes 4 ?n @ drop 16 ?data" "drop 16 ?data = le_bytes 4 ?n @ drop 20 ?data"
      "drop 20 ?data = le_bytes 4 ?m @ drop 24 ?data"
    by (simp_all add: hds hd2_def)
  from this [THEN read_at_drop, OF small] have words: "read_u32 ?data 4 = Inr 24" "read_u32 ?data 8 = Inr 0"
      "read_u32 ?data 12 = Inr ?n" "read_u32 ?data 16 = Inr ?n" "read_u32 ?data 20 = Inr ?m"
    by simp_all
  have n: "unat (ucast ?n :: u64) = length types" "unat (ucast ?m :: u64) = length strs"
    using assms(2,3) by (simp_all only: unat_ucast_of_nat types_def)
  have tys: "slice ?data 24 (ucast ?n) = Inr types"
    using slice_append [of 24 "hd1 @ hd2" types "ucast ?n" strs] small hds n by simp
  have "unat (24 + ucast ?n :: u64) = 24 + length types"
    using assms(2) n(1) by (simp add: unat_word_ariths types_def)
  then have strs: "slice ?data (24 + ucast ?n) (ucast ?m) = Inr strs"
    using slice_append [of "24 + ucast ?n" "hd1 @ hd2 @ types" strs "ucast ?m" "[]"] small hds n by simp
  have "btf_types_from types strs 0 [] (index_of []) =
      Inr \<lparr> bf_types = [] @ map (record_meaning strs) rs, bf_named = index_of ([] @ map (record_meaning strs) rs) \<rparr>"
    using assms(1,2) by (intro btf_types_from_records) (simp_all add: types_def)
  moreover have "index_of [] = Map.empty" by (auto simp: index_of_def fun_eq_iff)
  moreover have "\<not> length ?data < 24" by (simp add: hds)
  ultimately show ?thesis
    unfolding img btf_parse_def by (simp add: magic version words tys strs del: length_append)
qed

text \<open>
  C15. A BTF section written record by record is read back record by record: every kind with its payload, its
  names through the string table, the offsets and widths of bit fields, the values of enums of either width; and the
  index maps the name of each composite and enum to the first type that has it.
\<close>

theorem btf_parse_image:
  assumes "\<forall>r \<in> set rs. record_ok strs r" "length (concat (map record_bytes rs)) < 2 ^ 32" "length strs < 2 ^ 32"
  shows "btf_parse (btf_image rs strs) =
    Inr \<lparr> bf_types = map (record_meaning strs) rs, bf_named = index_of (map (record_meaning strs) rs) \<rparr>"
  using assms by (rule btf_image_read)

definition sample_btf :: "btf_record list" where
  "sample_btf =
     [\<lparr> br_name_off = 0, br_info = 0x01000000, br_size_or_type = 8, br_payload = Int_Payload 64 \<rparr>,
      \<lparr> br_name_off = 1, br_info = 0x04000002, br_size_or_type = 16,
        br_payload = Member_Payload [(3, 3, 0), (5, 3, 64)] \<rparr>,
      \<lparr> br_name_off = 0, br_info = 0x02000000, br_size_or_type = 2, br_payload = Raw_Payload [] \<rparr>]"

definition sample_btf_strings :: bytes where
  "sample_btf_strings = [0, 0x6c, 0, 0x6e, 0, 0x70, 0]"

theorem btf_parse_image_witness:
  "\<exists>f. btf_parse (btf_image sample_btf sample_btf_strings) = Inr f \<and> length (bf_types f) = 3"
proof -
  have "\<forall>r \<in> set sample_btf. record_ok sample_btf_strings r"
    by (simp add: sample_btf_def record_ok_def payload_fits_def record_kind_def record_vlen_def
        btf_kind_from_raw_def sample_btf_strings_def)
  moreover have "length (concat (map record_bytes sample_btf)) < 2 ^ 32" "length sample_btf_strings < 2 ^ 32"
    by (simp_all add: sample_btf_def record_bytes_def sample_btf_strings_def)
  ultimately have "btf_parse (btf_image sample_btf sample_btf_strings) =
      Inr \<lparr> bf_types = map (record_meaning sample_btf_strings) sample_btf,
            bf_named = index_of (map (record_meaning sample_btf_strings) sample_btf) \<rparr>"
    by (rule btf_parse_image)
  then show ?thesis by (simp add: sample_btf_def)
qed

end
