(* ===== verification/Btf_Resolver.thy ===== *)
theory Btf_Resolver
  imports Resolver_State Btf_File
begin

text \<open>
  \<open>memflow-linux-defs/src/vmlinux.rs\<close>: the resolver that turns BTF types into the structures and enums of the raw
  profile (\<open>BtfResolver\<close>), and the loading of a BTF profile. The lemmas show that the tables only grow and that they describe the section.
\<close>

definition ensure_type_name :: "btf_file \<Rightarrow> u32 \<Rightarrow> u32 resolver \<Rightarrow> (string, u32 resolver) run" where
  "ensure_type_name f type_id st =
     (case rs_names st type_id of
        Some name \<Rightarrow> Some (Inr name, st)
      | None \<Rightarrow>
          (case type_by_id f type_id of
             Inl e \<Rightarrow> Some (Inl e, st)
           | Inr ty \<Rightarrow>
               let num = radix_str 10 (unat type_id);
                   candidate = (if bt_name ty = [] then ''__btf_'' @ btf_kind_str (bt_kind ty) @ ''_'' @ num
                                else bt_name ty);
                   (name, st') = give_name type_id candidate num st
               in Some (Inr name, st')))"

text \<open>\<open>collect\<close> into a hash map: of two constants of one name the last stays.\<close>

definition btf_ensure_enum :: "btf_file \<Rightarrow> u32 \<Rightarrow> u32 resolver \<Rightarrow> (string, u32 resolver) run" where
  "btf_ensure_enum f type_id st =
     bind_run (ensure_type_name f type_id st) (\<lambda>name st.
     if rs_enums st name \<noteq> None then Some (Inr name, st)
     else case type_by_id f type_id of
       Inl e \<Rightarrow> Some (Inl e, st)
     | Inr ty \<Rightarrow>
         (case bt_data ty of
            Enum_Data vals \<Rightarrow>
              Some (Inr name, st\<lparr> rs_enums := (rs_enums st)(name \<mapsto> \<lparr> re_constants = map_of (rev vals) \<rparr>) \<rparr>)
          | _ \<Rightarrow> Some (Inl (OsLayer Offset), st)))"

definition btf_field_name :: "nat \<Rightarrow> btf_member \<Rightarrow> string" where
  "btf_field_name idx m = (if bm_name m = [] then ''__anon_field_'' @ radix_str 10 idx else bm_name m)"

definition btf_field :: "btf_member \<Rightarrow> raw_type_ref \<Rightarrow> raw_field" where
  "btf_field m ty =
     \<lparr> rf_offset = ucast (bm_bit_offset m div 8), rf_anonymous = (bm_name m = []),
       rf_ty = (case bm_bitfield_size m of Some n \<Rightarrow> if n \<noteq> 0 then Bitfield ty else ty | None \<Rightarrow> ty) \<rparr>"

section \<open>The BTF resolver\<close>

definition or_name :: "string \<Rightarrow> string \<Rightarrow> string" where
  "or_name name other = (if name = [] then other else name)"

fun btf_type_ref :: "nat \<Rightarrow> btf_file \<Rightarrow> u32 \<Rightarrow> u32 resolver \<Rightarrow> (raw_type_ref, u32 resolver) run"
and btf_user_type :: "nat \<Rightarrow> btf_file \<Rightarrow> u32 \<Rightarrow> u32 resolver \<Rightarrow> (string, u32 resolver) run"
and btf_fields :: "nat \<Rightarrow> btf_file \<Rightarrow> nat \<Rightarrow> btf_member list \<Rightarrow> (string \<times> raw_field) list \<Rightarrow> u32 resolver \<Rightarrow>
     ((string \<times> raw_field) list, u32 resolver) run"
where
  "btf_type_ref 0 f type_id st = None"
| "btf_type_ref (Suc n) f type_id st =
     (if type_id = 0 then Some (Inr Void, st)
      else case type_by_id f type_id of
        Inl e \<Rightarrow> Some (Inl e, st)
      | Inr ty \<Rightarrow>
          (case bt_kind ty of
             Btf_Int \<Rightarrow> Some (Inr (Base (or_name (bt_name ty) ''int'')), st)
           | Btf_Ptr \<Rightarrow> map_run Pointer (btf_type_ref n f (bt_size_or_type ty) st)
           | Btf_Array \<Rightarrow>
               (case bt_data ty of
                  Array_Data elem_type index_type nelems \<Rightarrow>
                    bind_run (btf_type_ref n f index_type st) (\<lambda>_ st.
                    map_run (Array (ucast nelems)) (btf_type_ref n f elem_type st))
                | _ \<Rightarrow> Some (Inl (OsLayer Encoding), st))
           | Btf_Struct \<Rightarrow> map_run Struct (btf_user_type n f type_id st)
           | Btf_Union \<Rightarrow> map_run Union (btf_user_type n f type_id st)
           | Btf_Enum \<Rightarrow> map_run Enum (btf_ensure_enum f type_id st)
           | Btf_Enum64 \<Rightarrow> map_run Enum (btf_ensure_enum f type_id st)
           | Btf_Typedef \<Rightarrow> btf_type_ref n f (bt_size_or_type ty) st
           | Btf_Volatile \<Rightarrow> btf_type_ref n f (bt_size_or_type ty) st
           | Btf_Const \<Rightarrow> btf_type_ref n f (bt_size_or_type ty) st
           | Btf_Restrict \<Rightarrow> btf_type_ref n f (bt_size_or_type ty) st
           | Btf_TypeTag \<Rightarrow> btf_type_ref n f (bt_size_or_type ty) st
           | Btf_DeclTag \<Rightarrow> btf_type_ref n f (bt_size_or_type ty) st
           | Btf_Float \<Rightarrow> Some (Inr (Base (or_name (bt_name ty) (btf_kind_str Btf_Float))), st)
           | Btf_Fwd \<Rightarrow> Some (Inr (Base (or_name (bt_name ty) (btf_kind_str Btf_Fwd))), st)
           | Btf_Func \<Rightarrow> Some (Inr Function, st)
           | Btf_FuncProto \<Rightarrow> Some (Inr Function, st)
           | _ \<Rightarrow> Some (Inr Unknown, st)))"
| "btf_user_type 0 f type_id st = None"
| "btf_user_type (Suc n) f type_id st =
     bind_run (ensure_type_name f type_id st) (\<lambda>name st.
     if rs_user_types st name \<noteq> None then Some (Inr name, st)
     else case type_by_id f type_id of
       Inl e \<Rightarrow> Some (Inl e, st)
     | Inr ty \<Rightarrow>
         (case bt_data ty of
            Composite ms \<Rightarrow>
              bind_run (btf_fields n f 0 ms [] (seed_type name (ucast (bt_size_or_type ty)) st)) (\<lambda>flds st.
              Some (Inr name, finish_type name flds st))
          | _ \<Rightarrow> Some (Inl (OsLayer Offset), st)))"
| "btf_fields 0 f idx ms flds st = None"
| "btf_fields (Suc n) f idx [] flds st = Some (Inr flds, st)"
| "btf_fields (Suc n) f idx (m # ms) flds st =
     bind_run (btf_type_ref n f (bm_type_id m) st) (\<lambda>ty st.
     btf_fields n f (Suc idx) ms (AList.update (btf_field_name idx m) (btf_field m ty) flds) st)"

section \<open>Loading\<close>

fun btf_require :: "nat \<Rightarrow> btf_file \<Rightarrow> string list \<Rightarrow> u32 resolver \<Rightarrow> (unit, u32 resolver) run" where
  "btf_require n f [] st = Some (Inr (), st)"
| "btf_require n f (name # names) st =
     (case btf_find_named f Btf_Struct name of
        Inl e \<Rightarrow> Some (Inl e, st)
      | Inr type_id \<Rightarrow> bind_run (btf_user_type n f type_id st) (\<lambda>_ st. btf_require n f names st))"

text \<open>\<open>ensure_optional_maple_types_btf\<close>, and the optional \<open>module_memory\<close>\<close>

fun btf_optional :: "nat \<Rightarrow> btf_file \<Rightarrow> string list \<Rightarrow> u32 resolver \<Rightarrow> (unit, u32 resolver) run" where
  "btf_optional n f [] st = Some (Inr (), st)"
| "btf_optional n f (name # names) st =
     (case btf_maybe_named f Btf_Struct name of
        None \<Rightarrow> btf_optional n f names st
      | Some type_id \<Rightarrow> bind_run (btf_user_type n f type_id st) (\<lambda>_ st. btf_optional n f names st))"

definition btf_resolve :: "nat \<Rightarrow> btf_file \<Rightarrow> (unit, u32 resolver) run" where
  "btf_resolve n f =
     bind_run (btf_require n f REQUIRED_TYPES new_resolver) (\<lambda>_ st.
     bind_run (btf_optional n f OPTIONAL_MAPLE_TYPES st) (\<lambda>_ st.
     bind_run (btf_optional n f [''module_memory''] st) (\<lambda>_ st.
     case btf_find_named f Btf_Enum ''module_state'' of
       Inl e \<Rightarrow> Some (Inl e, st)
     | Inr enum_id \<Rightarrow> map_run (\<lambda>_. ()) (btf_ensure_enum f enum_id st))))"

definition load_btf_profile :: "nat \<Rightarrow> bytes \<Rightarrow> raw_profile result option" where
  "load_btf_profile n data =
     (case btf_parse data of
        Inl e \<Rightarrow> Some (Inl e)
      | Inr f \<Rightarrow>
          map_option (\<lambda>(r, st). rbind r (\<lambda>_.
              Inr \<lparr> rp_symbols = Map.empty, rp_user_types = rs_user_types st, rp_enums = rs_enums st \<rparr>))
            (btf_resolve n f))"

section \<open>What the tables say\<close>

definition btf_aliases :: "btf_kind set" where
  "btf_aliases = {Btf_Typedef, Btf_Volatile, Btf_Const, Btf_Restrict, Btf_TypeTag, Btf_DeclTag}"

fun leaf_ref :: "btf_kind \<Rightarrow> string \<Rightarrow> raw_type_ref option" where
  "leaf_ref Btf_Int name = Some (Base (or_name name ''int''))"
| "leaf_ref Btf_Float name = Some (Base (or_name name ''float''))"
| "leaf_ref Btf_Fwd name = Some (Base (or_name name ''fwd''))"
| "leaf_ref Btf_Func name = Some Function"
| "leaf_ref Btf_FuncProto name = Some Function"
| "leaf_ref Btf_Var name = Some Unknown"
| "leaf_ref Btf_DataSec name = Some Unknown"
| "leaf_ref (Btf_Unknown _) name = Some Unknown"
| "leaf_ref _ name = None"

text \<open>A reference describes a type of the file: through its aliases, with composites and enums by the names given to them.\<close>

inductive type_ref_of :: "btf_file \<Rightarrow> (u32 \<Rightarrow> string option) \<Rightarrow> u32 \<Rightarrow> raw_type_ref \<Rightarrow> bool"
  for f :: btf_file and names :: "u32 \<Rightarrow> string option" where
  ref_void: "type_ref_of f names 0 Void"
| ref_leaf: "type_by_id f tid = Inr ty \<Longrightarrow> leaf_ref (bt_kind ty) (bt_name ty) = Some t \<Longrightarrow> type_ref_of f names tid t"
| ref_pointer: "type_by_id f tid = Inr ty \<Longrightarrow> bt_kind ty = Btf_Ptr \<Longrightarrow>
     type_ref_of f names (bt_size_or_type ty) t \<Longrightarrow> type_ref_of f names tid (Pointer t)"
| ref_array: "type_by_id f tid = Inr ty \<Longrightarrow> bt_kind ty = Btf_Array \<Longrightarrow> bt_data ty = Array_Data e i k \<Longrightarrow>
     type_ref_of f names e t \<Longrightarrow> type_ref_of f names tid (Array (ucast k) t)"
| ref_struct: "type_by_id f tid = Inr ty \<Longrightarrow> bt_kind ty = Btf_Struct \<Longrightarrow> names tid = Some name \<Longrightarrow>
     type_ref_of f names tid (Struct name)"
| ref_union: "type_by_id f tid = Inr ty \<Longrightarrow> bt_kind ty = Btf_Union \<Longrightarrow> names tid = Some name \<Longrightarrow>
     type_ref_of f names tid (Union name)"
| ref_enum: "type_by_id f tid = Inr ty \<Longrightarrow> bt_kind ty \<in> {Btf_Enum, Btf_Enum64} \<Longrightarrow> names tid = Some name \<Longrightarrow>
     type_ref_of f names tid (Enum name)"
| ref_alias: "type_by_id f tid = Inr ty \<Longrightarrow> bt_kind ty \<in> btf_aliases \<Longrightarrow>
     type_ref_of f names (bt_size_or_type ty) t \<Longrightarrow> type_ref_of f names tid t"

lemma type_ref_of_mono: "type_ref_of f names tid t \<Longrightarrow> names \<subseteq>\<^sub>m names' \<Longrightarrow> type_ref_of f names' tid t"
  by (induction rule: type_ref_of.induct) (auto intro: type_ref_of.intros simp: map_le_def dom_def)

definition field_of :: "btf_file \<Rightarrow> (u32 \<Rightarrow> string option) \<Rightarrow> nat \<Rightarrow> btf_member \<Rightarrow> string \<times> raw_field \<Rightarrow> bool" where
  "field_of f names idx m fl \<longleftrightarrow>
     (\<exists>t. type_ref_of f names (bm_type_id m) t \<and> fl = (btf_field_name idx m, btf_field m t))"

text \<open>A structure of the table is a composite of the file under its name: its size, and of the members that share a name the last.\<close>

definition layout_of :: "btf_file \<Rightarrow> (u32 \<Rightarrow> string option) \<Rightarrow> string \<Rightarrow> raw_user_type \<Rightarrow> bool" where
  "layout_of f names name ut \<longleftrightarrow>
     (\<exists>tid ty ms flds. names tid = Some name \<and> type_by_id f tid = Inr ty \<and> bt_data ty = Composite ms \<and>
        ut_size ut = ucast (bt_size_or_type ty) \<and> length flds = length ms \<and>
        (\<forall>i < length ms. field_of f names i (ms ! i) (flds ! i)) \<and> map_of (ut_fields ut) = map_of (rev flds))"

definition enum_of :: "btf_file \<Rightarrow> (u32 \<Rightarrow> string option) \<Rightarrow> string \<Rightarrow> raw_enum \<Rightarrow> bool" where
  "enum_of f names name e \<longleftrightarrow>
     (\<exists>tid ty vals. names tid = Some name \<and> type_by_id f tid = Inr ty \<and> bt_data ty = Enum_Data vals \<and>
        re_constants e = map_of (rev vals))"

definition composite_id :: "btf_file \<Rightarrow> u32 \<Rightarrow> bool" where
  "composite_id f tid \<longleftrightarrow> (\<exists>ty. type_by_id f tid = Inr ty \<and> bt_kind ty \<in> {Btf_Struct, Btf_Union})"

definition enumerated_id :: "btf_file \<Rightarrow> u32 \<Rightarrow> bool" where
  "enumerated_id f tid \<longleftrightarrow> (\<exists>ty. type_by_id f tid = Inr ty \<and> bt_kind ty \<in> {Btf_Enum, Btf_Enum64})"

text \<open>The name of a type is its own, or made from its kind and number; if taken, with the number after it.\<close>

definition own_name :: "u32 \<Rightarrow> btf_type \<Rightarrow> string" where
  "own_name tid ty =
     (if bt_name ty = [] then ''__btf_'' @ btf_kind_str (bt_kind ty) @ ''_'' @ radix_str 10 (unat tid) else bt_name ty)"

definition given_name :: "btf_file \<Rightarrow> u32 \<Rightarrow> string \<Rightarrow> bool" where
  "given_name f tid name \<longleftrightarrow>
     (\<exists>ty. type_by_id f tid = Inr ty \<and>
        (name = own_name tid ty \<or> name = own_name tid ty @ ''_'' @ radix_str 10 (unat tid)))"

text \<open>The invariant of the BTF resolver.\<close>

definition faithful :: "btf_file \<Rightarrow> string set \<Rightarrow> u32 set \<Rightarrow> u32 resolver \<Rightarrow> bool" where
  "faithful f = tables_describe (layout_of f) (enum_of f) (composite_id f) (enumerated_id f) (given_name f)"

lemma field_of_mono: "field_of f names i m fl \<Longrightarrow> names \<subseteq>\<^sub>m names' \<Longrightarrow> field_of f names' i m fl"
  unfolding field_of_def using type_ref_of_mono by blast

lemma layout_of_mono:
  assumes "layout_of f names name ut" "names \<subseteq>\<^sub>m names'"
  shows "layout_of f names' name ut"
proof -
  obtain tid ty ms flds where l: "names tid = Some name" "type_by_id f tid = Inr ty" "bt_data ty = Composite ms"
      "ut_size ut = ucast (bt_size_or_type ty)" "length flds = length ms"
      "\<forall>i < length ms. field_of f names i (ms ! i) (flds ! i)" "map_of (ut_fields ut) = map_of (rev flds)"
    using assms(1) unfolding layout_of_def by blast
  have "names' tid = Some name" using map_le_Some [OF assms(2) l(1)] .
  moreover have "\<forall>i < length ms. field_of f names' i (ms ! i) (flds ! i)" using l(6) field_of_mono assms(2) by blast
  ultimately show ?thesis unfolding layout_of_def using l by blast
qed

lemma enum_of_mono: "enum_of f names name e \<Longrightarrow> names \<subseteq>\<^sub>m names' \<Longrightarrow> enum_of f names' name e"
  unfolding enum_of_def using map_le_Some by fast

interpretation btf_tables: table_laws "layout_of f" "enum_of f" "composite_id f" "enumerated_id f" "given_name f" for f
  by unfold_locales (rule layout_of_mono, assumption+, rule enum_of_mono)

lemma ensure_type_name_step:
  assumes "ensure_type_name f tid st = Some (Inr name, st')"
  shows "named_step st tid name st'" "rs_names st tid = None \<Longrightarrow> given_name f tid name"
  using assms
  by (auto simp: ensure_type_name_def give_name_def given_name_def own_name_def named_step_def Let_def
      split: option.splits sum.splits if_splits)

lemma ensure_type_name_grows:
  assumes "ensure_type_name f tid st = Some (Inr name, st')"
  shows "grows st st'" "rs_names st' tid = Some name"
    "rs_user_types st' = rs_user_types st" "rs_enums st' = rs_enums st"
  using ensure_type_name_step(1) [OF assms] named_step_grows [OF ensure_type_name_step(1) [OF assms]]
  by (auto simp: named_step_def)

lemma btf_ensure_enum_cases:
  assumes "btf_ensure_enum f tid st = Some (Inr name, st')"
  obtains (old) e where "ensure_type_name f tid st = Some (Inr name, st')" "rs_enums st name = Some e"
    | (new) st1 ty vals where "ensure_type_name f tid st = Some (Inr name, st1)" "type_by_id f tid = Inr ty"
        "bt_data ty = Enum_Data vals" "rs_enums st name = None"
        "st' = st1\<lparr> rs_enums := (rs_enums st1)(name \<mapsto> \<lparr> re_constants = map_of (rev vals) \<rparr>) \<rparr>"
proof -
  from assms obtain x st1 where n: "ensure_type_name f tid st = Some (Inr x, st1)"
    and k: "(if rs_enums st1 x \<noteq> None then Some (Inr x, st1)
       else case type_by_id f tid of Inl e \<Rightarrow> Some (Inl e, st1)
         | Inr ty \<Rightarrow> (case bt_data ty of
            Enum_Data vals \<Rightarrow> Some (Inr x, st1\<lparr> rs_enums := (rs_enums st1)(x \<mapsto> \<lparr> re_constants = map_of (rev vals) \<rparr>) \<rparr>)
          | _ \<Rightarrow> Some (Inl (OsLayer Offset), st1))) = Some (Inr name, st')"
    unfolding btf_ensure_enum_def bind_run_Inr by blast
  from k have x: "x = name" by (auto split: if_splits sum.splits btf_type_data.splits)
  from k have r: "rs_enums st1 name \<noteq> None \<and> st' = st1 \<or>
      (\<exists>ty vals. rs_enums st1 name = None \<and> type_by_id f tid = Inr ty \<and> bt_data ty = Enum_Data vals \<and>
        st' = st1\<lparr> rs_enums := (rs_enums st1)(name \<mapsto> \<lparr> re_constants = map_of (rev vals) \<rparr>) \<rparr>)"
    unfolding x by (auto split: if_splits sum.splits btf_type_data.splits)
  note n = n [unfolded x]
  note same = ensure_type_name_grows(4) [OF n]
  from r show ?thesis
  proof (elim disjE exE conjE, goal_cases)
    case 1
    then show ?thesis using n same old by auto
  qed (rule new; (assumption | rule n | simp add: same))
qed

lemma btf_ensure_enum_grows:
  assumes "btf_ensure_enum f tid st = Some (Inr name, st')"
  shows "grows st st'" "rs_names st' tid = Some name" "rs_enums st' name \<noteq> None" "rs_user_types st' = rs_user_types st"
  using assms by (auto elim!: btf_ensure_enum_cases dest: ensure_type_name_grows intro!: growsI
    dest: growsD [OF ensure_type_name_grows(1)])

lemma btf_user_type_Inr:
  assumes "btf_user_type (Suc n) f tid st = Some (Inr name, st')"
  obtains (old) ut where "ensure_type_name f tid st = Some (Inr name, st')" "rs_user_types st name = Some ut"
    | (new) st1 st2 ty ms flds where "ensure_type_name f tid st = Some (Inr name, st1)" "type_by_id f tid = Inr ty"
        "bt_data ty = Composite ms" "rs_user_types st name = None"
        "btf_fields n f 0 ms [] (seed_type name (ucast (bt_size_or_type ty)) st1) = Some (Inr flds, st2)"
        "st' = finish_type name flds st2"
proof -
  from assms obtain x st1 where n: "ensure_type_name f tid st = Some (Inr x, st1)"
    and k: "(if rs_user_types st1 x \<noteq> None then Some (Inr x, st1)
       else case type_by_id f tid of Inl e \<Rightarrow> Some (Inl e, st1)
         | Inr ty \<Rightarrow> (case bt_data ty of
            Composite ms \<Rightarrow>
              bind_run (btf_fields n f 0 ms [] (seed_type x (ucast (bt_size_or_type ty)) st1)) (\<lambda>flds st.
              Some (Inr x, finish_type x flds st))
          | _ \<Rightarrow> Some (Inl (OsLayer Offset), st1))) = Some (Inr name, st')"
    unfolding btf_user_type.simps bind_run_Inr by blast
  from k have x: "x = name" by (auto simp: bind_run_Inr split: if_splits sum.splits btf_type_data.splits)
  from k have r: "rs_user_types st1 name \<noteq> None \<and> st' = st1 \<or>
      (\<exists>ty ms flds st2. rs_user_types st1 name = None \<and> type_by_id f tid = Inr ty \<and> bt_data ty = Composite ms \<and>
        btf_fields n f 0 ms [] (seed_type name (ucast (bt_size_or_type ty)) st1) = Some (Inr flds, st2) \<and>
        st' = finish_type name flds st2)"
    unfolding x by (auto simp: bind_run_Inr split: if_splits sum.splits btf_type_data.splits)
  note n = n [unfolded x]
  note same = ensure_type_name_grows(3) [OF n]
  from r show ?thesis
  proof (elim disjE exE conjE, goal_cases)
    case 1
    then show ?thesis using n same old by auto
  qed (rule new; (assumption | rule n | simp add: same))
qed

lemma btf_type_ref_step:
  assumes "btf_type_ref (Suc n) f tid st = Some (Inr t, st')"
  obtains (void) "tid = 0" "t = Void" "st' = st"
    | (leaf) ty where "type_by_id f tid = Inr ty" "leaf_ref (bt_kind ty) (bt_name ty) = Some t" "st' = st"
    | (pointer) ty t' where "type_by_id f tid = Inr ty" "bt_kind ty = Btf_Ptr" "t = Pointer t'"
        "btf_type_ref n f (bt_size_or_type ty) st = Some (Inr t', st')"
    | (array) ty e i k t1 st1 t2 where "type_by_id f tid = Inr ty" "bt_kind ty = Btf_Array" "bt_data ty = Array_Data e i k"
        "btf_type_ref n f i st = Some (Inr t1, st1)" "btf_type_ref n f e st1 = Some (Inr t2, st')" "t = Array (ucast k) t2"
    | (composite) ty name where "type_by_id f tid = Inr ty" "bt_kind ty = Btf_Struct \<and> t = Struct name \<or> bt_kind ty = Btf_Union \<and> t = Union name"
        "btf_user_type n f tid st = Some (Inr name, st')"
    | (enum) ty name where "type_by_id f tid = Inr ty" "bt_kind ty \<in> {Btf_Enum, Btf_Enum64}" "t = Enum name"
        "btf_ensure_enum f tid st = Some (Inr name, st')"
    | (through) ty where "type_by_id f tid = Inr ty" "bt_kind ty \<in> btf_aliases"
        "btf_type_ref n f (bt_size_or_type ty) st = Some (Inr t, st')"
proof (cases "tid = 0")
  case True
  with assms void show ?thesis by simp
next
  case False
  with assms obtain ty where ty: "type_by_id f tid = Inr ty" by (auto split: sum.splits)
  show ?thesis
    using False ty assms leaf pointer array composite enum through
    by (cases "bt_kind ty")
      (auto simp: map_run_Inr bind_run_Inr btf_aliases_def split: btf_type_data.splits)
qed

lemma btf_grows:
  "(\<forall>tid st t st'. btf_type_ref n f tid st = Some (Inr t, st') \<longrightarrow> grows st st') \<and>
   (\<forall>tid st name st'. btf_user_type n f tid st = Some (Inr name, st') \<longrightarrow>
      grows st st' \<and> rs_names st' tid = Some name \<and> rs_user_types st' name \<noteq> None) \<and>
   (\<forall>idx ms flds st flds' st'. btf_fields n f idx ms flds st = Some (Inr flds', st') \<longrightarrow> grows st st')"
proof (induction n)
  case 0
  then show ?case by simp
next
  case (Suc n)
  then have ref: "\<And>tid st t st'. btf_type_ref n f tid st = Some (Inr t, st') \<Longrightarrow> grows st st'"
    and user: "\<And>tid st name st'. btf_user_type n f tid st = Some (Inr name, st') \<Longrightarrow> grows st st'"
    and flds: "\<And>idx ms flds st flds' st'. btf_fields n f idx ms flds st = Some (Inr flds', st') \<Longrightarrow> grows st st'"
    by blast+
  have "grows st st'" if "btf_type_ref (Suc n) f tid st = Some (Inr t, st')" for tid st t st'
    using that by (cases rule: btf_type_ref_step)
      (auto intro: grows_refl grows_trans ref user btf_ensure_enum_grows(1))
  moreover have "grows st st' \<and> rs_names st' tid = Some name \<and> rs_user_types st' name \<noteq> None"
    if "btf_user_type (Suc n) f tid st = Some (Inr name, st')" for tid st name st'
    using that
  proof (cases rule: btf_user_type_Inr)
    case (old ut)
    then show ?thesis using ensure_type_name_grows [OF old(1)] by simp
  next
    case (new st1 st2 ty ms flds')
    note n = ensure_type_name_grows [OF new(1)]
    have "rs_user_types st1 name = None" using new(4) n(3) by simp
    note w = walked_type_grows [OF this flds [OF new(5)]]
    have "grows st st'" using grows_trans [OF n(1) w(1)] new(6) by simp
    moreover have "rs_names st' tid = Some name" unfolding new(6) by (rule growsD(3) [OF w(1) n(2)])
    ultimately show ?thesis unfolding new(6) w(2) by simp
  qed
  moreover have "grows st st'" if "btf_fields (Suc n) f idx ms fs st = Some (Inr flds', st')" for idx ms fs st flds' st'
    using that by (cases ms) (auto simp: bind_run_Inr intro: grows_refl grows_trans ref flds)
  ultimately show ?case by blast
qed

lemmas btf_type_ref_grows = btf_grows [THEN conjunct1, rule_format]

lemmas btf_user_type_grows =
  btf_grows [THEN conjunct2, THEN conjunct1, rule_format, THEN conjunct1]
  btf_grows [THEN conjunct2, THEN conjunct1, rule_format, THEN conjunct2, THEN conjunct1]
  btf_grows [THEN conjunct2, THEN conjunct1, rule_format, THEN conjunct2, THEN conjunct2]

lemmas btf_fields_grows = btf_grows [THEN conjunct2, THEN conjunct2, rule_format]

section \<open>The tables describe the file\<close>

lemma ensure_type_name_faithful:
  assumes "ensure_type_name f tid st = Some (Inr name, st')" "faithful f open_names {} st"
  shows "faithful f open_names {tid} st'"
proof -
  note step = ensure_type_name_step [OF assms(1)]
  have "given_name f tid name"
    using step btf_tables.describesD(5) [OF assms(2) [unfolded faithful_def]] by (auto simp: named_step_def)
  with step(1) show ?thesis using assms(2) unfolding faithful_def by (intro btf_tables.describes_named)
qed

lemma btf_ensure_enum_faithful:
  assumes "btf_ensure_enum f tid st = Some (Inr name, st')" "faithful f open_names {} st"
    "type_by_id f tid = Inr ty" "bt_kind ty \<in> {Btf_Enum, Btf_Enum64}"
  shows "faithful f open_names {} st'"
proof -
  have c: "\<not> composite_id f tid" using assms(3,4) by (auto simp: composite_id_def)
  from assms(1) show ?thesis
  proof (cases rule: btf_ensure_enum_cases)
    case (old e)
    note n = ensure_type_name_grows [OF old(1)]
    from ensure_type_name_faithful [OF old(1) assms(2)] show ?thesis
      unfolding faithful_def
      by (rule btf_tables.describes_close [OF _ n(2)]) (use c old(2) n(4) in simp_all)
  next
    case (new st1 ty' vals)
    note n = ensure_type_name_grows [OF new(1)]
    have "enum_of f (rs_names st1) name \<lparr> re_constants = map_of (rev vals) \<rparr>"
      using n(2) new(2,3) by (auto simp: enum_of_def)
    with ensure_type_name_faithful [OF new(1) assms(2)] show ?thesis
      unfolding faithful_def new(5) by (intro btf_tables.describes_enum [OF _ n(2) c])
  qed
qed

text \<open>The fields of one composite: one entry per member, in their order.\<close>

definition fields_of :: "btf_file \<Rightarrow> (u32 \<Rightarrow> string option) \<Rightarrow> nat \<Rightarrow> btf_member list \<Rightarrow> (string \<times> raw_field) list \<Rightarrow> bool" where
  "fields_of f names idx ms new \<longleftrightarrow>
     length new = length ms \<and> (\<forall>i < length ms. field_of f names (idx + i) (ms ! i) (new ! i))"

lemma fields_of_Cons:
  assumes "field_of f names idx m fl" "fields_of f names (Suc idx) ms new"
  shows "fields_of f names idx (m # ms) (fl # new)"
  using assms by (auto simp: fields_of_def less_Suc_eq_0_disj)

lemma btf_resolver_sound:
  "(\<forall>P tid st t st'. faithful f P {} st \<longrightarrow> btf_type_ref n f tid st = Some (Inr t, st') \<longrightarrow>
      faithful f P {} st' \<and> type_ref_of f (rs_names st') tid t) \<and>
   (\<forall>P tid st name st' ty. faithful f P {} st \<longrightarrow> type_by_id f tid = Inr ty \<longrightarrow> bt_kind ty \<in> {Btf_Struct, Btf_Union} \<longrightarrow>
      btf_user_type n f tid st = Some (Inr name, st') \<longrightarrow> faithful f P {} st') \<and>
   (\<forall>P idx ms flds st flds' st'. faithful f P {} st \<longrightarrow> btf_fields n f idx ms flds st = Some (Inr flds', st') \<longrightarrow>
      faithful f P {} st' \<and> (\<exists>new. flds' = update_all new flds \<and> fields_of f (rs_names st') idx ms new))"
proof (induction n)
  case 0
  then show ?case by simp
next
  case (Suc n)
  then have ref: "\<And>P tid st t st'. faithful f P {} st \<Longrightarrow> btf_type_ref n f tid st = Some (Inr t, st') \<Longrightarrow>
      faithful f P {} st' \<and> type_ref_of f (rs_names st') tid t"
    and user: "\<And>P tid st name st' ty. faithful f P {} st \<Longrightarrow> type_by_id f tid = Inr ty \<Longrightarrow>
      bt_kind ty \<in> {Btf_Struct, Btf_Union} \<Longrightarrow> btf_user_type n f tid st = Some (Inr name, st') \<Longrightarrow> faithful f P {} st'"
    and flds: "\<And>P idx ms flds st flds' st'. faithful f P {} st \<Longrightarrow> btf_fields n f idx ms flds st = Some (Inr flds', st') \<Longrightarrow>
      faithful f P {} st' \<and> (\<exists>new. flds' = update_all new flds \<and> fields_of f (rs_names st') idx ms new)"
    by blast+
  have "faithful f P {} st' \<and> type_ref_of f (rs_names st') tid t"
    if fa: "faithful f P {} st" and r: "btf_type_ref (Suc n) f tid st = Some (Inr t, st')" for P tid st t st'
    using r
  proof (cases rule: btf_type_ref_step)
    case void
    then show ?thesis using fa by (simp add: ref_void)
  next
    case (leaf ty)
    then show ?thesis using fa by (simp add: ref_leaf)
  next
    case (pointer ty t')
    then show ?thesis using ref [OF fa] by (auto intro: ref_pointer)
  next
    case (array ty e i k t1 st1 t2)
    then show ?thesis using ref [OF conjunct1 [OF ref [OF fa array(4)]] array(5)] by (auto intro: ref_array)
  next
    case (composite ty name)
    then have "faithful f P {} st'" using user [OF fa] by auto
    moreover have "rs_names st' tid = Some name" using composite(3) by (rule btf_user_type_grows)
    ultimately show ?thesis using composite(1,2) by (auto intro: ref_struct ref_union)
  next
    case (enum ty name)
    then have "faithful f P {} st'" using btf_ensure_enum_faithful [OF _ fa] by blast
    moreover have "rs_names st' tid = Some name" using enum(4) by (rule btf_ensure_enum_grows)
    ultimately show ?thesis using enum(1-3) by (auto intro: ref_enum)
  next
    case (through ty)
    then show ?thesis using ref [OF fa] by (auto intro: ref_alias)
  qed
  moreover have "faithful f P {} st'"
    if fa: "faithful f P {} st" and ty: "type_by_id f tid = Inr ty" "bt_kind ty \<in> {Btf_Struct, Btf_Union}"
      and r: "btf_user_type (Suc n) f tid st = Some (Inr name, st')" for P tid st name st' ty
    using r
  proof (cases rule: btf_user_type_Inr)
    case (old ut)
    note n = ensure_type_name_grows [OF old(1)]
    from ensure_type_name_faithful [OF old(1) fa] show ?thesis
      unfolding faithful_def
      by (rule btf_tables.describes_close [OF _ n(2)]) (use ty old(2) n(3) in \<open>auto simp: enumerated_id_def\<close>)
  next
    case (new st1 st2 ty' ms flds')
    note n = ensure_type_name_grows [OF new(1)]
    let ?sz = "ucast (bt_size_or_type ty') :: usize"
    have "rs_user_types st1 name = None" using new(4) n(3) by simp
    note g = btf_fields_grows [OF new(5)]
    have "\<not> enumerated_id f tid" using ty by (auto simp: enumerated_id_def)
    with ensure_type_name_faithful [OF new(1) fa] have "faithful f (insert name P) {} (seed_type name ?sz st1)"
      unfolding faithful_def by (intro btf_tables.describes_seed [OF _ n(2)])
    from flds [OF this new(5)] obtain fl where f2: "faithful f (insert name P) {} st2"
      and fl: "flds' = update_all fl []" "fields_of f (rs_names st2) 0 ms fl" by blast
    have s: "rs_user_types st2 name = Some \<lparr> ut_size = ?sz, ut_fields = [] \<rparr>" by (rule growsD(1) [OF g]) simp
    have "rs_names st2 tid = Some name" by (rule growsD(3) [OF g]) (simp add: n(2))
    with fl new(2,3) have "layout_of f (rs_names st2) name (\<lparr> ut_size = ?sz, ut_fields = [] \<rparr>\<lparr> ut_fields := flds' \<rparr>)"
      unfolding layout_of_def fields_of_def by (auto simp: map_of_update_all)
    then show ?thesis 
      using f2 unfolding new(6) faithful_def by (intro btf_tables.describes_finish [OF _ s])
  qed
  moreover have "faithful f P {} st' \<and> (\<exists>new. flds' = update_all new fs \<and> fields_of f (rs_names st') idx ms new)"
    if fa: "faithful f P {} st" and r: "btf_fields (Suc n) f idx ms fs st = Some (Inr flds', st')"
    for P idx ms fs st flds' st'
  proof (cases ms)
    case Nil
    then show ?thesis using fa r by (auto simp: update_all_def fields_of_def intro: exI [of _ "[]"])
  next
    case (Cons m ms')
    let ?fl = "\<lambda>t. (btf_field_name idx m, btf_field m t)"
    from r Cons obtain t st1 where t: "btf_type_ref n f (bm_type_id m) st = Some (Inr t, st1)"
      and rest: "btf_fields n f (Suc idx) ms' (AList.update (btf_field_name idx m) (btf_field m t) fs) st1 = Some (Inr flds', st')"
      by (auto simp: bind_run_Inr)
    from ref [OF fa t] have f1: "faithful f P {} st1" and tr: "type_ref_of f (rs_names st1) (bm_type_id m) t" by simp_all
    from flds [OF f1 rest] obtain new where new: "faithful f P {} st'"
        "flds' = update_all new (AList.update (btf_field_name idx m) (btf_field m t) fs)"
        "fields_of f (rs_names st') (Suc idx) ms' new" by blast
    have "rs_names st1 \<subseteq>\<^sub>m rs_names st'" using btf_fields_grows [OF rest] by (simp add: grows_def)
    then have "field_of f (rs_names st') idx m (?fl t)" using type_ref_of_mono [OF tr] by (auto simp: field_of_def)
    then have "fields_of f (rs_names st') idx ms (?fl t # new)" unfolding Cons using new(3) by (rule fields_of_Cons)
    moreover have "flds' = update_all (?fl t # new) fs" by (simp add: new(2) update_all_def)
    ultimately show ?thesis using new(1) by blast
  qed
  ultimately show ?case by blast
qed

text \<open>The index of a parsed section: a name leads to a type of that kind with that name.\<close>

definition index_sound :: "btf_file \<Rightarrow> bool" where
  "index_sound f \<longleftrightarrow>
     (\<forall>kind name tid. bf_named f (kind, name) = Some tid \<longrightarrow>
        (\<exists>ty. type_by_id f tid = Inr ty \<and> bt_kind ty = kind \<and> bt_name ty = name))"

lemma index_of_sound:
  assumes "length types < 2 ^ 32" "index_of types (kind, name) = Some tid"
  shows "\<exists>ty. type_by_id \<lparr> bf_types = types, bf_named = g \<rparr> tid = Inr ty \<and> bt_kind ty = kind \<and> bt_name ty = name"
proof -
  from assms(2) obtain i where i: "position (\<lambda>t. bt_kind t = kind \<and> bt_name t = name) types = Some i" "tid = of_nat (i + 1)"
    by (auto simp: index_of_def split: if_splits)
  from i(1) have at: "i < length types" "bt_kind (types ! i) = kind" "bt_name (types ! i) = name"
    by (simp_all add: position_Some_iff)
  have "unat (of_nat i :: u32) = i" using at(1) assms(1) by (simp add: unsigned_of_nat take_bit_nat_eq_self)
  moreover have "unat tid = i + 1"
    unfolding i(2) using at(1) assms(1) by (simp add: unsigned_of_nat take_bit_nat_eq_self del: of_nat_Suc of_nat_add)
  then have "tid \<noteq> 0" by auto
  moreover have "tid - 1 = of_nat i" by (simp add: i(2))
  ultimately show ?thesis using at by (simp add: type_by_id_def nth_opt_def)
qed

lemma btf_types_from_indexed:
  assumes "btf_types_from tys strs p types (index_of types) = Inr f" "length types \<le> p" "length types \<le> length tys"
  shows "bf_named f = index_of (bf_types f)" "length (bf_types f) \<le> length tys"
proof -
  have "bf_named f = index_of (bf_types f) \<and> length (bf_types f) \<le> length tys"
    if "btf_types_from tys strs p types named = Inr f" "named = index_of types" "length types \<le> p" "length types \<le> length tys"
    for tys strs p types named f
    using that
  proof (induction tys strs p types named rule: btf_types_from.induct)
    case (1 tys strs offset types named)
    show ?case
    proof (cases "length tys \<le> offset")
      case True
      with 1(2-5) show ?thesis by (subst (asm) btf_types_from.simps) auto
    next
      case False
      with 1(2) obtain r where r: "btf_type_at tys strs offset = Inr r"
        and rest: "btf_types_from tys strs (snd r) (types @ [fst r])
          (btf_index (fst r) (of_nat (length types + 1)) named) = Inr f"
        by (subst (asm) btf_types_from.simps) (auto simp: rbind_def split: sum.splits)
      have "offset < snd r" using r by (intro btf_type_at_less [of tys strs offset "fst r"]) simp
      with 1(4) False show ?thesis
        using 1(1) [OF False r rest] index_of_snoc [of "fst r" types] 1(3) by simp
    qed
  qed
  from this [OF assms(1) refl assms(2,3)]
  show "bf_named f = index_of (bf_types f)" "length (bf_types f) \<le> length tys" by simp_all
qed

lemma slice_length:
  assumes "slice data off len = Inr bs"
  shows "length bs \<le> unat len"
proof -
  have "unat (sat_add off len) - unat off \<le> unat len" by (simp add: unat_sat_add)
  with assms show ?thesis by (auto simp: slice_def Let_def split: if_splits)
qed

lemma btf_parse_index_sound:
  assumes "btf_parse data = Inr f"
  shows "index_sound f"
proof -
  have empty: "Map.empty = index_of []" by (auto simp: index_of_def fun_eq_iff)
  from assms obtain tys strs off len where t: "btf_types_from tys strs 0 [] Map.empty = Inr f"
    and s: "slice data off (ucast (len :: u32)) = Inr tys"
    by (auto simp: btf_parse_def result_simps split: if_splits)
  have "unat (ucast len :: u64) < 2 ^ 32" using unsigned_less [of len] by (simp add: unsigned_ucast_eq take_bit_nat_eq_self)
  with slice_length [OF s] have "length tys < 2 ^ 32" by linarith
  with btf_types_from_indexed [OF t [unfolded empty]] have i: "bf_named f = index_of (bf_types f)" "length (bf_types f) < 2 ^ 32"
    by simp_all
  show ?thesis
    unfolding index_sound_def i(1)
    using index_of_sound [OF i(2), where g = "bf_named f"] by (cases f) simp
qed

lemma index_soundD:
  assumes "index_sound f"
  shows "btf_find_named f kind name = Inr tid \<Longrightarrow> \<exists>ty. type_by_id f tid = Inr ty \<and> bt_kind ty = kind"
    and "btf_maybe_named f kind name = Some tid \<Longrightarrow> \<exists>ty. type_by_id f tid = Inr ty \<and> bt_kind ty = kind"
  using assms unfolding index_sound_def btf_find_named_def btf_maybe_named_def ok_or_def
  by (fastforce split: option.splits)+

lemma btf_require_sound:
  assumes "index_sound f" "faithful f {} {} st" "btf_require n f names st = Some (Inr (), st')"
  shows "faithful f {} {} st' \<and> grows st st' \<and>
    (\<forall>name \<in> set names. \<exists>tid nm. btf_find_named f Btf_Struct name = Inr tid \<and>
       rs_names st' tid = Some nm \<and> rs_user_types st' nm \<noteq> None)"
  using assms(2,3)
proof (induction names arbitrary: st)
  case Nil
  then show ?case by (simp add: grows_refl)
next
  case (Cons name names)
  then obtain tid nm st1 where f: "btf_find_named f Btf_Struct name = Inr tid"
    and u: "btf_user_type n f tid st = Some (Inr nm, st1)" and rest: "btf_require n f names st1 = Some (Inr (), st')"
    by (auto simp: bind_run_Inr split: sum.splits)
  from f assms(1) obtain ty where ty: "type_by_id f tid = Inr ty" "bt_kind ty = Btf_Struct"
    using index_soundD(1) by blast
  note g = btf_user_type_grows [OF u]
  have "faithful f {} {} st1" using btf_resolver_sound Cons.prems(1) ty u by blast
  note IH = Cons.IH [OF this rest]
  have g1: "grows st1 st'" using IH by simp
  have "rs_names st' tid = Some nm" using growsD(3) [OF g1 g(2)] .
  moreover have "rs_user_types st' nm \<noteq> None" using g(3) growsD(1) [OF g1] by auto
  ultimately show ?case using IH f grows_trans [OF g(1) g1] by auto
qed

lemma btf_optional_sound:
  assumes "index_sound f" "faithful f {} {} st" "btf_optional n f names st = Some (Inr (), st')"
  shows "faithful f {} {} st' \<and> grows st st'"
  using assms(2,3)
proof (induction names arbitrary: st)
  case Nil
  then show ?case by (simp add: grows_refl)
next
  case (Cons name names)
  show ?case
  proof (cases "btf_maybe_named f Btf_Struct name")
    case None
    with Cons show ?thesis by simp
  next
    case (Some tid)
    with Cons.prems(2) obtain nm st1 where u: "btf_user_type n f tid st = Some (Inr nm, st1)"
      and rest: "btf_optional n f names st1 = Some (Inr (), st')" by (auto simp: bind_run_Inr)
    from Some assms(1) obtain ty where ty: "type_by_id f tid = Inr ty" "bt_kind ty = Btf_Struct"
      using index_soundD(2) by blast
    have "faithful f {} {} st1" using btf_resolver_sound Cons.prems(1) ty u by blast
    from Cons.IH [OF this rest] show ?thesis using grows_trans [OF btf_user_type_grows(1) [OF u]] by blast
  qed
qed

lemma new_resolver_faithful: "faithful f {} {} new_resolver"
  unfolding faithful_def by (rule btf_tables.describes_new)

lemma btf_resolve_sound:
  assumes "index_sound f" "btf_resolve n f = Some (Inr (), st)"
  shows "faithful f {} {} st"
    and "\<forall>name \<in> set REQUIRED_TYPES. \<exists>tid nm. btf_find_named f Btf_Struct name = Inr tid \<and>
       rs_names st tid = Some nm \<and> rs_user_types st nm \<noteq> None"
    and "\<exists>tid nm. btf_find_named f Btf_Enum ''module_state'' = Inr tid \<and> rs_names st tid = Some nm \<and> rs_enums st nm \<noteq> None"
proof -
  have "\<exists>tid. btf_find_named f Btf_Enum ''module_state'' = Inr tid"
    using assms(2) unfolding btf_resolve_def
    by (cases "btf_find_named f Btf_Enum ''module_state''") (auto simp: bind_run_Inr simp del: btf_optional.simps)
  with assms(2) obtain st1 st2 st3 tid nm where r: "btf_require n f REQUIRED_TYPES new_resolver = Some (Inr (), st1)"
      "btf_optional n f OPTIONAL_MAPLE_TYPES st1 = Some (Inr (), st2)"
      "btf_optional n f [''module_memory''] st2 = Some (Inr (), st3)"
    and e: "btf_find_named f Btf_Enum ''module_state'' = Inr tid" "btf_ensure_enum f tid st3 = Some (Inr nm, st)"
    unfolding btf_resolve_def by (auto simp: bind_run_Inr map_run_Inr simp del: btf_optional.simps split: sum.splits)
  note s1 = btf_require_sound [OF assms(1) new_resolver_faithful r(1)]
  note s2 = btf_optional_sound [OF assms(1) conjunct1 [OF s1] r(2)]
  note s3 = btf_optional_sound [OF assms(1) conjunct1 [OF s2] r(3)]
  from e(1) assms(1) obtain ty where ty: "type_by_id f tid = Inr ty" "bt_kind ty = Btf_Enum"
    using index_soundD(1) by blast
  then show "faithful f {} {} st" using btf_ensure_enum_faithful [OF e(2) conjunct1 [OF s3]] by auto
  note ge = btf_ensure_enum_grows [OF e(2)]
  have g: "grows st1 st" using s2 s3 ge(1) grows_trans by blast
  show "\<forall>name \<in> set REQUIRED_TYPES. \<exists>tid nm. btf_find_named f Btf_Struct name = Inr tid \<and>
       rs_names st tid = Some nm \<and> rs_user_types st nm \<noteq> None"
    using s1 growsD(1,3) [OF g] by (metis not_None_eq)
  show "\<exists>tid nm. btf_find_named f Btf_Enum ''module_state'' = Inr tid \<and> rs_names st tid = Some nm \<and> rs_enums st nm \<noteq> None"
    using e(1) ge(2,3) by blast
qed

lemma load_btf_profile_sound:
  assumes "load_btf_profile fuel data = Some (Inr rp)"
  shows "\<exists>f st. btf_parse data = Inr f \<and> faithful f {} {} st \<and>
    rp_symbols rp = Map.empty \<and> rp_user_types rp = rs_user_types st \<and> rp_enums rp = rs_enums st \<and>
    (\<forall>name \<in> set REQUIRED_TYPES. \<exists>tid nm. btf_find_named f Btf_Struct name = Inr tid \<and>
       rs_names st tid = Some nm \<and> rs_user_types st nm \<noteq> None) \<and>
    (\<exists>tid nm. btf_find_named f Btf_Enum ''module_state'' = Inr tid \<and> rs_names st tid = Some nm \<and> rs_enums st nm \<noteq> None)"
proof -
  from assms obtain f r where f: "btf_parse data = Inr f" and res: "btf_resolve fuel f = Some r"
    and rp: "rbind (fst r) (\<lambda>_. Inr \<lparr> rp_symbols = Map.empty, rp_user_types = rs_user_types (snd r), rp_enums = rs_enums (snd r) \<rparr>) = Inr rp"
    by (auto simp: load_btf_profile_def split_def split: sum.splits)
  then obtain st where r: "btf_resolve fuel f = Some (Inr (), st)"
    and rp: "rp = \<lparr> rp_symbols = Map.empty, rp_user_types = rs_user_types st, rp_enums = rs_enums st \<rparr>"
    by (cases r; cases "fst r") auto
  note s = btf_resolve_sound [OF btf_parse_index_sound [OF f] r]
  show ?thesis
    by (intro exI [of _ f] exI [of _ st] conjI f s) (simp_all add: rp)
qed

end
