(* ===== verification/Btf_Ends.thy ===== *)
theory Btf_Ends
  imports Btf_Resolver
begin

text \<open>
  When the BTF resolver of \<open>memflow-linux-defs/src/vmlinux.rs\<close> ends, and when it succeeds: its recursion goes through
  pointers, arrays and aliases, which have to end, and through composites, each of which it enters once.
\<close>

section \<open>Fuel of the resolver\<close>

lemma btf_fuel_Suc:
  "(\<forall>tid st. run_le (btf_type_ref n f tid st) (btf_type_ref (Suc n) f tid st)) \<and>
   (\<forall>tid st. run_le (btf_user_type n f tid st) (btf_user_type (Suc n) f tid st)) \<and>
   (\<forall>idx ms flds st. run_le (btf_fields n f idx ms flds st) (btf_fields (Suc n) f idx ms flds st))"
proof (induction n)
  case 0
  then show ?case by simp
next
  case (Suc n)
  then have ref: "\<And>tid st. run_le (btf_type_ref n f tid st) (btf_type_ref (Suc n) f tid st)"
    and user: "\<And>tid st. run_le (btf_user_type n f tid st) (btf_user_type (Suc n) f tid st)"
    and flds: "\<And>idx ms flds st. run_le (btf_fields n f idx ms flds st) (btf_fields (Suc n) f idx ms flds st)"
    by blast+
  have "run_le (btf_type_ref (Suc n) f tid st) (btf_type_ref (Suc (Suc n)) f tid st)" for tid st
  proof (cases "type_by_id f tid")
    case (Inr ty)
    note step = btf_type_ref.simps(2) [of n f tid st] btf_type_ref.simps(2) [of "Suc n" f tid st]
    show ?thesis
      unfolding step Inr sum.case
      by (cases "bt_kind ty"; cases "bt_data ty")
        (simp_all add: ref user map_run_le bind_run_le del: btf_type_ref.simps btf_user_type.simps)
  qed simp
  moreover have "run_le (btf_user_type (Suc n) f tid st) (btf_user_type (Suc (Suc n)) f tid st)" for tid st
    unfolding btf_user_type.simps(2) [of n] btf_user_type.simps(2) [of "Suc n"]
    by (rule bind_run_le) (auto split: sum.split btf_type_data.split intro!: bind_run_le flds
        simp del: btf_fields.simps)
  moreover have "run_le (btf_fields (Suc n) f idx ms fs st) (btf_fields (Suc (Suc n)) f idx ms fs st)" for idx ms fs st
    by (cases ms; simp only: btf_fields.simps(2,3) run_le_refl)
      (auto intro!: bind_run_le flds ref simp del: btf_fields.simps btf_type_ref.simps)
  ultimately show ?case by blast
qed

lemma btf_fuelled:
  "fuelled (\<lambda>n. btf_type_ref n f tid st)" "fuelled (\<lambda>n. btf_user_type n f tid st)"
  "fuelled (\<lambda>n. btf_fields n f idx ms flds st)"
  using btf_fuel_Suc by (auto simp only: fuelled_def)

section \<open>When the resolver answers\<close>

text \<open>The references it follows without a composite between: pointers, arrays and aliases.\<close>

fun direct_refs :: "btf_type_data \<Rightarrow> u32 list" where
  "direct_refs (Array_Data e i _) = [e, i]"
| "direct_refs _ = []"

definition type_refs :: "btf_type \<Rightarrow> u32 list" where
  "type_refs ty =
     (if bt_kind ty = Btf_Array then direct_refs (bt_data ty)
      else if bt_kind ty = Btf_Ptr \<or> bt_kind ty \<in> btf_aliases then [bt_size_or_type ty] else [])"

text \<open>No such chain comes back: the ids can be ranked so that every reference goes to a smaller rank.\<close>

definition ranked :: "(u32 \<Rightarrow> nat) \<Rightarrow> btf_file \<Rightarrow> bool" where
  "ranked rank f \<longleftrightarrow>
     (\<forall>i \<in> set [0 ..< length (bf_types f)]. \<forall>tid \<in> set (type_refs (bf_types f ! i)). rank tid < rank (of_nat (Suc i)))"

definition refers :: "btf_file \<Rightarrow> u32 \<Rightarrow> u32 \<Rightarrow> bool" where
  "refers f tid tid' \<longleftrightarrow> (\<exists>ty. type_by_id f tid = Inr ty \<and> tid' \<in> set (type_refs ty))"

lemma ranked_refers:
  assumes "ranked rank f" "refers f tid tid'"
  shows "rank tid' < rank tid"
proof -
  from assms(2) obtain ty where ty: "type_by_id f tid = Inr ty" "tid' \<in> set (type_refs ty)" by (auto simp: refers_def)
  let ?i = "unat (tid - 1)"
  from ty(1) have i: "?i < length (bf_types f)" "ty = bf_types f ! ?i"
    by (auto simp: type_by_id_def nth_opt_def split: if_splits)
  have "of_nat (Suc ?i) = tid" by simp
  moreover have "rank tid' < rank (of_nat (Suc ?i))" using assms(1) i ty(2) by (auto simp: ranked_def simp del: of_nat_Suc)
  ultimately show ?thesis by simp
qed

lemma ensure_type_name_answers: "\<exists>r. ensure_type_name f tid st = Some r"
  by (auto simp: ensure_type_name_def Let_def split: option.split sum.split prod.split)

lemma btf_user_type_answers:
  assumes flds: "\<And>idx ms flds st. card (unsettled st) < c \<Longrightarrow> answers (\<lambda>n. btf_fields n f idx ms flds st)"
    and "card (unsettled st) \<le> c"
  shows "answers (\<lambda>n. btf_user_type n f tid st)"
proof (rule answers_Suc)
  obtain r st1 where e: "ensure_type_name f tid st = Some (r, st1)" using ensure_type_name_answers [of f tid st] by auto
  show "answers (\<lambda>n. btf_user_type (Suc n) f tid st)"
  proof (cases "\<exists>name ty ms. r = Inr name \<and> rs_user_types st1 name = None \<and> type_by_id f tid = Inr ty \<and> bt_data ty = Composite ms")
    case False
    then show ?thesis
      by (cases r; cases "rs_user_types st1 (projr r)"; cases "type_by_id f tid"; cases "bt_data (projr (type_by_id f tid))")
        (simp_all add: e answers_const)
  next
    case True
    then obtain name ty ms where t: "r = Inr name" "rs_user_types st1 name = None" "type_by_id f tid = Inr ty"
        "bt_data ty = Composite ms" by blast
    let ?seed = "seed_type name (ucast (bt_size_or_type ty)) st1"
    have e': "ensure_type_name f tid st = Some (Inr name, st1)" using e t(1) by simp
    note n = ensure_type_name_grows [OF e']
    have "card (unsettled ?seed) < card (unsettled st1)"
      by (rule unsettled_less [where name = name and tid = tid])
        (auto simp: t(2) n(2) intro!: growsI split: if_splits)
    also have "\<dots> \<le> c" using unsettled_mono [OF n(1)] assms(2) by simp
    finally have "answers (\<lambda>n. btf_fields n f 0 ms [] ?seed)" by (rule flds)
    then have "answers (\<lambda>n. bind_run (btf_fields n f 0 ms [] ?seed) (\<lambda>flds st. Some (Inr name, finish_type name flds st)))"
      by (intro answers_bind btf_fuelled fuelled_const answers_const)
    then show ?thesis by (simp add: e' t)
  qed
qed

lemma btf_ensure_enum_answers: "\<exists>r. btf_ensure_enum f tid st = Some r"
proof -
  obtain r st1 where "ensure_type_name f tid st = Some (r, st1)" using ensure_type_name_answers [of f tid st] by auto
  then show ?thesis
    by (cases r) (auto simp: btf_ensure_enum_def split: sum.split btf_type_data.split)
qed

lemma btf_type_ref_answers:
  assumes rank: "\<And>t t'. refers f t t' \<Longrightarrow> rank t' < (rank t :: nat)"
    and user: "\<And>tid st. card (unsettled st) \<le> c \<Longrightarrow> answers (\<lambda>n. btf_user_type n f tid st)"
    and "card (unsettled st) \<le> c"
  shows "answers (\<lambda>n. btf_type_ref n f tid st)"
  using assms(3)
proof (induction "rank tid" arbitrary: tid st rule: less_induct)
  case less
  have sub: "answers (\<lambda>n. btf_type_ref n f t st')" if "refers f tid t" "card (unsettled st') \<le> c" for t st'
    using less.hyps rank that by blast
  obtain renum st1 where en: "btf_ensure_enum f tid st = Some (renum, st1)"
    using btf_ensure_enum_answers [of f tid st] by auto
  show ?case
  proof (rule answers_Suc, cases "tid = 0")
    case True
    then show "answers (\<lambda>n. btf_type_ref (Suc n) f tid st)" by (simp add: answers_const)
  next
    case False
    show "answers (\<lambda>n. btf_type_ref (Suc n) f tid st)"
    proof (cases "type_by_id f tid")
      case (Inl e)
      then show ?thesis using False by (simp add: answers_const)
    next
      case (Inr ty)
      show ?thesis
      proof (cases "bt_kind ty = Btf_Array")
        case True
        show ?thesis
        proof (cases "bt_data ty")
          case (Array_Data e i k)
          with True Inr have "refers f tid e" "refers f tid i" by (simp_all add: refers_def type_refs_def)
          note sub = sub [OF this(1)] sub [OF this(2)]
          have "answers (\<lambda>n. bind_run (btf_type_ref n f i st) (\<lambda>_ st. map_run (Array (ucast k)) (btf_type_ref n f e st)))"
          proof (rule answers_bind)
            fix n x st'
            assume "btf_type_ref n f i st = Some (Inr x, st')"
            then have "card (unsettled st') \<le> c" using unsettled_mono [OF btf_type_ref_grows] less.prems order_trans by blast
            then show "answers (\<lambda>n. map_run (Array (ucast k)) (btf_type_ref n f e st'))"
              using sub(1) by (intro answers_map btf_fuelled)
          qed (auto intro: btf_fuelled fuelled_map sub(2) less.prems)
          then show ?thesis using False Inr True Array_Data by simp
        qed (use False Inr True in \<open>simp_all add: answers_const\<close>)
      next
        case no_array: False
        show ?thesis
        proof (cases "bt_kind ty = Btf_Ptr \<or> bt_kind ty \<in> btf_aliases")
          case True
          with Inr no_array have "refers f tid (bt_size_or_type ty)" by (simp add: refers_def type_refs_def)
          note s = sub [OF this less.prems]
          then show ?thesis
            using False Inr True answers_map [OF btf_fuelled(1) s, of Pointer] by (auto simp: btf_aliases_def)
        next
          case other: False
          then show ?thesis
            using False Inr no_array en answers_map [OF btf_fuelled(2) user [OF less.prems]]
            by (cases renum; cases "bt_kind ty") (simp_all add: btf_aliases_def answers_const map_run_def)
        qed
      qed
    qed
  qed
qed

lemma btf_fields_answers:
  assumes ref: "\<And>tid st. card (unsettled st) \<le> c \<Longrightarrow> answers (\<lambda>n. btf_type_ref n f tid st)"
    and "card (unsettled st) \<le> c"
  shows "answers (\<lambda>n. btf_fields n f idx ms flds st)"
  using assms(2)
proof (induction ms arbitrary: idx flds st)
  case Nil
  show ?case by (rule answers_Suc) (simp add: answers_const)
next
  case (Cons m ms)
  have "answers (\<lambda>n. bind_run (btf_type_ref n f (bm_type_id m) st) (\<lambda>ty st.
      btf_fields n f (Suc idx) ms (AList.update (btf_field_name idx m) (btf_field m ty) flds) st))"
  proof (rule answers_bind)
    fix n x st'
    assume "btf_type_ref n f (bm_type_id m) st = Some (Inr x, st')"
    then have "card (unsettled st') \<le> c" using unsettled_mono [OF btf_type_ref_grows] Cons.prems order_trans by blast
    then show "answers (\<lambda>n. btf_fields n f (Suc idx) ms (AList.update (btf_field_name idx m) (btf_field m x) flds) st')"
      by (rule Cons.IH)
  qed (rule btf_fuelled(1) btf_fuelled(3) ref [OF Cons.prems])+
  then show ?case by - (rule answers_Suc, simp)
qed

lemma btf_answers:
  assumes rank: "\<And>t t'. refers f t t' \<Longrightarrow> rank t' < (rank t :: nat)"
  shows "answers (\<lambda>n. btf_user_type n f tid st)"
proof -
  have "card (unsettled st) \<le> c \<Longrightarrow> answers (\<lambda>n. btf_user_type n f tid st)" for c tid st
  proof (induction c arbitrary: tid st rule: less_induct)
    case (less c)
    have "answers (\<lambda>n. btf_fields n f idx ms flds st')" if "card (unsettled st') < c" for idx ms flds st'
      by (rule btf_fields_answers [where c = "card (unsettled st')"])
        (rule btf_type_ref_answers [where rank = rank], rule rank, assumption, rule less.IH [OF that], simp_all)
    then show ?case using less.prems by (rule btf_user_type_answers)
  qed
  then show ?thesis by blast
qed

lemma btf_require_fuelled: "fuelled (\<lambda>n. btf_require n f names st)"
proof (induction names arbitrary: st)
  case (Cons name names)
  then show ?case by (cases "btf_find_named f Btf_Struct name") (auto intro: fuelled_const fuelled_bind btf_fuelled)
qed (simp add: fuelled_const)

lemma btf_optional_fuelled: "fuelled (\<lambda>n. btf_optional n f names st)"
proof (induction names arbitrary: st)
  case (Cons name names)
  then show ?case by (cases "btf_maybe_named f Btf_Struct name") (auto intro: fuelled_const fuelled_bind btf_fuelled)
qed (simp add: fuelled_const)

lemma btf_require_answers:
  assumes "\<And>tid st. answers (\<lambda>n. btf_user_type n f tid st)"
  shows "answers (\<lambda>n. btf_require n f names st)"
proof (induction names arbitrary: st)
  case (Cons name names)
  then show ?case
    by (cases "btf_find_named f Btf_Struct name")
      (auto intro: answers_const answers_bind btf_fuelled btf_require_fuelled assms)
qed (simp add: answers_const)

lemma btf_optional_answers:
  assumes "\<And>tid st. answers (\<lambda>n. btf_user_type n f tid st)"
  shows "answers (\<lambda>n. btf_optional n f names st)"
proof (induction names arbitrary: st)
  case (Cons name names)
  then show ?case
    by (cases "btf_maybe_named f Btf_Struct name")
      (auto intro: answers_const answers_bind btf_fuelled btf_optional_fuelled assms)
qed (simp add: answers_const)

lemma btf_module_state_fuelled:
  "fuelled (\<lambda>n. case btf_find_named f Btf_Enum ''module_state'' of
     Inl e \<Rightarrow> Some (Inl e, st) | Inr enum_id \<Rightarrow> map_run (\<lambda>_. ()) (btf_ensure_enum f enum_id st))"
  by (rule fuelled_const)

lemma btf_resolve_fuelled: "fuelled (\<lambda>n. btf_resolve n f)"
  unfolding btf_resolve_def by (intro fuelled_bind btf_require_fuelled btf_optional_fuelled fuelled_const)

lemma btf_resolve_answers:
  assumes "\<And>tid st. answers (\<lambda>n. btf_user_type n f tid st)"
  shows "answers (\<lambda>n. btf_resolve n f)"
proof -
  have "\<exists>r. (case btf_find_named f Btf_Enum ''module_state'' of
     Inl e \<Rightarrow> Some (Inl e, st) | Inr enum_id \<Rightarrow> map_run (\<lambda>_. ()) (btf_ensure_enum f enum_id st)) = Some r" for st
    using btf_ensure_enum_answers [of f _ st]
    by (auto simp: map_run_def bind_run_def split: sum.split option.split prod.split) (metis option.distinct(1))
  then have "answers (\<lambda>n. case btf_find_named f Btf_Enum ''module_state'' of
     Inl e \<Rightarrow> Some (Inl e, st) | Inr enum_id \<Rightarrow> map_run (\<lambda>_. ()) (btf_ensure_enum f enum_id st))" for st
    unfolding answers_def by (metis option.distinct(1))
  then show ?thesis
    unfolding btf_resolve_def
    by (intro answers_bind fuelled_bind btf_require_fuelled btf_optional_fuelled fuelled_const
        btf_require_answers btf_optional_answers assms)
qed

lemma btf_resolve_ends:
  assumes "ranked rank f"
  shows "\<exists>fuel r. btf_resolve fuel f = Some r \<and> (\<forall>n. fuel \<le> n \<longrightarrow> btf_resolve n f = Some r)"
proof -
  obtain fuel r where r: "btf_resolve fuel f = Some r"
    using btf_resolve_answers [OF btf_answers [where rank = rank, OF ranked_refers [OF assms]]] unfolding answers_def by blast
  then show ?thesis using fuelled_ge [OF btf_resolve_fuelled r] by blast
qed

lemma load_btf_profile_ends:
  assumes "btf_parse data = Inr f" "ranked rank f"
  shows "\<exists>fuel r. load_btf_profile fuel data = Some r \<and> (\<forall>n. fuel \<le> n \<longrightarrow> load_btf_profile n data = Some r)"
proof -
  obtain fuel r where r: "btf_resolve fuel f = Some r" "\<forall>n. fuel \<le> n \<longrightarrow> btf_resolve n f = Some r"
    using btf_resolve_ends [OF assms(2)] by blast
  then have "\<forall>n. fuel \<le> n \<longrightarrow> load_btf_profile n data = load_btf_profile fuel data"
    using r by (simp add: load_btf_profile_def assms(1))
  moreover obtain r' where "load_btf_profile fuel data = Some r'"
    using r by (cases r) (auto simp: load_btf_profile_def assms(1))
  ultimately show ?thesis by auto
qed

text \<open>A chain that does come back has no answer at any fuel: each of its types refers to another of them.\<close>

lemma btf_loop_never_answers:
  assumes "\<And>tid. tid \<in> L \<Longrightarrow> tid \<noteq> 0 \<and> (\<exists>ty. type_by_id f tid = Inr ty \<and>
      (bt_kind ty = Btf_Ptr \<or> bt_kind ty \<in> btf_aliases) \<and> bt_size_or_type ty \<in> L)"
    and "tid \<in> L"
  shows "btf_type_ref n f tid st = None"
  using assms(2)
proof (induction n arbitrary: tid)
  case (Suc n)
  from assms(1) [OF this(2)] obtain ty where "tid \<noteq> 0" "type_by_id f tid = Inr ty"
      "bt_kind ty = Btf_Ptr \<or> bt_kind ty \<in> btf_aliases" "bt_size_or_type ty \<in> L" by blast
  with Suc.IH show ?case by (auto simp: btf_aliases_def map_run_def)
qed simp

text \<open>
  C14. When no chain of pointers, arrays and aliases of a BTF section comes back to itself, the resolver
  ends on it, however its structures refer to each other: there is a fuel from which on it has one answer.
\<close>

theorem load_btf_profile_terminates:
  assumes "btf_parse data = Inr f" "ranked rank f"
  shows "\<exists>fuel r. load_btf_profile fuel data = Some r \<and> (\<forall>n. fuel \<le> n \<longrightarrow> load_btf_profile n data = Some r)"
  using assms by (rule load_btf_profile_ends)

section \<open>When the resolver succeeds\<close>

text \<open>A section is closed when every reference in it is to a type of it, or to void, and the payloads are those of the kinds.\<close>

definition known_id :: "btf_file \<Rightarrow> u32 \<Rightarrow> bool" where
  "known_id f tid \<longleftrightarrow> unat tid \<le> length (bf_types f)"

definition closed_type :: "btf_file \<Rightarrow> btf_type \<Rightarrow> bool" where
  "closed_type f ty \<longleftrightarrow>
     list_all (known_id f) (type_refs ty) \<and>
     (case bt_data ty of
        Composite ms \<Rightarrow> list_all (\<lambda>m. known_id f (bm_type_id m)) ms
      | _ \<Rightarrow> bt_kind ty \<noteq> Btf_Struct \<and> bt_kind ty \<noteq> Btf_Union) \<and>
     (case bt_data ty of Enum_Data _ \<Rightarrow> True | _ \<Rightarrow> bt_kind ty \<noteq> Btf_Enum \<and> bt_kind ty \<noteq> Btf_Enum64) \<and>
     (case bt_data ty of Array_Data _ _ _ \<Rightarrow> True | _ \<Rightarrow> bt_kind ty \<noteq> Btf_Array)"

definition closed_file :: "btf_file \<Rightarrow> bool" where
  "closed_file f \<longleftrightarrow> list_all (closed_type f) (bf_types f)"

lemma type_by_id_mem: "type_by_id f tid = Inr ty \<Longrightarrow> ty \<in> set (bf_types f)"
  by (auto simp: type_by_id_def nth_opt_def ok_or_def split: if_splits)

lemma known_type:
  assumes "known_id f tid" "tid \<noteq> 0"
  shows "\<exists>ty. type_by_id f tid = Inr ty"
proof -
  have "unat (tid - 1) = unat tid - 1" using assms(2) by (simp add: unat_minus_one)
  moreover have "0 < unat tid" using assms(2) by (simp add: unat_gt_0)
  ultimately show ?thesis using assms by (auto simp: known_id_def type_by_id_def nth_opt_def)
qed

lemma ensure_type_name_good: "type_by_id f tid = Inr ty \<Longrightarrow> good (ensure_type_name f tid st)"
  by (auto simp: ensure_type_name_def good_def Let_def split: option.split prod.split)

lemma btf_ensure_enum_good:
  "type_by_id f tid = Inr ty \<Longrightarrow> bt_data ty = Enum_Data vals \<Longrightarrow> good (btf_ensure_enum f tid st)"
  unfolding btf_ensure_enum_def by (rule good_bind) (simp_all add: ensure_type_name_good)

lemma btf_resolver_good:
  assumes "closed_file f"
  shows "(\<forall>tid st. known_id f tid \<longrightarrow> good (btf_type_ref n f tid st)) \<and>
    (\<forall>tid st ty. type_by_id f tid = Inr ty \<longrightarrow> bt_kind ty \<in> {Btf_Struct, Btf_Union} \<longrightarrow> good (btf_user_type n f tid st)) \<and>
    (\<forall>idx ms flds st. (\<forall>m \<in> set ms. known_id f (bm_type_id m)) \<longrightarrow> good (btf_fields n f idx ms flds st))"
proof (induction n)
  case 0
  then show ?case by simp
next
  case (Suc n)
  then have ref: "\<And>tid st. known_id f tid \<Longrightarrow> good (btf_type_ref n f tid st)"
    and user: "\<And>tid st ty. type_by_id f tid = Inr ty \<Longrightarrow> bt_kind ty \<in> {Btf_Struct, Btf_Union} \<Longrightarrow> good (btf_user_type n f tid st)"
    and flds: "\<And>idx ms flds st. \<forall>m \<in> set ms. known_id f (bm_type_id m) \<Longrightarrow> good (btf_fields n f idx ms flds st)"
    by blast+
  have closed: "closed_type f ty" if "type_by_id f tid = Inr ty" for tid ty
    using assms type_by_id_mem [OF that] by (simp add: closed_file_def list_all_iff)
  have "good (btf_type_ref (Suc n) f tid st)" if k: "known_id f tid" for tid st
  proof (cases "tid = 0")
    case False
    from known_type [OF k False] obtain ty where ty: "type_by_id f tid = Inr ty" by blast
    note c = closed [OF ty, unfolded closed_type_def type_refs_def] and u = user [OF ty] and e = btf_ensure_enum_good [OF ty]
    show ?thesis
      unfolding btf_type_ref.simps ty sum.case
      by (cases "bt_kind ty"; cases "bt_data ty")
        (use c u e False in \<open>simp_all add: btf_aliases_def ref good_map good_bind\<close>)
  qed simp
  moreover have "good (btf_user_type (Suc n) f tid st)"
    if ty: "type_by_id f tid = Inr ty" "bt_kind ty \<in> {Btf_Struct, Btf_Union}" for tid st ty
  proof -
    from closed [OF ty(1)] ty(2) obtain ms where "bt_data ty = Composite ms" "\<forall>m \<in> set ms. known_id f (bm_type_id m)"
      by (auto simp: closed_type_def list_all_iff split: btf_type_data.splits)
    then show ?thesis
      unfolding btf_user_type.simps ty(1) sum.case
      by (intro good_bind ensure_type_name_good [OF ty(1)]) (auto intro: good_bind flds)
  qed
  moreover have "good (btf_fields (Suc n) f idx ms fs st)" if "\<forall>m \<in> set ms. known_id f (bm_type_id m)" for idx ms fs st
    using that by (cases ms) (auto intro!: good_bind ref flds)
  ultimately show ?case by blast
qed

lemma btf_require_good:
  assumes "closed_file f" "index_sound f" "\<forall>name \<in> set names. bf_named f (Btf_Struct, name) \<noteq> None"
  shows "good (btf_require n f names st)"
  using assms(3)
proof (induction names arbitrary: st)
  case (Cons name names)
  then obtain tid where f: "btf_find_named f Btf_Struct name = Inr tid" by (auto simp: btf_find_named_def)
  obtain ty where "type_by_id f tid = Inr ty" "bt_kind ty = Btf_Struct" using index_soundD(1) [OF assms(2) f] by blast
  then have "good (btf_user_type n f tid st)" using btf_resolver_good [OF assms(1)] by blast
  then show ?case using Cons f by (auto intro: good_bind)
qed simp

lemma btf_optional_good:
  assumes "closed_file f" "index_sound f"
  shows "good (btf_optional n f names st)"
proof (induction names arbitrary: st)
  case (Cons name names)
  show ?case
  proof (cases "btf_maybe_named f Btf_Struct name")
    case (Some tid)
    obtain ty where "type_by_id f tid = Inr ty" "bt_kind ty = Btf_Struct" using index_soundD(2) [OF assms(2) Some] by blast
    then have "good (btf_user_type n f tid st)" using btf_resolver_good [OF assms(1)] by blast
    then show ?thesis using Cons Some by (auto intro: good_bind)
  qed (simp add: Cons)
qed simp

lemma btf_resolve_good:
  assumes "closed_file f" "index_sound f" "\<forall>name \<in> set REQUIRED_TYPES. bf_named f (Btf_Struct, name) \<noteq> None"
    "bf_named f (Btf_Enum, ''module_state'') \<noteq> None"
  shows "good (btf_resolve n f)"
proof -
  obtain tid where f: "btf_find_named f Btf_Enum ''module_state'' = Inr tid" using assms(4) by (auto simp: btf_find_named_def)
  obtain ty where ty: "type_by_id f tid = Inr ty" "bt_kind ty = Btf_Enum" using index_soundD(1) [OF assms(2) f] by blast
  have "closed_type f ty" using assms(1) type_by_id_mem [OF ty(1)] by (simp add: closed_file_def list_all_iff)
  with ty(2) obtain vals where "bt_data ty = Enum_Data vals" by (auto simp: closed_type_def split: btf_type_data.splits)
  then have "good (map_run (\<lambda>_. ()) (btf_ensure_enum f tid st))" for st
    using btf_ensure_enum_good [OF ty(1)] good_map by blast
  then show ?thesis
    unfolding btf_resolve_def f sum.case
    by (intro good_bind btf_require_good btf_optional_good assms(1,2,3))
qed

lemma load_btf_profile_loads:
  assumes "btf_parse data = Inr f" "closed_file f" "ranked rank f"
    "\<forall>name \<in> set REQUIRED_TYPES. bf_named f (Btf_Struct, name) \<noteq> None" "bf_named f (Btf_Enum, ''module_state'') \<noteq> None"
  shows "\<exists>fuel rp. \<forall>n. fuel \<le> n \<longrightarrow> load_btf_profile n data = Some (Inr rp)"
proof -
  obtain fuel r st where r: "btf_resolve fuel f = Some (r, st)" and more: "\<forall>n. fuel \<le> n \<longrightarrow> btf_resolve n f = Some (r, st)"
    using btf_resolve_ends [OF assms(3)] by auto
  have "good (btf_resolve fuel f)" by (rule btf_resolve_good [OF assms(2) btf_parse_index_sound [OF assms(1)] assms(4,5)])
  with r have "r = Inr ()" by (cases r) (auto simp: good_def)
  with more have "\<forall>n. fuel \<le> n \<longrightarrow> load_btf_profile n data =
      Some (Inr \<lparr> rp_symbols = Map.empty, rp_user_types = rs_user_types st, rp_enums = rs_enums st \<rparr>)"
    by (simp add: load_btf_profile_def assms(1))
  then show ?thesis by blast
qed

text \<open>A section with the required types: a list head that refers to itself, and a task with two of its members.\<close>

definition empty_struct :: "u32 \<Rightarrow> btf_record" where
  "empty_struct name_off = \<lparr> br_name_off = name_off, br_info = 0x04000000, br_size_or_type = 8, br_payload = Member_Payload [] \<rparr>"

definition sample_kernel_types :: "btf_record list" where
  "sample_kernel_types =
     [\<lparr> br_name_off = 38, br_info = 0x04000002, br_size_or_type = 16,
        br_payload = Member_Payload [(115, 2, 0), (120, 2, 64)] \<rparr>,
      \<lparr> br_name_off = 0, br_info = 0x02000000, br_size_or_type = 1, br_payload = Raw_Payload [] \<rparr>,
      \<lparr> br_name_off = 1, br_info = 0x04000002, br_size_or_type = 32,
        br_payload = Member_Payload [(120, 1, 0), (115, 4, 128)] \<rparr>,
      \<lparr> br_name_off = 0, br_info = 0x02000000, br_size_or_type = 3, br_payload = Raw_Payload [] \<rparr>] @
     map empty_struct [13, 23, 48, 55, 65, 70, 75, 81, 90, 97] @
     [\<lparr> br_name_off = 102, br_info = 0x06000001, br_size_or_type = 4, br_payload = Enum_Payload [(125, 0)] \<rparr>]"

definition sample_kernel_strings :: bytes where
  "sample_kernel_strings =
     0 # concat (map (\<lambda>s. map of_char s @ [0])
       [''task_struct'', ''mm_struct'', ''vm_area_struct'', ''list_head'', ''module'', ''fs_struct'', ''file'', ''path'',
        ''mount'', ''vfsmount'', ''dentry'', ''qstr'', ''module_state'', ''next'', ''prev'', ''LIVE''])"

definition sample_kernel_btf :: bytes where
  "sample_kernel_btf = btf_image sample_kernel_types sample_kernel_strings"

definition plain_struct :: "string \<Rightarrow> btf_type" where
  "plain_struct name = \<lparr> bt_kind = Btf_Struct, bt_name = name, bt_size_or_type = 8, bt_data = Composite [] \<rparr>"

definition pointer_to :: "u32 \<Rightarrow> btf_type" where
  "pointer_to tid = \<lparr> bt_kind = Btf_Ptr, bt_name = [], bt_size_or_type = tid, bt_data = No_Data \<rparr>"

definition plain_member :: "string \<Rightarrow> u32 \<Rightarrow> u32 \<Rightarrow> btf_member" where
  "plain_member name tid bits = \<lparr> bm_name = name, bm_type_id = tid, bm_bit_offset = bits, bm_bitfield_size = None \<rparr>"

definition sample_kernel_file :: btf_file where
  "sample_kernel_file =
     (let types =
       [\<lparr> bt_kind = Btf_Struct, bt_name = ''list_head'', bt_size_or_type = 16,
          bt_data = Composite [plain_member ''next'' 2 0, plain_member ''prev'' 2 64] \<rparr>,
        pointer_to 1,
        \<lparr> bt_kind = Btf_Struct, bt_name = ''task_struct'', bt_size_or_type = 32,
          bt_data = Composite [plain_member ''prev'' 1 0, plain_member ''next'' 4 128] \<rparr>,
        pointer_to 3] @
       map plain_struct [''mm_struct'', ''vm_area_struct'', ''module'', ''fs_struct'', ''file'', ''path'', ''mount'',
         ''vfsmount'', ''dentry'', ''qstr''] @
       [\<lparr> bt_kind = Btf_Enum, bt_name = ''module_state'', bt_size_or_type = 4, bt_data = Enum_Data [(''LIVE'', 0)] \<rparr>]
      in \<lparr> bf_types = types, bf_named = index_of types \<rparr>)"

lemma sample_kernel_meaning:
  "map (record_meaning sample_kernel_strings) sample_kernel_types = bf_types sample_kernel_file" by code_simp

lemma sample_kernel_checks:
  "closed_file sample_kernel_file" "ranked unat sample_kernel_file"
  "\<forall>name \<in> set REQUIRED_TYPES. bf_named sample_kernel_file (Btf_Struct, name) \<noteq> None"
  "bf_named sample_kernel_file (Btf_Enum, ''module_state'') \<noteq> None"
  by code_simp+

lemma sample_kernel_parses: "btf_parse sample_kernel_btf = Inr sample_kernel_file"
proof -
  have "length (concat (map record_bytes sample_kernel_types)) < 2 ^ 32" "length sample_kernel_strings < 2 ^ 32"
    by (simp_all add: sample_kernel_types_def empty_struct_def record_bytes_def sample_kernel_strings_def)
  moreover have "\<forall>r \<in> set sample_kernel_types. record_ok sample_kernel_strings r" by code_simp
  ultimately have "btf_parse sample_kernel_btf =
      Inr \<lparr> bf_types = bf_types sample_kernel_file, bf_named = index_of (bf_types sample_kernel_file) \<rparr>"
    unfolding sample_kernel_btf_def sample_kernel_meaning [symmetric] by (intro btf_image_read)
  then show ?thesis by (simp add: sample_kernel_file_def Let_def)
qed

theorem load_btf_profile_terminates_witness:
  "\<exists>fuel r. load_btf_profile fuel sample_kernel_btf = Some r \<and> load_btf_profile (fuel + 1) sample_kernel_btf = Some r"
proof -
  obtain fuel r where "load_btf_profile fuel sample_kernel_btf = Some r"
      "\<forall>n. fuel \<le> n \<longrightarrow> load_btf_profile n sample_kernel_btf = Some r"
    using load_btf_profile_terminates [OF sample_kernel_parses sample_kernel_checks(2)] by blast
  then show ?thesis by (intro exI [of _ fuel] exI [of _ r]) simp
qed

text \<open>
  C21. A section whose references all lead to types of it, that has the required structures and the enum
  \<open>module_state\<close>, and in which no chain of pointers, arrays and aliases comes back, gives a profile.
\<close>

theorem load_btf_profile_succeeds:
  assumes "btf_parse data = Inr f" "closed_file f" "ranked rank f"
    "\<forall>name \<in> set REQUIRED_TYPES. bf_named f (Btf_Struct, name) \<noteq> None" "bf_named f (Btf_Enum, ''module_state'') \<noteq> None"
  shows "\<exists>fuel rp. \<forall>n. fuel \<le> n \<longrightarrow> load_btf_profile n data = Some (Inr rp)"
  using assms by (rule load_btf_profile_loads)

theorem load_btf_profile_succeeds_witness:
  "\<exists>fuel rp. load_btf_profile fuel sample_kernel_btf = Some (Inr rp)"
  using load_btf_profile_succeeds [OF sample_kernel_parses sample_kernel_checks] by blast

text \<open>
  C13. When the BTF of a kernel is loaded, every structure and enum of the profile is one of the section: its
  size, and per member (of equal names the last) its byte offset, whether it is anonymous or a bit field, and its
  type through aliases, pointers and arrays; a structure or enum that a member refers to is in the profile too,
  under the name it was given; and the required structures and \<open>module_state\<close> are there.
\<close>

theorem load_btf_profile_faithful:
  assumes "load_btf_profile fuel data = Some (Inr rp)"
  shows "\<exists>f st. btf_parse data = Inr f \<and> faithful f {} {} st \<and>
    rp_symbols rp = Map.empty \<and> rp_user_types rp = rs_user_types st \<and> rp_enums rp = rs_enums st \<and>
    (\<forall>name \<in> set REQUIRED_TYPES. \<exists>tid nm. btf_find_named f Btf_Struct name = Inr tid \<and>
       rs_names st tid = Some nm \<and> rs_user_types st nm \<noteq> None) \<and>
    (\<exists>tid nm. btf_find_named f Btf_Enum ''module_state'' = Inr tid \<and> rs_names st tid = Some nm \<and> rs_enums st nm \<noteq> None)"
  using assms by (rule load_btf_profile_sound)

theorem load_btf_profile_faithful_witness:
  "\<exists>fuel rp f st. load_btf_profile fuel sample_kernel_btf = Some (Inr rp) \<and>
     btf_parse sample_kernel_btf = Inr f \<and> faithful f {} {} st \<and> rp_user_types rp = rs_user_types st"
proof -
  obtain fuel rp where "load_btf_profile fuel sample_kernel_btf = Some (Inr rp)"
    using load_btf_profile_loads [OF sample_kernel_parses sample_kernel_checks] by blast
  with load_btf_profile_faithful [OF this] show ?thesis by blast
qed

end
