(* ===== verification/Dwarf_File.thy ===== *)
theory Dwarf_File
  imports Elf_File
begin

text \<open>
  \<open>memflow-linux-defs/src/vmlinux.rs\<close>: the tables over the DWARF sections (\<open>DwarfFile\<close>) and the readers of the attributes of
  an entry. The entries themselves are read by the crate gimli, which is not part of the repository: its operations are the
  record \<open>gimli\<close>, an argument of every definition. A walk of gimli is a list and whether it ends in an error.
\<close>

section \<open>What gimli reads\<close>

datatype dw_tag =
    DW_TAG_base_type | DW_TAG_pointer_type | DW_TAG_array_type | DW_TAG_structure_type | DW_TAG_union_type
  | DW_TAG_enumeration_type | DW_TAG_typedef | DW_TAG_const_type | DW_TAG_volatile_type | DW_TAG_restrict_type
  | DW_TAG_atomic_type | DW_TAG_subroutine_type | DW_TAG_unspecified_type | DW_TAG_string_type | DW_TAG_member
  | DW_TAG_enumerator | DW_TAG_subrange_type | DW_TAG_other u16

datatype dw_at =
    DW_AT_name | DW_AT_declaration | DW_AT_type | DW_AT_byte_size | DW_AT_data_bit_offset | DW_AT_data_member_location
  | DW_AT_bit_size | DW_AT_const_value | DW_AT_count | DW_AT_upper_bound

datatype 'x attr_value =
    Data1 u8 | Data2 u16 | Data4 u32 | Data8 u64 | Udata u64 | Sdata u64 | Flag bool | Exprloc 'x
  | UnitRef usize | DebugInfoRef usize | Other_Value 'x

datatype dw_op = PlusConstant u64 | UnsignedConstant u64 | Address u64 | Other_Op

type_synonym 'a walk = "'a list \<times> bool"

record ('u, 'e, 'x) gimli =
  gm_sections :: "string list"
  gm_units :: "(string \<times> bytes) list \<Rightarrow> 'u walk"
  gm_entries :: "'u \<Rightarrow> 'e walk"
  gm_offset :: "'e \<Rightarrow> usize"
  gm_debug_info_offset :: "'u \<Rightarrow> usize \<Rightarrow> usize option"
  gm_entry :: "'u \<Rightarrow> usize \<Rightarrow> 'e option"
  gm_children :: "'u \<Rightarrow> usize \<Rightarrow> 'e walk option"
  gm_tag :: "'e \<Rightarrow> dw_tag"
  gm_attr :: "'e \<Rightarrow> dw_at \<Rightarrow> 'x attr_value option option"
  gm_string :: "'u \<Rightarrow> 'x attr_value \<Rightarrow> string option"
  gm_first_op :: "'u \<Rightarrow> 'x \<Rightarrow> dw_op option option"
  gm_show_offset :: "usize \<Rightarrow> string"

section \<open>Attributes\<close>

definition dwarf_attr :: "('u, 'e, 'x) gimli \<Rightarrow> 'e \<Rightarrow> dw_at \<Rightarrow> 'x attr_value option result" where
  "dwarf_attr g e at = ok_or (OsLayer Offset) (gm_attr g e at)"

definition dwarf_declaration :: "('u, 'e, 'x) gimli \<Rightarrow> 'e \<Rightarrow> bool result" where
  "dwarf_declaration g e =
     rbind (dwarf_attr g e DW_AT_declaration) (\<lambda>v.
       Inr (case v of Some (Flag flag) \<Rightarrow> flag | Some _ \<Rightarrow> True | None \<Rightarrow> False))"

definition dwarf_attr_name :: "('u, 'e, 'x) gimli \<Rightarrow> 'u \<Rightarrow> 'e \<Rightarrow> string option result" where
  "dwarf_attr_name g u e =
     rbind (dwarf_attr g e DW_AT_name) (\<lambda>v.
       case v of
         None \<Rightarrow> Inr None
       | Some value \<Rightarrow> rbind (ok_or (OsLayer Offset) (gm_string g u value)) (\<lambda>s. Inr (Some s)))"

definition dwarf_exprloc_usize :: "('u, 'e, 'x) gimli \<Rightarrow> 'u \<Rightarrow> 'x \<Rightarrow> usize option result" where
  "dwarf_exprloc_usize g u expr =
     rbind (ok_or (OsLayer Offset) (gm_first_op g u expr)) (\<lambda>op.
       case op of
         None \<Rightarrow> Inr None
       | Some (PlusConstant value) \<Rightarrow> Inr (Some value)
       | Some (UnsignedConstant value) \<Rightarrow> Inr (Some value)
       | Some (Address address) \<Rightarrow> Inr (Some address)
       | Some Other_Op \<Rightarrow> Inl (OsLayer Offset))"

definition dwarf_attr_value_usize :: "('u, 'e, 'x) gimli \<Rightarrow> 'u \<Rightarrow> 'x attr_value option \<Rightarrow> usize option result" where
  "dwarf_attr_value_usize g u v =
     (case v of
        Some (Data1 value) \<Rightarrow> Inr (Some (ucast value))
      | Some (Data2 value) \<Rightarrow> Inr (Some (ucast value))
      | Some (Data4 value) \<Rightarrow> Inr (Some (ucast value))
      | Some (Data8 value) \<Rightarrow> Inr (Some value)
      | Some (Udata value) \<Rightarrow> Inr (Some value)
      | Some (Sdata value) \<Rightarrow> if sint value < 0 then Inl (OsLayer Offset) else Inr (Some value)
      | Some (Exprloc expr) \<Rightarrow> dwarf_exprloc_usize g u expr
      | None \<Rightarrow> Inr None
      | Some _ \<Rightarrow> Inl (OsLayer Offset))"

definition dwarf_attr_usize :: "('u, 'e, 'x) gimli \<Rightarrow> 'u \<Rightarrow> 'e \<Rightarrow> dw_at \<Rightarrow> usize option result" where
  "dwarf_attr_usize g u e at = rbind (dwarf_attr g e at) (dwarf_attr_value_usize g u)"

definition dwarf_member_offset :: "('u, 'e, 'x) gimli \<Rightarrow> 'u \<Rightarrow> 'e \<Rightarrow> usize result" where
  "dwarf_member_offset g u e =
     rbind (dwarf_attr_usize g u e DW_AT_data_bit_offset) (\<lambda>bits.
       case bits of
         Some bit_offset \<Rightarrow> Inr (bit_offset div 8)
       | None \<Rightarrow>
           rbind (dwarf_attr_usize g u e DW_AT_data_member_location) (\<lambda>loc.
             Inr (case loc of Some offset \<Rightarrow> offset | None \<Rightarrow> 0)))"

definition dwarf_const_i64 :: "('u, 'e, 'x) gimli \<Rightarrow> 'e \<Rightarrow> u64 option result" where
  "dwarf_const_i64 g e =
     rbind (dwarf_attr g e DW_AT_const_value) (\<lambda>v.
       case v of
         Some (Data1 value) \<Rightarrow> Inr (Some (ucast value))
       | Some (Data2 value) \<Rightarrow> Inr (Some (ucast value))
       | Some (Data4 value) \<Rightarrow> Inr (Some (ucast value))
       | Some (Data8 value) \<Rightarrow> Inr (Some value)
       | Some (Udata value) \<Rightarrow> Inr (Some value)
       | Some (Sdata value) \<Rightarrow> Inr (Some value)
       | None \<Rightarrow> Inr None
       | Some _ \<Rightarrow> Inl (OsLayer Offset))"

definition dwarf_subrange_count :: "('u, 'e, 'x) gimli \<Rightarrow> 'u \<Rightarrow> 'e \<Rightarrow> usize option result" where
  "dwarf_subrange_count g u e =
     rbind (dwarf_attr_usize g u e DW_AT_count) (\<lambda>c.
       case c of
         Some count \<Rightarrow> Inr (Some count)
       | None \<Rightarrow>
           rbind (dwarf_attr_usize g u e DW_AT_upper_bound) (\<lambda>b.
             Inr (case b of Some upper_bound \<Rightarrow> Some (sat_add upper_bound 1) | None \<Rightarrow> None)))"

section \<open>The tables\<close>

datatype dwarf_named_kind = Dw_Struct | Dw_Union | Dw_Enum

definition dwarf_kind_from_tag :: "dw_tag \<Rightarrow> dwarf_named_kind option" where
  "dwarf_kind_from_tag tag =
     (case tag of
        DW_TAG_structure_type \<Rightarrow> Some Dw_Struct
      | DW_TAG_union_type \<Rightarrow> Some Dw_Union
      | DW_TAG_enumeration_type \<Rightarrow> Some Dw_Enum
      | _ \<Rightarrow> None)"

fun dwarf_kind_str :: "dwarf_named_kind \<Rightarrow> string" where
  "dwarf_kind_str Dw_Struct = ''struct''"
| "dwarf_kind_str Dw_Union = ''union''"
| "dwarf_kind_str Dw_Enum = ''enum''"

record dwarf_type_ref =
  dt_unit :: nat
  dt_unit_offset :: usize
  dt_info_offset :: usize

record 'u dwarf_file =
  df_units :: "'u list"
  df_entries :: "usize \<Rightarrow> dwarf_type_ref option"
  df_named :: "dwarf_named_kind \<times> string \<Rightarrow> dwarf_type_ref option"

text \<open>The entries of one unit: a later entry at an offset replaces the earlier, a name stays with its first definition.\<close>

definition dwarf_index_named ::
    "('u, 'e, 'x) gimli \<Rightarrow> 'u \<Rightarrow> 'e \<Rightarrow> dwarf_type_ref \<Rightarrow> 'u dwarf_file \<Rightarrow> 'u dwarf_file result" where
  "dwarf_index_named g u e tref f =
     (case dwarf_kind_from_tag (gm_tag g e) of
        None \<Rightarrow> Inr f
      | Some kind \<Rightarrow>
          rbind (dwarf_declaration g e) (\<lambda>declared.
          if declared then Inr f
          else
            rbind (dwarf_attr_name g u e) (\<lambda>n.
            case n of
              None \<Rightarrow> Inr f
            | Some name \<Rightarrow>
                Inr (if df_named f (kind, name) = None
                     then f\<lparr> df_named := (df_named f)((kind, name) \<mapsto> tref) \<rparr> else f))))"

fun dwarf_index_entries ::
    "('u, 'e, 'x) gimli \<Rightarrow> 'u \<Rightarrow> nat \<Rightarrow> 'e list \<Rightarrow> 'u dwarf_file \<Rightarrow> 'u dwarf_file result" where
  "dwarf_index_entries g u unit_index [] f = Inr f"
| "dwarf_index_entries g u unit_index (e # es) f =
     (case gm_debug_info_offset g u (gm_offset g e) of
        None \<Rightarrow> dwarf_index_entries g u unit_index es f
      | Some offset \<Rightarrow>
          let tref = \<lparr> dt_unit = unit_index, dt_unit_offset = gm_offset g e, dt_info_offset = offset \<rparr> in
          rbind (dwarf_index_named g u e tref (f\<lparr> df_entries := (df_entries f)(offset \<mapsto> tref) \<rparr>))
            (dwarf_index_entries g u unit_index es))"

fun dwarf_index_units :: "('u, 'e, 'x) gimli \<Rightarrow> 'u list \<Rightarrow> 'u dwarf_file \<Rightarrow> 'u dwarf_file result" where
  "dwarf_index_units g [] f = Inr f"
| "dwarf_index_units g (u # us) f =
     rbind (dwarf_index_entries g u (length (df_units f)) (fst (gm_entries g u)) f) (\<lambda>f.
     if snd (gm_entries g u) then Inl (OsLayer Offset)
     else dwarf_index_units g us (f\<lparr> df_units := df_units f @ [u] \<rparr>))"

text \<open>\<open>Dwarf::load\<close>: the sections by the names gimli asks for, an absent one empty.\<close>

definition dwarf_data :: "('u, 'e, 'x) gimli \<Rightarrow> elf_file \<Rightarrow> (string \<times> bytes) list result" where
  "dwarf_data g elf =
     collect_results (\<lambda>name.
         rbind (section_data_optional elf name) (\<lambda>bs. Inr (name, case bs of Some data \<Rightarrow> data | None \<Rightarrow> [])))
       (gm_sections g)"

definition no_tables :: "'u dwarf_file" where
  "no_tables = \<lparr> df_units = [], df_entries = Map.empty, df_named = Map.empty \<rparr>"

definition dwarf_parse :: "('u, 'e, 'x) gimli \<Rightarrow> elf_file \<Rightarrow> 'u dwarf_file result" where
  "dwarf_parse g elf =
     rbind (dwarf_data g elf) (\<lambda>data.
     rbind (dwarf_index_units g (fst (gm_units g data)) no_tables) (\<lambda>f.
     if snd (gm_units g data) then Inl (OsLayer Offset)
     else if df_units f = [] then Inl (OsLayer Offset)
     else Inr f))"

definition dwarf_find_named :: "'u dwarf_file \<Rightarrow> dwarf_named_kind \<Rightarrow> string \<Rightarrow> dwarf_type_ref result" where
  "dwarf_find_named f kind name = ok_or (OsLayer Offset) (df_named f (kind, name))"

definition dwarf_maybe_named :: "'u dwarf_file \<Rightarrow> dwarf_named_kind \<Rightarrow> string \<Rightarrow> dwarf_type_ref option" where
  "dwarf_maybe_named f kind name = df_named f (kind, name)"

text \<open>\<open>units[unit_index]\<close> panics on an index out of range.\<close>

definition dwarf_unit :: "'u dwarf_file \<Rightarrow> nat \<Rightarrow> 'u result" where
  "dwarf_unit f unit_index = ok_or Panic (nth_opt (df_units f) unit_index)"

definition dwarf_resolve_type_ref ::
    "('u, 'e, 'x) gimli \<Rightarrow> 'u dwarf_file \<Rightarrow> nat \<Rightarrow> 'x attr_value \<Rightarrow> dwarf_type_ref result" where
  "dwarf_resolve_type_ref g f unit_index value =
     rbind (case value of
         UnitRef offset \<Rightarrow>
           rbind (dwarf_unit f unit_index) (\<lambda>u. ok_or (OsLayer Offset) (gm_debug_info_offset g u offset))
       | DebugInfoRef offset \<Rightarrow> Inr offset
       | _ \<Rightarrow> Inl (OsLayer Offset)) (\<lambda>offset.
     ok_or (OsLayer Offset) (df_entries f offset))"

definition dwarf_entry :: "('u, 'e, 'x) gimli \<Rightarrow> 'u dwarf_file \<Rightarrow> dwarf_type_ref \<Rightarrow> 'e result" where
  "dwarf_entry g f tref =
     rbind (dwarf_unit f (dt_unit tref)) (\<lambda>u. ok_or (OsLayer Offset) (gm_entry g u (dt_unit_offset tref)))"

definition dwarf_children :: "('u, 'e, 'x) gimli \<Rightarrow> 'u dwarf_file \<Rightarrow> dwarf_type_ref \<Rightarrow> 'e walk result" where
  "dwarf_children g f tref =
     rbind (dwarf_unit f (dt_unit tref)) (\<lambda>u. ok_or (OsLayer Offset) (gm_children g u (dt_unit_offset tref)))"

section \<open>The tables of a lawful reading\<close>

text \<open>
  What gimli documents, of the sections at hand: no two entries have one offset in \<open>.debug_info\<close>, and the entry at
  the offset of an entry of the walk is that entry.
\<close>

definition unit_offsets :: "('u, 'e, 'x) gimli \<Rightarrow> 'u \<Rightarrow> usize list" where
  "unit_offsets g u = List.map_filter (\<lambda>e. gm_debug_info_offset g u (gm_offset g e)) (fst (gm_entries g u))"

definition gimli_lawful :: "('u, 'e, 'x) gimli \<Rightarrow> (string \<times> bytes) list \<Rightarrow> bool" where
  "gimli_lawful g data \<longleftrightarrow>
     distinct (concat (map (unit_offsets g) (fst (gm_units g data)))) \<and>
     list_all (\<lambda>u. list_all (\<lambda>e. gm_entry g u (gm_offset g e) = Some e) (fst (gm_entries g u))) (fst (gm_units g data))"

text \<open>The references of the tables: each by its own offset, those by name among them, with an entry of that name and kind.\<close>

definition dwarf_known :: "'u dwarf_file \<Rightarrow> dwarf_type_ref \<Rightarrow> bool" where
  "dwarf_known f tref \<longleftrightarrow> df_entries f (dt_info_offset tref) = Some tref"

definition named_entry ::
    "('u, 'e, 'x) gimli \<Rightarrow> 'u list \<Rightarrow> dwarf_named_kind \<Rightarrow> string \<Rightarrow> dwarf_type_ref \<Rightarrow> bool" where
  "named_entry g us kind name tref \<longleftrightarrow>
     dt_unit tref < length us \<and>
     (\<exists>e. gm_entry g (us ! dt_unit tref) (dt_unit_offset tref) = Some e \<and> dwarf_kind_from_tag (gm_tag g e) = Some kind \<and>
        dwarf_declaration g e = Inr False \<and> dwarf_attr_name g (us ! dt_unit tref) e = Inr (Some name))"

definition tables_keyed :: "('u, 'e, 'x) gimli \<Rightarrow> 'u list \<Rightarrow> 'u dwarf_file \<Rightarrow> bool" where
  "tables_keyed g us f \<longleftrightarrow>
     (\<forall>k tref. df_entries f k = Some tref \<longrightarrow> dt_info_offset tref = k) \<and>
     (\<forall>kind name tref. df_named f (kind, name) = Some tref \<longrightarrow> dwarf_known f tref \<and> named_entry g us kind name tref)"

lemma tables_keyedD:
  assumes "tables_keyed g us f"
  shows "df_entries f k = Some tref \<Longrightarrow> dt_info_offset tref = k"
    and "df_named f (kind, name) = Some tref \<Longrightarrow> dwarf_known f tref \<and> named_entry g us kind name tref"
  using assms unfolding tables_keyed_def by blast+

lemma dwarf_index_named_keyed:
  assumes "dwarf_index_named g u e tref f = Inr f'" "tables_keyed g us f" "dwarf_known f tref"
    "dt_unit tref < length us" "us ! dt_unit tref = u" "gm_entry g u (dt_unit_offset tref) = Some e"
  shows "tables_keyed g us f' \<and> df_entries f' = df_entries f \<and> df_units f' = df_units f"
proof (cases "dwarf_kind_from_tag (gm_tag g e)")
  case None
  then show ?thesis using assms(1,2) by (simp add: dwarf_index_named_def)
next
  case (Some kind)
  with assms(1) obtain declared where d: "dwarf_declaration g e = Inr declared"
    and rest: "(if declared then Inr f else rbind (dwarf_attr_name g u e) (\<lambda>n.
            case n of None \<Rightarrow> Inr f
            | Some name \<Rightarrow> Inr (if df_named f (kind, name) = None
                 then f\<lparr> df_named := (df_named f)((kind, name) \<mapsto> tref) \<rparr> else f))) = Inr f'"
    by (auto simp: dwarf_index_named_def result_simps simp del: if_split)
  show ?thesis
  proof (cases "f' = f")
    case False
    with rest have nd: "\<not> declared" by auto
    obtain name where name: "dwarf_attr_name g u e = Inr (Some name)" "f' = f\<lparr> df_named := (df_named f)((kind, name) \<mapsto> tref) \<rparr>"
    proof (cases "dwarf_attr_name g u e")
      case (Inr n)
      show ?thesis
      proof (cases n)
        case None
        then show ?thesis using rest nd False Inr by simp
      next
        case (Some name)
        let ?new = "f\<lparr> df_named := (df_named f)((kind, name) \<mapsto> tref) \<rparr>"
        have "f' = (if df_named f (kind, name) = None then ?new else f)" using rest nd Inr Some by simp
        with False have "f' = ?new" by presburger
        then show ?thesis using that Inr Some by blast
      qed
    qed (use rest nd in simp)
    have "named_entry g us kind name tref" using assms(4-6) Some d nd name(1) by (simp add: named_entry_def)
    then have "dwarf_known f' t \<and> named_entry g us k x t" if "df_named f' (k, x) = Some t" for k x t
      using that tables_keyedD(2) [OF assms(2), of k x t] assms(3) by (auto simp: name(2) dwarf_known_def split: if_splits)
    moreover have "df_entries f' = df_entries f" "df_units f' = df_units f" by (simp_all add: name(2))
    ultimately show ?thesis using tables_keyedD(1) [OF assms(2)] by (simp add: tables_keyed_def)
  qed (simp add: assms(2))
qed

lemma dwarf_index_entries_keyed:
  assumes "dwarf_index_entries g u i es f = Inr f'" "tables_keyed g us f" "i < length us" "us ! i = u"
    "distinct (List.map_filter (\<lambda>e. gm_debug_info_offset g u (gm_offset g e)) es)"
    "dom (df_entries f) \<inter> set (List.map_filter (\<lambda>e. gm_debug_info_offset g u (gm_offset g e)) es) = {}"
    "list_all (\<lambda>e. gm_entry g u (gm_offset g e) = Some e) es"
  shows "tables_keyed g us f' \<and> df_units f' = df_units f \<and>
    dom (df_entries f') \<subseteq> dom (df_entries f) \<union> set (List.map_filter (\<lambda>e. gm_debug_info_offset g u (gm_offset g e)) es)"
  using assms(1,2,5-7)
proof (induction es arbitrary: f)
  case (Cons e es)
  show ?case
  proof (cases "gm_debug_info_offset g u (gm_offset g e)")
    case None
    then show ?thesis using Cons by (simp add: map_filter_simps)
  next
    case (Some offset)
    let ?tref = "\<lparr> dt_unit = i, dt_unit_offset = gm_offset g e, dt_info_offset = offset \<rparr>"
    let ?f = "f\<lparr> df_entries := (df_entries f)(offset \<mapsto> ?tref) \<rparr>"
    from Cons.prems(1) Some obtain f1 where n: "dwarf_index_named g u e ?tref ?f = Inr f1"
      and rest: "dwarf_index_entries g u i es f1 = Inr f'" by (auto simp: Let_def result_simps)
    have fresh: "df_entries f offset = None" using Cons.prems(4) Some by (auto simp: map_filter_simps)
    then have "tables_keyed g us ?f"
      using Cons.prems(2) unfolding tables_keyed_def dwarf_known_def by auto
    then have f1: "tables_keyed g us f1" "df_entries f1 = df_entries ?f" "df_units f1 = df_units f"
      using dwarf_index_named_keyed [OF n, of us] Cons.prems(5) assms(3,4) by (simp_all add: dwarf_known_def)
    have "dom (df_entries f1) = insert offset (dom (df_entries f))" by (simp add: f1(2))
    then show ?thesis
      using Cons.IH [OF rest f1(1)] Cons.prems(3-5) Some f1(3) by (auto simp: map_filter_simps)
  qed
qed simp

lemma dwarf_index_units_keyed:
  assumes "dwarf_index_units g us f = Inr f'" "df_units f = before" "tables_keyed g (before @ us) f"
    "distinct (concat (map (unit_offsets g) us))" "dom (df_entries f) \<inter> set (concat (map (unit_offsets g) us)) = {}"
    "list_all (\<lambda>u. list_all (\<lambda>e. gm_entry g u (gm_offset g e) = Some e) (fst (gm_entries g u))) us"
  shows "tables_keyed g (before @ us) f' \<and> df_units f' = before @ us"
  using assms
proof (induction us arbitrary: f "before")
  case (Cons u us)
  from Cons.prems(1,2) obtain f1 where e: "dwarf_index_entries g u (length before) (fst (gm_entries g u)) f = Inr f1"
    and rest: "dwarf_index_units g us (f1\<lparr> df_units := df_units f1 @ [u] \<rparr>) = Inr f'"
    by (auto simp: result_simps split: if_splits)
  let ?f = "f1\<lparr> df_units := df_units f1 @ [u] \<rparr>"
  have f1: "tables_keyed g (before @ u # us) f1 \<and> df_units f1 = df_units f \<and>
      dom (df_entries f1) \<subseteq> dom (df_entries f) \<union> set (unit_offsets g u)"
    using dwarf_index_entries_keyed [OF e Cons.prems(3)] Cons.prems(4-6) by (auto simp: unit_offsets_def)
  have "tables_keyed g ((before @ [u]) @ us) ?f" using f1 by (simp add: tables_keyed_def dwarf_known_def)
  moreover have "df_units ?f = before @ [u]" using f1 Cons.prems(2) by simp
  moreover have "dom (df_entries ?f) \<inter> set (concat (map (unit_offsets g) us)) = {}"
  proof -
    let ?S = "set (concat (map (unit_offsets g) us))"
    have "dom (df_entries f) \<inter> (set (unit_offsets g u) \<union> ?S) = {}" "set (unit_offsets g u) \<inter> ?S = {}"
      using Cons.prems(4,5) by simp_all
    moreover have "dom (df_entries ?f) \<subseteq> dom (df_entries f) \<union> set (unit_offsets g u)" using f1 by simp
    ultimately show ?thesis by blast
  qed
  ultimately show ?case using Cons.IH [OF rest, of "before @ [u]"] Cons.prems(4,6) by simp
qed simp

lemma dwarf_parse_keyed:
  assumes "dwarf_parse g elf = Inr f" "dwarf_data g elf = Inr data" "gimli_lawful g data"
  shows "tables_keyed g (df_units f) f"
proof -
  from assms(1,2) have u: "dwarf_index_units g (fst (gm_units g data)) no_tables = Inr f"
    by (auto simp: dwarf_parse_def result_simps split: if_splits)
  have "tables_keyed g ([] @ fst (gm_units g data)) f \<and> df_units f = [] @ fst (gm_units g data)"
    using assms(3) by (intro dwarf_index_units_keyed [OF u])
      (auto simp: no_tables_def tables_keyed_def gimli_lawful_def)
  then show ?thesis by simp
qed

end
