(* ===== verification/Dwarf_Resolver.thy ===== *)
theory Dwarf_Resolver
  imports Dwarf_File Resolver_State
begin

text \<open>
  \<open>memflow-linux-defs/src/vmlinux.rs\<close>: the resolver that turns DWARF entries into the structures and enums of the raw
  profile (\<open>DwarfResolver\<close>), and the loading of a DWARF profile. Its state is that of the BTF resolver, with the
  offset of an entry in \<open>.debug_info\<close> as key.
\<close>

section \<open>Names and enums\<close>

definition lift_run :: "'a result \<Rightarrow> 's \<Rightarrow> ('a, 's) run" where
  "lift_run r st = Some (r, st)"

definition dwarf_ensure_type_name ::
    "('u, 'e, 'x) gimli \<Rightarrow> 'u dwarf_file \<Rightarrow> dwarf_type_ref \<Rightarrow> usize resolver \<Rightarrow> (string, usize resolver) run" where
  "dwarf_ensure_type_name g f tref st =
     (case rs_names st (dt_info_offset tref) of
        Some name \<Rightarrow> Some (Inr name, st)
      | None \<Rightarrow>
          bind_run (lift_run (dwarf_entry g f tref) st) (\<lambda>e st.
          bind_run (lift_run (rbind (dwarf_unit f (dt_unit tref)) (\<lambda>u. dwarf_attr_name g u e)) st) (\<lambda>n st.
          let shown = gm_show_offset g (dt_info_offset tref);
              kind = (case dwarf_kind_from_tag (gm_tag g e) of Some k \<Rightarrow> dwarf_kind_str k | None \<Rightarrow> ''type'');
              candidate = (case n of Some x \<Rightarrow> x | None \<Rightarrow> ''__dwarf_'' @ kind @ ''_'' @ shown);
              (name, st') = give_name (dt_info_offset tref) candidate shown st
          in Some (Inr name, st'))))"

fun dwarf_constants :: "('u, 'e, 'x) gimli \<Rightarrow> 'u \<Rightarrow> 'e list \<Rightarrow> (string \<Rightarrow> u64 option) \<Rightarrow> (string \<Rightarrow> u64 option) result" where
  "dwarf_constants g u [] cs = Inr cs"
| "dwarf_constants g u (e # es) cs =
     (if gm_tag g e \<noteq> DW_TAG_enumerator then dwarf_constants g u es cs
      else
        rbind (dwarf_attr_name g u e) (\<lambda>n.
        case n of
          None \<Rightarrow> dwarf_constants g u es cs
        | Some name \<Rightarrow>
            rbind (dwarf_const_i64 g e) (\<lambda>v.
            case v of
              None \<Rightarrow> dwarf_constants g u es cs
            | Some value \<Rightarrow> dwarf_constants g u es (cs(name \<mapsto> value)))))"

definition dwarf_enum_constants ::
    "('u, 'e, 'x) gimli \<Rightarrow> 'u dwarf_file \<Rightarrow> dwarf_type_ref \<Rightarrow> (string \<Rightarrow> u64 option) result" where
  "dwarf_enum_constants g f tref =
     rbind (dwarf_entry g f tref) (\<lambda>e.
     if gm_tag g e \<noteq> DW_TAG_enumeration_type then Inl (OsLayer Offset)
     else
       rbind (dwarf_unit f (dt_unit tref)) (\<lambda>u.
       rbind (dwarf_children g f tref) (\<lambda>(children, broken).
       rbind (dwarf_constants g u children Map.empty) (\<lambda>cs.
       if broken then Inl (OsLayer Offset) else Inr cs))))"

definition dwarf_ensure_enum ::
    "('u, 'e, 'x) gimli \<Rightarrow> 'u dwarf_file \<Rightarrow> dwarf_type_ref \<Rightarrow> usize resolver \<Rightarrow> (string, usize resolver) run" where
  "dwarf_ensure_enum g f tref st =
     bind_run (dwarf_ensure_type_name g f tref st) (\<lambda>name st.
     if rs_enums st name \<noteq> None then Some (Inr name, st)
     else
       bind_run (lift_run (dwarf_enum_constants g f tref) st) (\<lambda>cs st.
       Some (Inr name, st\<lparr> rs_enums := (rs_enums st)(name \<mapsto> \<lparr> re_constants = cs \<rparr>) \<rparr>)))"

section \<open>Array dimensions\<close>

fun dwarf_counts :: "('u, 'e, 'x) gimli \<Rightarrow> 'u \<Rightarrow> 'e list \<Rightarrow> usize list result" where
  "dwarf_counts g u [] = Inr []"
| "dwarf_counts g u (e # es) =
     (if gm_tag g e \<noteq> DW_TAG_subrange_type then dwarf_counts g u es
      else
        rbind (dwarf_subrange_count g u e) (\<lambda>c.
        rbind (dwarf_counts g u es) (\<lambda>cs.
        Inr (case c of Some count \<Rightarrow> count # cs | None \<Rightarrow> cs))))"

definition dwarf_array_counts :: "('u, 'e, 'x) gimli \<Rightarrow> 'u dwarf_file \<Rightarrow> dwarf_type_ref \<Rightarrow> usize list result" where
  "dwarf_array_counts g f tref =
     rbind (dwarf_unit f (dt_unit tref)) (\<lambda>u.
     rbind (dwarf_children g f tref) (\<lambda>(children, broken).
     rbind (dwarf_counts g u children) (\<lambda>cs.
     if broken then Inl (OsLayer Offset) else Inr cs)))"

definition dwarf_array_type :: "usize list \<Rightarrow> raw_type_ref \<Rightarrow> raw_type_ref" where
  "dwarf_array_type counts subtype = (if counts = [] then Unknown else foldr Array counts subtype)"

section \<open>Structures\<close>

text \<open>The size of a structure or union, or an error for what is neither.\<close>

definition dwarf_composite_size :: "('u, 'e, 'x) gimli \<Rightarrow> 'u dwarf_file \<Rightarrow> dwarf_type_ref \<Rightarrow> usize result" where
  "dwarf_composite_size g f tref =
     rbind (dwarf_entry g f tref) (\<lambda>e.
     if dwarf_kind_from_tag (gm_tag g e) \<notin> {Some Dw_Struct, Some Dw_Union} then Inl (OsLayer Offset)
     else
       rbind (dwarf_unit f (dt_unit tref)) (\<lambda>u.
       rbind (dwarf_attr_usize g u e DW_AT_byte_size) (\<lambda>s. Inr (case s of Some n \<Rightarrow> n | None \<Rightarrow> 0))))"

text \<open>What is read of a member before its type is resolved: its name, its offset and its type attribute.\<close>

definition dwarf_member_head ::
    "('u, 'e, 'x) gimli \<Rightarrow> 'u dwarf_file \<Rightarrow> nat \<Rightarrow> 'e \<Rightarrow> (string option \<times> usize \<times> 'x attr_value option) result" where
  "dwarf_member_head g f unit_index child =
     rbind (dwarf_unit f unit_index) (\<lambda>u.
     rbind (dwarf_attr_name g u child) (\<lambda>name.
     rbind (dwarf_member_offset g u child) (\<lambda>offset.
     rbind (dwarf_attr g child DW_AT_type) (\<lambda>v. Inr (name, offset, v)))))"

definition dwarf_bit_size :: "('u, 'e, 'x) gimli \<Rightarrow> 'u dwarf_file \<Rightarrow> nat \<Rightarrow> 'e \<Rightarrow> usize result" where
  "dwarf_bit_size g f unit_index child =
     rbind (dwarf_unit f unit_index) (\<lambda>u.
     rbind (dwarf_attr_usize g u child DW_AT_bit_size) (\<lambda>b. Inr (case b of Some n \<Rightarrow> n | None \<Rightarrow> 0)))"

definition dwarf_field_name :: "nat \<Rightarrow> string option \<Rightarrow> string" where
  "dwarf_field_name anon_index name =
     (case name of Some x \<Rightarrow> x | None \<Rightarrow> ''__anon_field_'' @ radix_str 10 anon_index)"

definition dwarf_field :: "string option \<Rightarrow> usize \<Rightarrow> raw_type_ref \<Rightarrow> usize \<Rightarrow> raw_field" where
  "dwarf_field name offset ty bits =
     \<lparr> rf_offset = offset, rf_anonymous = (name = None), rf_ty = (if bits \<noteq> 0 then Bitfield ty else ty) \<rparr>"

definition dwarf_aliases :: "dw_tag set" where
  "dwarf_aliases = {DW_TAG_typedef, DW_TAG_const_type, DW_TAG_volatile_type, DW_TAG_restrict_type, DW_TAG_atomic_type}"

text \<open>
  The bodies of \<open>raw_type_ref\<close> and \<open>ensure_user_type\<close>. The calls of the recursion are the arguments \<open>ty\<close> and \<open>user\<close>;
  a missing type attribute gives \<open>missing\<close>.
\<close>

type_synonym dwarf_call = "dwarf_type_ref \<Rightarrow> usize resolver \<Rightarrow> (raw_type_ref, usize resolver) run"

definition dwarf_target ::
    "dwarf_call \<Rightarrow> ('u, 'e, 'x) gimli \<Rightarrow> 'u dwarf_file \<Rightarrow> nat \<Rightarrow> raw_type_ref \<Rightarrow> 'x attr_value option \<Rightarrow>
     usize resolver \<Rightarrow> (raw_type_ref, usize resolver) run" where
  "dwarf_target ty g f unit_index missing v st =
     (case v of
        None \<Rightarrow> Some (Inr missing, st)
      | Some value \<Rightarrow> bind_run (lift_run (dwarf_resolve_type_ref g f unit_index value) st) ty)"

definition dwarf_base_type ::
    "('u, 'e, 'x) gimli \<Rightarrow> 'u dwarf_file \<Rightarrow> dwarf_type_ref \<Rightarrow> 'e \<Rightarrow> raw_type_ref result" where
  "dwarf_base_type g f tref e =
     rbind (dwarf_unit f (dt_unit tref)) (\<lambda>u.
     rbind (dwarf_attr_name g u e) (\<lambda>n. Inr (Base (case n of Some x \<Rightarrow> x | None \<Rightarrow> ''int''))))"

definition dwarf_type_body ::
    "dwarf_call \<Rightarrow> (dwarf_type_ref \<Rightarrow> usize resolver \<Rightarrow> (string, usize resolver) run) \<Rightarrow>
     ('u, 'e, 'x) gimli \<Rightarrow> 'u dwarf_file \<Rightarrow> dwarf_call" where
  "dwarf_type_body ty user g f tref st =
     bind_run (lift_run (dwarf_entry g f tref) st) (\<lambda>e st.
     case gm_tag g e of
       DW_TAG_base_type \<Rightarrow> lift_run (dwarf_base_type g f tref e) st
     | DW_TAG_pointer_type \<Rightarrow>
         bind_run (lift_run (dwarf_attr g e DW_AT_type) st) (\<lambda>v st.
         map_run Pointer (dwarf_target ty g f (dt_unit tref) Void v st))
     | DW_TAG_array_type \<Rightarrow>
         bind_run (lift_run (dwarf_attr g e DW_AT_type) st) (\<lambda>v st.
         bind_run (dwarf_target ty g f (dt_unit tref) Unknown v st) (\<lambda>subtype st.
         map_run (\<lambda>counts. dwarf_array_type counts subtype) (lift_run (dwarf_array_counts g f tref) st)))
     | DW_TAG_structure_type \<Rightarrow> map_run Struct (user tref st)
     | DW_TAG_union_type \<Rightarrow> map_run Union (user tref st)
     | DW_TAG_enumeration_type \<Rightarrow> map_run Enum (dwarf_ensure_enum g f tref st)
     | DW_TAG_subroutine_type \<Rightarrow> Some (Inr Function, st)
     | DW_TAG_unspecified_type \<Rightarrow> Some (Inr Void, st)
     | DW_TAG_string_type \<Rightarrow> Some (Inr (Base ''string''), st)
     | tag \<Rightarrow>
         if tag \<in> dwarf_aliases then
           bind_run (lift_run (dwarf_attr g e DW_AT_type) st) (\<lambda>v st.
           dwarf_target ty g f (dt_unit tref) Unknown v st)
         else Some (Inr Unknown, st))"

fun dwarf_members ::
    "dwarf_call \<Rightarrow> ('u, 'e, 'x) gimli \<Rightarrow> 'u dwarf_file \<Rightarrow> nat \<Rightarrow> nat \<Rightarrow> 'e list \<Rightarrow> (string \<times> raw_field) list \<Rightarrow>
     usize resolver \<Rightarrow> ((string \<times> raw_field) list, usize resolver) run" where
  "dwarf_members ty g f unit_index anon_index [] flds st = Some (Inr flds, st)"
| "dwarf_members ty g f unit_index anon_index (child # es) flds st =
     (if gm_tag g child \<noteq> DW_TAG_member then dwarf_members ty g f unit_index anon_index es flds st
      else
        bind_run (lift_run (dwarf_member_head g f unit_index child) st) (\<lambda>(name, offset, v) st.
        bind_run (dwarf_target ty g f unit_index Void v st) (\<lambda>t st.
        bind_run (lift_run (dwarf_bit_size g f unit_index child) st) (\<lambda>bits st.
        dwarf_members ty g f unit_index (if name = None then Suc anon_index else anon_index) es
          (AList.update (dwarf_field_name anon_index name) (dwarf_field name offset t bits) flds) st))))"

definition dwarf_user_body ::
    "dwarf_call \<Rightarrow> ('u, 'e, 'x) gimli \<Rightarrow> 'u dwarf_file \<Rightarrow> dwarf_type_ref \<Rightarrow> usize resolver \<Rightarrow> (string, usize resolver) run" where
  "dwarf_user_body ty g f tref st =
     bind_run (dwarf_ensure_type_name g f tref st) (\<lambda>name st.
     if rs_user_types st name \<noteq> None then Some (Inr name, st)
     else
       bind_run (lift_run (dwarf_composite_size g f tref) st) (\<lambda>sz st.
       bind_run (lift_run (dwarf_children g f tref) (seed_type name sz st)) (\<lambda>(children, broken) st.
       bind_run (dwarf_members ty g f (dt_unit tref) 0 children [] st) (\<lambda>flds st.
       if broken then Some (Inl (OsLayer Offset), st) else Some (Inr name, finish_type name flds st)))))"

fun dwarf_type :: "nat \<Rightarrow> ('u, 'e, 'x) gimli \<Rightarrow> 'u dwarf_file \<Rightarrow> dwarf_call"
and dwarf_user_type :: "nat \<Rightarrow> ('u, 'e, 'x) gimli \<Rightarrow> 'u dwarf_file \<Rightarrow> dwarf_type_ref \<Rightarrow> usize resolver \<Rightarrow>
     (string, usize resolver) run"
where
  "dwarf_type 0 g f tref st = None"
| "dwarf_type (Suc n) g f tref st = dwarf_type_body (dwarf_type n g f) (dwarf_user_type n g f) g f tref st"
| "dwarf_user_type 0 g f tref st = None"
| "dwarf_user_type (Suc n) g f tref st = dwarf_user_body (dwarf_type n g f) g f tref st"

section \<open>Loading\<close>

fun dwarf_require :: "nat \<Rightarrow> ('u, 'e, 'x) gimli \<Rightarrow> 'u dwarf_file \<Rightarrow> string list \<Rightarrow> usize resolver \<Rightarrow> (unit, usize resolver) run" where
  "dwarf_require n g f [] st = Some (Inr (), st)"
| "dwarf_require n g f (name # names) st =
     bind_run (lift_run (dwarf_find_named f Dw_Struct name) st) (\<lambda>tref st.
     bind_run (dwarf_user_type n g f tref st) (\<lambda>_ st. dwarf_require n g f names st))"

text \<open>\<open>ensure_optional_maple_types_dwarf\<close>, and the optional \<open>module_memory\<close>\<close>

fun dwarf_optional :: "nat \<Rightarrow> ('u, 'e, 'x) gimli \<Rightarrow> 'u dwarf_file \<Rightarrow> string list \<Rightarrow> usize resolver \<Rightarrow> (unit, usize resolver) run" where
  "dwarf_optional n g f [] st = Some (Inr (), st)"
| "dwarf_optional n g f (name # names) st =
     (case dwarf_maybe_named f Dw_Struct name of
        None \<Rightarrow> dwarf_optional n g f names st
      | Some tref \<Rightarrow> bind_run (dwarf_user_type n g f tref st) (\<lambda>_ st. dwarf_optional n g f names st))"

definition dwarf_resolve :: "nat \<Rightarrow> ('u, 'e, 'x) gimli \<Rightarrow> 'u dwarf_file \<Rightarrow> (unit, usize resolver) run" where
  "dwarf_resolve n g f =
     bind_run (dwarf_require n g f REQUIRED_TYPES new_resolver) (\<lambda>_ st.
     bind_run (dwarf_optional n g f OPTIONAL_MAPLE_TYPES st) (\<lambda>_ st.
     bind_run (dwarf_optional n g f [''module_memory''] st) (\<lambda>_ st.
     bind_run (lift_run (dwarf_find_named f Dw_Enum ''module_state'') st) (\<lambda>tref st.
     map_run (\<lambda>_. ()) (dwarf_ensure_enum g f tref st)))))"

definition load_dwarf_profile :: "nat \<Rightarrow> ('u, 'e, 'x) gimli \<Rightarrow> elf_file \<Rightarrow> raw_profile result option" where
  "load_dwarf_profile n g elf =
     (case dwarf_parse g elf of
        Inl e \<Rightarrow> Some (Inl e)
      | Inr f \<Rightarrow>
          map_option (\<lambda>(r, st). rbind r (\<lambda>_.
              Inr \<lparr> rp_symbols = Map.empty, rp_user_types = rs_user_types st, rp_enums = rs_enums st \<rparr>))
            (dwarf_resolve n g f))"

section \<open>What the tables say\<close>

fun dwarf_leaf :: "dw_tag \<Rightarrow> raw_type_ref option" where
  "dwarf_leaf DW_TAG_subroutine_type = Some Function"
| "dwarf_leaf DW_TAG_unspecified_type = Some Void"
| "dwarf_leaf DW_TAG_string_type = Some (Base ''string'')"
| "dwarf_leaf DW_TAG_member = Some Unknown"
| "dwarf_leaf DW_TAG_enumerator = Some Unknown"
| "dwarf_leaf DW_TAG_subrange_type = Some Unknown"
| "dwarf_leaf (DW_TAG_other _) = Some Unknown"
| "dwarf_leaf _ = None"

text \<open>
  A reference describes an entry, and what a type attribute refers to: through aliases and pointers, an array with
  its dimensions, composites and enums by the names given to them.
\<close>

inductive dwarf_type_of :: "('u, 'e, 'x) gimli \<Rightarrow> 'u dwarf_file \<Rightarrow> (usize \<Rightarrow> string option) \<Rightarrow> dwarf_type_ref \<Rightarrow> raw_type_ref \<Rightarrow> bool"
  and dwarf_target_of :: "('u, 'e, 'x) gimli \<Rightarrow> 'u dwarf_file \<Rightarrow> (usize \<Rightarrow> string option) \<Rightarrow> nat \<Rightarrow> raw_type_ref \<Rightarrow>
    'x attr_value option \<Rightarrow> raw_type_ref \<Rightarrow> bool"
  for g :: "('u, 'e, 'x) gimli" and f :: "'u dwarf_file" and names :: "usize \<Rightarrow> string option" where
  target_none: "dwarf_target_of g f names i missing None missing"
| target_some: "dwarf_resolve_type_ref g f i value = Inr tref \<Longrightarrow> dwarf_type_of g f names tref t \<Longrightarrow>
     dwarf_target_of g f names i missing (Some value) t"
| of_base: "dwarf_entry g f tref = Inr e \<Longrightarrow> gm_tag g e = DW_TAG_base_type \<Longrightarrow> dwarf_base_type g f tref e = Inr t \<Longrightarrow>
     dwarf_type_of g f names tref t"
| of_leaf: "dwarf_entry g f tref = Inr e \<Longrightarrow> dwarf_leaf (gm_tag g e) = Some t \<Longrightarrow> dwarf_type_of g f names tref t"
| of_pointer: "dwarf_entry g f tref = Inr e \<Longrightarrow> gm_tag g e = DW_TAG_pointer_type \<Longrightarrow> dwarf_attr g e DW_AT_type = Inr v \<Longrightarrow>
     dwarf_target_of g f names (dt_unit tref) Void v t \<Longrightarrow> dwarf_type_of g f names tref (Pointer t)"
| of_array: "dwarf_entry g f tref = Inr e \<Longrightarrow> gm_tag g e = DW_TAG_array_type \<Longrightarrow> dwarf_attr g e DW_AT_type = Inr v \<Longrightarrow>
     dwarf_target_of g f names (dt_unit tref) Unknown v t \<Longrightarrow> dwarf_array_counts g f tref = Inr counts \<Longrightarrow>
     dwarf_type_of g f names tref (dwarf_array_type counts t)"
| of_struct: "dwarf_entry g f tref = Inr e \<Longrightarrow> gm_tag g e = DW_TAG_structure_type \<Longrightarrow> names (dt_info_offset tref) = Some name \<Longrightarrow>
     dwarf_type_of g f names tref (Struct name)"
| of_union: "dwarf_entry g f tref = Inr e \<Longrightarrow> gm_tag g e = DW_TAG_union_type \<Longrightarrow> names (dt_info_offset tref) = Some name \<Longrightarrow>
     dwarf_type_of g f names tref (Union name)"
| of_enum: "dwarf_entry g f tref = Inr e \<Longrightarrow> gm_tag g e = DW_TAG_enumeration_type \<Longrightarrow> names (dt_info_offset tref) = Some name \<Longrightarrow>
     dwarf_type_of g f names tref (Enum name)"
| of_alias: "dwarf_entry g f tref = Inr e \<Longrightarrow> gm_tag g e \<in> dwarf_aliases \<Longrightarrow> dwarf_attr g e DW_AT_type = Inr v \<Longrightarrow>
     dwarf_target_of g f names (dt_unit tref) Unknown v t \<Longrightarrow> dwarf_type_of g f names tref t"

lemma dwarf_type_of_mono:
  "dwarf_type_of g f names tref t \<Longrightarrow> names \<subseteq>\<^sub>m names' \<Longrightarrow> dwarf_type_of g f names' tref t"
  "dwarf_target_of g f names i missing v t \<Longrightarrow> names \<subseteq>\<^sub>m names' \<Longrightarrow> dwarf_target_of g f names' i missing v t"
  by (induction rule: dwarf_type_of_dwarf_target_of.inducts)
    (auto intro: dwarf_type_of_dwarf_target_of.intros dest: map_le_Some)

text \<open>The fields of the members among the children, those without a name numbered in their order.\<close>

inductive dwarf_fields_of :: "('u, 'e, 'x) gimli \<Rightarrow> 'u dwarf_file \<Rightarrow> (usize \<Rightarrow> string option) \<Rightarrow> nat \<Rightarrow> nat \<Rightarrow> 'e list \<Rightarrow>
    (string \<times> raw_field) list \<Rightarrow> bool"
  for g :: "('u, 'e, 'x) gimli" and f :: "'u dwarf_file" and names :: "usize \<Rightarrow> string option" and i :: nat where
  fields_end: "dwarf_fields_of g f names i anon [] []"
| fields_other: "gm_tag g child \<noteq> DW_TAG_member \<Longrightarrow> dwarf_fields_of g f names i anon es fs \<Longrightarrow>
     dwarf_fields_of g f names i anon (child # es) fs"
| fields_member: "gm_tag g child = DW_TAG_member \<Longrightarrow> dwarf_member_head g f i child = Inr (name, offset, v) \<Longrightarrow>
     dwarf_target_of g f names i Void v t \<Longrightarrow> dwarf_bit_size g f i child = Inr bits \<Longrightarrow>
     dwarf_fields_of g f names i (if name = None then Suc anon else anon) es fs \<Longrightarrow>
     dwarf_fields_of g f names i anon (child # es) ((dwarf_field_name anon name, dwarf_field name offset t bits) # fs)"

lemma dwarf_fields_of_mono:
  "dwarf_fields_of g f names i anon es fs \<Longrightarrow> names \<subseteq>\<^sub>m names' \<Longrightarrow> dwarf_fields_of g f names' i anon es fs"
  by (induction rule: dwarf_fields_of.induct) (auto intro: dwarf_fields_of.intros dwarf_type_of_mono(2))

definition dwarf_layout_of ::
    "('u, 'e, 'x) gimli \<Rightarrow> 'u dwarf_file \<Rightarrow> (usize \<Rightarrow> string option) \<Rightarrow> string \<Rightarrow> raw_user_type \<Rightarrow> bool" where
  "dwarf_layout_of g f names name ut \<longleftrightarrow>
     (\<exists>tref children fs. names (dt_info_offset tref) = Some name \<and> dwarf_known f tref \<and>
        dwarf_composite_size g f tref = Inr (ut_size ut) \<and> dwarf_children g f tref = Inr (children, False) \<and>
        dwarf_fields_of g f names (dt_unit tref) 0 children fs \<and> map_of (ut_fields ut) = map_of (rev fs))"

definition dwarf_enum_of ::
    "('u, 'e, 'x) gimli \<Rightarrow> 'u dwarf_file \<Rightarrow> (usize \<Rightarrow> string option) \<Rightarrow> string \<Rightarrow> raw_enum \<Rightarrow> bool" where
  "dwarf_enum_of g f names name e \<longleftrightarrow>
     (\<exists>tref. names (dt_info_offset tref) = Some name \<and> dwarf_known f tref \<and> dwarf_enum_constants g f tref = Inr (re_constants e))"

definition entry_of_kind :: "('u, 'e, 'x) gimli \<Rightarrow> 'u dwarf_file \<Rightarrow> dwarf_named_kind set \<Rightarrow> usize \<Rightarrow> bool" where
  "entry_of_kind g f kinds k \<longleftrightarrow>
     (\<exists>tref e kind. df_entries f k = Some tref \<and> dwarf_entry g f tref = Inr e \<and>
        dwarf_kind_from_tag (gm_tag g e) = Some kind \<and> kind \<in> kinds)"

text \<open>The name of an entry is its own, or made from its kind and offset; if taken, with the offset after it.\<close>

definition dwarf_own_name :: "('u, 'e, 'x) gimli \<Rightarrow> 'e \<Rightarrow> string option \<Rightarrow> usize \<Rightarrow> string" where
  "dwarf_own_name g e n offset =
     (case n of
        Some x \<Rightarrow> x
      | None \<Rightarrow> ''__dwarf_'' @ (case dwarf_kind_from_tag (gm_tag g e) of Some k \<Rightarrow> dwarf_kind_str k | None \<Rightarrow> ''type'') @
          ''_'' @ gm_show_offset g offset)"

definition dwarf_given_name :: "('u, 'e, 'x) gimli \<Rightarrow> 'u dwarf_file \<Rightarrow> usize \<Rightarrow> string \<Rightarrow> bool" where
  "dwarf_given_name g f k name \<longleftrightarrow>
     (\<exists>tref u e n. dt_info_offset tref = k \<and> dwarf_unit f (dt_unit tref) = Inr u \<and> dwarf_entry g f tref = Inr e \<and>
        dwarf_attr_name g u e = Inr n \<and>
        (name = dwarf_own_name g e n k \<or> name = dwarf_own_name g e n k @ ''_'' @ gm_show_offset g k))"

text \<open>The invariant of the DWARF resolver.\<close>

definition dwarf_faithful ::
    "('u, 'e, 'x) gimli \<Rightarrow> 'u dwarf_file \<Rightarrow> string set \<Rightarrow> usize set \<Rightarrow> usize resolver \<Rightarrow> bool" where
  "dwarf_faithful g f =
     tables_describe (dwarf_layout_of g f) (dwarf_enum_of g f) (entry_of_kind g f {Dw_Struct, Dw_Union})
       (entry_of_kind g f {Dw_Enum}) (dwarf_given_name g f)"

lemma dwarf_layout_of_mono: "dwarf_layout_of g f names x ut \<Longrightarrow> names \<subseteq>\<^sub>m names' \<Longrightarrow> dwarf_layout_of g f names' x ut"
  unfolding dwarf_layout_of_def using map_le_Some [of names names'] dwarf_fields_of_mono [of g f names] by blast

lemma dwarf_enum_of_mono: "dwarf_enum_of g f names x e \<Longrightarrow> names \<subseteq>\<^sub>m names' \<Longrightarrow> dwarf_enum_of g f names' x e"
  unfolding dwarf_enum_of_def using map_le_Some [of names names'] by blast

interpretation dwarf_tables: table_laws "dwarf_layout_of g f" "dwarf_enum_of g f" "entry_of_kind g f {Dw_Struct, Dw_Union}"
    "entry_of_kind g f {Dw_Enum}" "dwarf_given_name g f" for g f
  by unfold_locales (rule dwarf_layout_of_mono, assumption+, rule dwarf_enum_of_mono)

section \<open>The tables only grow\<close>

lemma bind_lift_Inr: "bind_run (lift_run r st) k = Some (Inr y, st') \<longleftrightarrow> (\<exists>x. r = Inr x \<and> k x st = Some (Inr y, st'))"
  by (auto simp: lift_run_def bind_run_Inr)

lemma map_lift_Inr: "map_run h (lift_run r st) = Some (Inr y, st') \<longleftrightarrow> (\<exists>x. r = Inr x \<and> y = h x \<and> st' = st)"
  by (auto simp: lift_run_def map_run_Inr)

lemma lift_run_Inr: "lift_run r st = Some (Inr y, st') \<longleftrightarrow> r = Inr y \<and> st' = st"
  by (auto simp: lift_run_def)

lemmas run_Inr = bind_lift_Inr map_lift_Inr lift_run_Inr bind_run_Inr map_run_Inr

lemma dwarf_ensure_type_name_step:
  assumes "dwarf_ensure_type_name g f tref st = Some (Inr name, st')"
  shows "named_step st (dt_info_offset tref) name st'"
    and "rs_names st (dt_info_offset tref) = None \<Longrightarrow> dwarf_given_name g f (dt_info_offset tref) name"
proof -
  have "rs_names st (dt_info_offset tref) = Some name \<and> st' = st \<or>
    rs_names st (dt_info_offset tref) = None \<and> dwarf_given_name g f (dt_info_offset tref) name \<and>
    named_step st (dt_info_offset tref) name st'"
  proof (cases "rs_names st (dt_info_offset tref)")
    case (Some x)
    then show ?thesis using assms by (simp add: dwarf_ensure_type_name_def)
  next
    case None
    with assms obtain e n where "dwarf_entry g f tref = Inr e"
        "rbind (dwarf_unit f (dt_unit tref)) (\<lambda>u. dwarf_attr_name g u e) = Inr n"
      and gn: "name = fst (give_name (dt_info_offset tref) (dwarf_own_name g e n (dt_info_offset tref))
        (gm_show_offset g (dt_info_offset tref)) st)"
        "st' = snd (give_name (dt_info_offset tref) (dwarf_own_name g e n (dt_info_offset tref))
        (gm_show_offset g (dt_info_offset tref)) st)"
      by (auto simp: dwarf_ensure_type_name_def bind_lift_Inr dwarf_own_name_def Let_def split_def)
    then have "dwarf_given_name g f (dt_info_offset tref) name"
      unfolding dwarf_given_name_def by (auto simp: result_simps give_name_def Let_def split: if_splits)
    moreover have "named_step st (dt_info_offset tref) name st'"
      using gn None by (auto simp: named_step_def give_name_def Let_def)
    ultimately show ?thesis using None by simp
  qed
  then show "named_step st (dt_info_offset tref) name st'"
    and "rs_names st (dt_info_offset tref) = None \<Longrightarrow> dwarf_given_name g f (dt_info_offset tref) name"
    by (auto simp: named_step_def)
qed

lemma dwarf_ensure_enum_Inr:
  assumes "dwarf_ensure_enum g f tref st = Some (Inr name, st')"
  obtains (old) "dwarf_ensure_type_name g f tref st = Some (Inr name, st')" "rs_enums st' name \<noteq> None"
    | (new) st1 cs where "dwarf_ensure_type_name g f tref st = Some (Inr name, st1)" "rs_enums st1 name = None"
        "dwarf_enum_constants g f tref = Inr cs" "st' = st1\<lparr> rs_enums := (rs_enums st1)(name \<mapsto> \<lparr> re_constants = cs \<rparr>) \<rparr>"
proof -
  from assms obtain x st1 where n: "dwarf_ensure_type_name g f tref st = Some (Inr x, st1)"
    and k: "(if rs_enums st1 x \<noteq> None then Some (Inr x, st1)
       else bind_run (lift_run (dwarf_enum_constants g f tref) st1) (\<lambda>cs st.
         Some (Inr x, st\<lparr> rs_enums := (rs_enums st)(x \<mapsto> \<lparr> re_constants = cs \<rparr>) \<rparr>))) = Some (Inr name, st')"
    unfolding dwarf_ensure_enum_def bind_run_Inr by blast
  show ?thesis
  proof (cases "rs_enums st1 x")
    case None
    with k obtain cs where "dwarf_enum_constants g f tref = Inr cs" "name = x"
        "st' = st1\<lparr> rs_enums := (rs_enums st1)(x \<mapsto> \<lparr> re_constants = cs \<rparr>) \<rparr>"
      by (auto simp: bind_lift_Inr)
    then show ?thesis using new n None by simp
  next
    case (Some e)
    then show ?thesis using old n k by auto
  qed
qed

lemma dwarf_ensure_enum_grows:
  assumes "dwarf_ensure_enum g f tref st = Some (Inr name, st')"
  shows "grows st st'" "rs_names st' (dt_info_offset tref) = Some name" "rs_enums st' name \<noteq> None"
proof -
  from assms have "grows st st' \<and> rs_names st' (dt_info_offset tref) = Some name \<and> rs_enums st' name \<noteq> None"
  proof (cases rule: dwarf_ensure_enum_Inr)
    case old
    note n = dwarf_ensure_type_name_step(1) [OF old(1)]
    show ?thesis using named_step_grows [OF n] named_step_name [OF n] old(2) by simp
  next
    case (new st1 cs)
    note n = dwarf_ensure_type_name_step(1) [OF new(1)]
    have "grows st1 st'" unfolding new(4) by (rule growsI) (auto simp: new(2))
    then have "grows st st'" using named_step_grows [OF n] grows_trans by blast
    then show ?thesis using named_step_name [OF n] new(4) by simp
  qed
  then show "grows st st'" "rs_names st' (dt_info_offset tref) = Some name" "rs_enums st' name \<noteq> None" by simp_all
qed

lemma dwarf_user_body_Inr:
  assumes "dwarf_user_body ty g f tref st = Some (Inr name, st')"
  obtains (old) "dwarf_ensure_type_name g f tref st = Some (Inr name, st')" "rs_user_types st' name \<noteq> None"
    | (new) st1 sz children flds st2 where "dwarf_ensure_type_name g f tref st = Some (Inr name, st1)"
        "rs_user_types st1 name = None" "dwarf_composite_size g f tref = Inr sz"
        "dwarf_children g f tref = Inr (children, False)"
        "dwarf_members ty g f (dt_unit tref) 0 children [] (seed_type name sz st1) = Some (Inr flds, st2)"
        "st' = finish_type name flds st2"
proof -
  from assms obtain x st1 where n: "dwarf_ensure_type_name g f tref st = Some (Inr x, st1)"
    and k: "(if rs_user_types st1 x \<noteq> None then Some (Inr x, st1)
       else bind_run (lift_run (dwarf_composite_size g f tref) st1) (\<lambda>sz st.
       bind_run (lift_run (dwarf_children g f tref) (seed_type x sz st)) (\<lambda>(children, broken) st.
       bind_run (dwarf_members ty g f (dt_unit tref) 0 children [] st) (\<lambda>flds st.
       if broken then Some (Inl (OsLayer Offset), st) else Some (Inr x, finish_type x flds st))))) = Some (Inr name, st')"
    unfolding dwarf_user_body_def bind_run_Inr by blast
  show ?thesis
  proof (cases "rs_user_types st1 x")
    case None
    with k obtain sz children flds st2 where "dwarf_composite_size g f tref = Inr sz"
        "dwarf_children g f tref = Inr (children, False)"
        "dwarf_members ty g f (dt_unit tref) 0 children [] (seed_type x sz st1) = Some (Inr flds, st2)"
        "name = x" "st' = finish_type x flds st2"
      by (auto simp: run_Inr split: if_splits)
    then show ?thesis using new n None by simp
  next
    case (Some e)
    then show ?thesis using old n k by auto
  qed
qed

lemma dwarf_target_Inr:
  assumes "dwarf_target ty g f i missing v st = Some (Inr t, st')"
  obtains (none) "v = None" "t = missing" "st' = st"
    | (some) av tref where "v = Some av" "dwarf_resolve_type_ref g f i av = Inr tref"
        "ty tref st = Some (Inr t, st')"
  using assms by (auto simp: dwarf_target_def bind_lift_Inr split: option.splits)

lemma dwarf_members_Cons_Inr:
  assumes "dwarf_members ty g f i anon (child # es) fs st = Some (Inr fs', st')" "gm_tag g child = DW_TAG_member"
  obtains name offset v t st1 bits where "dwarf_member_head g f i child = Inr (name, offset, v)"
    "dwarf_target ty g f i Void v st = Some (Inr t, st1)" "dwarf_bit_size g f i child = Inr bits"
    "dwarf_members ty g f i (if name = None then Suc anon else anon) es
       (AList.update (dwarf_field_name anon name) (dwarf_field name offset t bits) fs) st1 = Some (Inr fs', st')"
  using assms by (auto simp: run_Inr)

lemma dwarf_type_body_Inr:
  assumes "dwarf_type_body ty user g f tref st = Some (Inr t, st')"
  obtains (base) e where "dwarf_entry g f tref = Inr e" "gm_tag g e = DW_TAG_base_type" "dwarf_base_type g f tref e = Inr t" "st' = st"
    | (leaf) e where "dwarf_entry g f tref = Inr e" "dwarf_leaf (gm_tag g e) = Some t" "st' = st"
    | (pointer) e v t' where "dwarf_entry g f tref = Inr e" "gm_tag g e = DW_TAG_pointer_type"
        "dwarf_attr g e DW_AT_type = Inr v" "dwarf_target ty g f (dt_unit tref) Void v st = Some (Inr t', st')" "t = Pointer t'"
    | (array) e v t' counts where "dwarf_entry g f tref = Inr e" "gm_tag g e = DW_TAG_array_type"
        "dwarf_attr g e DW_AT_type = Inr v" "dwarf_target ty g f (dt_unit tref) Unknown v st = Some (Inr t', st')"
        "dwarf_array_counts g f tref = Inr counts" "t = dwarf_array_type counts t'"
    | (composite) e name where "dwarf_entry g f tref = Inr e" "user tref st = Some (Inr name, st')"
        "gm_tag g e = DW_TAG_structure_type \<and> t = Struct name \<or> gm_tag g e = DW_TAG_union_type \<and> t = Union name"
    | (enum) e name where "dwarf_entry g f tref = Inr e" "gm_tag g e = DW_TAG_enumeration_type"
        "dwarf_ensure_enum g f tref st = Some (Inr name, st')" "t = Enum name"
    | (through) e v where "dwarf_entry g f tref = Inr e" "gm_tag g e \<in> dwarf_aliases"
        "dwarf_attr g e DW_AT_type = Inr v" "dwarf_target ty g f (dt_unit tref) Unknown v st = Some (Inr t, st')"
proof -
  from assms obtain e where e: "dwarf_entry g f tref = Inr e" by (auto simp: dwarf_type_body_def bind_lift_Inr)
  show ?thesis
    using assms e base [OF e] leaf [OF e] pointer [OF e] array [OF e] composite [OF e] enum [OF e] through [OF e]
    unfolding dwarf_type_body_def bind_lift_Inr
    by (cases "gm_tag g e") (auto simp: run_Inr dwarf_aliases_def)
qed

text \<open>What the recursion needs of a call: that it only adds to the tables.\<close>

definition growing :: "dwarf_call \<Rightarrow> bool" where
  "growing ty \<longleftrightarrow> (\<forall>tref st t st'. ty tref st = Some (Inr t, st') \<longrightarrow> grows st st')"

lemma growingD: "growing ty \<Longrightarrow> ty tref st = Some (Inr t, st') \<Longrightarrow> grows st st'"
  unfolding growing_def by blast

lemma dwarf_target_grows:
  assumes "growing ty" "dwarf_target ty g f i missing v st = Some (Inr t, st')"
  shows "grows st st'"
  using assms(2) by (cases rule: dwarf_target_Inr) (auto intro: grows_refl growingD [OF assms(1)])

lemma dwarf_members_grows:
  assumes ty: "growing ty"
    and "dwarf_members ty g f i anon es fs st = Some (Inr fs', st')"
  shows "grows st st'"
  using assms(2)
proof (induction es arbitrary: anon fs st)
  case (Cons child es)
  show ?case
  proof (cases "gm_tag g child = DW_TAG_member")
    case True
    from Cons.prems True show ?thesis
    proof (rule dwarf_members_Cons_Inr)
      fix name offset v t st1 bits
      assume t: "dwarf_target ty g f i Void v st = Some (Inr t, st1)"
        and rest: "dwarf_members ty g f i (if name = None then Suc anon else anon) es
          (AList.update (dwarf_field_name anon name) (dwarf_field name offset t bits) fs) st1 = Some (Inr fs', st')"
      have "grows st st1" using t by (rule dwarf_target_grows [OF ty])
      then show "grows st st'" using Cons.IH [OF rest] by (rule grows_trans)
    qed
  qed (use Cons in simp)
qed (simp add: grows_refl)

lemma dwarf_user_body_grows:
  assumes ty: "growing ty"
    and "dwarf_user_body ty g f tref st = Some (Inr name, st')"
  shows "grows st st' \<and> rs_names st' (dt_info_offset tref) = Some name \<and> rs_user_types st' name \<noteq> None"
  using assms(2)
proof (cases rule: dwarf_user_body_Inr)
  case old
  note n = dwarf_ensure_type_name_step(1) [OF old(1)]
  show ?thesis using named_step_grows [OF n] named_step_name [OF n] old(2) by simp
next
  case (new st1 sz children flds st2)
  note n = dwarf_ensure_type_name_step(1) [OF new(1)]
  note w = walked_type_grows [OF new(2) dwarf_members_grows [OF ty new(5)]]
  have "rs_names st' (dt_info_offset tref) = Some name"
    unfolding new(6) by (rule growsD(3) [OF w(1) named_step_name [OF n]])
  moreover have "grows st st'" using grows_trans [OF named_step_grows [OF n] w(1)] new(6) by simp
  moreover have "rs_user_types st' name \<noteq> None" unfolding new(6) by (simp only: w(2) option.distinct not_False_eq_True)
  ultimately show ?thesis by simp
qed

lemma dwarf_grows:
  "(\<forall>tref st t st'. dwarf_type n g f tref st = Some (Inr t, st') \<longrightarrow> grows st st') \<and>
   (\<forall>tref st name st'. dwarf_user_type n g f tref st = Some (Inr name, st') \<longrightarrow>
      grows st st' \<and> rs_names st' (dt_info_offset tref) = Some name \<and> rs_user_types st' name \<noteq> None)"
proof (induction n)
  case 0
  then show ?case by simp
next
  case (Suc n)
  then have ty: "growing (dwarf_type n g f)" unfolding growing_def by blast
  from Suc have user: "\<And>tref st name st'. dwarf_user_type n g f tref st = Some (Inr name, st') \<Longrightarrow> grows st st'"
    by blast+
  have "grows st st'" if "dwarf_type_body (dwarf_type n g f) (dwarf_user_type n g f) g f tref st = Some (Inr t, st')"
    for tref st t st'
    using that by (cases rule: dwarf_type_body_Inr)
      (auto intro: grows_refl user dwarf_ensure_enum_grows(1) dwarf_target_grows [OF ty])
  moreover have "grows st st' \<and> rs_names st' (dt_info_offset tref) = Some name \<and> rs_user_types st' name \<noteq> None"
    if "dwarf_user_body (dwarf_type n g f) g f tref st = Some (Inr name, st')" for tref st name st'
    using that by (rule dwarf_user_body_grows [OF ty])
  ultimately show ?case by (simp only: dwarf_type.simps dwarf_user_type.simps) blast
qed

lemmas dwarf_type_grows = dwarf_grows [THEN conjunct1, rule_format]
lemmas dwarf_user_type_grows =
  dwarf_grows [THEN conjunct2, rule_format, THEN conjunct1]
  dwarf_grows [THEN conjunct2, rule_format, THEN conjunct2, THEN conjunct1]
  dwarf_grows [THEN conjunct2, rule_format, THEN conjunct2, THEN conjunct2]

section \<open>The tables describe the entries\<close>

lemma entry_of_kind_disjoint: "entry_of_kind g f K k \<Longrightarrow> K \<inter> K' = {} \<Longrightarrow> \<not> entry_of_kind g f K' k"
  by (auto simp: entry_of_kind_def)

lemma entry_of_kindI:
  "dwarf_known f tref \<Longrightarrow> dwarf_entry g f tref = Inr e \<Longrightarrow> dwarf_kind_from_tag (gm_tag g e) = Some kind \<Longrightarrow> kind \<in> K \<Longrightarrow>
   entry_of_kind g f K (dt_info_offset tref)"
  unfolding entry_of_kind_def dwarf_known_def by blast

lemma dwarf_ensure_type_name_faithful:
  assumes "dwarf_ensure_type_name g f tref st = Some (Inr name, st')" "dwarf_faithful g f P {} st"
  shows "dwarf_faithful g f P {dt_info_offset tref} st'"
proof -
  note step = dwarf_ensure_type_name_step [OF assms(1)]
  have "dwarf_given_name g f (dt_info_offset tref) name"
    using step dwarf_tables.describesD(5) [OF assms(2) [unfolded dwarf_faithful_def]] by (auto simp: named_step_def)
  with step(1) show ?thesis using assms(2) unfolding dwarf_faithful_def by (intro dwarf_tables.describes_named)
qed

lemma dwarf_ensure_enum_faithful:
  assumes "dwarf_ensure_enum g f tref st = Some (Inr name, st')" "dwarf_faithful g f P {} st" "dwarf_known f tref"
    "entry_of_kind g f {Dw_Enum} (dt_info_offset tref)"
  shows "dwarf_faithful g f P {} st'"
proof -
  have c: "\<not> entry_of_kind g f {Dw_Struct, Dw_Union} (dt_info_offset tref)"
    using assms(4) by (rule entry_of_kind_disjoint) simp
  from assms(1) show ?thesis
  proof (cases rule: dwarf_ensure_enum_Inr)
    case old
    note n = named_step_name [OF dwarf_ensure_type_name_step(1) [OF old(1)]]
    from dwarf_ensure_type_name_faithful [OF old(1) assms(2)] show ?thesis
      unfolding dwarf_faithful_def by (rule dwarf_tables.describes_close [OF _ n]) (use c old(2) in simp_all)
  next
    case (new st1 cs)
    note n = named_step_name [OF dwarf_ensure_type_name_step(1) [OF new(1)]]
    have "dwarf_enum_of g f (rs_names st1) name \<lparr> re_constants = cs \<rparr>"
      using n assms(3) new(3) by (auto simp: dwarf_enum_of_def)
    with dwarf_ensure_type_name_faithful [OF new(1) assms(2)] show ?thesis
      unfolding dwarf_faithful_def new(4) by (intro dwarf_tables.describes_enum [OF _ n c])
  qed
qed

definition describing :: "('u, 'e, 'x) gimli \<Rightarrow> 'u dwarf_file \<Rightarrow> dwarf_call \<Rightarrow> bool" where
  "describing g f ty \<longleftrightarrow>
     (\<forall>P tref st t st'. dwarf_known f tref \<longrightarrow> dwarf_faithful g f P {} st \<longrightarrow> ty tref st = Some (Inr t, st') \<longrightarrow>
        dwarf_faithful g f P {} st' \<and> dwarf_type_of g f (rs_names st') tref t)"

lemma describingD:
  "describing g f ty \<Longrightarrow> dwarf_known f tref \<Longrightarrow> dwarf_faithful g f P {} st \<Longrightarrow> ty tref st = Some (Inr t, st') \<Longrightarrow>
   dwarf_faithful g f P {} st' \<and> dwarf_type_of g f (rs_names st') tref t"
  unfolding describing_def by blast

lemma resolved_known:
  assumes "tables_keyed g us f" "dwarf_resolve_type_ref h f i v = Inr tref"
  shows "dwarf_known f tref"
  using assms(2) tables_keyedD(1) [OF assms(1)]
  by (auto simp: dwarf_resolve_type_ref_def dwarf_known_def ok_or_def result_simps split: option.splits)

lemma dwarf_target_sound:
  assumes "tables_keyed h us f" "describing g f ty" "dwarf_faithful g f P {} st"
    "dwarf_target ty g f i missing v st = Some (Inr t, st')"
  shows "dwarf_faithful g f P {} st' \<and> dwarf_target_of g f (rs_names st') i missing v t"
  using assms(4)
proof (cases rule: dwarf_target_Inr)
  case none
  then show ?thesis using assms(3) by (simp add: target_none)
next
  case (some av tref)
  then show ?thesis
    using describingD [OF assms(2) resolved_known [OF assms(1) some(2)] assms(3) some(3)] by (auto intro: target_some)
qed

lemma dwarf_members_sound:
  assumes "tables_keyed h us f" "describing g f ty" "growing ty"
    "dwarf_faithful g f P {} st" "dwarf_members ty g f i anon es fs st = Some (Inr fs', st')"
  shows "dwarf_faithful g f P {} st' \<and> (\<exists>new. fs' = update_all new fs \<and> dwarf_fields_of g f (rs_names st') i anon es new)"
  using assms(4,5)
proof (induction es arbitrary: anon fs st)
  case Nil
  then show ?case by (auto simp: update_all_def intro!: exI [of _ "[]"] fields_end)
next
  case (Cons child es)
  show ?case
  proof (cases "gm_tag g child = DW_TAG_member")
    case False
    with Cons.prems(2) have "dwarf_members ty g f i anon es fs st = Some (Inr fs', st')" by simp
    from Cons.IH [OF Cons.prems(1) this] show ?thesis using False by (auto intro: fields_other)
  next
    case True
    from Cons.prems(2) True show ?thesis
    proof (rule dwarf_members_Cons_Inr)
      fix name offset v t st1 bits
      let ?fl = "(dwarf_field_name anon name, dwarf_field name offset t bits)"
      assume head: "dwarf_member_head g f i child = Inr (name, offset, v)"
        and t: "dwarf_target ty g f i Void v st = Some (Inr t, st1)" and bits: "dwarf_bit_size g f i child = Inr bits"
        and rest: "dwarf_members ty g f i (if name = None then Suc anon else anon) es
          (AList.update (dwarf_field_name anon name) (dwarf_field name offset t bits) fs) st1 = Some (Inr fs', st')"
      from dwarf_target_sound [OF assms(1,2) Cons.prems(1) t] have f1: "dwarf_faithful g f P {} st1"
        and tr: "dwarf_target_of g f (rs_names st1) i Void v t" by simp_all
      from Cons.IH [OF f1 rest] obtain new where f2: "dwarf_faithful g f P {} st'"
        and new: "fs' = update_all new (AList.update (fst ?fl) (snd ?fl) fs)"
          "dwarf_fields_of g f (rs_names st') i (if name = None then Suc anon else anon) es new" by auto
      have "rs_names st1 \<subseteq>\<^sub>m rs_names st'" using dwarf_members_grows [OF assms(3) rest] by (simp add: grows_def)
      with tr have "dwarf_target_of g f (rs_names st') i Void v t" by (rule dwarf_type_of_mono(2))
      from fields_member [OF True head this bits new(2)]
      have "dwarf_fields_of g f (rs_names st') i anon (child # es) (?fl # new)" .
      moreover have "fs' = update_all (?fl # new) fs" by (simp add: new(1) update_all_def)
      ultimately show ?thesis using f2 by blast
    qed
  qed
qed

lemma dwarf_user_body_sound:
  assumes "tables_keyed h us f" "describing g f ty" "growing ty" "dwarf_faithful g f P {} st" "dwarf_known f tref"
    "entry_of_kind g f {Dw_Struct, Dw_Union} (dt_info_offset tref)" "dwarf_user_body ty g f tref st = Some (Inr name, st')"
  shows "dwarf_faithful g f P {} st'"
proof -
  have e: "\<not> entry_of_kind g f {Dw_Enum} (dt_info_offset tref)" using assms(6) by (rule entry_of_kind_disjoint) simp
  from assms(7) show ?thesis
  proof (cases rule: dwarf_user_body_Inr)
    case old
    note n = named_step_name [OF dwarf_ensure_type_name_step(1) [OF old(1)]]
    from dwarf_ensure_type_name_faithful [OF old(1) assms(4)] show ?thesis
      unfolding dwarf_faithful_def by (rule dwarf_tables.describes_close [OF _ n]) (use e old(2) in simp_all)
  next
    case (new st1 sz children flds st2)
    note n = named_step_name [OF dwarf_ensure_type_name_step(1) [OF new(1)]]
    note g = dwarf_members_grows [OF assms(3) new(5)]
    from dwarf_ensure_type_name_faithful [OF new(1) assms(4)]
    have "dwarf_faithful g f (insert name P) {} (seed_type name sz st1)"
      unfolding dwarf_faithful_def by (intro dwarf_tables.describes_seed [OF _ n e])
    from dwarf_members_sound [OF assms(1-3) this new(5)] obtain fl where f2: "dwarf_faithful g f (insert name P) {} st2"
      and fl: "flds = update_all fl []" "dwarf_fields_of g f (rs_names st2) (dt_unit tref) 0 children fl" by blast
    have s: "rs_user_types st2 name = Some \<lparr> ut_size = sz, ut_fields = [] \<rparr>" by (rule growsD(1) [OF g]) simp
    have "rs_names st2 (dt_info_offset tref) = Some name" by (rule growsD(3) [OF g]) (simp add: n)
    with fl new(3,4) assms(5)
    have "dwarf_layout_of g f (rs_names st2) name (\<lparr> ut_size = sz, ut_fields = [] \<rparr>\<lparr> ut_fields := flds \<rparr>)"
      unfolding dwarf_layout_of_def by (auto simp: map_of_update_all)
    with f2 show ?thesis unfolding new(6) dwarf_faithful_def by (intro dwarf_tables.describes_finish [OF _ s])
  qed
qed

lemma dwarf_type_body_sound:
  assumes "tables_keyed h us f" "describing g f ty" "dwarf_known f tref" "dwarf_faithful g f P {} st"
    and user: "\<And>name st'. entry_of_kind g f {Dw_Struct, Dw_Union} (dt_info_offset tref) \<Longrightarrow> user tref st = Some (Inr name, st') \<Longrightarrow>
      dwarf_faithful g f P {} st' \<and> rs_names st' (dt_info_offset tref) = Some name"
    and "dwarf_type_body ty user g f tref st = Some (Inr t, st')"
  shows "dwarf_faithful g f P {} st' \<and> dwarf_type_of g f (rs_names st') tref t"
  using assms(6)
proof (cases rule: dwarf_type_body_Inr)
  case (base e)
  then show ?thesis using assms(4) by (auto intro: of_base)
next
  case (leaf e)
  then show ?thesis using assms(4) by (auto intro: of_leaf)
next
  case (pointer e v t')
  then show ?thesis using dwarf_target_sound [OF assms(1,2,4) pointer(4)] by (auto intro: of_pointer)
next
  case (array e v t' counts)
  then show ?thesis using dwarf_target_sound [OF assms(1,2,4) array(4)] by (auto intro: of_array)
next
  case (composite e name)
  obtain kind where "dwarf_kind_from_tag (gm_tag g e) = Some kind" "kind \<in> {Dw_Struct, Dw_Union}"
    using composite(3) by (auto simp: dwarf_kind_from_tag_def)
  then have "entry_of_kind g f {Dw_Struct, Dw_Union} (dt_info_offset tref)" by (rule entry_of_kindI [OF assms(3) composite(1)])
  from user [OF this composite(2)] show ?thesis
    using composite(1,3) of_struct [OF composite(1)] of_union [OF composite(1)] by auto
next
  case (enum e name)
  have "entry_of_kind g f {Dw_Enum} (dt_info_offset tref)"
    using enum(2) by (auto simp: dwarf_kind_from_tag_def intro!: entry_of_kindI [OF assms(3) enum(1)])
  then have "dwarf_faithful g f P {} st'" by (rule dwarf_ensure_enum_faithful [OF enum(3) assms(4,3)])
  then show ?thesis using dwarf_ensure_enum_grows(2) [OF enum(3)] enum(1,2,4) by (auto intro: of_enum)
next
  case (through e v)
  then show ?thesis using dwarf_target_sound [OF assms(1,2,4) through(4)] by (auto intro: of_alias)
qed

lemma dwarf_growing: "growing (dwarf_type n g f)"
  using dwarf_type_grows unfolding growing_def by blast

lemma dwarf_resolver_sound:
  assumes "tables_keyed h us f"
  shows "describing g f (dwarf_type n g f) \<and>
    (\<forall>P tref st name st'. dwarf_known f tref \<longrightarrow> entry_of_kind g f {Dw_Struct, Dw_Union} (dt_info_offset tref) \<longrightarrow>
       dwarf_faithful g f P {} st \<longrightarrow> dwarf_user_type n g f tref st = Some (Inr name, st') \<longrightarrow> dwarf_faithful g f P {} st')"
proof (induction n)
  case 0
  then show ?case by (simp add: describing_def)
next
  case (Suc n)
  then have ty: "describing g f (dwarf_type n g f)"
    and user: "\<And>P tref st name st'. dwarf_known f tref \<Longrightarrow> entry_of_kind g f {Dw_Struct, Dw_Union} (dt_info_offset tref) \<Longrightarrow>
      dwarf_faithful g f P {} st \<Longrightarrow> dwarf_user_type n g f tref st = Some (Inr name, st') \<Longrightarrow> dwarf_faithful g f P {} st'"
    by blast+
  have "dwarf_faithful g f P {} st' \<and> dwarf_type_of g f (rs_names st') tref t"
    if "dwarf_known f tref" "dwarf_faithful g f P {} st"
      "dwarf_type_body (dwarf_type n g f) (dwarf_user_type n g f) g f tref st = Some (Inr t, st')" for P tref st t st'
    by (rule dwarf_type_body_sound [OF assms ty that(1,2) _ that(3)])
      (use user [OF that(1) _ that(2)] dwarf_user_type_grows(2) in blast)
  then have "describing g f (dwarf_type (Suc n) g f)" unfolding describing_def by simp
  moreover have "dwarf_faithful g f P {} st'"
    if "dwarf_known f tref" "entry_of_kind g f {Dw_Struct, Dw_Union} (dt_info_offset tref)" "dwarf_faithful g f P {} st"
      "dwarf_user_type (Suc n) g f tref st = Some (Inr name, st')" for P tref st name st'
    using that(4) by (auto intro: dwarf_user_body_sound [OF assms ty dwarf_growing that(3,1,2)])
  ultimately show ?case by blast
qed

section \<open>A loaded profile\<close>

text \<open>A reference by name is to an entry of that kind.\<close>

lemma named_entry_of_kind:
  assumes "tables_keyed g (df_units f) f" "dwarf_find_named f kind name = Inr tref"
  shows "dwarf_known f tref" "entry_of_kind g f {kind} (dt_info_offset tref)"
proof -
  from assms(2) have "df_named f (kind, name) = Some tref" by (auto simp: dwarf_find_named_def ok_or_def split: option.splits)
  from tables_keyedD(2) [OF assms(1) this] have k: "dwarf_known f tref" and n: "named_entry g (df_units f) kind name tref"
    by simp_all
  from k show "dwarf_known f tref" .
  from n obtain e where "dt_unit tref < length (df_units f)"
      "gm_entry g (df_units f ! dt_unit tref) (dt_unit_offset tref) = Some e" "dwarf_kind_from_tag (gm_tag g e) = Some kind"
    by (auto simp: named_entry_def)
  then show "entry_of_kind g f {kind} (dt_info_offset tref)"
    by (intro entry_of_kindI [OF k]) (auto simp: dwarf_entry_def dwarf_unit_def nth_opt_def)
qed

lemma struct_entry:
  assumes "tables_keyed g (df_units f) f" "dwarf_find_named f Dw_Struct name = Inr tref"
  shows "entry_of_kind g f {Dw_Struct, Dw_Union} (dt_info_offset tref)"
  using named_entry_of_kind(2) [OF assms] by (auto simp: entry_of_kind_def)

lemma dwarf_require_sound:
  assumes "tables_keyed g (df_units f) f" "dwarf_faithful g f {} {} st" "dwarf_require n g f names st = Some (Inr (), st')"
  shows "dwarf_faithful g f {} {} st' \<and> grows st st' \<and>
    (\<forall>name \<in> set names. \<exists>tref nm. dwarf_find_named f Dw_Struct name = Inr tref \<and>
       rs_names st' (dt_info_offset tref) = Some nm \<and> rs_user_types st' nm \<noteq> None)"
  using assms(2,3)
proof (induction names arbitrary: st)
  case Nil
  then show ?case by (simp add: grows_refl)
next
  case (Cons name names)
  then obtain tref nm st1 where f: "dwarf_find_named f Dw_Struct name = Inr tref"
    and u: "dwarf_user_type n g f tref st = Some (Inr nm, st1)" and rest: "dwarf_require n g f names st1 = Some (Inr (), st')"
    by (auto simp: run_Inr)
  note k = named_entry_of_kind(1) [OF assms(1) f] and e = struct_entry [OF assms(1) f]
  note g = dwarf_user_type_grows [OF u]
  have "dwarf_faithful g f {} {} st1" using dwarf_resolver_sound [OF assms(1)] k e Cons.prems(1) u by blast
  note IH = Cons.IH [OF this rest]
  have g1: "grows st1 st'" using IH by simp
  have "rs_names st' (dt_info_offset tref) = Some nm" using growsD(3) [OF g1 g(2)] .
  moreover have "rs_user_types st' nm \<noteq> None" using g(3) growsD(1) [OF g1] by auto
  ultimately show ?case using IH f grows_trans [OF g(1) g1] by auto
qed

lemma dwarf_optional_sound:
  assumes "tables_keyed g (df_units f) f" "dwarf_faithful g f {} {} st" "dwarf_optional n g f names st = Some (Inr (), st')"
  shows "dwarf_faithful g f {} {} st' \<and> grows st st'"
  using assms(2,3)
proof (induction names arbitrary: st)
  case Nil
  then show ?case by (simp add: grows_refl)
next
  case (Cons name names)
  show ?case
  proof (cases "dwarf_maybe_named f Dw_Struct name")
    case None
    with Cons show ?thesis by simp
  next
    case (Some tref)
    with Cons.prems(2) obtain nm st1 where u: "dwarf_user_type n g f tref st = Some (Inr nm, st1)"
      and rest: "dwarf_optional n g f names st1 = Some (Inr (), st')" by (auto simp: run_Inr)
    have f: "dwarf_find_named f Dw_Struct name = Inr tref" using Some by (simp add: dwarf_find_named_def dwarf_maybe_named_def)
    have "dwarf_faithful g f {} {} st1"
      using dwarf_resolver_sound [OF assms(1)] named_entry_of_kind(1) [OF assms(1) f] struct_entry [OF assms(1) f]
        Cons.prems(1) u by blast
    from Cons.IH [OF this rest] show ?thesis using grows_trans [OF dwarf_user_type_grows(1) [OF u]] by blast
  qed
qed

lemma new_dwarf_faithful: "dwarf_faithful g f {} {} new_resolver"
  unfolding dwarf_faithful_def by (rule dwarf_tables.describes_new)

lemma dwarf_resolve_sound:
  assumes "tables_keyed g (df_units f) f" "dwarf_resolve n g f = Some (Inr (), st)"
  shows "dwarf_faithful g f {} {} st"
    and "\<forall>name \<in> set REQUIRED_TYPES. \<exists>tref nm. dwarf_find_named f Dw_Struct name = Inr tref \<and>
       rs_names st (dt_info_offset tref) = Some nm \<and> rs_user_types st nm \<noteq> None"
    and "\<exists>tref nm. dwarf_find_named f Dw_Enum ''module_state'' = Inr tref \<and>
       rs_names st (dt_info_offset tref) = Some nm \<and> rs_enums st nm \<noteq> None"
proof -
  from assms(2) obtain st1 st2 st3 tref nm where r: "dwarf_require n g f REQUIRED_TYPES new_resolver = Some (Inr (), st1)"
      "dwarf_optional n g f OPTIONAL_MAPLE_TYPES st1 = Some (Inr (), st2)"
      "dwarf_optional n g f [''module_memory''] st2 = Some (Inr (), st3)"
    and e: "dwarf_find_named f Dw_Enum ''module_state'' = Inr tref" "dwarf_ensure_enum g f tref st3 = Some (Inr nm, st)"
    unfolding dwarf_resolve_def by (auto simp: run_Inr simp del: dwarf_optional.simps)
  note s1 = dwarf_require_sound [OF assms(1) new_dwarf_faithful r(1)]
  note s2 = dwarf_optional_sound [OF assms(1) conjunct1 [OF s1] r(2)]
  note s3 = dwarf_optional_sound [OF assms(1) conjunct1 [OF s2] r(3)]
  note k = named_entry_of_kind [OF assms(1) e(1)]
  show "dwarf_faithful g f {} {} st" by (rule dwarf_ensure_enum_faithful [OF e(2) conjunct1 [OF s3] k])
  note ge = dwarf_ensure_enum_grows [OF e(2)]
  have g: "grows st1 st" using s2 s3 ge(1) grows_trans by blast
  show "\<forall>name \<in> set REQUIRED_TYPES. \<exists>tref nm. dwarf_find_named f Dw_Struct name = Inr tref \<and>
       rs_names st (dt_info_offset tref) = Some nm \<and> rs_user_types st nm \<noteq> None"
    using s1 growsD(1,3) [OF g] by (metis not_None_eq)
  show "\<exists>tref nm. dwarf_find_named f Dw_Enum ''module_state'' = Inr tref \<and>
       rs_names st (dt_info_offset tref) = Some nm \<and> rs_enums st nm \<noteq> None"
    using e(1) ge(2,3) by blast
qed

lemma load_dwarf_profile_sound:
  assumes "load_dwarf_profile fuel g elf = Some (Inr rp)" "dwarf_data g elf = Inr data" "gimli_lawful g data"
  shows "\<exists>f st. dwarf_parse g elf = Inr f \<and> dwarf_faithful g f {} {} st \<and>
    rp_symbols rp = Map.empty \<and> rp_user_types rp = rs_user_types st \<and> rp_enums rp = rs_enums st \<and>
    (\<forall>name \<in> set REQUIRED_TYPES. \<exists>tref nm. dwarf_find_named f Dw_Struct name = Inr tref \<and>
       rs_names st (dt_info_offset tref) = Some nm \<and> rs_user_types st nm \<noteq> None) \<and>
    (\<exists>tref nm. dwarf_find_named f Dw_Enum ''module_state'' = Inr tref \<and>
       rs_names st (dt_info_offset tref) = Some nm \<and> rs_enums st nm \<noteq> None)"
proof -
  from assms(1) obtain f r where f: "dwarf_parse g elf = Inr f" and res: "dwarf_resolve fuel g f = Some r"
    and rp: "rbind (fst r) (\<lambda>_. Inr \<lparr> rp_symbols = Map.empty, rp_user_types = rs_user_types (snd r), rp_enums = rs_enums (snd r) \<rparr>) = Inr rp"
    by (auto simp: load_dwarf_profile_def split_def split: sum.splits)
  then obtain st where r: "dwarf_resolve fuel g f = Some (Inr (), st)"
    and rp: "rp = \<lparr> rp_symbols = Map.empty, rp_user_types = rs_user_types st, rp_enums = rs_enums st \<rparr>"
    by (cases r; cases "fst r") auto
  note s = dwarf_resolve_sound [OF dwarf_parse_keyed [OF f assms(2,3)] r]
  show ?thesis
    by (intro exI [of _ f] exI [of _ st] conjI f s) (simp_all add: rp)
qed

end
