(* ===== verification/Dwarf_Ends.thy ===== *)
theory Dwarf_Ends
  imports Dwarf_Resolver
begin

text \<open>
  When the DWARF resolver of \<open>memflow-linux-defs/src/vmlinux.rs\<close> succeeds: structures whose members have types without
  references to other structures are laid out at once. A sample of such a kernel, read by an instance of gimli over
  trees of entries.
\<close>

section \<open>Flat structures\<close>

definition result_ok :: "'a result \<Rightarrow> 'a option" where
  "result_ok r = (case r of Inl _ \<Rightarrow> None | Inr x \<Rightarrow> Some x)"

lemma result_ok_Some [simp]: "result_ok r = Some x \<longleftrightarrow> r = Inr x"
  by (cases r) (auto simp: result_ok_def)

lemma result_ok_simps [simp]: "result_ok (Inr x) = Some x" "result_ok (Inl e) = None"
  by (simp_all add: result_ok_def)

text \<open>The type of a member that is a base type, or an array of a flat type.\<close>

fun flat_type :: "nat \<Rightarrow> ('u, 'e, 'x) gimli \<Rightarrow> 'u dwarf_file \<Rightarrow> dwarf_type_ref \<Rightarrow> raw_type_ref option" where
  "flat_type 0 g f tref = None"
| "flat_type (Suc n) g f tref =
     Option.bind (result_ok (dwarf_entry g f tref)) (\<lambda>e.
     if gm_tag g e = DW_TAG_base_type then result_ok (dwarf_base_type g f tref e)
     else if gm_tag g e = DW_TAG_array_type then
       Option.bind (Option.bind (result_ok (dwarf_attr g e DW_AT_type)) (\<lambda>v. v)) (\<lambda>value.
       Option.bind (result_ok (dwarf_resolve_type_ref g f (dt_unit tref) value)) (\<lambda>elem.
       Option.bind (flat_type n g f elem) (\<lambda>t.
       Option.bind (result_ok (dwarf_array_counts g f tref)) (\<lambda>counts.
       Some (dwarf_array_type counts t)))))
     else None)"

lemma flat_type_run: "flat_type n g f tref = Some t \<Longrightarrow> dwarf_type n g f tref st = Some (Inr t, st)"
  by (induction n g f tref arbitrary: t rule: flat_type.induct)
    (auto simp: bind_eq_Some_conv dwarf_type_body_def lift_run_def dwarf_target_def map_run_def split: if_splits)

fun flat_fields :: "nat \<Rightarrow> ('u, 'e, 'x) gimli \<Rightarrow> 'u dwarf_file \<Rightarrow> nat \<Rightarrow> 'e list \<Rightarrow> (string \<times> raw_field) list \<Rightarrow>
    (string \<times> raw_field) list option" where
  "flat_fields n g f i [] flds = Some flds"
| "flat_fields n g f i (child # es) flds =
     Option.bind (result_ok (dwarf_member_head g f i child)) (\<lambda>(name, offset, v).
     Option.bind v (\<lambda>value.
     Option.bind (result_ok (dwarf_resolve_type_ref g f i value)) (\<lambda>tref.
     Option.bind (flat_type n g f tref) (\<lambda>t.
     Option.bind (result_ok (dwarf_bit_size g f i child)) (\<lambda>bits.
     if gm_tag g child = DW_TAG_member \<and> name \<noteq> None
     then flat_fields n g f i es (AList.update (dwarf_field_name 0 name) (dwarf_field name offset t bits) flds)
     else None)))))"

lemma flat_fields_run:
  "flat_fields n g f i es flds = Some flds' \<Longrightarrow> dwarf_members (dwarf_type n g f) g f i anon es flds st = Some (Inr flds', st)"
proof (induction es arbitrary: flds)
  case (Cons child es)
  then obtain nm offset attr tref t bits where m: "dwarf_member_head g f i child = Inr (Some nm, offset, Some attr)"
      "dwarf_resolve_type_ref g f i attr = Inr tref" "flat_type n g f tref = Some t" "dwarf_bit_size g f i child = Inr bits"
      "gm_tag g child = DW_TAG_member"
    and rest: "flat_fields n g f i es (AList.update (dwarf_field_name 0 (Some nm)) (dwarf_field (Some nm) offset t bits) flds)
      = Some flds'"
    by (auto simp: bind_eq_Some_conv split: if_splits)
  from Cons.IH [OF rest] m show ?case
    by (simp add: lift_run_def dwarf_target_def flat_type_run dwarf_field_name_def)
qed simp

text \<open>The reference and the layout of a named structure.\<close>

definition flat_struct :: "nat \<Rightarrow> ('u, 'e, 'x) gimli \<Rightarrow> 'u dwarf_file \<Rightarrow> string \<Rightarrow> (dwarf_type_ref \<times> raw_user_type) option" where
  "flat_struct n g f name =
     Option.bind (result_ok (dwarf_find_named f Dw_Struct name)) (\<lambda>tref.
     Option.bind (result_ok (dwarf_entry g f tref)) (\<lambda>e.
     Option.bind (result_ok (dwarf_unit f (dt_unit tref))) (\<lambda>u.
     Option.bind (result_ok (dwarf_composite_size g f tref)) (\<lambda>sz.
     Option.bind (result_ok (dwarf_children g f tref)) (\<lambda>(children, broken).
     Option.bind (flat_fields n g f (dt_unit tref) children []) (\<lambda>flds.
     if dwarf_attr_name g u e = Inr (Some name) \<and> \<not> broken then Some (tref, \<lparr> ut_size = sz, ut_fields = flds \<rparr>)
     else None))))))"

definition add_struct :: "string \<Rightarrow> dwarf_type_ref \<times> raw_user_type \<Rightarrow> usize resolver \<Rightarrow> usize resolver" where
  "add_struct name s st =
     st\<lparr> rs_user_types := (rs_user_types st)(name \<mapsto> snd s), rs_names := (rs_names st)(dt_info_offset (fst s) \<mapsto> name),
         rs_used := insert name (rs_used st) \<rparr>"

lemma flat_struct_run:
  assumes "flat_struct n g f name = Some s" "rs_names st (dt_info_offset (fst s)) = None" "name \<notin> rs_used st"
    "rs_user_types st name = None"
  shows "dwarf_find_named f Dw_Struct name = Inr (fst s)"
    and "dwarf_user_type (Suc n) g f (fst s) st = Some (Inr name, add_struct name s st)"
proof -
  from assms(1) obtain tref e u sz children flds where s: "dwarf_find_named f Dw_Struct name = Inr tref"
      "dwarf_entry g f tref = Inr e" "dwarf_unit f (dt_unit tref) = Inr u" "dwarf_composite_size g f tref = Inr sz"
      "dwarf_children g f tref = Inr (children, False)" "flat_fields n g f (dt_unit tref) children [] = Some flds"
      "dwarf_attr_name g u e = Inr (Some name)" "s = (tref, \<lparr> ut_size = sz, ut_fields = flds \<rparr>)"
    by (auto simp: flat_struct_def bind_eq_Some_conv split: if_splits)
  then show "dwarf_find_named f Dw_Struct name = Inr (fst s)" by simp
  have "dwarf_ensure_type_name g f tref st =
      Some (Inr name, st\<lparr> rs_used := insert name (rs_used st), rs_names := (rs_names st)(dt_info_offset tref \<mapsto> name) \<rparr>)"
    using assms(2,3) s by (simp add: dwarf_ensure_type_name_def lift_run_def give_name_def Let_def)
  then show "dwarf_user_type (Suc n) g f (fst s) st = Some (Inr name, add_struct name s st)"
    using assms(4) by (simp add: dwarf_user_body_def s lift_run_def flat_fields_run [OF s(6)] add_struct_def
        seed_type_def finish_type_def)
qed

lemma flat_require_run:
  assumes "list_all2 (\<lambda>name s. flat_struct n g f name = Some s) names structs"
    "distinct names" "distinct (map (dt_info_offset \<circ> fst) structs)"
    "\<forall>name \<in> set names. name \<notin> rs_used st \<and> rs_user_types st name = None"
    "\<forall>s \<in> set structs. rs_names st (dt_info_offset (fst s)) = None"
  shows "dwarf_require (Suc n) g f names st = Some (Inr (), fold (\<lambda>(name, s). add_struct name s) (zip names structs) st)"
  using assms
proof (induction names structs arbitrary: st rule: list_all2_induct)
  case (Cons name names s structs)
  note r = flat_struct_run [OF Cons(1), of st]
  have "dwarf_require (Suc n) g f names (add_struct name s st) =
      Some (Inr (), fold (\<lambda>(name, s). add_struct name s) (zip names structs) (add_struct name s st))"
    by (rule Cons.IH) (use Cons.prems in \<open>auto simp: add_struct_def rev_image_eqI\<close>)
  with r Cons.prems show ?case by (simp add: lift_run_def)
qed simp

lemma flat_structs_state:
  assumes "length names = length structs" "distinct names"
  shows "rs_user_types (fold (\<lambda>(name, s). add_struct name s) (zip names structs) st) =
      rs_user_types st ++ map_of (zip names (map snd structs))"
    and "rs_used (fold (\<lambda>(name, s). add_struct name s) (zip names structs) st) = set names \<union> rs_used st"
    and "rs_enums (fold (\<lambda>(name, s). add_struct name s) (zip names structs) st) = rs_enums st"
    and "rs_names (fold (\<lambda>(name, s). add_struct name s) (zip names structs) st) k = None \<longleftrightarrow>
      rs_names st k = None \<and> k \<notin> set (map (dt_info_offset \<circ> fst) structs)"
  using assms
proof (induction names structs arbitrary: st rule: list_induct2)
  case (Cons name names s structs)
  {
    case 1
    then show ?case using Cons.IH(1) [of "add_struct name s st"]
      by (auto simp: add_struct_def map_add_def fun_eq_iff split: option.splits dest: map_of_SomeD set_zip_leftD)
  next
    case 2
    then show ?case using Cons.IH(2) [of "add_struct name s st"] by (auto simp: add_struct_def)
  next
    case 3
    then show ?case using Cons.IH(3) [of "add_struct name s st"] by (simp add: add_struct_def)
  next
    case 4
    then show ?case using Cons.IH(4) [of "add_struct name s st"] by (auto simp: add_struct_def)
  }
qed simp_all

text \<open>The structures the loader asks for: the required ones, and the optional ones that are there.\<close>

definition asked_structs :: "'u dwarf_file \<Rightarrow> string list" where
  "asked_structs f =
     REQUIRED_TYPES @ filter (\<lambda>name. dwarf_maybe_named f Dw_Struct name \<noteq> None) (OPTIONAL_MAPLE_TYPES @ [''module_memory''])"

lemma dwarf_optional_require:
  "dwarf_optional n g f names st = dwarf_require n g f (filter (\<lambda>name. dwarf_maybe_named f Dw_Struct name \<noteq> None) names) st"
  by (induction names arbitrary: st)
    (auto simp: dwarf_maybe_named_def dwarf_find_named_def lift_run_def bind_run_def ok_or_def split: option.splits sum.splits)

lemma dwarf_require_append:
  "dwarf_require n g f (xs @ ys) st = bind_run (dwarf_require n g f xs st) (\<lambda>_ st. dwarf_require n g f ys st)"
  by (induction xs arbitrary: st) (auto simp: bind_run_def split: option.splits sum.splits)

lemma bind_run_assoc: "bind_run (bind_run m k) h = bind_run m (\<lambda>x st. bind_run (k x st) h)"
  by (auto simp: bind_run_def split: option.splits sum.splits)

lemma dwarf_resolve_asked:
  "dwarf_resolve n g f =
     bind_run (dwarf_require n g f (asked_structs f) new_resolver) (\<lambda>_ st.
     bind_run (lift_run (dwarf_find_named f Dw_Enum ''module_state'') st) (\<lambda>tref st.
     map_run (\<lambda>_. ()) (dwarf_ensure_enum g f tref st)))"
  unfolding dwarf_resolve_def dwarf_optional_require asked_structs_def filter_append dwarf_require_append bind_run_assoc ..

lemma distinct_asked: "distinct (asked_structs f)" "''module_state'' \<notin> set (asked_structs f)"
  by (simp_all add: asked_structs_def REQUIRED_TYPES_def OPTIONAL_MAPLE_TYPES_def)

lemma flat_enum_run:
  assumes "dwarf_entry g f tref = Inr e" "dwarf_unit f (dt_unit tref) = Inr u" "dwarf_attr_name g u e = Inr (Some name)"
    "dwarf_enum_constants g f tref = Inr cs"
    "rs_names st (dt_info_offset tref) = None" "name \<notin> rs_used st" "rs_enums st name = None"
  shows "\<exists>st'. dwarf_ensure_enum g f tref st = Some (Inr name, st') \<and> rs_user_types st' = rs_user_types st \<and>
    rs_enums st' = (rs_enums st)(name \<mapsto> \<lparr> re_constants = cs \<rparr>)"
  using assms by (simp add: dwarf_ensure_enum_def dwarf_ensure_type_name_def lift_run_def give_name_def Let_def)

definition flat_kernel ::
    "nat \<Rightarrow> ('u, 'e, 'x) gimli \<Rightarrow> 'u dwarf_file \<Rightarrow> (dwarf_type_ref \<times> raw_user_type) list \<Rightarrow> (string \<Rightarrow> u64 option) \<Rightarrow> bool" where
  "flat_kernel n g f structs cs \<longleftrightarrow>
     (\<exists>tref u e. list_all2 (\<lambda>name s. flat_struct n g f name = Some s) (asked_structs f) structs \<and>
        distinct (dt_info_offset tref # map (dt_info_offset \<circ> fst) structs) \<and>
        dwarf_find_named f Dw_Enum ''module_state'' = Inr tref \<and> dwarf_entry g f tref = Inr e \<and>
        dwarf_unit f (dt_unit tref) = Inr u \<and> dwarf_attr_name g u e = Inr (Some ''module_state'') \<and>
        dwarf_enum_constants g f tref = Inr cs)"

lemma load_flat_kernel:
  assumes "dwarf_parse g elf = Inr f" "flat_kernel n g f structs cs"
  shows "load_dwarf_profile (Suc n) g elf =
    Some (Inr \<lparr> rp_symbols = Map.empty, rp_user_types = map_of (zip (asked_structs f) (map snd structs)),
                rp_enums = [''module_state'' \<mapsto> \<lparr> re_constants = cs \<rparr>] \<rparr>)"
proof -
  from assms(2) obtain tref u e where l: "list_all2 (\<lambda>name s. flat_struct n g f name = Some s) (asked_structs f) structs"
    and d: "distinct (dt_info_offset tref # map (dt_info_offset \<circ> fst) structs)"
    and t: "dwarf_find_named f Dw_Enum ''module_state'' = Inr tref" "dwarf_entry g f tref = Inr e"
      "dwarf_unit f (dt_unit tref) = Inr u" "dwarf_attr_name g u e = Inr (Some ''module_state'')"
      "dwarf_enum_constants g f tref = Inr cs" unfolding flat_kernel_def by blast
  let ?st = "fold (\<lambda>(name, s). add_struct name s) (zip (asked_structs f) structs) new_resolver"
  have r: "dwarf_require (Suc n) g f (asked_structs f) new_resolver = Some (Inr (), ?st)"
    by (rule flat_require_run [OF l distinct_asked(1)]) (use d in \<open>simp_all add: new_resolver_def\<close>)
  note s = flat_structs_state [OF list_all2_lengthD [OF l] distinct_asked(1), of new_resolver]
  obtain st' where e: "dwarf_ensure_enum g f tref ?st = Some (Inr ''module_state'', st')"
      "rs_user_types st' = rs_user_types ?st" "rs_enums st' = (rs_enums ?st)(''module_state'' \<mapsto> \<lparr> re_constants = cs \<rparr>)"
    using flat_enum_run [OF t(2-5), of ?st] s distinct_asked(2) [of f] d by (auto simp: new_resolver_def)
  have "dwarf_resolve (Suc n) g f = Some (Inr (), st')"
    by (simp add: dwarf_resolve_asked r t(1) lift_run_def e(1) map_run_def)
  moreover have "rs_user_types st' = map_of (zip (asked_structs f) (map snd structs))"
    "rs_enums st' = [''module_state'' \<mapsto> \<lparr> re_constants = cs \<rparr>]" using e(2,3) s by (simp_all add: new_resolver_def)
  ultimately show ?thesis by (simp add: load_dwarf_profile_def assms(1))
qed

section \<open>Trees of entries\<close>

text \<open>An instance of gimli: one unit, its entries given as trees, with the offsets of one unit that starts the section.\<close>

datatype die = Die (die_offset: usize) (die_tag: dw_tag) (die_attrs: "(dw_at \<times> string attr_value) list") (die_children: "die list")

fun die_entries :: "die \<Rightarrow> die list" where
  "die_entries (Die off tag ats ch) = Die off tag ats ch # concat (map die_entries ch)"

definition die_at :: "die list \<Rightarrow> usize \<Rightarrow> die option" where
  "die_at dies k = find (\<lambda>d. die_offset d = k) dies"

definition die_gimli :: "die list \<Rightarrow> (die list, die, string) gimli" where
  "die_gimli dies =
     \<lparr> gm_sections = [''.debug_info''], gm_units = (\<lambda>_. ([dies], False)), gm_entries = (\<lambda>u. (u, False)),
       gm_offset = die_offset, gm_debug_info_offset = (\<lambda>_. Some), gm_entry = die_at,
       gm_children = (\<lambda>u k. map_option (\<lambda>d. (die_children d, False)) (die_at u k)),
       gm_tag = die_tag, gm_attr = (\<lambda>d a. Some (map_of (die_attrs d) a)),
       gm_string = (\<lambda>_ v. case v of Other_Value s \<Rightarrow> Some s | _ \<Rightarrow> None),
       gm_first_op = (\<lambda>_ _. Some None), gm_show_offset = (\<lambda>k. radix_str 10 (unat k)) \<rparr>"

lemma die_gimli_simps [simp]:
  "gm_sections (die_gimli dies) = [''.debug_info'']" "gm_units (die_gimli dies) data = ([dies], False)"
  "gm_entries (die_gimli dies) u = (u, False)" "gm_offset (die_gimli dies) = die_offset"
  "gm_debug_info_offset (die_gimli dies) u k = Some k" "gm_entry (die_gimli dies) = die_at" "gm_tag (die_gimli dies) = die_tag"
  by (simp_all add: die_gimli_def)

lemma die_at_own: "distinct (map die_offset dies) \<Longrightarrow> d \<in> set dies \<Longrightarrow> die_at dies (die_offset d) = Some d"
  unfolding die_at_def by (induction dies) auto

lemma die_gimli_lawful: "distinct (map die_offset dies) \<Longrightarrow> gimli_lawful (die_gimli dies) data"
proof -
  have "unit_offsets (die_gimli dies) dies = map die_offset dies"
    by (simp add: unit_offsets_def List.map_filter_def comp_def)
  then show "distinct (map die_offset dies) \<Longrightarrow> gimli_lawful (die_gimli dies) data"
    by (simp add: gimli_lawful_def list_all_iff die_at_own)
qed

definition die_named :: "die list \<Rightarrow> die \<Rightarrow> (dwarf_named_kind \<times> string) option" where
  "die_named dies d =
     (case dwarf_kind_from_tag (die_tag d) of
        None \<Rightarrow> None
      | Some kind \<Rightarrow>
          if dwarf_declaration (die_gimli dies) d = Inr True then None
          else (case dwarf_attr_name (die_gimli dies) dies d of Inr (Some name) \<Rightarrow> Some (kind, name) | _ \<Rightarrow> None))"

definition die_readable :: "die list \<Rightarrow> die \<Rightarrow> bool" where
  "die_readable dies d \<longleftrightarrow> result_ok (dwarf_attr_name (die_gimli dies) dies d) \<noteq> None"

definition die_ref :: "usize \<Rightarrow> dwarf_type_ref" where
  "die_ref k = \<lparr> dt_unit = 0, dt_unit_offset = k, dt_info_offset = k \<rparr>"

definition die_file :: "die list \<Rightarrow> die list dwarf_file" where
  "die_file dies =
     \<lparr> df_units = [dies], df_entries = (\<lambda>k. map_option (\<lambda>_. die_ref k) (die_at dies k)),
       df_named = (\<lambda>kn. map_option (\<lambda>d. die_ref (die_offset d)) (find (\<lambda>d. die_named dies d = Some kn) dies)) \<rparr>"

lemma die_declaration: "\<exists>b. dwarf_declaration (die_gimli dies) d = Inr b"
  by (simp add: dwarf_declaration_def dwarf_attr_def die_gimli_def)

lemma die_index_entries:
  assumes "\<forall>d \<in> set es. die_readable dies d"
  shows "dwarf_index_entries (die_gimli dies) dies 0 es f =
    Inr (f\<lparr> df_entries := df_entries f ++ (\<lambda>k. map_option (\<lambda>_. die_ref k) (die_at es k)),
            df_named := (\<lambda>kn. map_option (\<lambda>d. die_ref (die_offset d)) (find (\<lambda>d. die_named dies d = Some kn) es)) ++ df_named f \<rparr>)"
  using assms
proof (induction es arbitrary: f)
  case Nil
  then show ?case by (simp add: die_at_def map_add_def)
next
  case (Cons d es)
  let ?f = "f\<lparr> df_entries := (df_entries f)(die_offset d \<mapsto> die_ref (die_offset d)) \<rparr>"
  let ?named = "case die_named dies d of None \<Rightarrow> df_named f
    | Some kn \<Rightarrow> (if df_named f kn = None then (df_named f)(kn \<mapsto> die_ref (die_offset d)) else df_named f)"
  obtain b where b: "dwarf_declaration (die_gimli dies) d = Inr b" using die_declaration by blast
  from Cons.prems(1) obtain nm where nm: "dwarf_attr_name (die_gimli dies) dies d = Inr nm"
    by (auto simp: die_readable_def)
  have "dwarf_index_named (die_gimli dies) dies d (die_ref (die_offset d)) ?f = Inr (?f\<lparr> df_named := ?named \<rparr>)"
    by (auto simp: dwarf_index_named_def die_named_def b nm split: option.split)
  then have step: "dwarf_index_entries (die_gimli dies) dies 0 (d # es) f =
      dwarf_index_entries (die_gimli dies) dies 0 es (?f\<lparr> df_named := ?named \<rparr>)"
    by (simp add: die_ref_def [symmetric] Let_def)
  have "(df_entries f)(die_offset d \<mapsto> die_ref (die_offset d)) ++ (\<lambda>k. map_option (\<lambda>_. die_ref k) (die_at es k)) =
      df_entries f ++ (\<lambda>k. map_option (\<lambda>_. die_ref k) (die_at (d # es) k))"
    by (auto simp: fun_eq_iff map_add_def die_at_def split: option.split)
  moreover have "(\<lambda>kn. map_option (\<lambda>d. die_ref (die_offset d)) (find (\<lambda>d. die_named dies d = Some kn) es)) ++ ?named =
      (\<lambda>kn. map_option (\<lambda>d. die_ref (die_offset d)) (find (\<lambda>d. die_named dies d = Some kn) (d # es))) ++ df_named f"
    by (auto simp: fun_eq_iff map_add_def split: option.splits)
  ultimately show ?case unfolding step using Cons by simp
qed

lemma die_parse:
  assumes "dwarf_data (die_gimli dies) elf = Inr data" "\<forall>d \<in> set dies. die_readable dies d"
  shows "dwarf_parse (die_gimli dies) elf = Inr (die_file dies)"
  using die_index_entries [OF assms(2), of no_tables]
  by (simp add: dwarf_parse_def assms(1) no_tables_def die_file_def)

text \<open>The names of the entries, each with the offset of the entry.\<close>

definition die_index :: "die list \<Rightarrow> ((dwarf_named_kind \<times> string) \<times> usize) list" where
  "die_index dies = List.map_filter (\<lambda>d. map_option (\<lambda>kn. (kn, die_offset d)) (die_named dies d)) dies"

lemma find_index:
  "map_option off (find (\<lambda>d. named d = Some kn) ds) =
     map_of (List.map_filter (\<lambda>d. map_option (\<lambda>kn. (kn, off d)) (named d)) ds) kn"
  by (induction ds) (auto simp: List.map_filter_simps split: option.split)

lemma die_file_named: "df_named (die_file dies) kn = map_option die_ref (map_of (die_index dies) kn)"
  by (simp add: die_file_def die_index_def find_index [symmetric] option.map_comp comp_def)

section \<open>A sample kernel\<close>

definition member_die :: "usize \<Rightarrow> string \<Rightarrow> usize \<Rightarrow> u16 \<Rightarrow> die" where
  "member_die off name ty loc =
     Die off DW_TAG_member [(DW_AT_name, Other_Value name), (DW_AT_type, UnitRef ty), (DW_AT_data_member_location, Data2 loc)] []"

text \<open>The members of a structure: 16 bytes each, an integer or an array of 16.\<close>

definition struct_die :: "usize \<Rightarrow> string \<Rightarrow> (string \<times> usize) list \<Rightarrow> die" where
  "struct_die off name members =
     Die off DW_TAG_structure_type [(DW_AT_name, Other_Value name), (DW_AT_byte_size, Udata (16 * of_nat (length members)))]
       (map (\<lambda>(i, nm, ty). member_die (off + of_nat (Suc i)) nm ty (16 * of_nat i)) (enumerate 0 members))"

definition enumerator_die :: "usize \<Rightarrow> string \<Rightarrow> u8 \<Rightarrow> die" where
  "enumerator_die off name n = Die off DW_TAG_enumerator [(DW_AT_name, Other_Value name), (DW_AT_const_value, Data1 n)] []"

definition sample_enum :: die where
  "sample_enum =
     Die 4 DW_TAG_enumeration_type [(DW_AT_name, Other_Value ''module_state'')]
       [enumerator_die 5 ''MODULE_STATE_LIVE'' 0, enumerator_die 6 ''MODULE_STATE_COMING'' 1,
        enumerator_die 7 ''MODULE_STATE_GOING'' 2, enumerator_die 8 ''MODULE_STATE_UNFORMED'' 3]"

definition sample_structs :: "(string \<times> (string \<times> usize) list) list" where
  "sample_structs =
     [(''task_struct'', (''comm'', 2) # map (\<lambda>nm. (nm, 1))
        [''tasks'', ''pid'', ''tgid'', ''mm'', ''active_mm'', ''exit_state'', ''exit_code'', ''real_parent'', ''parent'',
         ''group_leader'', ''fs'', ''files'', ''signal'', ''state'']),
      (''mm_struct'', map (\<lambda>nm. (nm, 1))
        [''pgd'', ''exe_file'', ''start_code'', ''end_code'', ''arg_start'', ''arg_end'', ''env_start'', ''env_end'', ''mmap'']),
      (''vm_area_struct'', map (\<lambda>nm. (nm, 1)) [''vm_start'', ''vm_end'', ''vm_flags'', ''vm_file'', ''vm_next'']),
      (''list_head'', [(''next'', 1), (''prev'', 1)]),
      (''module'', [(''list'', 1), (''state'', 1), (''name'', 2)]),
      (''fs_struct'', [(''root'', 1), (''pwd'', 1)]), (''file'', [(''f_path'', 1)]),
      (''path'', [(''mnt'', 1), (''dentry'', 1)]), (''mount'', [(''mnt_parent'', 1), (''mnt_mountpoint'', 1), (''mnt'', 1)]),
      (''vfsmount'', [(''mnt_root'', 1)]), (''dentry'', [(''d_parent'', 1), (''d_name'', 1)]), (''qstr'', [(''name'', 1)])]"

definition sample_dies :: "die list" where
  "sample_dies =
     concat (map die_entries
       ([Die 1 DW_TAG_base_type [(DW_AT_name, Other_Value ''int'')] [],
         Die 2 DW_TAG_array_type [(DW_AT_type, UnitRef 1)] [Die 3 DW_TAG_subrange_type [(DW_AT_count, Data1 16)] []],
         sample_enum] @
        map (\<lambda>(i, name, members). struct_die (0x100 * of_nat (Suc i)) name members) (enumerate 0 sample_structs)))"

lemma sample_dies_distinct: "distinct (map die_offset sample_dies)"
  by code_simp

lemma sample_dies_readable: "\<forall>d \<in> set sample_dies. die_readable sample_dies d"
  by code_simp

text \<open>A member, and a structure of such members, over any entries.\<close>

lemma member_die_read:
  assumes "die_at dies ty \<noteq> None"
  shows "dwarf_member_head (die_gimli dies) (die_file dies) 0 (member_die off nm ty loc) = Inr (Some nm, ucast loc, Some (UnitRef ty))"
    and "dwarf_bit_size (die_gimli dies) (die_file dies) 0 (member_die off nm ty loc) = Inr 0"
    and "dwarf_resolve_type_ref (die_gimli dies) (die_file dies) 0 (UnitRef ty) = Inr (die_ref ty)"
    and "die_tag (member_die off nm ty loc) = DW_TAG_member"
  using assms
  by (auto simp: dwarf_member_head_def dwarf_bit_size_def dwarf_resolve_type_ref_def dwarf_unit_def die_file_def nth_opt_def
      dwarf_attr_name_def dwarf_member_offset_def dwarf_attr_usize_def dwarf_attr_value_usize_def dwarf_attr_def
      member_die_def die_gimli_def)

definition member_field :: "(usize \<Rightarrow> raw_type_ref) \<Rightarrow> nat \<times> string \<times> usize \<Rightarrow> string \<times> raw_field" where
  "member_field ty_of = (\<lambda>(i, nm, ty).
     (nm, \<lparr> rf_offset = ucast (16 * of_nat i :: u16), rf_anonymous = False, rf_ty = ty_of ty \<rparr>))"

lemma update_fresh: "k \<notin> fst ` set xs \<Longrightarrow> AList.update k v xs = xs @ [(k, v)]"
  by (induction xs) auto

lemma struct_die_fields:
  assumes "\<forall>ty \<in> snd ` set members. die_at dies ty \<noteq> None \<and> flat_type n (die_gimli dies) (die_file dies) (die_ref ty) = Some (ty_of ty)"
    "distinct (map fst members)" "fst ` set members \<inter> fst ` set flds = {}"
  shows "flat_fields n (die_gimli dies) (die_file dies) 0
     (map (\<lambda>(i, nm, ty). member_die (off + of_nat (Suc i)) nm ty (16 * of_nat i)) (enumerate k members)) flds =
    Some (flds @ map (member_field ty_of) (enumerate k members))"
  using assms
proof (induction members arbitrary: k flds)
  case (Cons m members)
  obtain nm ty where m: "m = (nm, ty)" by fastforce
  with Cons.prems have ty: "die_at dies ty \<noteq> None" "flat_type n (die_gimli dies) (die_file dies) (die_ref ty) = Some (ty_of ty)"
    by auto
  have fresh: "nm \<notin> fst ` set flds" using Cons.prems(3) m by auto
  have "flat_fields n (die_gimli dies) (die_file dies) 0
     (map (\<lambda>(i, nm, ty). member_die (off + of_nat (Suc i)) nm ty (16 * of_nat i)) (enumerate (Suc k) members))
       (flds @ [member_field ty_of (k, m)]) =
    Some ((flds @ [member_field ty_of (k, m)]) @ map (member_field ty_of) (enumerate (Suc k) members))"
    by (rule Cons.IH) (use Cons.prems m in \<open>auto simp: member_field_def\<close>)
  then show ?case
    by (simp add: m member_die_read [OF ty(1)] ty(2) update_fresh [OF fresh] dwarf_field_name_def dwarf_field_def member_field_def
        del: of_nat_Suc)
qed simp

lemma struct_die_flat:
  assumes "die_at dies off = Some (struct_die off name members)"
    "map_of (die_index dies) (Dw_Struct, name) = Some off"
    "\<forall>ty \<in> snd ` set members. die_at dies ty \<noteq> None \<and> flat_type n (die_gimli dies) (die_file dies) (die_ref ty) = Some (ty_of ty)"
    "distinct (map fst members)"
  shows "flat_struct n (die_gimli dies) (die_file dies) name =
    Some (die_ref off, \<lparr> ut_size = 16 * of_nat (length members), ut_fields = map (member_field ty_of) (enumerate 0 members) \<rparr>)"
proof -
  let ?g = "die_gimli dies" and ?f = "die_file dies" and ?d = "struct_die off name members"
  have "dwarf_find_named ?f Dw_Struct name = Inr (die_ref off)"
    by (simp add: dwarf_find_named_def die_file_named assms(2))
  moreover have "dwarf_entry ?g ?f (die_ref off) = Inr ?d" "dwarf_unit ?f (dt_unit (die_ref off)) = Inr dies"
    by (simp_all add: dwarf_entry_def dwarf_unit_def die_file_def die_ref_def nth_opt_def assms(1))
  moreover have "dwarf_composite_size ?g ?f (die_ref off) = Inr (16 * of_nat (length members))"
    using calculation(2,3)
    by (simp add: dwarf_composite_size_def) (simp add: struct_die_def die_gimli_def dwarf_kind_from_tag_def dwarf_attr_usize_def
        dwarf_attr_def dwarf_attr_value_usize_def)
  moreover have "dwarf_children ?g ?f (die_ref off) =
      Inr (map (\<lambda>(i, nm, ty). member_die (off + of_nat (Suc i)) nm ty (16 * of_nat i)) (enumerate 0 members), False)"
    using calculation(3)
    by (simp add: dwarf_children_def) (simp add: die_gimli_def die_ref_def assms(1) struct_die_def)
  moreover have "dwarf_attr_name ?g dies ?d = Inr (Some name)"
    by (simp add: dwarf_attr_name_def dwarf_attr_def die_gimli_def struct_die_def)
  moreover note struct_die_fields [OF assms(3,4), of "[]" off 0]
  ultimately show ?thesis by (simp add: flat_struct_def die_ref_def)
qed

definition sample_types :: "usize \<Rightarrow> raw_type_ref" where
  "sample_types ty = (if ty = 2 then Array 16 (Base ''int'') else Base ''int'')"

definition sample_layout :: "(string \<times> usize) list \<Rightarrow> raw_user_type" where
  "sample_layout members =
     \<lparr> ut_size = 16 * of_nat (length members), ut_fields = map (member_field sample_types) (enumerate 0 members) \<rparr>"

definition sample_offsets :: "usize list" where
  "sample_offsets = map (\<lambda>i. 0x100 * of_nat (Suc i)) [0 ..< length sample_structs]"

definition sample_states :: "string \<Rightarrow> u64 option" where
  "sample_states =
     [''MODULE_STATE_LIVE'' \<mapsto> 0, ''MODULE_STATE_COMING'' \<mapsto> 1, ''MODULE_STATE_GOING'' \<mapsto> 2, ''MODULE_STATE_UNFORMED'' \<mapsto> 3]"

lemma sample_index:
  "die_index sample_dies =
     ((Dw_Enum, ''module_state''), 4) # zip (map (\<lambda>s. (Dw_Struct, fst s)) sample_structs) sample_offsets"
  by code_simp

lemma sample_flat_types:
  "flat_type 2 (die_gimli sample_dies) (die_file sample_dies) (die_ref 1) = Some (sample_types 1)"
  "flat_type 2 (die_gimli sample_dies) (die_file sample_dies) (die_ref 2) = Some (sample_types 2)"
  by code_simp+

lemma sample_known: "die_at sample_dies 1 \<noteq> None" "die_at sample_dies 2 \<noteq> None"
  by code_simp+

lemma sample_required: "map fst sample_structs = REQUIRED_TYPES"
  by (simp add: sample_structs_def REQUIRED_TYPES_def)

lemma sample_asked: "asked_structs (die_file sample_dies) = REQUIRED_TYPES"
proof -
  have "map_of (die_index sample_dies) (Dw_Struct, name) = None" if "name \<in> set (OPTIONAL_MAPLE_TYPES @ [''module_memory''])" for name
  proof -
    have "name \<notin> set REQUIRED_TYPES" using that by (auto simp: REQUIRED_TYPES_def OPTIONAL_MAPLE_TYPES_def)
    then have "name \<notin> fst ` set sample_structs" by (simp flip: sample_required)
    then have "(Dw_Struct, name) \<notin> fst ` set (zip (map (\<lambda>s. (Dw_Struct, fst s)) sample_structs) sample_offsets)"
      by (auto dest!: set_zip_leftD)
    then show ?thesis by (simp add: sample_index map_of_eq_None_iff)
  qed
  then show ?thesis by (simp add: asked_structs_def dwarf_maybe_named_def die_file_named filter_empty_conv)
qed

lemma sample_members: "\<forall>s \<in> set sample_structs. distinct (map fst (snd s)) \<and> (\<forall>ty \<in> set (map snd (snd s)). ty = 1 \<or> ty = 2)"
  by code_simp

definition sample_layouts :: "(dwarf_type_ref \<times> raw_user_type) list" where
  "sample_layouts = map2 (\<lambda>off s. (die_ref off, sample_layout (snd s))) sample_offsets sample_structs"

lemma length_sample_offsets [simp]: "length sample_offsets = length sample_structs"
  by (simp add: sample_offsets_def)

lemma die_entries_own: "d \<in> set (die_entries d)"
  by (cases d) simp

lemma sample_struct_die:
  assumes "i < length sample_structs"
  shows "struct_die (sample_offsets ! i) (fst (sample_structs ! i)) (snd (sample_structs ! i)) \<in> set sample_dies"
proof -
  have "(i, sample_structs ! i) \<in> set (enumerate 0 sample_structs)" using assms by (auto simp: in_set_enumerate_eq)
  moreover have "sample_offsets ! i = 0x100 * of_nat (Suc i)" using assms by (simp add: sample_offsets_def)
  ultimately show ?thesis unfolding sample_dies_def
    by (simp del: of_nat_Suc) (metis (no_types, lifting) case_prod_conv die_entries_own prod.collapse)
qed

lemma sample_flat_struct:
  assumes "i < length sample_structs"
  shows "flat_struct 2 (die_gimli sample_dies) (die_file sample_dies) (fst (sample_structs ! i)) = Some (sample_layouts ! i)"
proof -
  let ?s = "sample_structs ! i" and ?off = "sample_offsets ! i"
  have "die_offset (struct_die ?off (fst ?s) (snd ?s)) = ?off" by (simp add: struct_die_def)
  with die_at_own [OF sample_dies_distinct sample_struct_die [OF assms]]
  have at: "die_at sample_dies ?off = Some (struct_die ?off (fst ?s) (snd ?s))" by simp
  have "distinct (map (\<lambda>s. (Dw_Struct, fst s)) sample_structs)"
    using distinct_asked(1) [of "die_file sample_dies"] unfolding sample_asked sample_required [symmetric]
    by (simp add: distinct_map inj_on_def)
  then have "map_of (die_index sample_dies) (Dw_Struct, fst ?s) = Some ?off"
    using map_of_zip_nth [of "map (\<lambda>s. (Dw_Struct, fst s)) sample_structs" sample_offsets i] assms by (simp add: sample_index)
  moreover have "?s \<in> set sample_structs" using assms by simp
  note m = bspec [OF sample_members this]
  have "\<forall>ty \<in> snd ` set (snd ?s). die_at sample_dies ty \<noteq> None \<and>
      flat_type 2 (die_gimli sample_dies) (die_file sample_dies) (die_ref ty) = Some (sample_types ty)"
    using m sample_known sample_flat_types by fastforce
  ultimately show ?thesis
    using struct_die_flat [OF at, where n = 2 and ty_of = sample_types] m assms
    by (simp add: sample_layouts_def sample_layout_def)
qed

lemma enumerator_constants:
  "dwarf_constants (die_gimli dies) u (enumerator_die off name n # es) cs =
     dwarf_constants (die_gimli dies) u es (cs(name \<mapsto> ucast n))"
  by (simp add: enumerator_die_def dwarf_attr_name_def dwarf_attr_def dwarf_const_i64_def)
    (simp add: die_gimli_def)

lemma sample_enum_constants:
  "dwarf_enum_constants (die_gimli sample_dies) (die_file sample_dies) (die_ref 4) = Inr sample_states"
proof -
  have "dwarf_entry (die_gimli sample_dies) (die_file sample_dies) (die_ref 4) = Inr sample_enum" by code_simp
  moreover have "dwarf_children (die_gimli sample_dies) (die_file sample_dies) (die_ref 4) = Inr (die_children sample_enum, False)"
    by code_simp
  moreover have "dwarf_unit (die_file sample_dies) (dt_unit (die_ref 4)) = Inr sample_dies"
    by (simp add: dwarf_unit_def die_file_def die_ref_def nth_opt_def)
  ultimately show ?thesis
    by (simp add: dwarf_enum_constants_def sample_enum_def enumerator_constants sample_states_def del: dwarf_constants.simps(2))
qed

lemma sample_flat_kernel: "flat_kernel 2 (die_gimli sample_dies) (die_file sample_dies) sample_layouts sample_states"
proof -
  have "list_all2 (\<lambda>name s. flat_struct 2 (die_gimli sample_dies) (die_file sample_dies) name = Some s)
      (asked_structs (die_file sample_dies)) sample_layouts"
    unfolding sample_asked sample_required [symmetric]
    by (simp add: list_all2_conv_all_nth sample_flat_struct) (simp add: sample_layouts_def)
  moreover have "distinct (4 # map (dt_info_offset \<circ> fst) sample_layouts)" by code_simp
  moreover have "dwarf_find_named (die_file sample_dies) Dw_Enum ''module_state'' = Inr (die_ref 4)"
    by (simp add: dwarf_find_named_def die_file_named sample_index)
  moreover have "dwarf_entry (die_gimli sample_dies) (die_file sample_dies) (die_ref 4) = Inr sample_enum" by code_simp
  moreover have "dwarf_attr_name (die_gimli sample_dies) sample_dies sample_enum = Inr (Some ''module_state'')"
    by (simp add: dwarf_attr_name_def dwarf_attr_def die_gimli_def sample_enum_def)
  moreover have "dwarf_unit (die_file sample_dies) (dt_unit (die_ref 4)) = Inr sample_dies"
    by (simp add: dwarf_unit_def die_file_def die_ref_def nth_opt_def)
  moreover have "dwarf_enum_constants (die_gimli sample_dies) (die_file sample_dies) (die_ref 4) = Inr sample_states"
    by (rule sample_enum_constants)
  ultimately show ?thesis unfolding flat_kernel_def by (intro exI conjI) (auto simp: die_ref_def)
qed

text \<open>The sample loads from every image, as its entries do not come from the sections.\<close>

lemma sample_loads:
  assumes "dwarf_data (die_gimli sample_dies) elf = Inr data"
  shows "load_dwarf_profile 3 (die_gimli sample_dies) elf =
    Some (Inr \<lparr> rp_symbols = Map.empty, rp_user_types = map_of (zip REQUIRED_TYPES (map snd sample_layouts)),
                rp_enums = [''module_state'' \<mapsto> \<lparr> re_constants = sample_states \<rparr>] \<rparr>)"
  using load_flat_kernel [OF die_parse [OF assms sample_dies_readable] sample_flat_kernel]
  by (simp add: sample_asked eval_nat_numeral)

definition no_sections :: elf_file where
  "no_sections = \<lparr> ef_data = [], ef_sections = [], ef_symbols = Map.empty \<rparr>"

text \<open>
  A declaration is skipped by the index of names, but not by the resolver: a pointer to a structure that its unit only
  declares gives the name to the declaration, with size 0 and no fields, and the definition gets another name.
\<close>

definition declared_dies :: "die list" where
  "declared_dies =
     [Die 1 DW_TAG_structure_type [(DW_AT_name, Other_Value ''task_struct'')] [member_die 2 ''mm'' 3 0], member_die 2 ''mm'' 3 0,
      Die 3 DW_TAG_pointer_type [(DW_AT_type, UnitRef 4)] [],
      Die 4 DW_TAG_structure_type [(DW_AT_name, Other_Value ''mm_struct''), (DW_AT_declaration, Flag True)] [],
      Die 5 DW_TAG_structure_type [(DW_AT_name, Other_Value ''mm_struct''), (DW_AT_byte_size, Data1 8)] [member_die 6 ''pgd'' 7 0],
      member_die 6 ''pgd'' 7 0, Die 7 DW_TAG_base_type [(DW_AT_name, Other_Value ''long'')] []]"

lemma declaration_takes_name:
  "case dwarf_require 4 (die_gimli declared_dies) (die_file declared_dies) [''task_struct'', ''mm_struct''] new_resolver of
     Some (Inr _, st) \<Rightarrow>
       rs_user_types st ''mm_struct'' = Some \<lparr> ut_size = 0, ut_fields = [] \<rparr> \<and>
       map_option ut_size (rs_user_types st ''mm_struct_5'') = Some 8
   | _ \<Rightarrow> False"
  by code_simp

text \<open>
  C17. When the DWARF of a kernel is loaded, every structure and enum of the profile is one of its entries: its size,
  and per member (of equal names the last) its byte offset, whether it is anonymous or a bit field, and its type through
  aliases, pointers and arrays; a structure or enum that a member refers to is in the profile too, under the name it was
  given; and the required structures and \<open>module_state\<close> are there, each from a definition of that name, not a
  declaration.
\<close>

theorem load_dwarf_profile_faithful:
  assumes "load_dwarf_profile fuel g elf = Some (Inr rp)" "dwarf_data g elf = Inr data" "gimli_lawful g data"
  shows "\<exists>f st. dwarf_parse g elf = Inr f \<and> dwarf_faithful g f {} {} st \<and>
    rp_symbols rp = Map.empty \<and> rp_user_types rp = rs_user_types st \<and> rp_enums rp = rs_enums st \<and>
    (\<forall>name \<in> set REQUIRED_TYPES. \<exists>tref nm. dwarf_find_named f Dw_Struct name = Inr tref \<and>
       named_entry g (df_units f) Dw_Struct name tref \<and> rs_names st (dt_info_offset tref) = Some nm \<and> rs_user_types st nm \<noteq> None) \<and>
    (\<exists>tref nm. dwarf_find_named f Dw_Enum ''module_state'' = Inr tref \<and>
       named_entry g (df_units f) Dw_Enum ''module_state'' tref \<and> rs_names st (dt_info_offset tref) = Some nm \<and> rs_enums st nm \<noteq> None)"
proof -
  have found: "named_entry g (df_units f) kind name tref"
    if "dwarf_parse g elf = Inr f" "dwarf_find_named f kind name = Inr tref" for f kind name tref
    using tables_keyedD(2) [OF dwarf_parse_keyed [OF that(1) assms(2,3)], of kind name tref] that(2)
    by (auto simp: dwarf_find_named_def ok_or_def split: option.splits)
  obtain f st where f: "dwarf_parse g elf = Inr f" and r: "dwarf_faithful g f {} {} st"
      "rp_symbols rp = Map.empty" "rp_user_types rp = rs_user_types st" "rp_enums rp = rs_enums st"
      "\<forall>name \<in> set REQUIRED_TYPES. \<exists>tref nm. dwarf_find_named f Dw_Struct name = Inr tref \<and>
         rs_names st (dt_info_offset tref) = Some nm \<and> rs_user_types st nm \<noteq> None"
      "\<exists>tref nm. dwarf_find_named f Dw_Enum ''module_state'' = Inr tref \<and>
         rs_names st (dt_info_offset tref) = Some nm \<and> rs_enums st nm \<noteq> None"
    using load_dwarf_profile_sound [OF assms] by blast
  show ?thesis
    by (intro exI [of _ f] exI [of _ st] conjI f r(1-4)) (use r(5,6) found [OF f] in blast)+
qed

theorem load_dwarf_profile_faithful_witness:
  "\<exists>rp f st. load_dwarf_profile 3 (die_gimli sample_dies) no_sections = Some (Inr rp) \<and>
     dwarf_parse (die_gimli sample_dies) no_sections = Inr f \<and> dwarf_faithful (die_gimli sample_dies) f {} {} st \<and>
     rp_user_types rp = rs_user_types st"
proof -
  have "dwarf_data (die_gimli sample_dies) no_sections = Inr [(''.debug_info'', [])]"
    by (simp add: dwarf_data_def section_data_optional_def no_sections_def)
  from load_dwarf_profile_faithful [OF sample_loads [OF this] this die_gimli_lawful [OF sample_dies_distinct]]
  show ?thesis using sample_loads [OF \<open>dwarf_data _ no_sections = _\<close>] by blast
qed

end
