(* ===== verification/Defs_Toml.thy ===== *)
theory Defs_Toml
  imports Defs "HOL-Library.Monad_Syntax"
begin

text \<open>
  The defs document as a TOML text: what the generator writes (\<open>memflow-linux-defs/src/defs.rs\<close>) and the plugin reads
  (\<open>memflow-linux/src/defs.rs\<close>). The structures derive their serializers, so a structure is a table with its fields under their
  names, an absent optional field is left out, and the attributes of a field say how it is written and what it is when
  absent. The values of TOML, their printer and their parser are the crate toml: the record \<open>toml\<close>, an argument of every
  definition. A structure given as an array is not modelled.
\<close>

section \<open>Values and tables\<close>

record 'v toml =
  tm_int :: "u64 \<Rightarrow> 'v option"
  tm_as_int :: "'v \<Rightarrow> u64 option"
  tm_str :: "string \<Rightarrow> 'v"
  tm_as_str :: "'v \<Rightarrow> string option"
  tm_table :: "(string \<times> 'v) list \<Rightarrow> 'v"
  tm_as_table :: "'v \<Rightarrow> (string \<Rightarrow> 'v option) option"
  tm_print :: "'v \<Rightarrow> string option"
  tm_parse :: "string \<Rightarrow> 'v option"

text \<open>What the crate documents: a value is read back as it was made, a table by its keys, and a printed value is parsed.\<close>

definition toml_lawful :: "'v toml \<Rightarrow> bool" where
  "toml_lawful t \<longleftrightarrow>
     (\<forall>n v. tm_int t n = Some v \<longrightarrow> tm_as_int t v = Some n) \<and>
     (\<forall>s. tm_as_str t (tm_str t s) = Some s) \<and>
     (\<forall>kvs. distinct (map fst kvs) \<longrightarrow> tm_as_table t (tm_table t kvs) = Some (map_of kvs)) \<and>
     (\<forall>v s. tm_print t v = Some s \<longrightarrow> tm_parse t s = Some v)"

text \<open>An entry of a table: an error, or no entry, or a value.\<close>

type_synonym 'v entry = "'v option option"

definition int_entry :: "'v toml \<Rightarrow> u64 \<Rightarrow> 'v entry" where
  "int_entry t n = map_option Some (tm_int t n)"

definition opt_int_entry :: "'v toml \<Rightarrow> u64 option \<Rightarrow> 'v entry" where
  "opt_int_entry t v = (case v of None \<Rightarrow> Some None | Some n \<Rightarrow> int_entry t n)"

definition str_entry :: "'v toml \<Rightarrow> string \<Rightarrow> 'v entry" where
  "str_entry t s = Some (Some (tm_str t s))"

definition sub_entry :: "'v option \<Rightarrow> 'v entry" where
  "sub_entry v = map_option Some v"

definition hex_entry :: "'v toml \<Rightarrow> u64 \<Rightarrow> 'v entry" where
  "hex_entry t n = str_entry t (serialize_hex_u64 n)"

definition opt_hex_entry :: "'v toml \<Rightarrow> u64 option \<Rightarrow> 'v entry" where
  "opt_hex_entry t v = Some (map_option (tm_str t) (serialize_hex_opt_u64 v))"

fun present :: "(string \<times> 'v entry) list \<Rightarrow> (string \<times> 'v) list option" where
  "present [] = Some []"
| "present ((k, e) # es) = do {
     v \<leftarrow> e;
     kvs \<leftarrow> present es;
     Some (case v of None \<Rightarrow> kvs | Some x \<Rightarrow> (k, x) # kvs)
   }"

definition table :: "'v toml \<Rightarrow> (string \<times> 'v entry) list \<Rightarrow> 'v option" where
  "table t es = map_option (tm_table t) (present es)"

text \<open>A field that must be there, one that may be missing, and one with a default.\<close>

definition req :: "'v option \<Rightarrow> ('v \<Rightarrow> 'a option) \<Rightarrow> 'a option" where
  "req v de = Option.bind v de"

definition opt :: "'v option \<Rightarrow> ('v \<Rightarrow> 'a option) \<Rightarrow> 'a option option" where
  "opt v de = (case v of None \<Rightarrow> Some None | Some x \<Rightarrow> map_option Some (de x))"

definition with_default :: "'v option \<Rightarrow> ('v \<Rightarrow> 'a option) \<Rightarrow> 'a \<Rightarrow> 'a option" where
  "with_default v de d = (case v of None \<Rightarrow> Some d | Some x \<Rightarrow> de x)"

definition as_u32 :: "'v toml \<Rightarrow> 'v \<Rightarrow> u32 option" where
  "as_u32 t v = do { n \<leftarrow> tm_as_int t v; if n < 2 ^ 32 then Some (ucast n) else None }"

definition as_hex :: "'v toml \<Rightarrow> 'v \<Rightarrow> u64 option" where
  "as_hex t v = do { s \<leftarrow> tm_as_str t v; defs_parse_hex_u64 s }"

definition opt_hex :: "'v toml \<Rightarrow> 'v option \<Rightarrow> u64 option option" where
  "opt_hex t v = do { s \<leftarrow> opt v (tm_as_str t); deserialize_hex_opt_u64 s }"

section \<open>Writing the document\<close>

definition encode_metadata :: "'v toml \<Rightarrow> linux_metadata \<Rightarrow> 'v option" where
  "encode_metadata t x =
     table t
       [(''banner'', str_entry t (md_banner x))]"

definition encode_symbols :: "'v toml \<Rightarrow> linux_defs_symbols \<Rightarrow> 'v option" where
  "encode_symbols t x =
     table t
       [(''text'', hex_entry t (ds_text x)), (''init_task'', hex_entry t (ds_init_task x)),
        (''init_top_pgt'', opt_hex_entry t (ds_init_top_pgt x)),
        (''level4_kernel_pgt'', opt_hex_entry t (ds_level4_kernel_pgt x)),
        (''linux_banner'', hex_entry t (ds_linux_banner x)), (''modules'', opt_hex_entry t (ds_modules x)),
        (''elf_format'', opt_hex_entry t (ds_elf_format x)),
        (''compat_elf_format'', opt_hex_entry t (ds_compat_elf_format x))]"

definition encode_states :: "'v toml \<Rightarrow> module_state_values \<Rightarrow> 'v option" where
  "encode_states t x =
     table t
       [(''live'', int_entry t (ms_live x)), (''coming'', int_entry t (ms_coming x)),
        (''going'', int_entry t (ms_going x)), (''unformed'', int_entry t (ms_unformed x))]"

definition encode_enums :: "'v toml \<Rightarrow> linux_enums \<Rightarrow> 'v option" where
  "encode_enums t x =
     table t
       [(''module_state'', sub_entry (encode_states t (en_module_state x)))]"

definition encode_task :: "'v toml \<Rightarrow> task_struct_offsets \<Rightarrow> 'v option" where
  "encode_task t x =
     table t
       [(''tasks'', int_entry t (task_tasks x)), (''pid'', int_entry t (task_pid x)),
        (''tgid'', int_entry t (task_tgid x)), (''comm'', int_entry t (task_comm x)),
        (''comm_len'', int_entry t (task_comm_len x)), (''state'', int_entry t (task_state x)),
        (''mm'', int_entry t (task_mm x)), (''active_mm'', int_entry t (task_active_mm x)),
        (''exit_state'', int_entry t (task_exit_state x)), (''exit_code'', int_entry t (task_exit_code x)),
        (''real_parent'', int_entry t (task_real_parent x)), (''parent'', int_entry t (task_parent x)),
        (''group_leader'', int_entry t (task_group_leader x)), (''fs'', int_entry t (task_fs x)),
        (''files'', int_entry t (task_files x)), (''signal'', int_entry t (task_signal x))]"

definition encode_mm :: "'v toml \<Rightarrow> mm_struct_offsets \<Rightarrow> 'v option" where
  "encode_mm t x =
     table t
       [(''mmap'', opt_int_entry t (mm_mmap x)), (''mm_mt'', opt_int_entry t (mm_mm_mt x)),
        (''pgd'', int_entry t (mm_pgd x)), (''binfmt'', opt_int_entry t (mm_binfmt x)),
        (''exe_file'', int_entry t (mm_exe_file x)), (''start_code'', int_entry t (mm_start_code x)),
        (''end_code'', int_entry t (mm_end_code x)), (''arg_start'', int_entry t (mm_arg_start x)),
        (''arg_end'', int_entry t (mm_arg_end x)), (''env_start'', int_entry t (mm_env_start x)),
        (''env_end'', int_entry t (mm_env_end x))]"

definition encode_vma :: "'v toml \<Rightarrow> vm_area_struct_offsets \<Rightarrow> 'v option" where
  "encode_vma t x =
     table t
       [(''vm_start'', int_entry t (vma_vm_start x)), (''vm_end'', int_entry t (vma_vm_end x)),
        (''vm_flags'', int_entry t (vma_vm_flags x)), (''vm_file'', int_entry t (vma_vm_file x)),
        (''vm_next'', opt_int_entry t (vma_vm_next x))]"

definition encode_maple_tree :: "'v toml \<Rightarrow> maple_tree_offsets \<Rightarrow> 'v option" where
  "encode_maple_tree t x =
     table t
       [(''ma_root'', int_entry t (mt_ma_root x))]"

definition encode_range64 :: "'v toml \<Rightarrow> maple_range64_offsets \<Rightarrow> 'v option" where
  "encode_range64 t x =
     table t
       [(''pivot'', int_entry t (mr_pivot x)), (''pivot_count'', int_entry t (mr_pivot_count x)),
        (''slot'', int_entry t (mr_slot x)), (''slot_count'', int_entry t (mr_slot_count x)),
        (''meta_end'', int_entry t (mr_meta_end x))]"

definition encode_arange64 :: "'v toml \<Rightarrow> maple_arange64_offsets \<Rightarrow> 'v option" where
  "encode_arange64 t x =
     table t
       [(''pivot'', int_entry t (ma_pivot x)), (''pivot_count'', int_entry t (ma_pivot_count x)),
        (''slot'', int_entry t (ma_slot x)), (''slot_count'', int_entry t (ma_slot_count x)),
        (''meta_end'', int_entry t (ma_meta_end x))]"

definition encode_maple :: "'v toml \<Rightarrow> maple_offsets \<Rightarrow> 'v option" where
  "encode_maple t x =
     table t
       [(''tree'', sub_entry (encode_maple_tree t (maple_tree x))),
        (''range64'', sub_entry (encode_range64 t (maple_range64 x))),
        (''arange64'', sub_entry (encode_arange64 t (maple_arange64 x)))]"

definition encode_list :: "'v toml \<Rightarrow> list_head_offsets \<Rightarrow> 'v option" where
  "encode_list t x =
     table t
       [(''next'', int_entry t (list_next x)), (''prev'', int_entry t (list_prev x))]"

definition encode_module :: "'v toml \<Rightarrow> module_offsets \<Rightarrow> 'v option" where
  "encode_module t x =
     table t
       [(''list'', int_entry t (mod_list x)), (''name'', int_entry t (mod_name x)),
        (''name_len'', int_entry t (mod_name_len x)), (''state'', int_entry t (mod_state x)),
        (''mem'', int_entry t (mod_mem x)), (''mem_count'', int_entry t (mod_mem_count x))]"

definition encode_module_memory :: "'v toml \<Rightarrow> module_memory_offsets \<Rightarrow> 'v option" where
  "encode_module_memory t x =
     table t
       [(''base'', int_entry t (modmem_base x)), (''size'', int_entry t (modmem_size x)),
        (''struct_size'', int_entry t (modmem_struct_size x))]"

definition encode_fs :: "'v toml \<Rightarrow> fs_struct_offsets \<Rightarrow> 'v option" where
  "encode_fs t x =
     table t
       [(''root'', int_entry t (fss_root x)), (''pwd'', int_entry t (fss_pwd x))]"

definition encode_file :: "'v toml \<Rightarrow> file_offsets \<Rightarrow> 'v option" where
  "encode_file t x =
     table t
       [(''f_path'', int_entry t (file_f_path x))]"

definition encode_path :: "'v toml \<Rightarrow> path_offsets \<Rightarrow> 'v option" where
  "encode_path t x =
     table t
       [(''mnt'', int_entry t (path_mnt x)), (''dentry'', int_entry t (path_dentry x))]"

definition encode_mount :: "'v toml \<Rightarrow> mount_offsets \<Rightarrow> 'v option" where
  "encode_mount t x =
     table t
       [(''mnt_parent'', int_entry t (mount_mnt_parent x)),
        (''mnt_mountpoint'', int_entry t (mount_mnt_mountpoint x)), (''mnt'', int_entry t (mount_mnt x))]"

definition encode_vfsmount :: "'v toml \<Rightarrow> vfsmount_offsets \<Rightarrow> 'v option" where
  "encode_vfsmount t x =
     table t
       [(''mnt_root'', int_entry t (vfsmount_mnt_root x))]"

definition encode_dentry :: "'v toml \<Rightarrow> dentry_offsets \<Rightarrow> 'v option" where
  "encode_dentry t x =
     table t
       [(''d_parent'', int_entry t (dentry_d_parent x)), (''d_name'', int_entry t (dentry_d_name x))]"

definition encode_qstr :: "'v toml \<Rightarrow> qstr_offsets \<Rightarrow> 'v option" where
  "encode_qstr t x =
     table t
       [(''name'', int_entry t (qstr_name x))]"

definition encode_offsets :: "'v toml \<Rightarrow> linux_offsets \<Rightarrow> 'v option" where
  "encode_offsets t x =
     table t
       [(''task'', sub_entry (encode_task t (off_task x))), (''mm'', sub_entry (encode_mm t (off_mm x))),
        (''vma'', sub_entry (encode_vma t (off_vma x))), (''maple'', sub_entry (encode_maple t (off_maple x))),
        (''list'', sub_entry (encode_list t (off_list x))), (''module'', sub_entry (encode_module t (off_module x))),
        (''module_memory'', sub_entry (encode_module_memory t (off_module_memory x))),
        (''fs'', sub_entry (encode_fs t (off_fs x))), (''file'', sub_entry (encode_file t (off_file x))),
        (''path'', sub_entry (encode_path t (off_path x))), (''mount'', sub_entry (encode_mount t (off_mount x))),
        (''vfsmount'', sub_entry (encode_vfsmount t (off_vfsmount x))),
        (''dentry'', sub_entry (encode_dentry t (off_dentry x))), (''qstr'', sub_entry (encode_qstr t (off_qstr x)))]"

definition encode_defs :: "'v toml \<Rightarrow> linux_defs \<Rightarrow> 'v option" where
  "encode_defs t x =
     table t
       [(''format'', int_entry t (ucast (defs_format x))),
        (''metadata'', sub_entry (encode_metadata t (defs_metadata x))),
        (''symbols'', sub_entry (encode_symbols t (defs_symbols x))),
        (''enums'', sub_entry (encode_enums t (defs_enums x))),
        (''offsets'', sub_entry (encode_offsets t (defs_offsets x)))]"

section \<open>Reading the document\<close>

definition decode_metadata :: "'v toml \<Rightarrow> 'v \<Rightarrow> linux_metadata option" where
  "decode_metadata t v = do {
     m \<leftarrow> tm_as_table t v;
     banner \<leftarrow> req (m ''banner'') (tm_as_str t);
     Some \<lparr> md_banner = banner \<rparr>
   }"

definition decode_symbols :: "'v toml \<Rightarrow> 'v \<Rightarrow> linux_defs_symbols option" where
  "decode_symbols t v = do {
     m \<leftarrow> tm_as_table t v;
     text_addr \<leftarrow> req (m ''text'') (as_hex t);
     init_task \<leftarrow> req (m ''init_task'') (as_hex t);
     init_top_pgt \<leftarrow> opt_hex t (m ''init_top_pgt'');
     level4_kernel_pgt \<leftarrow> opt_hex t (m ''level4_kernel_pgt'');
     linux_banner \<leftarrow> req (m ''linux_banner'') (as_hex t);
     modules \<leftarrow> opt_hex t (m ''modules'');
     elf_format \<leftarrow> opt_hex t (m ''elf_format'');
     compat_elf_format \<leftarrow> opt_hex t (m ''compat_elf_format'');
     Some \<lparr> ds_text = text_addr, ds_init_task = init_task, ds_init_top_pgt = init_top_pgt,
       ds_level4_kernel_pgt = level4_kernel_pgt, ds_linux_banner = linux_banner, ds_modules = modules,
       ds_elf_format = elf_format, ds_compat_elf_format = compat_elf_format \<rparr>
   }"

definition decode_states :: "'v toml \<Rightarrow> 'v \<Rightarrow> module_state_values option" where
  "decode_states t v = do {
     m \<leftarrow> tm_as_table t v;
     live \<leftarrow> req (m ''live'') (tm_as_int t);
     coming \<leftarrow> req (m ''coming'') (tm_as_int t);
     going \<leftarrow> req (m ''going'') (tm_as_int t);
     unformed \<leftarrow> req (m ''unformed'') (tm_as_int t);
     Some \<lparr> ms_live = live, ms_coming = coming, ms_going = going, ms_unformed = unformed \<rparr>
   }"

definition decode_enums :: "'v toml \<Rightarrow> 'v \<Rightarrow> linux_enums option" where
  "decode_enums t v = do {
     m \<leftarrow> tm_as_table t v;
     module_state \<leftarrow> req (m ''module_state'') (decode_states t);
     Some \<lparr> en_module_state = module_state \<rparr>
   }"

definition decode_task :: "'v toml \<Rightarrow> 'v \<Rightarrow> task_struct_offsets option" where
  "decode_task t v = do {
     m \<leftarrow> tm_as_table t v;
     tasks \<leftarrow> req (m ''tasks'') (tm_as_int t);
     pid \<leftarrow> req (m ''pid'') (tm_as_int t);
     tgid \<leftarrow> req (m ''tgid'') (tm_as_int t);
     comm \<leftarrow> req (m ''comm'') (tm_as_int t);
     comm_len \<leftarrow> req (m ''comm_len'') (tm_as_int t);
     state \<leftarrow> req (m ''state'') (tm_as_int t);
     mm \<leftarrow> req (m ''mm'') (tm_as_int t);
     active_mm \<leftarrow> req (m ''active_mm'') (tm_as_int t);
     exit_state \<leftarrow> req (m ''exit_state'') (tm_as_int t);
     exit_code \<leftarrow> req (m ''exit_code'') (tm_as_int t);
     real_parent \<leftarrow> req (m ''real_parent'') (tm_as_int t);
     parent \<leftarrow> req (m ''parent'') (tm_as_int t);
     group_leader \<leftarrow> req (m ''group_leader'') (tm_as_int t);
     fs \<leftarrow> req (m ''fs'') (tm_as_int t);
     files \<leftarrow> req (m ''files'') (tm_as_int t);
     signal \<leftarrow> req (m ''signal'') (tm_as_int t);
     Some \<lparr> task_tasks = tasks, task_pid = pid, task_tgid = tgid, task_comm = comm, task_comm_len = comm_len,
       task_state = state, task_mm = mm, task_active_mm = active_mm, task_exit_state = exit_state,
       task_exit_code = exit_code, task_real_parent = real_parent, task_parent = parent,
       task_group_leader = group_leader, task_fs = fs, task_files = files, task_signal = signal \<rparr>
   }"

definition decode_mm :: "'v toml \<Rightarrow> 'v \<Rightarrow> mm_struct_offsets option" where
  "decode_mm t v = do {
     m \<leftarrow> tm_as_table t v;
     mmap \<leftarrow> opt (m ''mmap'') (tm_as_int t);
     mm_mt \<leftarrow> opt (m ''mm_mt'') (tm_as_int t);
     pgd \<leftarrow> req (m ''pgd'') (tm_as_int t);
     binfmt \<leftarrow> opt (m ''binfmt'') (tm_as_int t);
     exe_file \<leftarrow> req (m ''exe_file'') (tm_as_int t);
     start_code \<leftarrow> req (m ''start_code'') (tm_as_int t);
     end_code \<leftarrow> req (m ''end_code'') (tm_as_int t);
     arg_start \<leftarrow> req (m ''arg_start'') (tm_as_int t);
     arg_end \<leftarrow> req (m ''arg_end'') (tm_as_int t);
     env_start \<leftarrow> req (m ''env_start'') (tm_as_int t);
     env_end \<leftarrow> req (m ''env_end'') (tm_as_int t);
     Some \<lparr> mm_mmap = mmap, mm_mm_mt = mm_mt, mm_pgd = pgd, mm_binfmt = binfmt, mm_exe_file = exe_file,
       mm_start_code = start_code, mm_end_code = end_code, mm_arg_start = arg_start, mm_arg_end = arg_end,
       mm_env_start = env_start, mm_env_end = env_end \<rparr>
   }"

definition decode_vma :: "'v toml \<Rightarrow> 'v \<Rightarrow> vm_area_struct_offsets option" where
  "decode_vma t v = do {
     m \<leftarrow> tm_as_table t v;
     vm_start \<leftarrow> req (m ''vm_start'') (tm_as_int t);
     vm_end \<leftarrow> req (m ''vm_end'') (tm_as_int t);
     vm_flags \<leftarrow> req (m ''vm_flags'') (tm_as_int t);
     vm_file \<leftarrow> req (m ''vm_file'') (tm_as_int t);
     vm_next \<leftarrow> opt (m ''vm_next'') (tm_as_int t);
     Some \<lparr> vma_vm_start = vm_start, vma_vm_end = vm_end, vma_vm_flags = vm_flags, vma_vm_file = vm_file,
       vma_vm_next = vm_next \<rparr>
   }"

definition decode_maple_tree :: "'v toml \<Rightarrow> 'v \<Rightarrow> maple_tree_offsets option" where
  "decode_maple_tree t v = do {
     m \<leftarrow> tm_as_table t v;
     ma_root \<leftarrow> req (m ''ma_root'') (tm_as_int t);
     Some \<lparr> mt_ma_root = ma_root \<rparr>
   }"

definition decode_range64 :: "'v toml \<Rightarrow> 'v \<Rightarrow> maple_range64_offsets option" where
  "decode_range64 t v = do {
     m \<leftarrow> tm_as_table t v;
     pivot \<leftarrow> req (m ''pivot'') (tm_as_int t);
     pivot_count \<leftarrow> req (m ''pivot_count'') (tm_as_int t);
     slot \<leftarrow> req (m ''slot'') (tm_as_int t);
     slot_count \<leftarrow> req (m ''slot_count'') (tm_as_int t);
     meta_end \<leftarrow> req (m ''meta_end'') (tm_as_int t);
     Some \<lparr> mr_pivot = pivot, mr_pivot_count = pivot_count, mr_slot = slot, mr_slot_count = slot_count,
       mr_meta_end = meta_end \<rparr>
   }"

definition decode_arange64 :: "'v toml \<Rightarrow> 'v \<Rightarrow> maple_arange64_offsets option" where
  "decode_arange64 t v = do {
     m \<leftarrow> tm_as_table t v;
     pivot \<leftarrow> req (m ''pivot'') (tm_as_int t);
     pivot_count \<leftarrow> req (m ''pivot_count'') (tm_as_int t);
     slot \<leftarrow> req (m ''slot'') (tm_as_int t);
     slot_count \<leftarrow> req (m ''slot_count'') (tm_as_int t);
     meta_end \<leftarrow> req (m ''meta_end'') (tm_as_int t);
     Some \<lparr> ma_pivot = pivot, ma_pivot_count = pivot_count, ma_slot = slot, ma_slot_count = slot_count,
       ma_meta_end = meta_end \<rparr>
   }"

definition decode_maple :: "'v toml \<Rightarrow> 'v \<Rightarrow> maple_offsets option" where
  "decode_maple t v = do {
     m \<leftarrow> tm_as_table t v;
     tree \<leftarrow> req (m ''tree'') (decode_maple_tree t);
     range64 \<leftarrow> req (m ''range64'') (decode_range64 t);
     arange64 \<leftarrow> req (m ''arange64'') (decode_arange64 t);
     Some \<lparr> maple_tree = tree, maple_range64 = range64, maple_arange64 = arange64 \<rparr>
   }"

definition decode_list :: "'v toml \<Rightarrow> 'v \<Rightarrow> list_head_offsets option" where
  "decode_list t v = do {
     m \<leftarrow> tm_as_table t v;
     nxt \<leftarrow> req (m ''next'') (tm_as_int t);
     prev \<leftarrow> req (m ''prev'') (tm_as_int t);
     Some \<lparr> list_next = nxt, list_prev = prev \<rparr>
   }"

definition decode_module :: "'v toml \<Rightarrow> 'v \<Rightarrow> module_offsets option" where
  "decode_module t v = do {
     m \<leftarrow> tm_as_table t v;
     list \<leftarrow> req (m ''list'') (tm_as_int t);
     name \<leftarrow> req (m ''name'') (tm_as_int t);
     name_len \<leftarrow> req (m ''name_len'') (tm_as_int t);
     state \<leftarrow> req (m ''state'') (tm_as_int t);
     mem \<leftarrow> req (m ''mem'') (tm_as_int t);
     mem_count \<leftarrow> req (m ''mem_count'') (tm_as_int t);
     Some \<lparr> mod_list = list, mod_name = name, mod_name_len = name_len, mod_state = state, mod_mem = mem,
       mod_mem_count = mem_count \<rparr>
   }"

definition decode_module_memory :: "'v toml \<Rightarrow> 'v \<Rightarrow> module_memory_offsets option" where
  "decode_module_memory t v = do {
     m \<leftarrow> tm_as_table t v;
     base \<leftarrow> req (m ''base'') (tm_as_int t);
     size \<leftarrow> req (m ''size'') (tm_as_int t);
     struct_size \<leftarrow> req (m ''struct_size'') (tm_as_int t);
     Some \<lparr> modmem_base = base, modmem_size = size, modmem_struct_size = struct_size \<rparr>
   }"

definition decode_fs :: "'v toml \<Rightarrow> 'v \<Rightarrow> fs_struct_offsets option" where
  "decode_fs t v = do {
     m \<leftarrow> tm_as_table t v;
     root \<leftarrow> req (m ''root'') (tm_as_int t);
     pwd \<leftarrow> req (m ''pwd'') (tm_as_int t);
     Some \<lparr> fss_root = root, fss_pwd = pwd \<rparr>
   }"

definition decode_file :: "'v toml \<Rightarrow> 'v \<Rightarrow> file_offsets option" where
  "decode_file t v = do {
     m \<leftarrow> tm_as_table t v;
     f_path \<leftarrow> req (m ''f_path'') (tm_as_int t);
     Some \<lparr> file_f_path = f_path \<rparr>
   }"

definition decode_path :: "'v toml \<Rightarrow> 'v \<Rightarrow> path_offsets option" where
  "decode_path t v = do {
     m \<leftarrow> tm_as_table t v;
     mnt \<leftarrow> req (m ''mnt'') (tm_as_int t);
     dentry \<leftarrow> req (m ''dentry'') (tm_as_int t);
     Some \<lparr> path_mnt = mnt, path_dentry = dentry \<rparr>
   }"

definition decode_mount :: "'v toml \<Rightarrow> 'v \<Rightarrow> mount_offsets option" where
  "decode_mount t v = do {
     m \<leftarrow> tm_as_table t v;
     mnt_parent \<leftarrow> req (m ''mnt_parent'') (tm_as_int t);
     mnt_mountpoint \<leftarrow> req (m ''mnt_mountpoint'') (tm_as_int t);
     mnt \<leftarrow> req (m ''mnt'') (tm_as_int t);
     Some \<lparr> mount_mnt_parent = mnt_parent, mount_mnt_mountpoint = mnt_mountpoint, mount_mnt = mnt \<rparr>
   }"

definition decode_vfsmount :: "'v toml \<Rightarrow> 'v \<Rightarrow> vfsmount_offsets option" where
  "decode_vfsmount t v = do {
     m \<leftarrow> tm_as_table t v;
     mnt_root \<leftarrow> req (m ''mnt_root'') (tm_as_int t);
     Some \<lparr> vfsmount_mnt_root = mnt_root \<rparr>
   }"

definition decode_dentry :: "'v toml \<Rightarrow> 'v \<Rightarrow> dentry_offsets option" where
  "decode_dentry t v = do {
     m \<leftarrow> tm_as_table t v;
     d_parent \<leftarrow> req (m ''d_parent'') (tm_as_int t);
     d_name \<leftarrow> req (m ''d_name'') (tm_as_int t);
     Some \<lparr> dentry_d_parent = d_parent, dentry_d_name = d_name \<rparr>
   }"

definition decode_qstr :: "'v toml \<Rightarrow> 'v \<Rightarrow> qstr_offsets option" where
  "decode_qstr t v = do {
     m \<leftarrow> tm_as_table t v;
     name \<leftarrow> req (m ''name'') (tm_as_int t);
     Some \<lparr> qstr_name = name \<rparr>
   }"

definition decode_offsets :: "'v toml \<Rightarrow> 'v \<Rightarrow> linux_offsets option" where
  "decode_offsets t v = do {
     m \<leftarrow> tm_as_table t v;
     task \<leftarrow> req (m ''task'') (decode_task t);
     mm \<leftarrow> req (m ''mm'') (decode_mm t);
     vma \<leftarrow> req (m ''vma'') (decode_vma t);
     maple \<leftarrow> req (m ''maple'') (decode_maple t);
     list \<leftarrow> req (m ''list'') (decode_list t);
     module \<leftarrow> req (m ''module'') (decode_module t);
     module_memory \<leftarrow> req (m ''module_memory'') (decode_module_memory t);
     fs \<leftarrow> req (m ''fs'') (decode_fs t);
     file_offs \<leftarrow> req (m ''file'') (decode_file t);
     path_offs \<leftarrow> req (m ''path'') (decode_path t);
     mount \<leftarrow> req (m ''mount'') (decode_mount t);
     vfsmount \<leftarrow> req (m ''vfsmount'') (decode_vfsmount t);
     dentry \<leftarrow> req (m ''dentry'') (decode_dentry t);
     qstr \<leftarrow> req (m ''qstr'') (decode_qstr t);
     Some \<lparr> off_task = task, off_mm = mm, off_vma = vma, off_maple = maple, off_list = list, off_module = module,
       off_module_memory = module_memory, off_fs = fs, off_file = file_offs, off_path = path_offs, off_mount = mount,
       off_vfsmount = vfsmount, off_dentry = dentry, off_qstr = qstr \<rparr>
   }"

definition decode_defs :: "'v toml \<Rightarrow> 'v \<Rightarrow> linux_defs option" where
  "decode_defs t v = do {
     m \<leftarrow> tm_as_table t v;
     format \<leftarrow> with_default (m ''format'') (as_u32 t) default_format_version;
     metadata \<leftarrow> req (m ''metadata'') (decode_metadata t);
     symbols \<leftarrow> req (m ''symbols'') (decode_symbols t);
     enums \<leftarrow> req (m ''enums'') (decode_enums t);
     offsets \<leftarrow> req (m ''offsets'') (decode_offsets t);
     Some \<lparr> defs_format = format, defs_metadata = metadata, defs_symbols = symbols, defs_enums = enums,
       defs_offsets = offsets \<rparr>
   }"

section \<open>The text\<close>

definition doc_print :: "'v toml \<Rightarrow> linux_defs \<Rightarrow> string option" where
  "doc_print t x = do { v \<leftarrow> encode_defs t x; tm_print t v }"

definition doc_parse :: "'v toml \<Rightarrow> string \<Rightarrow> linux_defs option" where
  "doc_parse t s = do { v \<leftarrow> tm_parse t s; decode_defs t v }"

section \<open>Properties\<close>

definition entry_value :: "'v entry \<Rightarrow> 'v option" where
  "entry_value e = Option.bind e (\<lambda>v. v)"

definition entry_at :: "(string \<times> 'v entry) list \<Rightarrow> string \<Rightarrow> 'v option" where
  "entry_at es k = (case map_of es k of None \<Rightarrow> None | Some e \<Rightarrow> entry_value e)"

lemma present_Cons:
  assumes "present ((k, e) # es) = Some kvs"
  obtains v kvs' where "e = Some v" "present es = Some kvs'" "kvs = (case v of None \<Rightarrow> kvs' | Some x \<Rightarrow> (k, x) # kvs')"
  using assms by (auto simp: bind_eq_Some_conv)

lemma present_keys: "present es = Some kvs \<Longrightarrow> set (map fst kvs) \<subseteq> set (map fst es)"
proof (induction es arbitrary: kvs)
  case (Cons p es)
  obtain k e where p: "p = (k, e)" by (cases p)
  from Cons.prems [unfolded p] obtain v kvs' where "present es = Some kvs'" "kvs = (case v of None \<Rightarrow> kvs' | Some x \<Rightarrow> (k, x) # kvs')"
    by (rule present_Cons)
  then show ?case using Cons.IH p by (cases v) auto
qed simp

lemma present_distinct: "present es = Some kvs \<Longrightarrow> distinct (map fst es) \<Longrightarrow> distinct (map fst kvs)"
proof (induction es arbitrary: kvs)
  case (Cons p es)
  obtain k e where p: "p = (k, e)" by (cases p)
  from Cons.prems(1) [unfolded p] obtain v kvs' where kvs: "present es = Some kvs'" "kvs = (case v of None \<Rightarrow> kvs' | Some x \<Rightarrow> (k, x) # kvs')"
    by (rule present_Cons)
  have "k \<notin> set (map fst kvs')" using present_keys [OF kvs(1)] Cons.prems(2) p by auto
  then show ?case using Cons.IH [OF kvs(1)] Cons.prems(2) kvs(2) p by (cases v) auto
qed simp

lemma present_lookup:
  "present es = Some kvs \<Longrightarrow> distinct (map fst es) \<Longrightarrow>
     map_of kvs k = entry_at es k \<and> (\<forall>e \<in> set (map snd es). e \<noteq> None)"
proof (induction es arbitrary: kvs)
  case (Cons p es)
  obtain j e where p: "p = (j, e)" by (cases p)
  from Cons.prems(1) [unfolded p] obtain v kvs' where e: "e = Some v" "present es = Some kvs'"
      "kvs = (case v of None \<Rightarrow> kvs' | Some x \<Rightarrow> (j, x) # kvs')" by (rule present_Cons)
  have "map_of kvs' j = None" using present_keys [OF e(2)] Cons.prems(2) p by (auto simp: map_of_eq_None_iff)
  then show ?case using Cons.IH [OF e(2)] Cons.prems(2) e p by (cases v) (auto simp: entry_at_def entry_value_def)
qed (simp add: entry_at_def)

lemma table_read:
  assumes "table t es = Some v" "distinct (map fst es)" "toml_lawful t"
  shows "tm_as_table t v = Some (entry_at es)"
    and "list_all (\<lambda>e. e \<noteq> None) (map snd es)"
proof -
  from assms(1) obtain kvs where p: "present es = Some kvs" and v: "v = tm_table t kvs" by (auto simp: table_def)
  note l = present_lookup [OF p assms(2)]
  have "map_of kvs = entry_at es" using l by auto
  then show "tm_as_table t v = Some (entry_at es)"
    using assms(3) present_distinct [OF p assms(2)] by (simp add: toml_lawful_def v)
  show "list_all (\<lambda>e. e \<noteq> None) (map snd es)" using l by (simp add: list_all_iff)
qed

text \<open>Entries read back.\<close>

lemma entry_read:
  assumes "toml_lawful t"
  shows "int_entry t n \<noteq> None \<Longrightarrow> req (entry_value (int_entry t n)) (tm_as_int t) = Some n"
    and "opt_int_entry t w \<noteq> None \<Longrightarrow> opt (entry_value (opt_int_entry t w)) (tm_as_int t) = Some w"
    and "req (entry_value (str_entry t s)) (tm_as_str t) = Some s"
    and "req (entry_value (hex_entry t n)) (as_hex t) = Some n"
    and "opt_hex t (entry_value (opt_hex_entry t w)) = Some w"
    and "int_entry t (ucast f) \<noteq> None \<Longrightarrow> with_default (entry_value (int_entry t (ucast f))) (as_u32 t) d = Some (f :: u32)"
proof -
  have int: "tm_int t n = Some v \<Longrightarrow> tm_as_int t v = Some n" for n v using assms by (simp add: toml_lawful_def)
  have str: "tm_as_str t (tm_str t s) = Some s" for s using assms by (simp add: toml_lawful_def)
  show "int_entry t n \<noteq> None \<Longrightarrow> req (entry_value (int_entry t n)) (tm_as_int t) = Some n"
    by (auto simp: req_def entry_value_def int_entry_def int)
  show "opt_int_entry t w \<noteq> None \<Longrightarrow> opt (entry_value (opt_int_entry t w)) (tm_as_int t) = Some w"
    by (cases w) (auto simp: opt_def entry_value_def opt_int_entry_def int_entry_def int)
  show "req (entry_value (str_entry t s)) (tm_as_str t) = Some s" by (simp add: req_def entry_value_def str_entry_def str)
  show "req (entry_value (hex_entry t n)) (as_hex t) = Some n"
    by (simp add: req_def entry_value_def hex_entry_def str_entry_def as_hex_def str hex_u64_roundtrip)
  show "opt_hex t (entry_value (opt_hex_entry t w)) = Some w"
    by (cases w) (simp_all add: opt_hex_def opt_def entry_value_def opt_hex_entry_def serialize_hex_opt_u64_def
        deserialize_hex_opt_u64_def str hex_u64_roundtrip)
  have "ucast (ucast f :: u64) = f" by (auto simp: bit_eq_iff bit_unsigned_iff)
  moreover have "ucast f < (2 ^ 32 :: u64)" using unsigned_less [of f, where ?'a = nat] by (simp add: word_less_nat_alt unsigned_ucast_eq)
  ultimately show "int_entry t (ucast f) \<noteq> None \<Longrightarrow> with_default (entry_value (int_entry t (ucast f))) (as_u32 t) d = Some f"
    by (auto simp: with_default_def entry_value_def int_entry_def as_u32_def int)
qed

lemma sub_read:
  assumes "\<And>v. enc = Some v \<Longrightarrow> de v = Some x" "sub_entry enc \<noteq> None"
  shows "req (entry_value (sub_entry enc)) de = Some x"
  using assms by (cases enc) (auto simp: req_def entry_value_def sub_entry_def)

text \<open>Structures read back, each from the entries of its fields.\<close>

lemma metadata_read:
  assumes "toml_lawful t" "encode_metadata t x = Some v"
  shows "decode_metadata t v = Some x"
  using table_read [OF assms(2) [unfolded encode_metadata_def] _ assms(1)]
  by (simp add: decode_metadata_def entry_at_def entry_read [OF assms(1)])

lemma symbols_read:
  assumes "toml_lawful t" "encode_symbols t x = Some v"
  shows "decode_symbols t v = Some x"
  using table_read [OF assms(2) [unfolded encode_symbols_def] _ assms(1)]
  by (simp add: decode_symbols_def entry_at_def entry_read [OF assms(1)])

lemma states_read:
  assumes "toml_lawful t" "encode_states t x = Some v"
  shows "decode_states t v = Some x"
  using table_read [OF assms(2) [unfolded encode_states_def] _ assms(1)]
  by (simp add: decode_states_def entry_at_def entry_read [OF assms(1)])

lemma enums_read:
  assumes "toml_lawful t" "encode_enums t x = Some v"
  shows "decode_enums t v = Some x"
  using table_read [OF assms(2) [unfolded encode_enums_def] _ assms(1)]
  by (simp add: decode_enums_def entry_at_def entry_read [OF assms(1)]
      sub_read [OF states_read [OF assms(1)]])

lemma task_read:
  assumes "toml_lawful t" "encode_task t x = Some v"
  shows "decode_task t v = Some x"
  using table_read [OF assms(2) [unfolded encode_task_def] _ assms(1)]
  by (simp add: decode_task_def entry_at_def entry_read [OF assms(1)])

lemma mm_read:
  assumes "toml_lawful t" "encode_mm t x = Some v"
  shows "decode_mm t v = Some x"
  using table_read [OF assms(2) [unfolded encode_mm_def] _ assms(1)]
  by (simp add: decode_mm_def entry_at_def entry_read [OF assms(1)])

lemma vma_read:
  assumes "toml_lawful t" "encode_vma t x = Some v"
  shows "decode_vma t v = Some x"
  using table_read [OF assms(2) [unfolded encode_vma_def] _ assms(1)]
  by (simp add: decode_vma_def entry_at_def entry_read [OF assms(1)])

lemma maple_tree_read:
  assumes "toml_lawful t" "encode_maple_tree t x = Some v"
  shows "decode_maple_tree t v = Some x"
  using table_read [OF assms(2) [unfolded encode_maple_tree_def] _ assms(1)]
  by (simp add: decode_maple_tree_def entry_at_def entry_read [OF assms(1)])

lemma range64_read:
  assumes "toml_lawful t" "encode_range64 t x = Some v"
  shows "decode_range64 t v = Some x"
  using table_read [OF assms(2) [unfolded encode_range64_def] _ assms(1)]
  by (simp add: decode_range64_def entry_at_def entry_read [OF assms(1)])

lemma arange64_read:
  assumes "toml_lawful t" "encode_arange64 t x = Some v"
  shows "decode_arange64 t v = Some x"
  using table_read [OF assms(2) [unfolded encode_arange64_def] _ assms(1)]
  by (simp add: decode_arange64_def entry_at_def entry_read [OF assms(1)])

lemma maple_read:
  assumes "toml_lawful t" "encode_maple t x = Some v"
  shows "decode_maple t v = Some x"
  using table_read [OF assms(2) [unfolded encode_maple_def] _ assms(1)]
  by (simp add: decode_maple_def entry_at_def entry_read [OF assms(1)]
      sub_read [OF maple_tree_read [OF assms(1)]]
      sub_read [OF range64_read [OF assms(1)]]
      sub_read [OF arange64_read [OF assms(1)]])

lemma list_read:
  assumes "toml_lawful t" "encode_list t x = Some v"
  shows "decode_list t v = Some x"
  using table_read [OF assms(2) [unfolded encode_list_def] _ assms(1)]
  by (simp add: decode_list_def entry_at_def entry_read [OF assms(1)])

lemma module_read:
  assumes "toml_lawful t" "encode_module t x = Some v"
  shows "decode_module t v = Some x"
  using table_read [OF assms(2) [unfolded encode_module_def] _ assms(1)]
  by (simp add: decode_module_def entry_at_def entry_read [OF assms(1)])

lemma module_memory_read:
  assumes "toml_lawful t" "encode_module_memory t x = Some v"
  shows "decode_module_memory t v = Some x"
  using table_read [OF assms(2) [unfolded encode_module_memory_def] _ assms(1)]
  by (simp add: decode_module_memory_def entry_at_def entry_read [OF assms(1)])

lemma fs_read:
  assumes "toml_lawful t" "encode_fs t x = Some v"
  shows "decode_fs t v = Some x"
  using table_read [OF assms(2) [unfolded encode_fs_def] _ assms(1)]
  by (simp add: decode_fs_def entry_at_def entry_read [OF assms(1)])

lemma file_read:
  assumes "toml_lawful t" "encode_file t x = Some v"
  shows "decode_file t v = Some x"
  using table_read [OF assms(2) [unfolded encode_file_def] _ assms(1)]
  by (simp add: decode_file_def entry_at_def entry_read [OF assms(1)])

lemma path_read:
  assumes "toml_lawful t" "encode_path t x = Some v"
  shows "decode_path t v = Some x"
  using table_read [OF assms(2) [unfolded encode_path_def] _ assms(1)]
  by (simp add: decode_path_def entry_at_def entry_read [OF assms(1)])

lemma mount_read:
  assumes "toml_lawful t" "encode_mount t x = Some v"
  shows "decode_mount t v = Some x"
  using table_read [OF assms(2) [unfolded encode_mount_def] _ assms(1)]
  by (simp add: decode_mount_def entry_at_def entry_read [OF assms(1)])

lemma vfsmount_read:
  assumes "toml_lawful t" "encode_vfsmount t x = Some v"
  shows "decode_vfsmount t v = Some x"
  using table_read [OF assms(2) [unfolded encode_vfsmount_def] _ assms(1)]
  by (simp add: decode_vfsmount_def entry_at_def entry_read [OF assms(1)])

lemma dentry_read:
  assumes "toml_lawful t" "encode_dentry t x = Some v"
  shows "decode_dentry t v = Some x"
  using table_read [OF assms(2) [unfolded encode_dentry_def] _ assms(1)]
  by (simp add: decode_dentry_def entry_at_def entry_read [OF assms(1)])

lemma qstr_read:
  assumes "toml_lawful t" "encode_qstr t x = Some v"
  shows "decode_qstr t v = Some x"
  using table_read [OF assms(2) [unfolded encode_qstr_def] _ assms(1)]
  by (simp add: decode_qstr_def entry_at_def entry_read [OF assms(1)])

lemma offsets_read:
  assumes "toml_lawful t" "encode_offsets t x = Some v"
  shows "decode_offsets t v = Some x"
  using table_read [OF assms(2) [unfolded encode_offsets_def] _ assms(1)]
  by (simp add: decode_offsets_def entry_at_def entry_read [OF assms(1)]
      sub_read [OF task_read [OF assms(1)]]
      sub_read [OF mm_read [OF assms(1)]]
      sub_read [OF vma_read [OF assms(1)]]
      sub_read [OF maple_read [OF assms(1)]]
      sub_read [OF list_read [OF assms(1)]]
      sub_read [OF module_read [OF assms(1)]]
      sub_read [OF module_memory_read [OF assms(1)]]
      sub_read [OF fs_read [OF assms(1)]]
      sub_read [OF file_read [OF assms(1)]]
      sub_read [OF path_read [OF assms(1)]]
      sub_read [OF mount_read [OF assms(1)]]
      sub_read [OF vfsmount_read [OF assms(1)]]
      sub_read [OF dentry_read [OF assms(1)]]
      sub_read [OF qstr_read [OF assms(1)]])

lemma doc_read_back:
  assumes "toml_lawful t" "doc_print t x = Some s"
  shows "doc_parse t s = Some x"
proof -
  from assms(2) obtain v where v: "encode_defs t x = Some v" "tm_print t v = Some s" by (auto simp: doc_print_def bind_eq_Some_conv)
  have "tm_parse t s = Some v" using assms(1) v(2) by (simp add: toml_lawful_def)
  moreover have "decode_defs t v = Some x"
    using table_read [OF v(1) [unfolded encode_defs_def] _ assms(1)]
    by (simp add: decode_defs_def entry_at_def entry_read [OF assms(1)] sub_read [OF metadata_read [OF assms(1)]]
        sub_read [OF symbols_read [OF assms(1)]] sub_read [OF enums_read [OF assms(1)]] sub_read [OF offsets_read [OF assms(1)]])
  ultimately show ?thesis by (simp add: doc_parse_def)
qed

text \<open>
  C19. What the generator writes the plugin reads: the text of a document parses to the same document, every symbol address through
  its hexadecimal text, every optional field present or absent as it was, and the version with it.
\<close>

theorem document_read_back:
  assumes "toml_lawful t" "doc_print t x = Some s"
  shows "doc_parse t s = Some x"
  using assms by (rule doc_read_back)

text \<open>An instance: values as trees, and one text for one tree.\<close>

datatype toml_tree = Toml_Int u64 | Toml_Str string | Toml_Table "(string \<times> toml_tree) list"

definition tree_toml :: "toml_tree \<Rightarrow> toml_tree toml" where
  "tree_toml doc =
     \<lparr> tm_int = (\<lambda>n. Some (Toml_Int n)), tm_as_int = (\<lambda>v. case v of Toml_Int n \<Rightarrow> Some n | _ \<Rightarrow> None),
       tm_str = Toml_Str, tm_as_str = (\<lambda>v. case v of Toml_Str s \<Rightarrow> Some s | _ \<Rightarrow> None),
       tm_table = Toml_Table, tm_as_table = (\<lambda>v. case v of Toml_Table kvs \<Rightarrow> Some (map_of kvs) | _ \<Rightarrow> None),
       tm_print = (\<lambda>v. if v = doc then Some ''format = 1'' else None),
       tm_parse = (\<lambda>s. if s = ''format = 1'' then Some doc else None) \<rparr>"

lemma tree_toml_lawful: "toml_lawful (tree_toml doc)"
  by (simp add: toml_lawful_def tree_toml_def)

lemma present_total: "present es = None \<longleftrightarrow> \<not> list_all (\<lambda>e. e \<noteq> None) (map snd es)"
proof (induction es)
  case (Cons p es)
  obtain k e where "p = (k, e)" by (cases p)
  with Cons show ?case by (cases e; cases "present es") auto
qed simp

lemma tree_entries:
  "int_entry (tree_toml doc) n \<noteq> None" "opt_int_entry (tree_toml doc) w \<noteq> None" "str_entry t s \<noteq> None"
  "hex_entry t n \<noteq> None" "opt_hex_entry t w \<noteq> None" "sub_entry enc \<noteq> None \<longleftrightarrow> enc \<noteq> None"
  "table t es \<noteq> None \<longleftrightarrow> list_all (\<lambda>e. e \<noteq> None) (map snd es)"
  by (simp_all add: int_entry_def opt_int_entry_def str_entry_def hex_entry_def opt_hex_entry_def sub_entry_def tree_toml_def
      table_def present_total split: option.split)

text \<open>Every document has a tree, the same for every text, and the text of its tree.\<close>

lemmas encode_defs_all =
  encode_metadata_def encode_symbols_def encode_states_def encode_enums_def encode_task_def
  encode_mm_def encode_vma_def encode_maple_tree_def encode_range64_def encode_arange64_def
  encode_maple_def encode_list_def encode_module_def encode_module_memory_def encode_fs_def
  encode_file_def encode_path_def encode_mount_def encode_vfsmount_def encode_dentry_def
  encode_qstr_def encode_offsets_def encode_defs_def

lemma tree_encodes: "encode_defs (tree_toml doc) x \<noteq> None"
  unfolding encode_defs_all by (simp only: tree_entries list.pred_inject list.map snd_conv simp_thms)

definition doc_tree :: "linux_defs \<Rightarrow> toml_tree" where
  "doc_tree x = the (encode_defs (tree_toml (Toml_Str [])) x)"

lemma tree_entries_same:
  "int_entry (tree_toml doc) = int_entry (tree_toml doc')" "opt_int_entry (tree_toml doc) = opt_int_entry (tree_toml doc')"
  "str_entry (tree_toml doc) = str_entry (tree_toml doc')" "hex_entry (tree_toml doc) = hex_entry (tree_toml doc')"
  "opt_hex_entry (tree_toml doc) = opt_hex_entry (tree_toml doc')" "table (tree_toml doc) = table (tree_toml doc')"
proof -
  show int: "int_entry (tree_toml doc) = int_entry (tree_toml doc')" by (simp add: fun_eq_iff int_entry_def tree_toml_def)
  show "opt_int_entry (tree_toml doc) = opt_int_entry (tree_toml doc')" by (simp only: fun_eq_iff opt_int_entry_def int simp_thms)
qed (simp_all add: fun_eq_iff str_entry_def hex_entry_def opt_hex_entry_def tree_toml_def table_def)

lemma tree_prints: "doc_print (tree_toml (doc_tree x)) x = Some ''format = 1''"
proof -
  have "encode_defs (tree_toml (doc_tree x)) x = encode_defs (tree_toml (Toml_Str [])) x"
    unfolding encode_defs_all tree_entries_same [of "doc_tree x" "Toml_Str []"] ..
  also have "\<dots> = Some (doc_tree x)" using tree_encodes [of "Toml_Str []" x] by (auto simp: doc_tree_def)
  finally show ?thesis by (simp add: doc_print_def) (simp add: tree_toml_def)
qed

theorem document_read_back_witness:
  "\<exists>x. doc_print (tree_toml (doc_tree x)) x = Some ''format = 1'' \<and> doc_parse (tree_toml (doc_tree x)) ''format = 1'' = Some x"
  using document_read_back [OF tree_toml_lawful tree_prints] tree_prints by blast

end
