(* ===== verification/Vmlinux.thy ===== *)
theory Vmlinux
  imports Dwarf_Ends Elf_Image Defs_Toml Btf_Ends
begin

text \<open>
  \<open>memflow-linux-defs/src/vmlinux.rs\<close>, \<open>load_vmlinux\<close>: the kernel image, its symbols and its types, from BTF or else from
  DWARF; and \<open>memflow-linux-defs/src/defs.rs\<close>, \<open>LinuxDefs::from_vmlinux\<close> and \<open>to_toml_string\<close>: the generation of a
  defs document. The fuel is that of the resolvers; \<open>None\<close> is no answer with it.
\<close>

section \<open>The image\<close>

definition REQUIRED_SYMBOLS :: "string list" where
  "REQUIRED_SYMBOLS = [''_text'', ''init_task'', ''linux_banner'']"

definition OPTIONAL_SYMBOLS :: "string list" where
  "OPTIONAL_SYMBOLS = [''init_top_pgt'', ''level4_kernel_pgt'', ''modules'', ''elf_format'', ''compat_elf_format'']"

record parsed_vmlinux =
  pv_raw :: raw_profile
  pv_banner :: bytes

fun required_symbols ::
    "elf_file \<Rightarrow> bytes \<Rightarrow> string list \<Rightarrow> (string \<Rightarrow> raw_symbol option option) \<Rightarrow> (string \<Rightarrow> raw_symbol option option) result" where
  "required_symbols elf banner [] symbols = Inr symbols"
| "required_symbols elf banner (name # names) symbols =
     rbind (ok_or (OsLayer Offset) (elf_symbol_named elf name)) (\<lambda>s.
     required_symbols elf banner names
       (symbols(name \<mapsto> Some \<lparr> rs_address = sy_value s,
          rs_constant_data = (if name = ''linux_banner'' then Some banner else None) \<rparr>)))"

fun optional_symbols ::
    "elf_file \<Rightarrow> string list \<Rightarrow> (string \<Rightarrow> raw_symbol option option) \<Rightarrow> (string \<Rightarrow> raw_symbol option option)" where
  "optional_symbols elf [] symbols = symbols"
| "optional_symbols elf (name # names) symbols =
     optional_symbols elf names
       (symbols(name \<mapsto> map_option (\<lambda>s. \<lparr> rs_address = sy_value s, rs_constant_data = None \<rparr>) (elf_symbol_named elf name)))"

text \<open>An error of the BTF loader gives way to DWARF, whatever the error; a panic does not.\<close>

definition vmlinux_types :: "nat \<Rightarrow> ('u, 'e, 'x) gimli \<Rightarrow> elf_file \<Rightarrow> raw_profile result option" where
  "vmlinux_types n g elf =
     (case section_data_optional elf ''.BTF'' of
        Inl e \<Rightarrow> Some (Inl e)
      | Inr None \<Rightarrow> load_dwarf_profile n g elf
      | Inr (Some btf_data) \<Rightarrow>
          (case load_btf_profile n btf_data of
             None \<Rightarrow> None
           | Some (Inr raw) \<Rightarrow> Some (Inr raw)
           | Some (Inl e) \<Rightarrow> if e = Panic then Some (Inl Panic) else load_dwarf_profile n g elf))"

definition load_vmlinux :: "nat \<Rightarrow> ('u, 'e, 'x) gimli \<Rightarrow> bytes \<Rightarrow> parsed_vmlinux result option" where
  "load_vmlinux n g data =
     (case elf_parse data of
        Inl e \<Rightarrow> Some (Inl e)
      | Inr elf \<Rightarrow>
          (case read_symbol_cstring elf ''linux_banner'' of
             Inl e \<Rightarrow> Some (Inl e)
           | Inr banner \<Rightarrow>
               map_option (\<lambda>r.
                   rbind r (\<lambda>raw.
                   rbind (required_symbols elf banner REQUIRED_SYMBOLS Map.empty) (\<lambda>symbols.
                   Inr \<lparr> pv_raw = raw\<lparr> rp_symbols := optional_symbols elf OPTIONAL_SYMBOLS symbols \<rparr>, pv_banner = banner \<rparr>)))
                 (vmlinux_types n g elf)))"

section \<open>The document\<close>

definition from_vmlinux ::
    "nat \<Rightarrow> ('u, 'e, 'x) gimli \<Rightarrow> (string \<Rightarrow> bytes option) \<Rightarrow> string \<Rightarrow> linux_defs result option" where
  "from_vmlinux n g read path =
     (case read path of
        None \<Rightarrow> Some (Inl (OsLayer UnableToReadFile))
      | Some data \<Rightarrow>
          if \<not> elf_magic data then Some (Inl (OsLayer NotSupported))
          else map_option (\<lambda>r. rbind r (\<lambda>parsed. from_raw (pv_raw parsed) (pv_banner parsed))) (load_vmlinux n g data))"

text \<open>The printer is that of the document (\<open>doc_print\<close>), or its error.\<close>

definition to_toml_string :: "(linux_defs \<Rightarrow> string option) \<Rightarrow> linux_defs \<Rightarrow> string result" where
  "to_toml_string print defs = ok_or (OsLayer Encoding) (print defs)"

section \<open>Properties\<close>

text \<open>The symbols of the profile of an image: those asked for, with their values, and the banner with its text.\<close>

definition image_symbols :: "elf_file \<Rightarrow> bytes \<Rightarrow> string \<Rightarrow> raw_symbol option option" where
  "image_symbols elf banner name =
     (if name \<in> set (REQUIRED_SYMBOLS @ OPTIONAL_SYMBOLS) then
        Some (map_option (\<lambda>s. \<lparr> rs_address = sy_value s,
          rs_constant_data = (if name = ''linux_banner'' then Some banner else None) \<rparr>) (elf_symbol_named elf name))
      else None)"

lemma required_symbols_Inr:
  "required_symbols elf banner names symbols = Inr symbols' \<longleftrightarrow>
     (\<forall>name \<in> set names. elf_symbol_named elf name \<noteq> None) \<and>
     symbols' = (\<lambda>name. if name \<in> set names then
        Some (map_option (\<lambda>s. \<lparr> rs_address = sy_value s,
          rs_constant_data = (if name = ''linux_banner'' then Some banner else None) \<rparr>) (elf_symbol_named elf name))
      else symbols name)"
proof (induction names arbitrary: symbols)
  case Nil
  then show ?case by auto
next
  case (Cons a names)
  then show ?case by (cases "elf_symbol_named elf a") (auto simp: fun_eq_iff)
qed

lemma required_symbols_Inl:
  "required_symbols elf banner names symbols = Inl e \<longleftrightarrow>
     (\<exists>name \<in> set names. elf_symbol_named elf name = None) \<and> e = OsLayer Offset"
  by (induction names arbitrary: symbols) (auto simp: rbind_def ok_or_def split: option.splits)

lemma optional_symbols_map:
  "optional_symbols elf names symbols = (\<lambda>name. if name \<in> set names then
     Some (map_option (\<lambda>s. \<lparr> rs_address = sy_value s, rs_constant_data = None \<rparr>) (elf_symbol_named elf name))
   else symbols name)"
  by (induction names arbitrary: symbols) (auto simp: fun_eq_iff)

lemma image_symbols_eq:
  assumes "required_symbols elf banner REQUIRED_SYMBOLS Map.empty = Inr symbols"
  shows "optional_symbols elf OPTIONAL_SYMBOLS symbols = image_symbols elf banner"
  using assms unfolding required_symbols_Inr optional_symbols_map image_symbols_def
  by (auto simp: fun_eq_iff REQUIRED_SYMBOLS_def OPTIONAL_SYMBOLS_def)

lemma load_vmlinux_Inr:
  "load_vmlinux n g data = Some (Inr p) \<longleftrightarrow>
     (\<exists>elf banner raw. elf_parse data = Inr elf \<and> read_symbol_cstring elf ''linux_banner'' = Inr banner \<and>
        vmlinux_types n g elf = Some (Inr raw) \<and> (\<forall>name \<in> set REQUIRED_SYMBOLS. elf_symbol_named elf name \<noteq> None) \<and>
        p = \<lparr> pv_raw = raw\<lparr> rp_symbols := image_symbols elf banner \<rparr>, pv_banner = banner \<rparr>)"
  (is "?l \<longleftrightarrow> ?r")
proof
  assume ?l
  then obtain elf banner raw symbols where "elf_parse data = Inr elf" "read_symbol_cstring elf ''linux_banner'' = Inr banner"
      "vmlinux_types n g elf = Some (Inr raw)" and s: "required_symbols elf banner REQUIRED_SYMBOLS Map.empty = Inr symbols"
      and "p = \<lparr> pv_raw = raw\<lparr> rp_symbols := optional_symbols elf OPTIONAL_SYMBOLS symbols \<rparr>, pv_banner = banner \<rparr>"
    by (auto simp: load_vmlinux_def rbind_Inr_iff split: sum.splits)
  then show ?r using conjunct1 [OF s [unfolded required_symbols_Inr]] by (simp add: image_symbols_eq [OF s])
next
  assume ?r
  then obtain elf banner raw where e: "elf_parse data = Inr elf" "read_symbol_cstring elf ''linux_banner'' = Inr banner"
      "vmlinux_types n g elf = Some (Inr raw)" and r: "\<forall>name \<in> set REQUIRED_SYMBOLS. elf_symbol_named elf name \<noteq> None"
      and p: "p = \<lparr> pv_raw = raw\<lparr> rp_symbols := image_symbols elf banner \<rparr>, pv_banner = banner \<rparr>" by blast
  from r obtain symbols where s: "required_symbols elf banner REQUIRED_SYMBOLS Map.empty = Inr symbols"
    unfolding required_symbols_Inr by blast
  show ?l by (simp add: load_vmlinux_def e s image_symbols_eq [OF s] p)
qed

text \<open>
  C18. A kernel image loads exactly when it is an ELF file with a readable banner, whose types load, and which
  defines the required symbols. The types are those of its BTF section where that loads, and of its DWARF where there
  is no such section or it does not load; the symbols of the profile are the required and the optional ones, with the
  values of the image, and only the banner carries its text.
\<close>

theorem load_vmlinux_exact:
  "load_vmlinux n g data = Some (Inr p) \<longleftrightarrow>
     (\<exists>elf banner raw. elf_parse data = Inr elf \<and> read_symbol_cstring elf ''linux_banner'' = Inr banner \<and>
        ((\<exists>btf. section_data_optional elf ''.BTF'' = Inr (Some btf) \<and> load_btf_profile n btf = Some (Inr raw)) \<or>
         (section_data_optional elf ''.BTF'' = Inr None \<or>
          (\<exists>btf e. section_data_optional elf ''.BTF'' = Inr (Some btf) \<and> load_btf_profile n btf = Some (Inl e) \<and> e \<noteq> Panic)) \<and>
         load_dwarf_profile n g elf = Some (Inr raw)) \<and>
        (\<forall>name \<in> set REQUIRED_SYMBOLS. elf_symbol_named elf name \<noteq> None) \<and>
        p = \<lparr> pv_raw = raw\<lparr> rp_symbols := image_symbols elf banner \<rparr>, pv_banner = banner \<rparr>)"
proof -
  have "vmlinux_types n g elf = Some (Inr raw) \<longleftrightarrow>
      (\<exists>btf. section_data_optional elf ''.BTF'' = Inr (Some btf) \<and> load_btf_profile n btf = Some (Inr raw)) \<or>
      (section_data_optional elf ''.BTF'' = Inr None \<or>
       (\<exists>btf e. section_data_optional elf ''.BTF'' = Inr (Some btf) \<and> load_btf_profile n btf = Some (Inl e) \<and> e \<noteq> Panic)) \<and>
      load_dwarf_profile n g elf = Some (Inr raw)" for elf raw
    by (auto simp: vmlinux_types_def split: sum.split option.split)
  then show ?thesis by (simp only: load_vmlinux_Inr)
qed


lemma from_vmlinux_Inr:
  "from_vmlinux n g read path = Some (Inr defs) \<longleftrightarrow>
     (\<exists>data p. read path = Some data \<and> elf_magic data \<and> load_vmlinux n g data = Some (Inr p) \<and>
        from_raw (pv_raw p) (pv_banner p) = Inr defs)"
  by (auto simp: from_vmlinux_def rbind_Inr_iff split: option.splits if_splits)

text \<open>The document of a loaded image has the addresses of its symbol table, and the banner of the image.\<close>

lemma from_raw_addresses:
  assumes "from_raw raw fallback = Inr defs" "rp_symbols raw = image_symbols elf banner"
  shows "\<forall>(s, get) \<in> set needed_symbols. map_option sy_value (elf_symbol_named elf s) = Some (get (defs_symbols defs))"
    and "\<forall>(s, get) \<in> set wanted_symbols. map_option sy_value (elf_symbol_named elf s) = get (defs_symbols defs)"
proof -
  have sym: "symbol_address raw s = map_option sy_value (elf_symbol_named elf s)"
    if "s \<in> set (REQUIRED_SYMBOLS @ OPTIONAL_SYMBOLS)" for s
    using that by (simp add: symbol_address_def symbol_of_def assms(2) image_symbols_def option.map_comp comp_def)
  have "symbol_address raw s = map_option sy_value (elf_symbol_named elf s)"
    if "s \<in> fst ` set needed_symbols \<union> fst ` set wanted_symbols" for s
    by (rule sym) (use that in \<open>auto simp: needed_symbols_def wanted_symbols_def REQUIRED_SYMBOLS_def OPTIONAL_SYMBOLS_def\<close>)
  then show "\<forall>(s, get) \<in> set needed_symbols. map_option sy_value (elf_symbol_named elf s) = Some (get (defs_symbols defs))"
    "\<forall>(s, get) \<in> set wanted_symbols. map_option sy_value (elf_symbol_named elf s) = get (defs_symbols defs)"
    using from_raw_Inr(1) [OF assms(1)] unfolding describes_def Let_def
    by (force simp: case_prod_beta)+
qed

lemma from_raw_banner:
  assumes "from_raw raw fallback = Inr defs" "rp_symbols raw = image_symbols elf banner"
  shows "md_banner (defs_metadata defs) = from_utf8_lossy (trim_trailing_nuls banner)"
proof -
  from assms(1) obtain s where "required_symbol raw ''linux_banner'' = Inr s"
      "md_banner (defs_metadata defs) =
        from_utf8_lossy (trim_trailing_nuls (case rs_constant_data s of Some b \<Rightarrow> b | None \<Rightarrow> fallback))"
    unfolding from_raw_def Let_def by (auto simp: rbind_Inr_iff)
  then show ?thesis
    by (auto simp: required_symbol_Inr symbol_of_def assms(2) image_symbols_def REQUIRED_SYMBOLS_def)
qed

lemma linux_profile_load_Inr:
  assumes "disk path = Some data" "\<not> elf_magic data" "from_utf8 data = Some text" "toml text = Some defs"
    "defs_format defs = LINUX_DEFS_FORMAT_VERSION"
  shows "linux_profile_load toml disk path = Inr (from_defs path defs)"
  using assms by (simp add: linux_profile_load_def linux_defs_load_def from_toml_str_def elf_magic_def result_simps)

text \<open>
  C11. A document generated from a kernel image, printed, stored as a file and loaded by the plugin gives a profile.
  The profile has the addresses of the symbol table of the image (an optional symbol where the image defines it), the
  banner of the image, and the offsets, array lengths and module states of the types of the image.
\<close>

theorem generate_then_load:
  assumes "from_vmlinux n g read vmlinux = Some (Inr defs)"
    and "to_toml_string (doc_print t) defs = Inr text" and "toml_lawful t"
    and "disk path = Some data" and "from_utf8 data = Some text" and "\<not> elf_magic data"
  shows "\<exists>p bytes elf banner raw. linux_profile_load (doc_parse t) disk path = Inr p \<and>
    read vmlinux = Some bytes \<and> elf_parse bytes = Inr elf \<and> read_symbol_cstring elf ''linux_banner'' = Inr banner \<and>
    vmlinux_types n g elf = Some (Inr raw) \<and>
    pr_banner p = from_utf8_lossy (trim_trailing_nuls banner) \<and>
    (\<forall>(s, get) \<in> set needed_symbols. map_option sy_value (elf_symbol_named elf s) = Some (get (defs_symbols defs))) \<and>
    (\<forall>(s, get) \<in> set wanted_symbols. map_option sy_value (elf_symbol_named elf s) = get (defs_symbols defs)) \<and>
    describes (raw\<lparr> rp_symbols := image_symbols elf banner \<rparr>) defs \<and> p = from_defs path defs"
proof -
  from assms(1) obtain bytes v where v: "read vmlinux = Some bytes" "load_vmlinux n g bytes = Some (Inr v)"
    and defs: "from_raw (pv_raw v) (pv_banner v) = Inr defs" unfolding from_vmlinux_Inr by blast
  from v(2) obtain elf banner raw where elf: "elf_parse bytes = Inr elf" "read_symbol_cstring elf ''linux_banner'' = Inr banner"
      "vmlinux_types n g elf = Some (Inr raw)"
    and raw: "pv_raw v = raw\<lparr> rp_symbols := image_symbols elf banner \<rparr>" unfolding load_vmlinux_Inr by auto
  note d = defs [unfolded raw]
  have syms: "rp_symbols (raw\<lparr> rp_symbols := image_symbols elf banner \<rparr>) = image_symbols elf banner" by simp
  have "doc_parse t text = Some defs"
    using doc_read_back [OF assms(3)] assms(2) by (auto simp: to_toml_string_def ok_or_def split: option.splits)
  with assms(4,6,5) have "linux_profile_load (doc_parse t) disk path = Inr (from_defs path defs)"
    using from_raw_Inr(2) [OF d] by (rule linux_profile_load_Inr)
  moreover have "pr_banner (from_defs path defs) = from_utf8_lossy (trim_trailing_nuls banner)"
    using from_raw_banner [OF d syms] by (simp add: from_defs_def Let_def)
  ultimately show ?thesis
    using v(1) elf from_raw_addresses [OF d syms] from_raw_Inr(1) [OF d] by blast
qed

section \<open>A sample generation\<close>

text \<open>The sample image with the types of the sample entries.\<close>

lemma image_banner:
  "read_symbol_cstring \<lparr> ef_data = sample_image, ef_sections = image_sections, ef_symbols = symbol_table image_strings image_entries \<rparr>
     ''linux_banner'' = Inr (to_bytes ''Linux version 6.1'')"
proof -
  have "until_nul (to_bytes ''Linux version 6.1'' @ [0]) = to_bytes ''Linux version 6.1''" by code_simp
  moreover have "sat_sub 18 0 = (18 :: u64)" by code_simp
  ultimately show ?thesis
    by (simp add: read_symbol_cstring_def elf_symbol_named_def image_symbol_table image_sections_eq nth_opt_def checked_sub_def
        image_slices)
qed

definition sample_image_file :: elf_file where
  "sample_image_file =
     \<lparr> ef_data = sample_image, ef_sections = image_sections, ef_symbols = symbol_table image_strings image_entries \<rparr>"

definition sample_raw :: raw_profile where
  "sample_raw =
     \<lparr> rp_symbols = image_symbols sample_image_file (to_bytes ''Linux version 6.1''),
       rp_user_types = map_of (zip REQUIRED_TYPES (map snd sample_layouts)),
       rp_enums = [''module_state'' \<mapsto> \<lparr> re_constants = sample_states \<rparr>] \<rparr>"

lemma has_field_direct:
  assumes "rp_user_types raw t = Some ut" "map_of (ut_fields ut) f = Some fld"
  shows "has_field raw (t, f)" "array_len (rf_ty fld) \<noteq> None \<Longrightarrow> has_array raw (t, f)"
proof -
  have "resolve_field raw t f = Inr \<lparr> rv_offset = rf_offset fld, rv_ty = rf_ty fld \<rparr>"
    by (simp add: resolve_field_def resolve_field_inner.simps assms)
  then show "has_field raw (t, f)" "array_len (rf_ty fld) \<noteq> None \<Longrightarrow> has_array raw (t, f)"
    by (auto simp: has_field_def has_array_def field_offset_def array_field_def)
qed

lemma map_of_member_fields:
  "map_of ms f = Some ty \<Longrightarrow> \<exists>fld. map_of (map (member_field ty_of) (enumerate k ms)) f = Some fld \<and> rf_ty fld = ty_of ty"
  "map_of ms f = None \<Longrightarrow> map_of (map (member_field ty_of) (enumerate k ms)) f = None"
  by (induction ms arbitrary: k) (auto simp: member_field_def split: if_splits)

lemma sample_user_types: "rp_user_types sample_raw t = map_option sample_layout (map_of sample_structs t)"
proof -
  have "map snd sample_layouts = map (sample_layout \<circ> snd) sample_structs"
    by (rule nth_equalityI) (simp_all add: sample_layouts_def)
  then have "zip REQUIRED_TYPES (map snd sample_layouts) = map (\<lambda>(n, ms). (n, sample_layout ms)) sample_structs"
    by (simp add: sample_required [symmetric] zip_map_map zip_same_conv_map split_def)
  then show ?thesis by (simp add: sample_raw_def map_of_map)
qed

lemma sample_field:
  assumes "map_of sample_structs t = Some ms" "map_of ms f = Some ty"
  shows "has_field sample_raw (t, f)" "ty = 2 \<Longrightarrow> has_array sample_raw (t, f)"
proof -
  obtain fld where "map_of (ut_fields (sample_layout ms)) f = Some fld" "rf_ty fld = sample_types ty"
    using map_of_member_fields(1) [OF assms(2), of sample_types 0] by (auto simp: sample_layout_def)
  then show "has_field sample_raw (t, f)" "ty = 2 \<Longrightarrow> has_array sample_raw (t, f)"
    using has_field_direct [of sample_raw t "sample_layout ms" f fld] assms(1)
    by (simp_all add: sample_user_types sample_types_def)
qed

definition sample_has :: "string \<times> string \<Rightarrow> usize \<Rightarrow> bool" where
  "sample_has = (\<lambda>(t, f) ty. (case map_of sample_structs t of None \<Rightarrow> False | Some ms \<Rightarrow> map_of ms f = Some ty))"

lemma sample_hasD: "sample_has p 1 \<Longrightarrow> has_field sample_raw p" "sample_has p 2 \<Longrightarrow> has_array sample_raw p"
  by (cases p; auto simp: sample_has_def split: option.splits dest: sample_field)+

lemma sample_no_mm_mt: "\<not> has_field sample_raw (''mm_struct'', ''mm_mt'')"
proof -
  obtain ms where ms: "map_of sample_structs ''mm_struct'' = Some ms" "map_of ms ''mm_mt'' = None"
    by (simp add: sample_structs_def)
  have "filter rf_anonymous (map snd (map (member_field ty_of) (enumerate k ms))) = []" for ty_of k
    by (induction ms arbitrary: k) (auto simp: member_field_def)
  then have "anonymous_fields (sample_layout ms) = []" by (simp add: anonymous_fields_def sample_layout_def)
  moreover have "map_of (ut_fields (sample_layout ms)) ''mm_mt'' = None"
    using map_of_member_fields(2) [OF ms(2)] by (simp add: sample_layout_def)
  ultimately have "resolve_field_inner sample_raw ''mm_struct'' ''mm_mt'' 0 0 = None"
    by (simp add: resolve_field_inner.simps sample_user_types ms(1))
  then show ?thesis by (simp add: has_field_def field_offset_def resolve_field_def)
qed

lemma sample_needed:
  "list_all (\<lambda>p. sample_has p 1) (map fst needed_fields)" "list_all (\<lambda>p. sample_has p 2) (map fst needed_arrays)"
  "sample_has (''task_struct'', ''state'') 1"
  by code_simp+

lemma sample_complete: "image_complete sample_raw"
proof -
  have "\<forall>s \<in> fst ` set needed_symbols. symbol_of sample_raw s \<noteq> None"
    by (simp add: needed_symbols_def symbol_of_def sample_raw_def image_symbols_def REQUIRED_SYMBOLS_def elf_symbol_named_def
        sample_image_file_def image_symbol_table)
  moreover have "\<forall>c \<in> fst ` set needed_states. \<exists>v. required_enum_constant sample_raw ''module_state'' c = Inr v"
    by (simp add: needed_states_def required_enum_constant_def sample_raw_def sample_states_def)
  ultimately show ?thesis
    using sample_needed sample_no_mm_mt sample_hasD unfolding image_complete_def list_all_iff by force
qed

text \<open>What the loader reads of the sample.\<close>

lemma sample_image_facts:
  "elf_parse sample_image = Inr sample_image_file"
  "read_symbol_cstring sample_image_file ''linux_banner'' = Inr (to_bytes ''Linux version 6.1'')"
  "section_data_optional sample_image_file ''.BTF'' = Inr None"
  "load_dwarf_profile 3 (die_gimli sample_dies) sample_image_file = Some (Inr (sample_raw\<lparr> rp_symbols := Map.empty \<rparr>))"
  "\<forall>name \<in> set REQUIRED_SYMBOLS. elf_symbol_named sample_image_file name \<noteq> None"
proof -
  show "elf_parse sample_image = Inr sample_image_file" by (simp add: sample_image_read sample_image_file_def)
  show "read_symbol_cstring sample_image_file ''linux_banner'' = Inr (to_bytes ''Linux version 6.1'')"
    unfolding sample_image_file_def by (rule image_banner)
  show "section_data_optional sample_image_file ''.BTF'' = Inr None"
    by (simp add: section_data_optional_def sample_image_file_def image_sections_eq)
  have "dwarf_data (die_gimli sample_dies) sample_image_file = Inr [(''.debug_info'', [])]"
    by (simp add: section_data_optional_def dwarf_data_def sample_image_file_def image_sections_eq)
  then show "load_dwarf_profile 3 (die_gimli sample_dies) sample_image_file = Some (Inr (sample_raw\<lparr> rp_symbols := Map.empty \<rparr>))"
    by (simp add: sample_loads sample_raw_def)
  show "\<forall>name \<in> set REQUIRED_SYMBOLS. elf_symbol_named sample_image_file name \<noteq> None"
    by (simp add: REQUIRED_SYMBOLS_def elf_symbol_named_def sample_image_file_def image_symbol_table)
qed

definition sample_parsed :: parsed_vmlinux where
  "sample_parsed = \<lparr> pv_raw = sample_raw, pv_banner = to_bytes ''Linux version 6.1'' \<rparr>"

lemma sample_parsed_eq:
  "sample_parsed = \<lparr> pv_raw = (sample_raw\<lparr> rp_symbols := Map.empty \<rparr>)\<lparr> rp_symbols :=
     image_symbols sample_image_file (to_bytes ''Linux version 6.1'') \<rparr>, pv_banner = to_bytes ''Linux version 6.1'' \<rparr>"
  by (simp add: sample_parsed_def sample_raw_def)

theorem load_vmlinux_exact_witness: "load_vmlinux 3 (die_gimli sample_dies) sample_image = Some (Inr sample_parsed)"
proof (rule load_vmlinux_exact [THEN iffD2], intro exI conjI)
  show "elf_parse sample_image = Inr sample_image_file" by (rule sample_image_facts)
  show "read_symbol_cstring sample_image_file ''linux_banner'' = Inr (to_bytes ''Linux version 6.1'')"
    by (rule sample_image_facts)
qed (use sample_image_facts(3-5) sample_parsed_eq in \<open>blast+\<close>)

lemma sample_generates:
  "\<exists>defs. from_vmlinux 3 (die_gimli sample_dies) (\<lambda>_. Some sample_image) ''vmlinux'' = Some (Inr defs)"
proof -
  have "vmlinux_types 3 (die_gimli sample_dies) sample_image_file = Some (Inr (sample_raw\<lparr> rp_symbols := Map.empty \<rparr>))"
    by (simp add: vmlinux_types_def sample_image_facts(3,4))
  then have "load_vmlinux 3 (die_gimli sample_dies) sample_image = Some (Inr sample_parsed)"
    using sample_image_facts(1,2,5) sample_parsed_eq unfolding load_vmlinux_Inr by blast
  moreover obtain defs where "from_raw sample_raw (to_bytes ''Linux version 6.1'') = Inr defs"
    using sample_complete from_raw_ok by blast
  moreover have "elf_magic sample_image"
    by (simp add: elf_magic_def sample_image_def elf_bytes_def elf_image_def elf_head_def)
  ultimately show ?thesis unfolding from_vmlinux_Inr by (auto simp: sample_parsed_def)
qed

theorem generate_then_load_witness:
  "\<exists>defs p. from_vmlinux 3 (die_gimli sample_dies) (\<lambda>_. Some sample_image) ''vmlinux'' = Some (Inr defs) \<and>
     linux_profile_load (doc_parse (tree_toml (doc_tree defs))) (\<lambda>_. Some (to_bytes ''format = 1'')) ''linux.toml'' = Inr p \<and>
     sym_text (pr_symbols p) = 0xffffffff81000000 \<and> pr_banner p = ''Linux version 6.1''"
proof -
  let ?text = "''format = 1''"
  obtain defs where defs: "from_vmlinux 3 (die_gimli sample_dies) (\<lambda>_. Some sample_image) ''vmlinux'' = Some (Inr defs)"
    using sample_generates by blast
  let ?t = "tree_toml (doc_tree defs)"
  have printed: "to_toml_string (doc_print ?t) defs = Inr ?text" by (simp add: to_toml_string_def tree_prints)
  have "utf8_valid (to_bytes ?text)" by (rule utf8_valid_ascii) code_simp
  then have utf8: "from_utf8 (to_bytes ?text) = Some ?text" by (simp add: from_utf8_def)
  have magic: "\<not> elf_magic (to_bytes ?text)" by code_simp
  from generate_then_load [where disk = "\<lambda>_. Some (to_bytes ?text)" and path = "''linux.toml''",
      OF defs printed tree_toml_lawful refl utf8 magic]
  obtain p elf banner where p: "linux_profile_load (doc_parse ?t) (\<lambda>_. Some (to_bytes ?text)) ''linux.toml'' = Inr p"
      "elf_parse sample_image = Inr elf" "read_symbol_cstring elf ''linux_banner'' = Inr banner"
      "pr_banner p = from_utf8_lossy (trim_trailing_nuls banner)" "p = from_defs ''linux.toml'' defs"
      "\<forall>(s, get) \<in> set needed_symbols. map_option sy_value (elf_symbol_named elf s) = Some (get (defs_symbols defs))"
    by blast
  have elf: "elf = sample_image_file" using p(2) by (simp add: sample_image_read sample_image_file_def)
  have "banner = to_bytes ''Linux version 6.1''" using p(3) image_banner by (simp add: elf sample_image_file_def)
  moreover have "trim_trailing_nuls (to_bytes ''Linux version 6.1'') = to_bytes ''Linux version 6.1''" by code_simp
  moreover have "from_utf8_lossy (to_bytes ''Linux version 6.1'') = ''Linux version 6.1''" by (rule ascii_text [OF refl]) code_simp
  ultimately have "pr_banner p = ''Linux version 6.1''" using p(4) by simp
  moreover have "sym_text (pr_symbols p) = 0xffffffff81000000"
    using p(5,6) by (simp add: from_defs_def Let_def needed_symbols_def elf sample_image_file_def image_symbol_table elf_symbol_named_def)
  ultimately show ?thesis using defs p(1) by blast
qed

end
