(* ===== verification/Spec2Isabelle.thy ===== *)
theory Spec2Isabelle
  imports Bootstrap Discovery Hint_Cache Kernel_Props Process_Queries Vma_Trees Version_Scan Paths Defs
    Raw_Profile Elf_Image Btf_Ends Dwarf_Ends Vmlinux
begin

text \<open>
  A model of memflow-linux: an operating-system layer that finds a Linux kernel in the physical memory of a
  machine and reports its processes, modules, memory areas and symbols.

  The program. A physical memory connector and a defs file enter the builder (\<open>kernel.rs\<close>, \<open>plugins.rs\<close>). The
  builder resolves which defs files to try and, for each, searches memory for the kernel the file describes: at a
  hint, at the candidates for the text base, by banner and by the idle task, and at last by the signatures of
  \<open>kernel/x64.rs\<close>. A kernel that passes every test becomes the kernel object, which walks the task list and the
  module list and hands out process objects (\<open>process.rs\<close>). Symbols come from the kallsyms tables (\<open>kallsyms.rs\<close>),
  paths and strings from \<open>util.rs\<close>, the hint of the last run from \<open>cache.rs\<close>. The defs file itself comes from the
  generator, the crate \<open>memflow-linux-defs\<close>, which reads the symbols and the types of a kernel image.

  The theories, each with its part of the source under \<open>src/memflow-linux/src\<close>:

  \<^item> Prelude, Rust_Text, Rust_Num, Physical: machine words with saturating and checked arithmetic, errors as
    \<open>error + 'a\<close> (a panic is the error Panic), partial reads, memory views as records of read functions, UTF-8,
    and the string and number operations of the standard library the code uses.
  \<^item> Signature (\<open>sig.rs\<close>): the parser of masked byte patterns and their comparison, nibble by nibble.
  \<^item> Kernel_Sigs and Kernel_Scan (\<open>kernel/x64.rs\<close>): the table of signatures and the chunked scan: it meets
    every occurrence of a signature, also across windows, and returns what the first decisive one in the order of the scan gives.
  \<^item> Kallsyms_Find (\<open>kernel/x64.rs\<close>): the walks over disassembled code that locate the symbol tables.
  \<^item> Kallsyms (\<open>kallsyms.rs\<close>): layout recovery, name expansion and iteration; a table laid out as the kernel build
    writes it is read back entry by entry.
  \<^item> Version_Scan (\<open>discover.rs\<close>): the banner scan, which reports exactly the versions in the image.
  \<^item> Defs (\<open>defs.rs\<close>, \<open>profile.rs\<close>): the defs document, its loader, and the rebasing of its symbols.
  \<^item> Hint_Cache (\<open>cache.rs\<close>): policy, fingerprints, the text of an entry and its round trip through a file.
  \<^item> Discovery (\<open>kernel.rs\<close>, from \<open>discover_kernel\<close> on): the searches backed by a defs file, what they validate, and
    that they find a kernel where one lies.
  \<^item> Paths (\<open>util.rs\<close>): bounded strings, command lines, and the dentry and mount walk as a refinement of the path.
  \<^item> Vma and Vma_Trees (\<open>process.rs\<close>): the areas of a process, from the maple tree or the list. Abstract trees
    (mtree) with their layout in memory state what the walk must return.
  \<^item> Modules (\<open>process.rs\<close>): grouping areas into modules, and the ranges reported for a part of the address space: what each
    area becomes part of, which gaps are bridged, and that merging is complete.
  \<^item> Process and Process_Queries (\<open>process.rs\<close>): the process object with its lazy caches as a transition system, and
    its queries: modules, the primary module with every fallback, mapped ranges and the environment.
  \<^item> Kernel_Os and Kernel_Props (\<open>kernel.rs\<close>, the implementation of \<open>Os\<close>): the kernel object, its process list,
    the description of a task, which is what memory holds at the offsets of the profile, the module list and symbols.
  \<^item> Bootstrap (\<open>kernel.rs\<close>, the builder, and \<open>plugins.rs\<close>): the candidates for defs files, the bootstrap loop, and the
    arguments of the plugin. The order of the candidates is that of the code, which differs from the documented one.

  The generator, under \<open>src/memflow-linux-defs/src\<close>:

  \<^item> Raw_Profile (\<open>defs.rs\<close>): the types extracted from an image, the resolution of fields through anonymous members, and the
    conversion to a defs document, which succeeds exactly on the images that have all the runtime needs and then
    gives every entry the value of the image.
  \<^item> Elf_File and Elf_Image (\<open>vmlinux.rs\<close>, \<open>ElfFile\<close>): sections and symbols; a written image is read back.
  \<^item> Btf_File (\<open>BtfFile\<close>): the type records of a BTF section; a written section is read back.
  \<^item> Resolver_State, Btf_Resolver, Btf_Ends (\<open>BtfResolver\<close>): the structures and enums made of the records, that they are those of
    the section, and when the resolver ends and succeeds.
  \<^item> Dwarf_File, Dwarf_Resolver, Dwarf_Ends (\<open>DwarfFile\<close>, \<open>DwarfResolver\<close>): the same from DWARF entries.
  \<^item> Defs_Toml (\<open>defs.rs\<close> of both crates): the document as a TOML table, written by the generator and read by the plugin.
  \<^item> Vmlinux (\<open>load_vmlinux\<close>, \<open>LinuxDefs::from_vmlinux\<close>): the choice between BTF and DWARF, the symbols, and the whole way
    from an image to the profile the plugin loads.

  Interfaces. What several components rely on is a locale, proved once and interpreted on the model: the overlapping
  windows of a scan (chunk_scan), the visitor of a tree of areas (vma_walk, area_visitor), a lazily filled field of an
  object (lazy_field, for the caches of a process and of the kernel), the tables of a resolver (table_laws, for BTF and
  for DWARF).

  Groups of lemmas. Soundness: whatever is reported is in memory as reported (kernels, areas, modules, process
  fields). Completeness: what lies in memory is reported (matches, banners, tasks, symbols, trees). Invariants: the
  caches agree with a fresh computation after any sequence of requests; every entry of the tables of a resolver is a type
  of the image. Round trips: hint files, addresses in hexadecimal, ELF images, BTF sections, and a generated document
  through the loader.

  Conventions. Addresses are 64-bit words and arithmetic wraps as in a release build; counts and list indices are
  natural numbers. A view is a snapshot of memory: the code never writes and a read has no effect. Strings are the
  bytes of their UTF-8 encoding. Logging is left out.

  Bounds. The walks carry the limits of the code as fuel: 64 levels of a maple tree below its root, 1048576 areas, 262144 tasks,
  16384 modules, and the depth limits of dentries and mounts. Where the code stops at such a limit the model does
  the same, so no property rests on unlimited fuel; the theorems of completeness name the limit as a hypothesis. Scans
  over memory terminate by a measure. The resolvers of the generator have no limit in the code: their fuel is that of the
  model, None is no answer with it, and for a BTF section whose chains of pointers, arrays and aliases do not come back
  enough fuel gives an answer, which more fuel does not change.

  Not from this repository, and parameters of the model: the memory connector, the page-table translation and its
  caches (memflow), the disassembler (iced-x86), the substring search (memchr), the values, the printer and
  the parser of TOML (toml, the record of that name), the DWARF reader (gimli, likewise), the host's files, environment and
  clock.

  Not modelled. The document structures and their loader in the generator, which are declared a second time there and are
  those of the plugin (Defs): one record stands for both. The raw memory and translation interfaces of the kernel and
  process objects, which only forward to memflow; the import, export and section lists of a process, which call its PE and
  ELF readers; examples and re-exports.
\<close>

end
